(* ===== verification/Engram_Prelude.thy ===== *)
theory Engram_Prelude
  imports Main "HOL-Library.Word" "HOL-Library.AList" "HOL-Library.Char_ord"
    "HOL-Library.List_Lexorder" "HOL-Library.Sublist" "HOL-Library.Multiset"
begin

text \<open>
  Shared vocabulary of the development: Go byte strings, times and durations, Go maps as
  association lists, buffered channels, and the generic lemmas the components use.

  A Go \<open>string\<close> and a Go \<open>[]byte\<close> are both sequences of bytes and are converted into each
  other without change, so both are the type \<open>bytes\<close> (a \<open>char\<close> is exactly one byte). The order
  of \<open>List_Lexorder\<close> over \<open>Char_ord\<close> is Go's bytewise string order, which is also the key order
  of the key-value store.
\<close>

named_theorems store_simps \<open>laws of the key-value store\<close>
named_theorems lock_simps \<open>rewrite rules of the lock tables\<close>
named_theorems route_simps \<open>rewrite rules of the subscription tables\<close>

type_synonym bytes = string

text \<open>A \<open>time.Time\<close> is its number of nanoseconds since the epoch, a \<open>time.Duration\<close> a number
  of nanoseconds.\<close>

type_synonym gotime = int
type_synonym duration = int

abbreviation (input) Nanosecond :: duration where "Nanosecond \<equiv> 1"
abbreviation Millisecond :: duration where "Millisecond \<equiv> 1000000"
abbreviation Second :: duration where "Second \<equiv> 1000000000"
abbreviation Minute :: duration where "Minute \<equiv> 60000000000"

text \<open>\<open>t.After(u)\<close> and \<open>t.Before(u)\<close>.\<close>

abbreviation (input) After :: "gotime \<Rightarrow> gotime \<Rightarrow> bool" where "After t u \<equiv> u < t"
abbreviation (input) Before :: "gotime \<Rightarrow> gotime \<Rightarrow> bool" where "Before t u \<equiv> t < u"

text \<open>A \<open>*timestamppb.Timestamp\<close> is a pointer; \<open>AsTime\<close> of the nil pointer is the epoch.\<close>

type_synonym timestamp = "gotime option"

definition AsTime :: "timestamp \<Rightarrow> gotime" where
  "AsTime t = (case t of None \<Rightarrow> 0 | Some x \<Rightarrow> x)"

lemma AsTime_simps [simp]: "AsTime (Some x) = x" "AsTime None = 0"
  by (simp_all add: AsTime_def)

text \<open>A \<open>map[string]string\<close> may be the nil map (\<open>None\<close>): reading it is allowed, assigning to an
  entry of it panics. The entries are an association list in some iteration order.\<close>

type_synonym 'v gomap = "(bytes \<times> 'v) list"
type_synonym nilmap = "bytes gomap option"

definition entries_of :: "nilmap \<Rightarrow> bytes gomap" where
  "entries_of m = (case m of None \<Rightarrow> [] | Some es \<Rightarrow> es)"

lemma entries_of_simps [simp]: "entries_of None = []" "entries_of (Some es) = es"
  by (simp_all add: entries_of_def)

declare update_conv' [simp] delete_conv' [simp] map_of_eq_Some_iff [simp del]

lemma distinct_keys_update [simp, intro]:
  "distinct (map fst m) \<Longrightarrow> distinct (map fst (AList.update k v m))"
  by (rule distinct_update)

lemma distinct_keys_delete [simp, intro]:
  "distinct (map fst m) \<Longrightarrow> distinct (map fst (AList.delete k m))"
  by (rule distinct_delete)

lemma length_update_le: "length (AList.update k v m) \<le> Suc (length m)"
  by (induction m) auto

lemma length_update_present: "k \<in> fst ` set m \<Longrightarrow> length (AList.update k v m) = length m"
  by (induction m) auto

lemma length_delete_lt: "k \<in> fst ` set m \<Longrightarrow> length (AList.delete k m) < length m"
proof (induction m)
  case (Cons e m)
  then show ?case
    using length_delete_le [of k m] by (cases "fst e = k"; cases e) (force simp: less_Suc_eq_le)+
qed simp

lemma map_of_map_keyed: "map_of (map (\<lambda>(k, v). (k, f k v)) m) k = map_option (f k) (map_of m k)"
  by (induction m) auto

text \<open>A map whose entries are stored under a key that is part of the value.\<close>

definition keyed :: "('v \<Rightarrow> bytes) \<Rightarrow> 'v gomap \<Rightarrow> bool" where
  "keyed key m \<longleftrightarrow> distinct (map fst m) \<and> (\<forall>k v. map_of m k = Some v \<longrightarrow> key v = k)"

lemma keyed_Nil [simp]: "keyed key []"
  by (simp add: keyed_def)

lemma keyed_lookup: "keyed key m \<Longrightarrow> map_of m k = Some v \<Longrightarrow> key v = k"
  by (simp add: keyed_def)

lemma keyed_distinct: "keyed key m \<Longrightarrow> distinct (map fst m)"
  by (simp add: keyed_def)

lemma keyed_update [intro]: "keyed key m \<Longrightarrow> key v = k \<Longrightarrow> keyed key (AList.update k v m)"
  unfolding keyed_def by (intro conjI) (blast, auto simp del: map_of_eq_Some_iff split: if_splits)

lemma keyed_delete [intro]: "keyed key m \<Longrightarrow> keyed key (AList.delete k m)"
  unfolding keyed_def by (intro conjI) (blast, auto simp del: map_of_eq_Some_iff split: if_splits)

subsection \<open>Outcomes and inputs of a call\<close>

text \<open>A Go call returns a value, returns an error, or panics. The clock readings of a call
  (\<open>time.Now()\<close>, numbered by the place in the code that reads it), the identifiers it generates
  (\<open>uuid.New().String()\<close>) and the choices of Go's random map iteration are inputs.\<close>

datatype ('e, 'a) outcome = Ret 'a | Err 'e | Panic

fun map_ret :: "('a \<Rightarrow> 'b) \<Rightarrow> ('e, 'a) outcome \<Rightarrow> ('e, 'b) outcome" where
  "map_ret f (Ret x) = Ret (f x)"
| "map_ret f (Err e) = Err e"
| "map_ret f Panic = Panic"

lemma map_ret_comp [simp]: "map_ret f (map_ret g x) = map_ret (\<lambda>y. f (g y)) x"
  by (cases x) auto

lemma map_ret_ident [simp]: "map_ret (\<lambda>y. y) x = x"
  by (cases x) auto

record env =
  env_now :: "nat \<Rightarrow> gotime"
  env_uuid :: bytes
  env_pick :: "nat \<Rightarrow> nat"

text \<open>A value of type \<open>interface{}\<close> as \<open>json.Unmarshal\<close> makes it. Of a number only the integer part is kept, which is all
  the program uses (\<open>int(limitParam)\<close>).\<close>

datatype json = JNull | JBool bool | JNum int | JStr bytes | JArr "json list" | JObj "(bytes \<times> json) list"

subsection \<open>Buffered channels\<close>

text \<open>
  A buffered Go channel: its queued values, its capacity, and whether it was closed. A send in a
  \<open>select\<close> with a \<open>default\<close> branch either queues the value, or takes the default branch when the
  buffer is full, or panics when the channel is closed.
\<close>

record 'a chan =
  ch_buf :: "'a list"
  ch_cap :: nat
  ch_closed :: bool

definition make_chan :: "nat \<Rightarrow> 'a chan" where
  "make_chan n = \<lparr>ch_buf = [], ch_cap = n, ch_closed = False\<rparr>"

datatype 'a send_result = Sent "'a chan" | Full | SendPanics

definition try_send :: "'a chan \<Rightarrow> 'a \<Rightarrow> 'a send_result" where
  "try_send c x =
     (if ch_closed c then SendPanics
      else if length (ch_buf c) < ch_cap c then Sent (c\<lparr>ch_buf := ch_buf c @ [x]\<rparr>)
      else Full)"

definition close_chan :: "'a chan \<Rightarrow> 'a chan" where
  "close_chan c = c\<lparr>ch_closed := True\<rparr>"

definition chan_ok :: "'a chan \<Rightarrow> bool" where
  "chan_ok c \<longleftrightarrow> length (ch_buf c) \<le> ch_cap c"

lemma make_chan_simps [simp]:
  "ch_buf (make_chan n) = []" "ch_cap (make_chan n) = n" "\<not> ch_closed (make_chan n)"
  "chan_ok (make_chan n)"
  by (simp_all add: make_chan_def chan_ok_def)

lemma close_chan_simps [simp]:
  "ch_buf (close_chan c) = ch_buf c" "ch_cap (close_chan c) = ch_cap c" "ch_closed (close_chan c)"
  by (simp_all add: close_chan_def)

lemma try_send_Sent_ok: "try_send c x = Sent c' \<Longrightarrow> chan_ok c'"
  by (auto simp: try_send_def chan_ok_def split: if_splits)

lemma try_send_open: "\<not> ch_closed c \<Longrightarrow> try_send c x \<noteq> SendPanics"
  by (simp add: try_send_def)

end
