(* ===== verification/Badger_Kv.thy ===== *)
theory Badger_Kv
  imports Engram_Prelude
begin

text \<open>
  The Badger key-value store (\<open>github.com/dgraph-io/badger\<close>) is not part of the repository. It
  is a parameter of every definition that calls it: a record of the calls the program makes.
  \<open>badger_ok\<close> states the documented behaviour the program relies on, over a ghost function that
  lists the items of a database in key order. Calls may fail; the contract constrains only
  what a successful call does, and that reads of a healthy database succeed.
\<close>

datatype badger_error = ErrKeyNotFound | ErrBadger bytes

record ('db, 'txn) badger =
  newTxn :: "'db \<Rightarrow> 'txn"
  txnSet :: "'txn \<Rightarrow> bytes \<Rightarrow> bytes \<Rightarrow> badger_error + 'txn"
  txnDelete :: "'txn \<Rightarrow> bytes \<Rightarrow> badger_error + 'txn"
  txnCommit :: "'db \<Rightarrow> 'txn \<Rightarrow> badger_error + 'db"
  viewGet :: "'db \<Rightarrow> bytes \<Rightarrow> badger_error + bytes"
  viewSeek :: "'db \<Rightarrow> bool \<Rightarrow> bytes \<Rightarrow> (bytes \<times> (badger_error + bytes)) list"

text \<open>\<open>viewSeek db reverse start\<close> is the sequence of items an iterator yields after
  \<open>it.Seek(start)\<close>: the key of each, and what \<open>it.Item().Value\<close> gives.

  The contract, with ghost functions: \<open>items db\<close> are the items of the database and \<open>writes t\<close> the
  pending writes of a transaction, newest first (\<open>None\<close> for a deletion).\<close>

definition apply_writes :: "(bytes \<times> bytes option) list \<Rightarrow> (bytes \<rightharpoonup> bytes) \<Rightarrow> (bytes \<rightharpoonup> bytes)" where
  "apply_writes ws m = (\<lambda>k. case map_of ws k of None \<Rightarrow> m k | Some v \<Rightarrow> v)"

definition readable :: "(bytes \<times> bytes) list \<Rightarrow> (bytes \<times> (badger_error + bytes)) list" where
  "readable = map (\<lambda>(k, v). (k, Inr v))"

definition badger_ok ::
  "('db, 'txn) badger \<Rightarrow> ('db \<Rightarrow> (bytes \<times> bytes) list) \<Rightarrow>
   ('txn \<Rightarrow> (bytes \<times> bytes option) list) \<Rightarrow> bool" where
  "badger_ok B items writes \<longleftrightarrow>
     (\<forall>db. sorted_wrt (<) (map fst (items db))) \<and>
     (\<forall>db. writes (newTxn B db) = []) \<and>
     (\<forall>t k v t'. txnSet B t k v = Inr t' \<longrightarrow> writes t' = (k, Some v) # writes t) \<and>
     (\<forall>t k t'. txnDelete B t k = Inr t' \<longrightarrow> writes t' = (k, None) # writes t) \<and>
     (\<forall>db t db'. txnCommit B db t = Inr db' \<longrightarrow>
        map_of (items db') = apply_writes (writes t) (map_of (items db))) \<and>
     (\<forall>db k. viewGet B db k =
        (case map_of (items db) k of None \<Rightarrow> Inl ErrKeyNotFound | Some v \<Rightarrow> Inr v)) \<and>
     (\<forall>db s. viewSeek B db False s = readable (filter (\<lambda>(k, v). s \<le> k) (items db))) \<and>
     (\<forall>db s. viewSeek B db True s = readable (rev (filter (\<lambda>(k, v). k \<le> s) (items db))))"

lemma apply_writes_simps [simp]:
  "apply_writes [] m = m"
  "apply_writes ((k, Some v) # ws) m = (apply_writes ws m)(k \<mapsto> v)"
  "apply_writes ((k, None) # ws) m = (apply_writes ws m)(k := None)"
  by (auto simp: apply_writes_def fun_eq_iff)

lemma badger_ok_sorted: "badger_ok B items writes \<Longrightarrow> sorted_wrt (<) (map fst (items db))"
  by (simp add: badger_ok_def)

lemma badger_ok_newTxn [store_simps]:
  "badger_ok B items writes \<Longrightarrow> writes (newTxn B db) = []"
  by (simp add: badger_ok_def)

lemma badger_ok_set [store_simps]:
  "badger_ok B items writes \<Longrightarrow> txnSet B t k v = Inr t' \<Longrightarrow> writes t' = (k, Some v) # writes t"
  by (auto simp: badger_ok_def)

lemma badger_ok_delete [store_simps]:
  "badger_ok B items writes \<Longrightarrow> txnDelete B t k = Inr t' \<Longrightarrow> writes t' = (k, None) # writes t"
  by (auto simp: badger_ok_def)

lemma badger_ok_commit [store_simps]:
  "badger_ok B items writes \<Longrightarrow> txnCommit B db t = Inr db' \<Longrightarrow>
   map_of (items db') = apply_writes (writes t) (map_of (items db))"
  by (auto simp: badger_ok_def)

lemma badger_ok_get [store_simps]:
  "badger_ok B items writes \<Longrightarrow>
   viewGet B db k = (case map_of (items db) k of None \<Rightarrow> Inl ErrKeyNotFound | Some v \<Rightarrow> Inr v)"
  by (auto simp: badger_ok_def)

lemma badger_ok_seek [store_simps]:
  "badger_ok B items writes \<Longrightarrow> viewSeek B db False s = readable (filter (\<lambda>(k, v). s \<le> k) (items db))"
  "badger_ok B items writes \<Longrightarrow> viewSeek B db True s = readable (rev (filter (\<lambda>(k, v). k \<le> s) (items db)))"
  by (auto simp: badger_ok_def)

text \<open>No transaction call fails (no oversized transaction, no conflict, the disk writable); reads are
  covered by \<open>badger_ok\<close>.\<close>

definition badger_total :: "('db, 'txn) badger \<Rightarrow> bool" where
  "badger_total B \<longleftrightarrow> (\<forall>t k v. \<exists>t'. txnSet B t k v = Inr t') \<and> (\<forall>t k. \<exists>t'. txnDelete B t k = Inr t') \<and>
     (\<forall>db t. \<exists>db'. txnCommit B db t = Inr db')"

lemma badger_total_Inl [simp]:
  "badger_total B \<Longrightarrow> txnSet B t k v \<noteq> Inl e" "badger_total B \<Longrightarrow> txnDelete B t k \<noteq> Inl e"
  "badger_total B \<Longrightarrow> txnCommit B db t \<noteq> Inl e"
  unfolding badger_total_def by (metis Inl_Inr_False)+

subsection \<open>Keys with a common prefix\<close>

lemma append_less_append [simp]: "(p @ a < p @ b) = (a < (b :: bytes))"
  by (induction p) auto

lemma append_le_append [simp]: "(p @ a \<le> p @ b) = (a \<le> (b :: bytes))"
  by (induction p) auto

lemma prefix_le: "prefix p k \<Longrightarrow> p \<le> (k :: bytes)"
  using append_le_append [of p "[]"] by (auto simp: prefix_def simp del: append_le_append)

text \<open>The keys with a given prefix are an interval.\<close>

lemma prefix_between:
  assumes "p \<le> k" and "k \<le> p @ x"
  shows "prefix p (k :: bytes)"
  using assms
proof (induction p arbitrary: k)
  case (Cons c p)
  then show ?case by (cases k) auto
qed simp

lemma readable_simps [simp]:
  "readable [] = []" "readable ((k, v) # xs) = (k, Inr v) # readable xs"
  "readable (xs @ ys) = readable xs @ readable ys"
  by (simp_all add: readable_def)

text \<open>The loop \<open>for it.Seek(prefix); it.ValidForPrefix(prefix); it.Next()\<close>: the keys it visits.\<close>

definition scan_keys :: "('db, 'txn) badger \<Rightarrow> 'db \<Rightarrow> bytes \<Rightarrow> bytes list" where
  "scan_keys B db pfx = takeWhile (prefix pfx) (map fst (viewSeek B db False pfx))"

text \<open>\<open>_, err := txn.Get(key)\<close>, used as a test: \<open>err == nil\<close>.\<close>

definition has_key :: "('db, 'txn) badger \<Rightarrow> 'db \<Rightarrow> bytes \<Rightarrow> bool" where
  "has_key B db key = (case viewGet B db key of Inl e \<Rightarrow> False | Inr v \<Rightarrow> True)"

lemma takeWhile_leading:
  "sorted_wrt (\<lambda>x y. P y \<longrightarrow> P x) xs \<Longrightarrow> takeWhile P xs = filter P xs"
proof (induction xs)
  case (Cons x xs)
  then show ?case by (cases "P x") (auto simp: filter_empty_conv)
qed simp

lemma scan_keys_eq:
  assumes "badger_ok B items writes"
  shows "scan_keys B db pfx = filter (prefix pfx) (map fst (items db))"
proof -
  let ?ks = "filter ((\<le>) pfx) (map fst (items db))"
  have "map fst (viewSeek B db False pfx) = ?ks"
    by (simp add: badger_ok_seek [OF assms] readable_def filter_map o_def split_def)
  moreover have "sorted_wrt (\<lambda>x y. prefix pfx y \<longrightarrow> prefix pfx x) ?ks"
  proof (rule sorted_wrt_mono_rel [OF _ sorted_wrt_filter [OF badger_ok_sorted [OF assms]]])
    fix x y assume "x \<in> set ?ks" "x < y"
    then show "prefix pfx y \<longrightarrow> prefix pfx x"
      using prefix_between [of pfx x] less_imp_le [of x] by (auto simp: prefix_def)
  qed
  moreover have "filter (prefix pfx) ?ks = filter (prefix pfx) (map fst (items db))"
    using prefix_le by (auto intro!: filter_cong)
  ultimately show ?thesis by (simp add: scan_keys_def takeWhile_leading)
qed

lemma has_key_eq:
  "badger_ok B items writes \<Longrightarrow> has_key B db key \<longleftrightarrow> key \<in> fst ` set (items db)"
  using map_of_eq_None_iff [of "items db" key] by (auto simp: has_key_def badger_ok_get split: option.splits)

subsection \<open>A reference store\<close>

text \<open>A store that satisfies the contract: a database is its sorted list of items, a
  transaction the list of its pending writes. It shows that the contract can hold.\<close>

fun ref_put :: "bytes \<Rightarrow> bytes \<Rightarrow> (bytes \<times> bytes) list \<Rightarrow> (bytes \<times> bytes) list" where
  "ref_put k v [] = [(k, v)]"
| "ref_put k v ((l, w) # db) =
     (if k < l then (k, v) # (l, w) # db else if k = l then (k, v) # db else (l, w) # ref_put k v db)"

fun ref_apply :: "(bytes \<times> bytes option) list \<Rightarrow> (bytes \<times> bytes) list \<Rightarrow> (bytes \<times> bytes) list" where
  "ref_apply [] db = db"
| "ref_apply ((k, Some v) # ws) db = ref_put k v (ref_apply ws db)"
| "ref_apply ((k, None) # ws) db = filter (\<lambda>(l, w). l \<noteq> k) (ref_apply ws db)"

typedef ref_db = "{db :: (bytes \<times> bytes) list. sorted_wrt (<) (map fst db)}"
  by (rule exI [of _ "[]"]) simp

setup_lifting type_definition_ref_db

lemma ref_put_keys: "set (map fst (ref_put k v db)) = insert k (set (map fst db))"
  by (induction k v db rule: ref_put.induct) auto

lemma sorted_ref_put:
  "sorted_wrt (<) (map fst db) \<Longrightarrow> sorted_wrt (<) (map fst (ref_put k v db))"
proof (induction k v db rule: ref_put.induct)
  case (2 k v l w db)
  have keys: "fst ` set (ref_put k v db) = insert k (fst ` set db)"
    using ref_put_keys [of k v db] by simp
  from 2 show ?case
    by (auto simp: keys simp flip: image_iff)
qed simp

lemma sorted_filter_keys:
  "sorted_wrt (<) (map fst db) \<Longrightarrow> sorted_wrt (<) (map fst (filter P db))"
  by (induction db) auto

lemma sorted_ref_apply:
  "sorted_wrt (<) (map fst db) \<Longrightarrow> sorted_wrt (<) (map fst (ref_apply ws db))"
  by (induction ws db rule: ref_apply.induct) (auto intro: sorted_ref_put sorted_filter_keys)

lemma map_of_ref_put:
  "sorted_wrt (<) (map fst db) \<Longrightarrow> map_of (ref_put k v db) = (map_of db)(k \<mapsto> v)"
  by (induction k v db rule: ref_put.induct) (auto simp: fun_eq_iff)

lemma map_of_filter_neq: "map_of (filter (\<lambda>(l, w). l \<noteq> k) db) = (map_of db)(k := None)"
  by (induction db) (auto simp: fun_eq_iff)

lemma map_of_ref_apply:
  "sorted_wrt (<) (map fst db) \<Longrightarrow> map_of (ref_apply ws db) = apply_writes ws (map_of db)"
  by (induction ws db rule: ref_apply.induct)
    (auto simp: map_of_ref_put sorted_ref_apply map_of_filter_neq)

lift_definition ref_items :: "ref_db \<Rightarrow> (bytes \<times> bytes) list" is "\<lambda>db. db" .

lift_definition ref_empty :: ref_db is "[]" by simp

lift_definition ref_commit :: "(bytes \<times> bytes option) list \<Rightarrow> ref_db \<Rightarrow> ref_db" is ref_apply
  by (rule sorted_ref_apply)

definition ref_badger :: "(ref_db, (bytes \<times> bytes option) list) badger" where
  "ref_badger =
     \<lparr>newTxn = (\<lambda>db. []),
      txnSet = (\<lambda>t k v. Inr ((k, Some v) # t)),
      txnDelete = (\<lambda>t k. Inr ((k, None) # t)),
      txnCommit = (\<lambda>db t. Inr (ref_commit t db)),
      viewGet = (\<lambda>db k. case map_of (ref_items db) k of None \<Rightarrow> Inl ErrKeyNotFound | Some v \<Rightarrow> Inr v),
      viewSeek = (\<lambda>db r s. readable (if r then rev (filter (\<lambda>(k, v). k \<le> s) (ref_items db))
                                     else filter (\<lambda>(k, v). s \<le> k) (ref_items db)))\<rparr>"

lemma ref_items_empty [simp]: "ref_items ref_empty = []"
  by transfer simp

lemma ref_items_commit [simp]: "ref_items (ref_commit ws db) = ref_apply ws (ref_items db)"
  by transfer simp

lemma sorted_ref_items: "sorted_wrt (<) (map fst (ref_items db))"
  by transfer simp

lemma ref_badger_ok: "badger_ok ref_badger ref_items (\<lambda>t. t)"
  unfolding badger_ok_def ref_badger_def
  by (simp add: sorted_ref_items map_of_ref_apply)

lemma ref_badger_simps [simp]:
  "newTxn ref_badger db = []"
  "txnSet ref_badger t k v = Inr ((k, Some v) # t)"
  "txnDelete ref_badger t k = Inr ((k, None) # t)"
  "txnCommit ref_badger db t = Inr (ref_commit t db)"
  by (simp_all add: ref_badger_def)

lemma ref_badger_total [simp]: "badger_total ref_badger"
  by (simp add: badger_total_def)

end
