(* ===== verification/Proto_Types.thy ===== *)
theory Proto_Types
  imports Engram_Prelude
begin

text \<open>
  The data types of \<open>pkg/proto/types.go\<close>. An \<open>int32\<close> is a \<open>32 word\<close> read as a signed number; a
  pointer to a timestamp is a \<open>timestamp\<close>; a \<open>map[string]string\<close> is a \<open>nilmap\<close>; a slice is a list
  (a nil slice and an empty slice behave alike in every operation used here).
\<close>

type_synonym WorkUnitType = "32 word"

definition WorkUnitType_UNKNOWN :: WorkUnitType where "WorkUnitType_UNKNOWN = 0"
definition WorkUnitType_MESSAGE :: WorkUnitType where "WorkUnitType_MESSAGE = 1"
definition WorkUnitType_SYSTEM :: WorkUnitType where "WorkUnitType_SYSTEM = 8"

type_synonym RelationshipType = "32 word"

record Relationship =
  rel_TargetId :: bytes
  rel_Type :: RelationshipType
  rel_Meta :: nilmap

record WorkUnit =
  wu_Id :: bytes
  wu_ContextId :: bytes
  wu_AgentId :: bytes
  wu_Type :: WorkUnitType
  wu_Ts :: timestamp
  wu_Meta :: nilmap
  wu_Payload :: "bytes option"
  wu_Relationships :: "Relationship list"

record Context =
  ctx_Id :: bytes
  ctx_DisplayName :: bytes
  ctx_AgentIds :: "bytes list"
  ctx_PinnedUnits :: "bytes list"
  ctx_Meta :: nilmap
  ctx_CreatedAt :: timestamp
  ctx_UpdatedAt :: timestamp

record LockHandle =
  lk_ResourcePath :: bytes
  lk_HolderAgent :: bytes
  lk_ExpiresAt :: timestamp
  lk_LockId :: bytes

record CreateWorkUnitRequest =
  cwr_ContextId :: bytes
  cwr_AgentId :: bytes
  cwr_Type :: WorkUnitType
  cwr_Meta :: nilmap
  cwr_Payload :: "bytes option"
  cwr_Relationships :: "Relationship list"

record UpdateContextRequest =
  ucr_Id :: bytes
  ucr_DisplayName :: bytes
  ucr_AddAgents :: "bytes list"
  ucr_RemoveAgents :: "bytes list"
  ucr_PinUnits :: "bytes list"
  ucr_UnpinUnits :: "bytes list"
  ucr_Meta :: nilmap

record AcquireLockRequest =
  alr_ResourcePath :: bytes
  alr_AgentId :: bytes
  alr_TtlSeconds :: "32 word"

record ReleaseLockRequest =
  rlr_ResourcePath :: bytes
  rlr_AgentId :: bytes
  rlr_LockId :: bytes

text \<open>The instant a lock expires, and whether a lock still excludes others at an instant
  (\<open>lock.ExpiresAt.AsTime().After(now)\<close>).\<close>

abbreviation expiry :: "LockHandle \<Rightarrow> gotime" where
  "expiry l \<equiv> AsTime (lk_ExpiresAt l)"

abbreviation live :: "gotime \<Rightarrow> LockHandle \<Rightarrow> bool" where
  "live now l \<equiv> now < expiry l"

text \<open>\<open>time.Duration(req.TtlSeconds) * time.Second\<close>: an \<open>int32\<close> number of seconds times \<open>10 ^ 9\<close>
  is within the range of \<open>int64\<close>, so the product does not wrap.\<close>

definition ttl_duration :: "32 word \<Rightarrow> duration" where
  "ttl_duration s = sint s * Second"

lemma ttl_duration_in_int64:
  "- (2 ^ 63) \<le> ttl_duration s \<and> ttl_duration s < 2 ^ 63"
proof -
  have "- (2 ^ 31) \<le> sint s" "sint s < 2 ^ 31"
    using sint_ge [of s] sint_lt [of s] by simp_all
  then show ?thesis by (simp add: ttl_duration_def)
qed

text \<open>\<open>int32(ttl.Seconds())\<close>: whole seconds, truncated towards zero, as an \<open>int32\<close>.\<close>

definition seconds32 :: "duration \<Rightarrow> 32 word" where
  "seconds32 d = word_of_int (sgn d * (\<bar>d\<bar> div Second))"

lemma seconds32_of_seconds:
  assumes "- (2 ^ 31) \<le> n" and "n < 2 ^ 31"
  shows "ttl_duration (seconds32 (n * Second)) = n * Second"
proof -
  have "sgn (n * Second) * (\<bar>n * Second\<bar> div Second) = n"
    by (simp add: abs_mult sgn_mult mult_sgn_abs)
  moreover have "sint (word_of_int n :: 32 word) = n"
    using assms by (simp add: sint_sbintrunc' signed_take_bit_int_eq_self)
  ultimately show ?thesis
    by (simp add: seconds32_def ttl_duration_def)
qed

end
