(* ===== verification/Go_Json.thy ===== *)
theory Go_Json
  imports Proto_Types "HOL-Library.Monad_Syntax"
begin

text \<open>
  \<open>encoding/json\<close> as the storage uses it. The text of the JSON documents plays no role in the
  program (the documents are stored, framed and read back, never inspected), so the encoder and
  the decoder are arguments of the definitions that call them. What a document keeps of a value is
  fixed by the struct tags of \<open>pkg/proto/types.go\<close>: a map or byte slice marked \<open>omitempty\<close> that is
  empty is not written, so it is read back as nil. The functions \<open>json_norm_*\<close> are that
  normalisation, and \<open>json_rt_*\<close> says that a value is written and read back up to it.
\<close>

record json_codec =
  MarshalWorkUnit :: "WorkUnit \<Rightarrow> bytes option"
  UnmarshalWorkUnit :: "bytes \<Rightarrow> WorkUnit option"
  MarshalContext :: "Context \<Rightarrow> bytes option"
  UnmarshalContext :: "bytes \<Rightarrow> Context option"
  MarshalLock :: "LockHandle \<Rightarrow> bytes option"
  UnmarshalLock :: "bytes \<Rightarrow> LockHandle option"

text \<open>\<open>omitempty\<close> on a map and on a byte slice.\<close>

definition omit_map :: "nilmap \<Rightarrow> nilmap" where
  "omit_map m = (if entries_of m = [] then None else m)"

definition omit_bytes :: "bytes option \<Rightarrow> bytes option" where
  "omit_bytes b = (if b = Some [] then None else b)"

definition json_norm_rel :: "Relationship \<Rightarrow> Relationship" where
  "json_norm_rel r = r\<lparr>rel_Meta := omit_map (rel_Meta r)\<rparr>"

definition json_norm_wu :: "WorkUnit \<Rightarrow> WorkUnit" where
  "json_norm_wu w =
     w\<lparr>wu_Meta := omit_map (wu_Meta w), wu_Payload := omit_bytes (wu_Payload w),
       wu_Relationships := map json_norm_rel (wu_Relationships w)\<rparr>"

definition json_norm_ctx :: "Context \<Rightarrow> Context" where
  "json_norm_ctx c = c\<lparr>ctx_Meta := omit_map (ctx_Meta c)\<rparr>"

definition json_rt_wu :: "json_codec \<Rightarrow> WorkUnit \<Rightarrow> bool" where
  "json_rt_wu J w \<longleftrightarrow> map_option (UnmarshalWorkUnit J) (MarshalWorkUnit J w) = Some (Some (json_norm_wu w))"

definition json_rt_ctx :: "json_codec \<Rightarrow> Context \<Rightarrow> bool" where
  "json_rt_ctx J c \<longleftrightarrow> map_option (UnmarshalContext J) (MarshalContext J c) = Some (Some (json_norm_ctx c))"

definition json_rt_lock :: "json_codec \<Rightarrow> LockHandle \<Rightarrow> bool" where
  "json_rt_lock J l \<longleftrightarrow> map_option (UnmarshalLock J) (MarshalLock J l) = Some (Some l)"

lemmas json_rt_defs = json_rt_wu_def json_rt_ctx_def json_rt_lock_def

lemma json_norm_wu_simps [simp]:
  "wu_Id (json_norm_wu w) = wu_Id w" "wu_ContextId (json_norm_wu w) = wu_ContextId w"
  "wu_Ts (json_norm_wu w) = wu_Ts w"
  by (simp_all add: json_norm_wu_def)

lemma json_norm_ctx_simps [simp]:
  "ctx_Id (json_norm_ctx c) = ctx_Id c" "ctx_AgentIds (json_norm_ctx c) = ctx_AgentIds c"
  "ctx_PinnedUnits (json_norm_ctx c) = ctx_PinnedUnits c"
  by (simp_all add: json_norm_ctx_def)

subsection \<open>A reference codec\<close>

text \<open>A self-delimiting encoding of the three structs that satisfies the round trip for every
  value: a number in unary, a string and a list behind their lengths.\<close>

type_synonym 'a decoder = "bytes \<Rightarrow> ('a \<times> bytes) option"

definition enc_nat :: "nat \<Rightarrow> bytes" where
  "enc_nat n = replicate n (CHR ''1'') @ [CHR ''0'']"

fun dec_nat :: "nat decoder" where
  "dec_nat [] = None"
| "dec_nat (c # cs) =
     (if c = CHR ''1'' then map_option (\<lambda>(n, r). (Suc n, r)) (dec_nat cs) else Some (0, cs))"

definition enc_int :: "int \<Rightarrow> bytes" where
  "enc_int i = enc_nat (if i < 0 then 1 else 0) @ enc_nat (nat \<bar>i\<bar>)"

definition dec_int :: "int decoder" where
  "dec_int b = do { (s, r) \<leftarrow> dec_nat b; (n, r) \<leftarrow> dec_nat r; Some (if s = 1 then - int n else int n, r) }"

definition enc_str :: "bytes \<Rightarrow> bytes" where
  "enc_str s = enc_nat (length s) @ s"

definition dec_str :: "bytes decoder" where
  "dec_str b = do { (n, r) \<leftarrow> dec_nat b; Some (take n r, drop n r) }"

definition enc_list :: "('a \<Rightarrow> bytes) \<Rightarrow> 'a list \<Rightarrow> bytes" where
  "enc_list e xs = enc_nat (length xs) @ concat (map e xs)"

fun dec_many :: "'a decoder \<Rightarrow> nat \<Rightarrow> 'a list decoder" where
  "dec_many d 0 b = Some ([], b)"
| "dec_many d (Suc n) b = do { (x, r) \<leftarrow> d b; (xs, r) \<leftarrow> dec_many d n r; Some (x # xs, r) }"

definition dec_list :: "'a decoder \<Rightarrow> 'a list decoder" where
  "dec_list d b = do { (n, r) \<leftarrow> dec_nat b; dec_many d n r }"

definition enc_opt :: "('a \<Rightarrow> bytes) \<Rightarrow> 'a option \<Rightarrow> bytes" where
  "enc_opt e x = enc_list e (case x of None \<Rightarrow> [] | Some y \<Rightarrow> [y])"

definition dec_opt :: "'a decoder \<Rightarrow> 'a option decoder" where
  "dec_opt d b = do { (xs, r) \<leftarrow> dec_list d b; Some (case xs of [] \<Rightarrow> None | y # _ \<Rightarrow> Some y, r) }"

definition enc_pair :: "bytes \<times> bytes \<Rightarrow> bytes" where
  "enc_pair p = enc_str (fst p) @ enc_str (snd p)"

definition dec_pair :: "(bytes \<times> bytes) decoder" where
  "dec_pair b = do { (x, r) \<leftarrow> dec_str b; (y, r) \<leftarrow> dec_str r; Some ((x, y), r) }"

lemma dec_nat_enc [simp]: "dec_nat (enc_nat n @ r) = Some (n, r)"
  by (induction n) (auto simp: enc_nat_def)

lemma dec_int_enc [simp]: "dec_int (enc_int i @ r) = Some (i, r)"
  by (simp add: enc_int_def dec_int_def)

lemma dec_str_enc [simp]: "dec_str (enc_str s @ r) = Some (s, r)"
  by (simp add: enc_str_def dec_str_def)

lemma dec_many_enc:
  "(\<And>x r. d (e x @ r) = Some (x, r)) \<Longrightarrow> dec_many d (length xs) (concat (map e xs) @ r) = Some (xs, r)"
  by (induction xs arbitrary: r) auto

lemma dec_list_enc:
  "(\<And>x r. d (e x @ r) = Some (x, r)) \<Longrightarrow> dec_list d (enc_list e xs @ r) = Some (xs, r)"
  by (simp add: dec_list_def enc_list_def dec_many_enc)

lemma dec_opt_enc:
  "(\<And>x r. d (e x @ r) = Some (x, r)) \<Longrightarrow> dec_opt d (enc_opt e x @ r) = Some (x, r)"
  by (cases x) (simp_all add: dec_opt_def enc_opt_def dec_list_enc)

lemma dec_pair_enc [simp]: "dec_pair (enc_pair p @ r) = Some (p, r)"
  by (simp add: enc_pair_def dec_pair_def)

definition enc_rel :: "Relationship \<Rightarrow> bytes" where
  "enc_rel x = enc_str (rel_TargetId x) @ enc_nat (unat (rel_Type x)) @
     enc_opt (enc_list enc_pair) (rel_Meta x)"

definition dec_rel :: "Relationship decoder" where
  "dec_rel b = do { (i, r) \<leftarrow> dec_str b; (t, r) \<leftarrow> dec_nat r; (m, r) \<leftarrow> dec_opt (dec_list dec_pair) r;
     Some (\<lparr>rel_TargetId = i, rel_Type = of_nat t, rel_Meta = m\<rparr>, r) }"

definition enc_wu :: "WorkUnit \<Rightarrow> bytes" where
  "enc_wu w = enc_str (wu_Id w) @ enc_str (wu_ContextId w) @ enc_str (wu_AgentId w) @
     enc_nat (unat (wu_Type w)) @ enc_opt enc_int (wu_Ts w) @
     enc_opt (enc_list enc_pair) (wu_Meta w) @ enc_opt enc_str (wu_Payload w) @
     enc_list enc_rel (wu_Relationships w)"

definition dec_wu :: "WorkUnit decoder" where
  "dec_wu b = do { (i, r) \<leftarrow> dec_str b; (c, r) \<leftarrow> dec_str r; (a, r) \<leftarrow> dec_str r;
     (t, r) \<leftarrow> dec_nat r; (ts, r) \<leftarrow> dec_opt dec_int r;
     (m, r) \<leftarrow> dec_opt (dec_list dec_pair) r; (p, r) \<leftarrow> dec_opt dec_str r;
     (rels, r) \<leftarrow> dec_list dec_rel r;
     Some (\<lparr>wu_Id = i, wu_ContextId = c, wu_AgentId = a, wu_Type = of_nat t, wu_Ts = ts,
       wu_Meta = m, wu_Payload = p, wu_Relationships = rels\<rparr>, r) }"

definition enc_ctx :: "Context \<Rightarrow> bytes" where
  "enc_ctx c = enc_str (ctx_Id c) @ enc_str (ctx_DisplayName c) @
     enc_list enc_str (ctx_AgentIds c) @ enc_list enc_str (ctx_PinnedUnits c) @
     enc_opt (enc_list enc_pair) (ctx_Meta c) @ enc_opt enc_int (ctx_CreatedAt c) @
     enc_opt enc_int (ctx_UpdatedAt c)"

definition dec_ctx :: "Context decoder" where
  "dec_ctx b = do { (i, r) \<leftarrow> dec_str b; (n, r) \<leftarrow> dec_str r;
     (as, r) \<leftarrow> dec_list dec_str r; (ps, r) \<leftarrow> dec_list dec_str r;
     (m, r) \<leftarrow> dec_opt (dec_list dec_pair) r; (c, r) \<leftarrow> dec_opt dec_int r;
     (u, r) \<leftarrow> dec_opt dec_int r;
     Some (\<lparr>ctx_Id = i, ctx_DisplayName = n, ctx_AgentIds = as, ctx_PinnedUnits = ps,
       ctx_Meta = m, ctx_CreatedAt = c, ctx_UpdatedAt = u\<rparr>, r) }"

definition enc_lock :: "LockHandle \<Rightarrow> bytes" where
  "enc_lock l = enc_str (lk_ResourcePath l) @ enc_str (lk_HolderAgent l) @
     enc_opt enc_int (lk_ExpiresAt l) @ enc_str (lk_LockId l)"

definition dec_lock :: "LockHandle decoder" where
  "dec_lock b = do { (p, r) \<leftarrow> dec_str b; (h, r) \<leftarrow> dec_str r; (e, r) \<leftarrow> dec_opt dec_int r;
     (i, r) \<leftarrow> dec_str r;
     Some (\<lparr>lk_ResourcePath = p, lk_HolderAgent = h, lk_ExpiresAt = e, lk_LockId = i\<rparr>, r) }"

lemma dec_rel_enc [simp]: "dec_rel (enc_rel x @ r) = Some (x, r)"
  by (simp add: enc_rel_def dec_rel_def dec_opt_enc dec_list_enc)

lemma dec_wu_enc [simp]: "dec_wu (enc_wu w @ r) = Some (w, r)"
  by (simp add: enc_wu_def dec_wu_def dec_opt_enc dec_list_enc)

lemma dec_ctx_enc [simp]: "dec_ctx (enc_ctx c @ r) = Some (c, r)"
  by (simp add: enc_ctx_def dec_ctx_def dec_opt_enc dec_list_enc)

lemma dec_lock_enc [simp]: "dec_lock (enc_lock l @ r) = Some (l, r)"
  by (simp add: enc_lock_def dec_lock_def dec_opt_enc)

definition ref_codec :: json_codec where
  "ref_codec =
     \<lparr>MarshalWorkUnit = (\<lambda>w. Some (enc_wu (json_norm_wu w))),
      UnmarshalWorkUnit = (\<lambda>b. map_option fst (dec_wu b)),
      MarshalContext = (\<lambda>c. Some (enc_ctx (json_norm_ctx c))),
      UnmarshalContext = (\<lambda>b. map_option fst (dec_ctx b)),
      MarshalLock = (\<lambda>l. Some (enc_lock l)),
      UnmarshalLock = (\<lambda>b. map_option fst (dec_lock b))\<rparr>"

lemma ref_codec_rt [simp]:
  "json_rt_wu ref_codec w" "json_rt_ctx ref_codec c" "json_rt_lock ref_codec l"
  using dec_wu_enc [of _ "[]"] dec_ctx_enc [of _ "[]"] dec_lock_enc [of _ "[]"]
  by (simp_all add: json_rt_defs ref_codec_def)

end
