(* ===== verification/Storage_Cache.thy ===== *)
theory Storage_Cache
  imports Proto_Types
begin

text \<open>
  The in-memory cache of \<open>internal/storage/badger/storage.go\<close> (type \<open>Cache\<close>): three maps, each
  bounded by evicting an arbitrary entry after an insertion that exceeds its size. The entry that
  is evicted is the first one of a random map iteration; it is chosen by the number \<open>pick\<close>.
\<close>

record Cache =
  c_workUnits :: "WorkUnit gomap"
  c_contexts :: "Context gomap"
  c_locks :: "LockHandle gomap"
  c_expiration :: duration
  c_workUnitSize :: int
  c_contextSize :: int
  c_lockSize :: int

definition NewCache :: "int \<Rightarrow> int \<Rightarrow> int \<Rightarrow> duration \<Rightarrow> Cache option" where
  "NewCache workUnitSize contextSize lockSize expiration =
     (if workUnitSize \<le> 0 \<or> contextSize \<le> 0 \<or> lockSize \<le> 0 \<or> expiration \<le> 0 then None
      else Some \<lparr>c_workUnits = [], c_contexts = [], c_locks = [], c_expiration = expiration,
        c_workUnitSize = workUnitSize, c_contextSize = contextSize, c_lockSize = lockSize\<rparr>)"

definition evict_one :: "nat \<Rightarrow> 'v gomap \<Rightarrow> 'v gomap" where
  "evict_one pick m = (if m = [] then m else AList.delete (fst (m ! (pick mod length m))) m)"

definition bounded_put :: "nat \<Rightarrow> int \<Rightarrow> bytes \<Rightarrow> 'v \<Rightarrow> 'v gomap \<Rightarrow> 'v gomap" where
  "bounded_put pick sz k v m =
     (let m' = AList.update k v m
      in if int (length m') > sz then evict_one pick m' else m')"

definition SetWorkUnit :: "nat \<Rightarrow> WorkUnit \<Rightarrow> Cache \<Rightarrow> Cache" where
  "SetWorkUnit pick wu c =
     c\<lparr>c_workUnits := bounded_put pick (c_workUnitSize c) (wu_Id wu) wu (c_workUnits c)\<rparr>"

definition cacheGetWorkUnit :: "Cache \<Rightarrow> bytes \<Rightarrow> WorkUnit option" where
  "cacheGetWorkUnit c ident = map_of (c_workUnits c) ident"

definition SetContext :: "nat \<Rightarrow> Context \<Rightarrow> Cache \<Rightarrow> Cache" where
  "SetContext pick ctx c =
     c\<lparr>c_contexts := bounded_put pick (c_contextSize c) (ctx_Id ctx) ctx (c_contexts c)\<rparr>"

definition cacheGetContext :: "Cache \<Rightarrow> bytes \<Rightarrow> Context option" where
  "cacheGetContext c ident = map_of (c_contexts c) ident"

definition SetLock :: "nat \<Rightarrow> LockHandle \<Rightarrow> Cache \<Rightarrow> Cache" where
  "SetLock pick lock c =
     c\<lparr>c_locks := bounded_put pick (c_lockSize c) (lk_ResourcePath lock) lock (c_locks c)\<rparr>"

definition cacheGetLock :: "Cache \<Rightarrow> bytes \<Rightarrow> LockHandle option" where
  "cacheGetLock c resourcePath = map_of (c_locks c) resourcePath"

definition cacheDeleteLock :: "bytes \<Rightarrow> Cache \<Rightarrow> Cache" where
  "cacheDeleteLock resourcePath c = c\<lparr>c_locks := AList.delete resourcePath (c_locks c)\<rparr>"

definition cacheClear :: "Cache \<Rightarrow> Cache" where
  "cacheClear c = c\<lparr>c_workUnits := [], c_contexts := [], c_locks := []\<rparr>"

lemmas cache_defs = SetWorkUnit_def cacheGetWorkUnit_def SetContext_def cacheGetContext_def
  SetLock_def cacheGetLock_def cacheDeleteLock_def cacheClear_def

subsection \<open>The well-formedness of a cache\<close>

definition bounded_map :: "int \<Rightarrow> ('v \<Rightarrow> bytes) \<Rightarrow> 'v gomap \<Rightarrow> bool" where
  "bounded_map sz key m \<longleftrightarrow> 0 < sz \<and> distinct (map fst m) \<and> int (length m) \<le> sz \<and>
     (\<forall>k v. map_of m k = Some v \<longrightarrow> key v = k)"

definition cache_ok :: "Cache \<Rightarrow> bool" where
  "cache_ok c \<longleftrightarrow> bounded_map (c_workUnitSize c) wu_Id (c_workUnits c) \<and>
     bounded_map (c_contextSize c) ctx_Id (c_contexts c) \<and>
     bounded_map (c_lockSize c) lk_ResourcePath (c_locks c)"

lemma pick_in_keys: "m \<noteq> [] \<Longrightarrow> fst (m ! (pick mod length m)) \<in> fst ` set m"
  by (rule imageI) (simp add: nth_mem)

lemma length_evict_one: "m \<noteq> [] \<Longrightarrow> length (evict_one pick m) < length m"
  by (simp add: evict_one_def length_delete_lt pick_in_keys)

lemma map_of_evict_one: "map_of (evict_one pick m) k = Some v \<Longrightarrow> map_of m k = Some v"
  by (auto simp: evict_one_def split: if_splits)

lemma map_of_bounded_put:
  "map_of (bounded_put pick sz k v m) k' = Some w \<Longrightarrow>
   (if k' = k then w = v else map_of m k' = Some w)"
  by (auto simp: bounded_put_def Let_def dest!: map_of_evict_one split: if_splits)

lemma bounded_map_put:
  assumes "bounded_map sz key m" and "key v = k"
  shows "bounded_map sz key (bounded_put pick sz k v m)"
proof -
  let ?m = "AList.update k v m"
  have len: "length ?m \<le> Suc (length m)" by (rule length_update_le)
  have "int (length (bounded_put pick sz k v m)) \<le> sz"
    using assms(1) len length_evict_one [of ?m pick]
    by (auto simp: bounded_put_def bounded_map_def Let_def)
  moreover have "distinct (map fst (bounded_put pick sz k v m))"
    using assms(1) by (auto simp: bounded_put_def bounded_map_def evict_one_def Let_def
        distinct_update distinct_delete)
  moreover have "key w = k'" if "map_of (bounded_put pick sz k v m) k' = Some w" for k' w
    using map_of_bounded_put [OF that] assms by (auto simp: bounded_map_def split: if_splits)
  ultimately show ?thesis using assms(1) by (simp add: bounded_map_def)
qed

lemma bounded_map_delete:
  "bounded_map sz key m \<Longrightarrow> bounded_map sz key (AList.delete k m)"
  using length_delete_le [of k m]
  by (auto simp: bounded_map_def distinct_delete split: if_splits)

lemma NewCache_ok: "NewCache ws cs ls x = Some c \<Longrightarrow> cache_ok c"
  by (auto simp: NewCache_def cache_ok_def bounded_map_def split: if_splits)

lemma SetWorkUnit_ok: "cache_ok c \<Longrightarrow> cache_ok (SetWorkUnit pick wu c)"
  by (simp add: cache_ok_def SetWorkUnit_def bounded_map_put)

lemma SetContext_ok: "cache_ok c \<Longrightarrow> cache_ok (SetContext pick ctx c)"
  by (simp add: cache_ok_def SetContext_def bounded_map_put)

lemma SetLock_ok: "cache_ok c \<Longrightarrow> cache_ok (SetLock pick lock c)"
  by (simp add: cache_ok_def SetLock_def bounded_map_put)

lemma cacheDeleteLock_ok: "cache_ok c \<Longrightarrow> cache_ok (cacheDeleteLock p c)"
  by (simp add: cache_ok_def cacheDeleteLock_def bounded_map_delete)

lemma cacheClear_ok: "cache_ok c \<Longrightarrow> cache_ok (cacheClear c)"
  by (simp add: cache_ok_def cacheClear_def bounded_map_def)

lemmas cache_ok_intros = SetWorkUnit_ok SetContext_ok SetLock_ok cacheDeleteLock_ok cacheClear_ok

subsection \<open>What a cache promises its client\<close>

text \<open>
  A cache may forget entries at any time, but an entry it returns is the last one that was put.
  From this law alone follows that a cache kept in front of a store stays coherent with it: every
  hit is the store's value, up to the normal form \<open>norm\<close> in which the store keeps values.
\<close>

definition coherent :: "('v \<Rightarrow> 'v) \<Rightarrow> ('v \<Rightarrow> bytes) \<Rightarrow> (bytes \<Rightarrow> 'v option) \<Rightarrow> (bytes \<Rightarrow> 'v option) \<Rightarrow> bool" where
  "coherent norm key hits m \<longleftrightarrow>
     (\<forall>k v. hits k = Some v \<longrightarrow> key v = k \<and> m k = Some (norm v)) \<and>
     (\<forall>k v. m k = Some v \<longrightarrow> key v = k \<and> norm v = v)"

lemma coherent_hit: "coherent norm key hits m \<Longrightarrow> hits k = Some v \<Longrightarrow> key v = k \<and> m k = Some (norm v)"
  by (simp add: coherent_def)

lemma coherent_stored: "coherent norm key hits m \<Longrightarrow> m k = Some v \<Longrightarrow> key v = k \<and> norm v = v"
  by (simp add: coherent_def)

lemma coherent_forget: "coherent norm key hits m \<Longrightarrow> coherent norm key (hits(k := None)) m"
  by (simp add: coherent_def)

locale lossy_cache =
  fixes get :: "'c \<Rightarrow> bytes \<Rightarrow> 'v option"
    and put :: "nat \<Rightarrow> 'v \<Rightarrow> 'c \<Rightarrow> 'c"
    and key :: "'v \<Rightarrow> bytes"
  assumes hit_after_put: "get (put pick v c) k = Some w \<Longrightarrow>
      (if k = key v then w = v else get c k = Some w)"
begin

text \<open>What the cache held under the key that is put does not matter.\<close>

lemma coherent_put:
  assumes coh: "coherent norm key ((get c)(key v := None)) m"
    and "norm (norm v) = norm v" and "key (norm v) = key v"
  shows "coherent norm key (get (put pick v c)) (m(key v \<mapsto> norm v))"
  unfolding coherent_def
proof (intro conjI allI impI)
  fix k w
  assume "get (put pick v c) k = Some w"
  then have "if k = key v then w = v else get c k = Some w" by (rule hit_after_put)
  with coherent_hit [OF coh, of k w] show "key w = k" "(m(key v \<mapsto> norm v)) k = Some (norm w)"
    by (auto split: if_splits)
next
  fix k w
  assume "(m(key v \<mapsto> norm v)) k = Some w"
  then show "key w = k" "norm w = w"
    using assms(2,3) coherent_stored [OF coh] by (auto split: if_splits)
qed

lemma coherent_fill:
  assumes "coherent norm key (get c) m" and "m (key v) = Some v"
  shows "coherent norm key (get (put pick v c)) m"
proof -
  have "norm v = v" using coherent_stored [OF assms] by simp
  with coherent_put [OF coherent_forget [OF assms(1)], of v pick] assms(2) show ?thesis by (simp add: fun_upd_idem)
qed

end

interpretation wu_cache: lossy_cache cacheGetWorkUnit SetWorkUnit wu_Id
  by unfold_locales (auto simp: cache_defs dest: map_of_bounded_put)

interpretation ctx_cache: lossy_cache cacheGetContext SetContext ctx_Id
  by unfold_locales (auto simp: cache_defs dest: map_of_bounded_put)

interpretation lk_cache: lossy_cache cacheGetLock SetLock lk_ResourcePath
  by unfold_locales (auto simp: cache_defs dest: map_of_bounded_put)

end
