(* ===== verification/Storage_Wal.thy ===== *)
theory Storage_Wal
  imports Proto_Types
begin

text \<open>
  The write-ahead log of \<open>internal/storage/badger/storage.go\<close>: the layout of the file, the batching
  goroutine \<open>processWAL\<close> with \<open>syncWALBatch\<close>, the header written by \<open>Start\<close>, and the reader of
  \<open>replayWAL\<close>. The reader is parametric in what it does with an entry; \<open>Storage_Engine\<close> supplies it.
\<close>

subsection \<open>Fixed-width numbers\<close>

text \<open>\<open>binary.LittleEndian\<close>: \<open>le_bytes w n\<close> are the \<open>w\<close> low bytes of \<open>n\<close>, lowest first.\<close>

fun le_bytes :: "nat \<Rightarrow> nat \<Rightarrow> bytes" where
  "le_bytes 0 n = []"
| "le_bytes (Suc w) n = char_of (n mod 256) # le_bytes w (n div 256)"

fun le_nat :: "bytes \<Rightarrow> nat" where
  "le_nat [] = 0"
| "le_nat (b # bs) = of_char b + 256 * le_nat bs"

lemma length_le_bytes [simp]: "length (le_bytes w n) = w"
  by (induction w arbitrary: n) auto

lemma le_nat_le_bytes: "le_nat (le_bytes w n) = n mod 256 ^ w"
proof (induction w arbitrary: n)
  case (Suc w)
  have "n mod (256 * 256 ^ w) = 256 * (n div 256 mod 256 ^ w) + n mod 256"
    by (rule mod_mult2_eq)
  then show ?case by (simp add: Suc)
qed simp

subsection \<open>Entries\<close>

type_synonym WALEntryType = "8 word"

definition WALWorkUnit :: WALEntryType where "WALWorkUnit = 1"
definition WALContext :: WALEntryType where "WALContext = 2"
definition WALLock :: WALEntryType where "WALLock = 3"

lemmas wal_type_defs = WALWorkUnit_def WALContext_def WALLock_def

record WALEntry =
  we_Type :: WALEntryType
  we_Timestamp :: gotime
  we_Data :: bytes

definition walMagic :: "32 word" where "walMagic = 0x454E4752"

text \<open>One entry as \<open>syncWALBatch\<close> writes it: the type (1 byte), \<open>Timestamp.UnixNano()\<close> as an
  \<open>int64\<close> (8 bytes), \<open>uint32(len(entry.Data))\<close> (4 bytes, the length modulo \<open>2 ^ 32\<close>), the data.\<close>

definition encode_entry :: "WALEntry \<Rightarrow> bytes" where
  "encode_entry e =
     le_bytes 1 (unat (we_Type e)) @
     le_bytes 8 (unat (word_of_int (we_Timestamp e) :: 64 word)) @
     le_bytes 4 (length (we_Data e)) @ we_Data e"

definition encode_batch :: "WALEntry list \<Rightarrow> bytes" where
  "encode_batch es = concat (map encode_entry es)"

lemma encode_batch_append [simp]: "encode_batch (xs @ ys) = encode_batch xs @ encode_batch ys"
  by (simp add: encode_batch_def)

lemma encode_batch_simps [simp]:
  "encode_batch [] = []" "encode_batch (e # es) = encode_entry e @ encode_batch es"
  by (simp_all add: encode_batch_def)

text \<open>\<open>syncWALBatch\<close>: one \<open>Write\<close> of the encoded batch. It succeeds (\<open>None\<close>) or fails after \<open>n\<close>
  bytes (\<open>Some n\<close>), which is only logged.\<close>

type_synonym write_fault = "nat option"

definition syncWALBatch :: "write_fault \<Rightarrow> WALEntry list \<Rightarrow> bytes \<Rightarrow> bytes" where
  "syncWALBatch fault es file =
     (if es = [] then file
      else case fault of
        None \<Rightarrow> file @ encode_batch es
      | Some n \<Rightarrow> file @ take n (encode_batch es))"

text \<open>The header part of \<open>Start\<close>.\<close>

definition Start_header :: "bytes \<Rightarrow> bytes" where
  "Start_header file = (if file = [] then file @ le_bytes 4 (unat walMagic) else file)"

subsection \<open>Reading the log\<close>

datatype wal_error = BadHeader | BadMagic | TruncatedTimestamp | TruncatedLength | TruncatedData

text \<open>One round of the loop of \<open>replayWAL\<close>: \<open>Inr None\<close> at the end of the file (the \<open>break\<close>),
  otherwise the entry's type and data with the rest of the file, or the error that is returned.
  The timestamp is read and not used.\<close>

definition read_entry :: "bytes \<Rightarrow> wal_error + (WALEntryType \<times> bytes \<times> bytes) option" where
  "read_entry file =
     (if file = [] then Inr None
      else let entryType = of_nat (le_nat (take 1 file)); r1 = drop 1 file
      in if length r1 < 8 then Inl TruncatedTimestamp
         else let r2 = drop 8 r1
      in if length r2 < 4 then Inl TruncatedLength
         else let dataLen = le_nat (take 4 r2); r3 = drop 4 r2
      in if length r3 < dataLen then Inl TruncatedData
         else Inr (Some (entryType, take dataLen r3, drop dataLen r3)))"

lemma read_entry_shrinks:
  "read_entry file = Inr (Some (t, d, r)) \<Longrightarrow> length r < length file"
  by (auto simp: read_entry_def Let_def split: if_splits)

text \<open>The loop: every entry read is processed at once, so the entries before a truncated one have
  been restored when the error is returned.\<close>

function replay_entries ::
  "(WALEntryType \<Rightarrow> bytes \<Rightarrow> 's \<Rightarrow> 's) \<Rightarrow> bytes \<Rightarrow> 's \<Rightarrow> wal_error option \<times> 's" where
  "replay_entries restore file s =
     (case read_entry file of
        Inl e \<Rightarrow> (Some e, s)
      | Inr None \<Rightarrow> (None, s)
      | Inr (Some (t, d, r)) \<Rightarrow> replay_entries restore r (restore t d s))"
  by pat_completeness auto
termination
  by (relation "measure (\<lambda>(restore, file, s). length file)") (auto dest: read_entry_shrinks)

declare replay_entries.simps [simp del]

definition replayWAL ::
  "(WALEntryType \<Rightarrow> bytes \<Rightarrow> 's \<Rightarrow> 's) \<Rightarrow> bytes \<Rightarrow> 's \<Rightarrow> wal_error option \<times> 's" where
  "replayWAL restore file s =
     (if file = [] then (None, s)
      else if length file < 4 then (Some BadHeader, s)
      else if of_nat (le_nat (take 4 file)) \<noteq> walMagic then (Some BadMagic, s)
      else replay_entries restore (drop 4 file) s)"

definition wal_entry_ok :: "WALEntry \<Rightarrow> bool" where
  "wal_entry_ok e \<longleftrightarrow> length (we_Data e) < 2 ^ 32"

lemma length_encode_entry: "length (encode_entry e) = 13 + length (we_Data e)"
  by (simp add: encode_entry_def)

lemma unat8_mod [simp]: "unat (t :: 8 word) mod 256 = unat t"
proof -
  have "unat t < 2 ^ LENGTH(8)" by (rule unsigned_less)
  then show ?thesis by simp
qed

lemma read_entry_encode:
  assumes "wal_entry_ok e"
  shows "read_entry (encode_entry e @ rest) = Inr (Some (we_Type e, we_Data e, rest))"
proof -
  have "le_nat (le_bytes 4 (length (we_Data e))) = length (we_Data e)"
    using assms by (simp add: wal_entry_ok_def le_nat_le_bytes)
  then show ?thesis
    by (simp add: read_entry_def encode_entry_def Let_def)
qed

text \<open>A proper, non-empty beginning of an entry is refused.\<close>

lemma read_entry_torn:
  assumes "wal_entry_ok e" and "0 < n" and "n < length (encode_entry e)"
  shows "\<exists>err. read_entry (take n (encode_entry e)) = Inl err"
proof -
  define h where "h = le_bytes 1 (unat (we_Type e)) @
    le_bytes 8 (unat (word_of_int (we_Timestamp e) :: 64 word)) @ le_bytes 4 (length (we_Data e))"
  have enc: "encode_entry e = h @ we_Data e" by (simp add: encode_entry_def h_def)
  have len_h: "length h = 13" by (simp add: h_def)
  have len: "le_nat (le_bytes 4 (length (we_Data e))) = length (we_Data e)"
    using assms(1) by (simp add: wal_entry_ok_def le_nat_le_bytes)
  have n: "n < 13 + length (we_Data e)" using assms(3) by (simp add: length_encode_entry)
  consider "n < 9" | "9 \<le> n" "n < 13" | "13 \<le> n" by linarith
  then show ?thesis
  proof cases
    case 3
    then have "take n (encode_entry e) = h @ take (n - 13) (we_Data e)" by (simp add: enc len_h)
    then show ?thesis using 3 n by (simp add: h_def read_entry_def Let_def len)
  qed (use assms(2) in \<open>auto simp: read_entry_def Let_def length_encode_entry encode_entry_def\<close>)
qed

lemma replay_entries_encode:
  assumes "\<forall>e \<in> set es. wal_entry_ok e"
  shows "replay_entries restore (encode_batch es @ rest) s =
         replay_entries restore rest (fold (\<lambda>e. restore (we_Type e) (we_Data e)) es s)"
  using assms
proof (induction es arbitrary: s)
  case (Cons e es)
  then show ?case
    by (subst replay_entries.simps) (simp add: read_entry_encode)
qed simp

lemma replay_entries_end [simp]: "replay_entries restore [] s = (None, s)"
  by (subst replay_entries.simps) (simp add: read_entry_def)

lemma header_length [simp]: "length (le_bytes 4 (unat walMagic)) = 4"
  by simp

lemma replayWAL_header:
  "replayWAL restore (le_bytes 4 (unat walMagic) @ rest) s = replay_entries restore rest s"
proof -
  have "(of_nat (le_nat (le_bytes 4 (unat walMagic))) :: 32 word) = walMagic"
    by (simp add: le_nat_le_bytes walMagic_def)
  moreover have "le_bytes 4 (unat walMagic) @ rest \<noteq> []"
    using header_length by (metis Nil_is_append_conv list.size(3) zero_neq_numeral)
  ultimately show ?thesis
    by (simp add: replayWAL_def)
qed

end
