(* ===== verification/Storage_Engine.thy ===== *)
theory Storage_Engine
  imports Badger_Kv Go_Json Storage_Cache Storage_Wal
begin

text \<open>
  The operations of \<open>internal/storage/badger/storage.go\<close>: the whole of every operation, its write to
  the log, its transaction, its event and its use of the cache. The operations take the
  key-value store \<open>B\<close> and the JSON codec \<open>J\<close> as arguments.

  \<open>st_wal\<close> lists the entries sent on the channel \<open>walEntries\<close>, in order; a send waits while the
  channel is full, and \<open>Storage_Wal_Batch\<close> follows the entries from the channel to the file. A
  cached object is shared with the callers that got it; the two operations that change such an
  object in place (\<open>UpdateContext\<close>, \<open>AcquireLock\<close>) change the cached entry too, also when the
  following store fails. Metrics and logging are left out.
\<close>

definition prefixWorkUnits :: bytes where "prefixWorkUnits = ''wu:''"
definition prefixContexts :: bytes where "prefixContexts = ''ctx:''"
definition prefixMeta :: bytes where "prefixMeta = ''meta:''"
definition prefixLocks :: bytes where "prefixLocks = ''lock:''"

lemmas prefix_defs = prefixWorkUnits_def prefixContexts_def prefixMeta_def prefixLocks_def

datatype storage_error =
    MarshalFailed
  | StoreFailed badger_error
  | IndexFailed badger_error
  | DeleteFailed badger_error
  | CommitFailed badger_error
  | NotFound bytes
  | RetrieveFailed badger_error
  | UnmarshalFailed
  | LockedByOther
  | HeldByOther
  | LockIdMismatch

record 'db Storage =
  st_CacheEnabled :: bool
  st_cache :: "Cache option"
  st_db :: 'db
  st_wal :: "WALEntry list"
  st_events :: "WorkUnit chan"

text \<open>The guard \<open>s.config.CacheEnabled && s.cache != nil\<close>.\<close>

definition active_cache :: "'db Storage \<Rightarrow> Cache option" where
  "active_cache s = (if st_CacheEnabled s then st_cache s else None)"

definition on_cache :: "(Cache \<Rightarrow> Cache) \<Rightarrow> 'db Storage \<Rightarrow> 'db Storage" where
  "on_cache f s = (case active_cache s of None \<Rightarrow> s | Some c \<Rightarrow> s\<lparr>st_cache := Some (f c)\<rparr>)"

definition log_entry :: "WALEntryType \<Rightarrow> gotime \<Rightarrow> bytes \<Rightarrow> 'db Storage \<Rightarrow> 'db Storage" where
  "log_entry ty now data s =
     s\<lparr>st_wal := st_wal s @ [\<lparr>we_Type = ty, we_Timestamp = now, we_Data = data\<rparr>]\<rparr>"

definition prefixKey :: "bytes \<Rightarrow> bytes \<Rightarrow> bytes" where
  "prefixKey pfx key = pfx @ key"

text \<open>\<open>binary.BigEndian.PutUint64(timeBytes, uint64(ts.UnixNano()))\<close>.\<close>

definition timeBytes :: "gotime \<Rightarrow> bytes" where
  "timeBytes ts = rev (le_bytes 8 (unat (word_of_int ts :: 64 word)))"

definition makeContextTimeKey :: "bytes \<Rightarrow> gotime \<Rightarrow> bytes" where
  "makeContextTimeKey contextID ts = prefixMeta @ contextID @ '':'' @ timeBytes ts"

subsection \<open>Work units\<close>

definition storeWorkUnitInternal ::
  "('db, 'txn) badger \<Rightarrow> json_codec \<Rightarrow> gotime \<Rightarrow> nat \<Rightarrow> WorkUnit \<Rightarrow> bool \<Rightarrow> 'db Storage \<Rightarrow>
   (storage_error, unit) outcome \<times> 'db Storage" where
  "storeWorkUnitInternal B J now pick workUnit logToWAL s =
     (case MarshalWorkUnit J workUnit of
        None \<Rightarrow> (Err MarshalFailed, s)
      | Some data \<Rightarrow>
          let s = (if logToWAL then log_entry WALWorkUnit now data s else s);
              txn = newTxn B (st_db s)
          in (case txnSet B txn (prefixKey prefixWorkUnits (wu_Id workUnit)) data of
                Inl e \<Rightarrow> (Err (StoreFailed e), s)
              | Inr txn \<Rightarrow>
                  (case txnSet B txn (makeContextTimeKey (wu_ContextId workUnit) (AsTime (wu_Ts workUnit)))
                          (wu_Id workUnit) of
                     Inl e \<Rightarrow> (Err (IndexFailed e), s)
                   | Inr txn \<Rightarrow>
                       (case txnCommit B (st_db s) txn of
                          Inl e \<Rightarrow> (Err (CommitFailed e), s)
                        | Inr db \<Rightarrow>
                            let s = s\<lparr>st_db := db\<rparr>
                            in (case try_send (st_events s) workUnit of
                                  SendPanics \<Rightarrow> (Panic, s)
                                | Full \<Rightarrow> (Ret (), on_cache (SetWorkUnit pick workUnit) s)
                                | Sent ch \<Rightarrow>
                                    (Ret (), on_cache (SetWorkUnit pick workUnit) (s\<lparr>st_events := ch\<rparr>)))))))"

definition new_work_unit :: "env \<Rightarrow> CreateWorkUnitRequest \<Rightarrow> WorkUnit" where
  "new_work_unit E req =
     \<lparr>wu_Id = env_uuid E, wu_ContextId = cwr_ContextId req, wu_AgentId = cwr_AgentId req,
      wu_Type = cwr_Type req, wu_Ts = Some (env_now E 0), wu_Meta = cwr_Meta req,
      wu_Payload = cwr_Payload req, wu_Relationships = cwr_Relationships req\<rparr>"

definition CreateWorkUnit ::
  "('db, 'txn) badger \<Rightarrow> json_codec \<Rightarrow> env \<Rightarrow> CreateWorkUnitRequest \<Rightarrow> 'db Storage \<Rightarrow>
   (storage_error, WorkUnit) outcome \<times> 'db Storage" where
  "CreateWorkUnit B J E req s =
     (let workUnit = new_work_unit E req
      in case storeWorkUnitInternal B J (env_now E 1) (env_pick E 0) workUnit True s of
           (Err e, s) \<Rightarrow> (Err e, s)
         | (Panic, s) \<Rightarrow> (Panic, s)
         | (Ret _, s) \<Rightarrow> (Ret workUnit, s))"

text \<open>The closure passed to \<open>db.View\<close> declares a work unit of its own, so a unit read from the
  database reaches the cache but not the result: the last line is an error.\<close>

definition GetWorkUnit ::
  "('db, 'txn) badger \<Rightarrow> json_codec \<Rightarrow> nat \<Rightarrow> bytes \<Rightarrow> 'db Storage \<Rightarrow>
   (storage_error, WorkUnit) outcome \<times> 'db Storage" where
  "GetWorkUnit B J pick ident s =
     (case Option.bind (active_cache s) (\<lambda>c. cacheGetWorkUnit c ident) of
        Some workUnit \<Rightarrow> (Ret workUnit, s)
      | None \<Rightarrow>
          (case viewGet B (st_db s) (prefixKey prefixWorkUnits ident) of
             Inl ErrKeyNotFound \<Rightarrow> (Err (NotFound ident), s)
           | Inl e \<Rightarrow> (Err (RetrieveFailed e), s)
           | Inr valueData \<Rightarrow>
               (case UnmarshalWorkUnit J valueData of
                  None \<Rightarrow> (Err UnmarshalFailed, s)
                | Some workUnit \<Rightarrow>
                    (Err (NotFound ident), on_cache (SetWorkUnit pick workUnit) s))))"

subsection \<open>Contexts\<close>

definition storeContextInternal ::
  "('db, 'txn) badger \<Rightarrow> json_codec \<Rightarrow> gotime \<Rightarrow> nat \<Rightarrow> Context \<Rightarrow> bool \<Rightarrow> 'db Storage \<Rightarrow>
   (storage_error, unit) outcome \<times> 'db Storage" where
  "storeContextInternal B J now pick context logToWAL s =
     (case MarshalContext J context of
        None \<Rightarrow> (Err MarshalFailed, s)
      | Some data \<Rightarrow>
          let s = (if logToWAL then log_entry WALContext now data s else s)
          in (case txnSet B (newTxn B (st_db s)) (prefixKey prefixContexts (ctx_Id context)) data of
                Inl e \<Rightarrow> (Err (StoreFailed e), s)
              | Inr txn \<Rightarrow>
                  (case txnCommit B (st_db s) txn of
                     Inl e \<Rightarrow> (Err (CommitFailed e), s)
                   | Inr db \<Rightarrow> (Ret (), on_cache (SetContext pick context) (s\<lparr>st_db := db\<rparr>)))))"

definition GetContext ::
  "('db, 'txn) badger \<Rightarrow> json_codec \<Rightarrow> nat \<Rightarrow> bytes \<Rightarrow> 'db Storage \<Rightarrow>
   (storage_error, Context) outcome \<times> 'db Storage" where
  "GetContext B J pick ident s =
     (case Option.bind (active_cache s) (\<lambda>c. cacheGetContext c ident) of
        Some context \<Rightarrow> (Ret context, s)
      | None \<Rightarrow>
          (case viewGet B (st_db s) (prefixKey prefixContexts ident) of
             Inl ErrKeyNotFound \<Rightarrow> (Err (NotFound ident), s)
           | Inl e \<Rightarrow> (Err (RetrieveFailed e), s)
           | Inr valueData \<Rightarrow>
               (case UnmarshalContext J valueData of
                  None \<Rightarrow> (Err UnmarshalFailed, s)
                | Some context \<Rightarrow> (Ret context, on_cache (SetContext pick context) s))))"

text \<open>The loops over \<open>AddAgents\<close> and \<open>PinUnits\<close> (append what is not there yet), and those over
  \<open>RemoveAgents\<close> and \<open>UnpinUnits\<close> (rebuild the list without them).\<close>

fun add_missing :: "bytes list \<Rightarrow> bytes list \<Rightarrow> bytes list" where
  "add_missing [] xs = xs"
| "add_missing (a # as) xs = add_missing as (if a \<in> set xs then xs else xs @ [a])"

definition remove_listed :: "bytes list \<Rightarrow> bytes list \<Rightarrow> bytes list" where
  "remove_listed rs xs = (if rs = [] then xs else filter (\<lambda>x. x \<notin> set rs) xs)"

definition edit_context :: "UpdateContextRequest \<Rightarrow> Context \<Rightarrow> Context" where
  "edit_context req context =
     context\<lparr>
       ctx_DisplayName := (if ucr_DisplayName req \<noteq> [] then ucr_DisplayName req else ctx_DisplayName context),
       ctx_AgentIds := remove_listed (ucr_RemoveAgents req) (add_missing (ucr_AddAgents req) (ctx_AgentIds context)),
       ctx_PinnedUnits := remove_listed (ucr_UnpinUnits req) (add_missing (ucr_PinUnits req) (ctx_PinnedUnits context))\<rparr>"

text \<open>The loop \<open>for k, v := range req.Meta\<close>: \<open>None\<close> when it assigns to an entry of a nil map, which
  panics.\<close>

definition merge_meta :: "nilmap \<Rightarrow> nilmap \<Rightarrow> nilmap option" where
  "merge_meta new old =
     (if entries_of new = [] then Some old
      else case old of
        None \<Rightarrow> None
      | Some es \<Rightarrow> Some (Some (fold (\<lambda>(k, v). AList.update k v) (entries_of new) es)))"

text \<open>The object that was changed is the cached one, when it is cached.\<close>

definition share_context :: "Context \<Rightarrow> Cache \<Rightarrow> Cache" where
  "share_context context c =
     (if cacheGetContext c (ctx_Id context) = None then c
      else c\<lparr>c_contexts := AList.update (ctx_Id context) context (c_contexts c)\<rparr>)"

definition new_context :: "env \<Rightarrow> UpdateContextRequest \<Rightarrow> Context" where
  "new_context E req =
     \<lparr>ctx_Id = (if ucr_Id req = [] then env_uuid E else ucr_Id req), ctx_DisplayName = ucr_DisplayName req,
      ctx_AgentIds = ucr_AddAgents req, ctx_PinnedUnits = ucr_PinUnits req, ctx_Meta = ucr_Meta req,
      ctx_CreatedAt = Some (env_now E 0), ctx_UpdatedAt = Some (env_now E 1)\<rparr>"

definition UpdateContext ::
  "('db, 'txn) badger \<Rightarrow> json_codec \<Rightarrow> env \<Rightarrow> UpdateContextRequest \<Rightarrow> 'db Storage \<Rightarrow>
   (storage_error, Context) outcome \<times> 'db Storage" where
  "UpdateContext B J E req s =
     (case GetContext B J (env_pick E 0) (ucr_Id req) s of
        (Ret context, s) \<Rightarrow>
          let context = edit_context req context
          in (case merge_meta (ucr_Meta req) (ctx_Meta context) of
                None \<Rightarrow> (Panic, on_cache (share_context context) s)
              | Some meta \<Rightarrow>
                  let context = context\<lparr>ctx_Meta := meta, ctx_UpdatedAt := Some (env_now E 0)\<rparr>;
                      s = on_cache (share_context context) s
                  in (case storeContextInternal B J (env_now E 1) (env_pick E 1) context True s of
                        (Ret _, s) \<Rightarrow> (Ret context, s)
                      | (Err e, s) \<Rightarrow> (Err e, s)
                      | (Panic, s) \<Rightarrow> (Panic, s)))
      | (_, s) \<Rightarrow>
          let context = new_context E req
          in (case storeContextInternal B J (env_now E 2) (env_pick E 1) context True s of
                (Ret _, s) \<Rightarrow> (Ret context, s)
              | (Err e, s) \<Rightarrow> (Err e, s)
              | (Panic, s) \<Rightarrow> (Panic, s)))"

subsection \<open>Locks\<close>

definition storeLockInternal ::
  "('db, 'txn) badger \<Rightarrow> json_codec \<Rightarrow> gotime \<Rightarrow> nat \<Rightarrow> LockHandle \<Rightarrow> bool \<Rightarrow> 'db Storage \<Rightarrow>
   (storage_error, unit) outcome \<times> 'db Storage" where
  "storeLockInternal B J now pick lock logToWAL s =
     (case MarshalLock J lock of
        None \<Rightarrow> (Err MarshalFailed, s)
      | Some data \<Rightarrow>
          let s = (if logToWAL then log_entry WALLock now data s else s)
          in (case txnSet B (newTxn B (st_db s)) (prefixKey prefixLocks (lk_ResourcePath lock)) data of
                Inl e \<Rightarrow> (Err (StoreFailed e), s)
              | Inr txn \<Rightarrow>
                  (case txnCommit B (st_db s) txn of
                     Inl e \<Rightarrow> (Err (CommitFailed e), s)
                   | Inr db \<Rightarrow> (Ret (), on_cache (SetLock pick lock) (s\<lparr>st_db := db\<rparr>)))))"

definition GetLock ::
  "('db, 'txn) badger \<Rightarrow> json_codec \<Rightarrow> nat \<Rightarrow> bytes \<Rightarrow> 'db Storage \<Rightarrow>
   (storage_error, LockHandle) outcome \<times> 'db Storage" where
  "GetLock B J pick resourcePath s =
     (case Option.bind (active_cache s) (\<lambda>c. cacheGetLock c resourcePath) of
        Some lock \<Rightarrow> (Ret lock, s)
      | None \<Rightarrow>
          (case viewGet B (st_db s) (prefixKey prefixLocks resourcePath) of
             Inl ErrKeyNotFound \<Rightarrow> (Err (NotFound resourcePath), s)
           | Inl e \<Rightarrow> (Err (RetrieveFailed e), s)
           | Inr valueData \<Rightarrow>
               (case UnmarshalLock J valueData of
                  None \<Rightarrow> (Err UnmarshalFailed, s)
                | Some lock \<Rightarrow> (Ret lock, on_cache (SetLock pick lock) s))))"

definition share_lock :: "LockHandle \<Rightarrow> Cache \<Rightarrow> Cache" where
  "share_lock lock c =
     (if cacheGetLock c (lk_ResourcePath lock) = None then c
      else c\<lparr>c_locks := AList.update (lk_ResourcePath lock) lock (c_locks c)\<rparr>)"

text \<open>\<open>AcquireLock\<close> in two parts, because nothing protects the sequence of the two: what it decides
  from the lock it finds, and what it then stores. \<open>Inl\<close> is the refusal, \<open>Inr (l, shared)\<close> the
  lock to store and whether it is the object found (an extension).\<close>

definition AcquireLock_decide ::
  "env \<Rightarrow> AcquireLockRequest \<Rightarrow> LockHandle option \<Rightarrow> storage_error + LockHandle \<times> bool" where
  "AcquireLock_decide E req found =
     (let expires = Some (env_now E 1 + ttl_duration (alr_TtlSeconds req));
          fresh = \<lparr>lk_ResourcePath = alr_ResourcePath req, lk_HolderAgent = alr_AgentId req,
            lk_ExpiresAt = expires, lk_LockId = env_uuid E\<rparr>
      in case found of
           None \<Rightarrow> Inr (fresh, False)
         | Some l \<Rightarrow>
             if After (expiry l) (env_now E 0)
             then if lk_HolderAgent l \<noteq> alr_AgentId req then Inl LockedByOther
                  else Inr (l\<lparr>lk_ExpiresAt := expires\<rparr>, True)
             else Inr (fresh, False))"

definition AcquireLock_commit ::
  "('db, 'txn) badger \<Rightarrow> json_codec \<Rightarrow> env \<Rightarrow> storage_error + LockHandle \<times> bool \<Rightarrow> 'db Storage \<Rightarrow>
   (storage_error, LockHandle) outcome \<times> 'db Storage" where
  "AcquireLock_commit B J E d s =
     (case d of
        Inl e \<Rightarrow> (Err e, s)
      | Inr (lock, shared) \<Rightarrow>
          let s = (if shared then on_cache (share_lock lock) s else s)
          in (case storeLockInternal B J (env_now E 2) (env_pick E 1) lock True s of
                (Ret _, s) \<Rightarrow> (Ret lock, s)
              | (Err e, s) \<Rightarrow> (Err e, s)
              | (Panic, s) \<Rightarrow> (Panic, s)))"

definition found_lock :: "(storage_error, LockHandle) outcome \<Rightarrow> LockHandle option" where
  "found_lock r = (case r of Ret l \<Rightarrow> Some l | _ \<Rightarrow> None)"

definition AcquireLock ::
  "('db, 'txn) badger \<Rightarrow> json_codec \<Rightarrow> env \<Rightarrow> AcquireLockRequest \<Rightarrow> 'db Storage \<Rightarrow>
   (storage_error, LockHandle) outcome \<times> 'db Storage" where
  "AcquireLock B J E req s =
     (case GetLock B J (env_pick E 0) (alr_ResourcePath req) s of
        (r, s) \<Rightarrow> AcquireLock_commit B J E (AcquireLock_decide E req (found_lock r)) s)"

definition ReleaseLock ::
  "('db, 'txn) badger \<Rightarrow> json_codec \<Rightarrow> env \<Rightarrow> ReleaseLockRequest \<Rightarrow> 'db Storage \<Rightarrow>
   (storage_error, bool) outcome \<times> 'db Storage" where
  "ReleaseLock B J E req s =
     (case GetLock B J (env_pick E 0) (rlr_ResourcePath req) s of
        (Ret existingLock, s) \<Rightarrow>
          if lk_HolderAgent existingLock \<noteq> rlr_AgentId req then (Err HeldByOther, s)
          else if lk_LockId existingLock \<noteq> rlr_LockId req then (Err LockIdMismatch, s)
          else (case txnDelete B (newTxn B (st_db s)) (prefixKey prefixLocks (rlr_ResourcePath req)) of
                  Inl e \<Rightarrow> (Err (DeleteFailed e), s)
                | Inr txn \<Rightarrow>
                    (case txnCommit B (st_db s) txn of
                       Inl e \<Rightarrow> (Err (CommitFailed e), s)
                     | Inr db \<Rightarrow>
                         (Ret True, on_cache (cacheDeleteLock (rlr_ResourcePath req)) (s\<lparr>st_db := db\<rparr>))))
      | (_, s) \<Rightarrow> (Ret False, s))"

subsection \<open>Recovery\<close>

text \<open>What \<open>replayWAL\<close> does with an entry. Nothing is logged again, so no clock is read. Failures
  are logged and skipped. A panic (a closed event stream) cannot happen before \<open>Shutdown\<close>.\<close>

definition restore_entry ::
  "('db, 'txn) badger \<Rightarrow> json_codec \<Rightarrow> nat \<Rightarrow> WALEntryType \<Rightarrow> bytes \<Rightarrow> 'db Storage \<Rightarrow> 'db Storage" where
  "restore_entry B J pick ty data s =
     (if ty = WALWorkUnit then
        (case UnmarshalWorkUnit J data of
           None \<Rightarrow> s
         | Some workUnit \<Rightarrow> snd (storeWorkUnitInternal B J 0 pick workUnit False s))
      else if ty = WALContext then
        (case UnmarshalContext J data of
           None \<Rightarrow> s
         | Some context \<Rightarrow> snd (storeContextInternal B J 0 pick context False s))
      else if ty = WALLock then
        (case UnmarshalLock J data of
           None \<Rightarrow> s
         | Some lock \<Rightarrow> snd (storeLockInternal B J 0 pick lock False s))
      else s)"

text \<open>The entries are numbered, so that each has its own eviction choice.\<close>

definition restore_nth ::
  "('db, 'txn) badger \<Rightarrow> json_codec \<Rightarrow> (nat \<Rightarrow> nat) \<Rightarrow> WALEntryType \<Rightarrow> bytes \<Rightarrow>
   nat \<times> 'db Storage \<Rightarrow> nat \<times> 'db Storage" where
  "restore_nth B J picks ty data = (\<lambda>(i, s). (Suc i, restore_entry B J (picks i) ty data s))"

text \<open>The configuration and \<open>NewStorage\<close> after the files have been opened: \<open>db\<close> is the database
  \<open>badger.Open\<close> returned and \<open>file\<close> the contents of the log.\<close>

record StorageConfig =
  cfg_DataDir :: bytes
  cfg_CacheEnabled :: bool
  cfg_WALBatchSize :: int
  cfg_WALSyncInterval :: duration
  cfg_WorkUnitCacheSize :: int
  cfg_ContextCacheSize :: int
  cfg_LockCacheSize :: int
  cfg_CacheExpiration :: duration

definition DefaultConfig :: StorageConfig where
  "DefaultConfig = \<lparr>cfg_DataDir = ''./data'', cfg_CacheEnabled = True, cfg_WALBatchSize = 64,
     cfg_WALSyncInterval = 2 * Millisecond, cfg_WorkUnitCacheSize = 10000,
     cfg_ContextCacheSize = 1000, cfg_LockCacheSize = 5000, cfg_CacheExpiration = 30 * Second\<rparr>"

datatype new_storage_error = CacheInit | ReplayFailed wal_error

definition default_if_nonpos :: "int \<Rightarrow> int \<Rightarrow> int" where
  "default_if_nonpos d x = (if x \<le> 0 then d else x)"

definition wal_batch_size :: "StorageConfig \<Rightarrow> nat" where
  "wal_batch_size config = nat (default_if_nonpos (cfg_WALBatchSize DefaultConfig) (cfg_WALBatchSize config))"

definition config_cache :: "StorageConfig \<Rightarrow> Cache option" where
  "config_cache config =
     NewCache
       (default_if_nonpos (cfg_WorkUnitCacheSize DefaultConfig) (cfg_WorkUnitCacheSize config))
       (default_if_nonpos (cfg_ContextCacheSize DefaultConfig) (cfg_ContextCacheSize config))
       (default_if_nonpos (cfg_LockCacheSize DefaultConfig) (cfg_LockCacheSize config))
       (default_if_nonpos (cfg_CacheExpiration DefaultConfig) (cfg_CacheExpiration config))"

definition NewStorage ::
  "('db, 'txn) badger \<Rightarrow> json_codec \<Rightarrow> (nat \<Rightarrow> nat) \<Rightarrow> StorageConfig \<Rightarrow> 'db \<Rightarrow> bytes \<Rightarrow>
   new_storage_error + 'db Storage" where
  "NewStorage B J picks config db file =
     (let s = \<lparr>st_CacheEnabled = cfg_CacheEnabled config, st_cache = None, st_db = db, st_wal = [],
            st_events = make_chan 1000\<rparr>;
          cached = (if cfg_CacheEnabled config then map_option (\<lambda>c. s\<lparr>st_cache := Some c\<rparr>) (config_cache config)
                    else Some s)
      in case cached of
           None \<Rightarrow> Inl CacheInit
         | Some s \<Rightarrow>
             (case replayWAL (restore_nth B J picks) file (0, s) of
                (Some e, _) \<Rightarrow> Inl (ReplayFailed e)
              | (None, _, s) \<Rightarrow> Inr s))"

definition ShutdownStorage :: "'db Storage \<Rightarrow> 'db Storage" where
  "ShutdownStorage s = s\<lparr>st_events := close_chan (st_events s)\<rparr>"

end
