(* ===== verification/Lock_Spec.thy ===== *)
theory Lock_Spec
  imports Proto_Types
begin

text \<open>
  What the program promises of a lock service, whichever layer provides it: the storage
  (\<open>internal/storage/badger\<close>), the lock manager and the enhanced lock manager
  (\<open>internal/lockmanager\<close>). The contract is a locale over the table of locks an implementation
  keeps; the exclusion theorem is proved once from the contract. The theories of the
  implementations interpret it.

  \<open>ok s p\<close> is an implementation's invariant with what concerns the path \<open>p\<close>; \<open>adm\<close> are the strings
  an implementation represents faithfully (the storage: those that survive their JSON encoding).
\<close>

datatype 't lock_call =
    CallAcquire env bytes bytes 't
  | CallRelease env bytes bytes bytes

fun caller :: "'t lock_call \<Rightarrow> bytes" where
  "caller (CallAcquire E p a ttl) = a"
| "caller (CallRelease E p a i) = a"

text \<open>The strings of a call, with the identifier it would generate.\<close>

fun call_strings :: "'t lock_call \<Rightarrow> bytes set" where
  "call_strings (CallAcquire E p a ttl) = {p, a, env_uuid E}"
| "call_strings (CallRelease E p a i) = {p, a, i}"

text \<open>The instant at which a call looks at the lock it finds.\<close>

fun call_time :: "'t lock_call \<Rightarrow> gotime" where
  "call_time (CallAcquire E p a ttl) = env_now E 0"
| "call_time (CallRelease E p a i) = env_now E 0"

fun run_call ::
  "(env \<Rightarrow> bytes \<Rightarrow> bytes \<Rightarrow> 't \<Rightarrow> 's \<Rightarrow> ('e, LockHandle) outcome \<times> 's) \<Rightarrow>
   (env \<Rightarrow> bytes \<Rightarrow> bytes \<Rightarrow> bytes \<Rightarrow> 's \<Rightarrow> ('e, bool) outcome \<times> 's) \<Rightarrow> 't lock_call \<Rightarrow> 's \<Rightarrow> 's" where
  "run_call acq rel (CallAcquire E p a ttl) s = snd (acq E p a ttl s)"
| "run_call acq rel (CallRelease E p a i) s = snd (rel E p a i s)"

locale lock_service =
  fixes tbl :: "'s \<Rightarrow> bytes \<Rightarrow> LockHandle option"
    and ok :: "'s \<Rightarrow> bytes \<Rightarrow> bool"
    and adm :: "bytes \<Rightarrow> bool"
    and acq :: "env \<Rightarrow> bytes \<Rightarrow> bytes \<Rightarrow> 't \<Rightarrow> 's \<Rightarrow> ('e, LockHandle) outcome \<times> 's"
    and rel :: "env \<Rightarrow> bytes \<Rightarrow> bytes \<Rightarrow> bytes \<Rightarrow> 's \<Rightarrow> ('e, bool) outcome \<times> 's"
  assumes acq_blocked: "\<lbrakk>ok s p; tbl s p = Some l; lk_HolderAgent l \<noteq> a; live (env_now E 0) l\<rbrakk> \<Longrightarrow>
      \<exists>e s'. acq E p a ttl s = (Err e, s') \<and> ok s' p \<and> tbl s' p = tbl s p"
    and acq_elsewhere: "\<lbrakk>ok s p; q \<noteq> p; adm q; adm a; adm (env_uuid E); acq E q a ttl s = (r, s')\<rbrakk> \<Longrightarrow>
      ok s' p \<and> tbl s' p = tbl s p"
    and acq_gives: "\<lbrakk>ok s p; adm p; adm a; adm (env_uuid E); acq E p a ttl s = (Ret l, s')\<rbrakk> \<Longrightarrow>
      ok s' p \<and> tbl s' p = Some l \<and> lk_HolderAgent l = a \<and> lk_ResourcePath l = p"
    and rel_blocked: "\<lbrakk>ok s p; tbl s p = Some l; lk_HolderAgent l \<noteq> a\<rbrakk> \<Longrightarrow>
      \<exists>e s'. rel E p a i s = (Err e, s') \<and> ok s' p \<and> tbl s' p = tbl s p"
    and rel_elsewhere: "\<lbrakk>ok s p; q \<noteq> p; rel E q a i s = (x, s')\<rbrakk> \<Longrightarrow> ok s' p \<and> tbl s' p = tbl s p"
begin

abbreviation call :: "'t lock_call \<Rightarrow> 's \<Rightarrow> 's" where
  "call \<equiv> run_call acq rel"

lemma call_by_other:
  assumes "ok s p" and "tbl s p = Some l" and "caller c \<noteq> lk_HolderAgent l" and "live (call_time c) l"
    and "\<forall>x \<in> call_strings c. adm x"
  shows "ok (call c s) p \<and> tbl (call c s) p = Some l"
proof (cases c)
  case (CallAcquire E q a ttl)
  show ?thesis
  proof (cases "q = p")
    case True
    with acq_blocked [OF assms(1,2), of a E ttl] CallAcquire assms(2-4) show ?thesis by auto
  next
    case False
    obtain r s' where run: "acq E q a ttl s = (r, s')" by (cases "acq E q a ttl s")
    with acq_elsewhere [OF assms(1) False _ _ _ run] CallAcquire assms(2,5) show ?thesis by simp
  qed
next
  case (CallRelease E q a i)
  show ?thesis
  proof (cases "q = p")
    case True
    with rel_blocked [OF assms(1,2), of a E i] CallRelease assms(2,3) show ?thesis by auto
  next
    case False
    obtain x s' where run: "rel E q a i s = (x, s')" by (cases "rel E q a i s")
    with rel_elsewhere [OF assms(1) False run] CallRelease assms(2) show ?thesis by simp
  qed
qed

text \<open>A lock stays with its holder through any calls of other agents before it expires.\<close>

lemma held_through:
  assumes "ok s p" and "tbl s p = Some l"
    and "\<forall>c \<in> set cs. caller c \<noteq> lk_HolderAgent l \<and> live (call_time c) l \<and> (\<forall>x \<in> call_strings c. adm x)"
  shows "ok (fold call cs s) p \<and> tbl (fold call cs s) p = Some l"
  using assms
proof (induction cs arbitrary: s)
  case (Cons c cs)
  have "ok (call c s) p \<and> tbl (call c s) p = Some l"
    by (rule call_by_other) (use Cons.prems in auto)
  then show ?case using Cons.IH [of "call c s"] Cons.prems(3) by simp
qed simp

text \<open>Mutual exclusion: after a successful acquisition every acquisition of the same path by
  another agent fails as long as the lock is live, whatever other agents did in between.\<close>

lemma exclusion:
  assumes "ok s p" and "acq E p a ttl s = (Ret l, s')" and "adm p" "adm a" "adm (env_uuid E)"
    and "\<forall>c \<in> set cs. caller c \<noteq> a \<and> live (call_time c) l \<and> (\<forall>x \<in> call_strings c. adm x)"
    and "b \<noteq> a" and "live (env_now E' 0) l"
  shows "\<exists>e s''. acq E' p b ttl' (fold call cs s') = (Err e, s'') \<and> tbl s'' p = Some l"
proof -
  have got: "ok s' p" "tbl s' p = Some l" "lk_HolderAgent l = a"
    using acq_gives [OF assms(1,3-5,2)] by auto
  then have "ok (fold call cs s') p \<and> tbl (fold call cs s') p = Some l"
    using held_through assms(6) by blast
  with acq_blocked [of "fold call cs s'" p l b E' ttl'] got assms(7,8) show ?thesis by auto
qed

end

end
