(* ===== verification/Storage_Locks.thy ===== *)
theory Storage_Locks
  imports Storage_Engine Lock_Spec
begin

text \<open>
  The locks of the storage: the invariant that ties the cached locks to the stored ones, what each
  operation does to it, and the interpretation of the lock contract on the storage's operations.
\<close>

lemma prefixKey_inject [simp]: "prefixKey p a = prefixKey p b \<longleftrightarrow> a = b"
  by (simp add: prefixKey_def)

lemma prefix_distinct [simp]:
  "prefixKey prefixLocks a \<noteq> prefixKey prefixContexts b" "prefixKey prefixContexts a \<noteq> prefixKey prefixLocks b"
  "prefixKey prefixLocks a \<noteq> prefixKey prefixWorkUnits b" "prefixKey prefixWorkUnits a \<noteq> prefixKey prefixLocks b"
  "prefixKey prefixContexts a \<noteq> prefixKey prefixWorkUnits b" "prefixKey prefixWorkUnits a \<noteq> prefixKey prefixContexts b"
  "prefixKey prefixLocks a \<noteq> makeContextTimeKey c t" "makeContextTimeKey c t \<noteq> prefixKey prefixLocks a"
  "prefixKey prefixContexts a \<noteq> makeContextTimeKey c t" "makeContextTimeKey c t \<noteq> prefixKey prefixContexts a"
  "prefixKey prefixWorkUnits a \<noteq> makeContextTimeKey c t" "makeContextTimeKey c t \<noteq> prefixKey prefixWorkUnits a"
  by (simp_all add: prefixKey_def prefix_defs makeContextTimeKey_def)

lemma active_cache_simps [simp]:
  "active_cache (s\<lparr>st_db := db\<rparr>) = active_cache s" "active_cache (s\<lparr>st_wal := w\<rparr>) = active_cache s"
  "active_cache (s\<lparr>st_events := ch\<rparr>) = active_cache s" "active_cache (log_entry ty t d s) = active_cache s"
  "active_cache (on_cache f s) = map_option f (active_cache s)"
  by (simp_all add: active_cache_def log_entry_def on_cache_def split: option.splits)

lemma on_cache_fields [simp]:
  "st_db (on_cache f s) = st_db s" "st_wal (on_cache f s) = st_wal s" "st_events (on_cache f s) = st_events s"
  "st_db (log_entry ty t d s) = st_db s" "st_events (log_entry ty t d s) = st_events s"
  by (simp_all add: on_cache_def log_entry_def split: option.splits)

text \<open>The lock the database holds for a path, and the cached lock for it.\<close>

definition db_lock :: "json_codec \<Rightarrow> ('db \<Rightarrow> (bytes \<times> bytes) list) \<Rightarrow> 'db Storage \<Rightarrow> bytes \<Rightarrow> LockHandle option" where
  "db_lock J items s p =
     Option.bind (map_of (items (st_db s)) (prefixKey prefixLocks p)) (UnmarshalLock J)"

definition cached_lock :: "'db Storage \<Rightarrow> bytes \<Rightarrow> LockHandle option" where
  "cached_lock s p = Option.bind (active_cache s) (\<lambda>c. cacheGetLock c p)"

definition lock_strings :: "LockHandle \<Rightarrow> bytes set" where
  "lock_strings l = {lk_ResourcePath l, lk_HolderAgent l, lk_LockId l}"

text \<open>\<open>encoding/json\<close> keeps every lock whose strings are valid (for the real codec: valid UTF-8).\<close>

definition lock_codec_ok :: "json_codec \<Rightarrow> (bytes \<Rightarrow> bool) \<Rightarrow> bool" where
  "lock_codec_ok J V \<longleftrightarrow> (\<forall>l. (\<forall>x \<in> lock_strings l. V x) \<longrightarrow> json_rt_lock J l)"

definition keyed_lock :: "(bytes \<Rightarrow> bool) \<Rightarrow> bytes \<Rightarrow> LockHandle \<Rightarrow> bool" where
  "keyed_lock V p l \<longleftrightarrow> lk_ResourcePath l = p \<and> (\<forall>x \<in> lock_strings l. V x)"

definition lock_inv ::
  "('db, 'txn) badger \<Rightarrow> json_codec \<Rightarrow> (bytes \<Rightarrow> bool) \<Rightarrow> ('db \<Rightarrow> (bytes \<times> bytes) list) \<Rightarrow>
   ('txn \<Rightarrow> (bytes \<times> bytes option) list) \<Rightarrow> 'db Storage \<Rightarrow> bool" where
  "lock_inv B J V items writes s \<longleftrightarrow>
     badger_ok B items writes \<and> lock_codec_ok J V \<and>
     (\<forall>p l. db_lock J items s p = Some l \<longrightarrow> keyed_lock V p l) \<and>
     (\<forall>p l. cached_lock s p = Some l \<longrightarrow> keyed_lock V p l)"

definition lock_coherent :: "json_codec \<Rightarrow> ('db \<Rightarrow> (bytes \<times> bytes) list) \<Rightarrow> 'db Storage \<Rightarrow> bytes \<Rightarrow> bool" where
  "lock_coherent J items s p \<longleftrightarrow> (\<forall>l. cached_lock s p = Some l \<longrightarrow> db_lock J items s p = Some l)"

lemma cached_lock_simps [simp]:
  "cached_lock (s\<lparr>st_db := db\<rparr>) = cached_lock s" "cached_lock (log_entry ty t d s) = cached_lock s"
  by (simp_all add: cached_lock_def fun_eq_iff)

lemma db_lock_simps [simp]:
  "db_lock J items (on_cache f s) = db_lock J items s"
  "db_lock J items (log_entry ty t d s) = db_lock J items s"
  by (simp_all add: db_lock_def fun_eq_iff)

lemma db_lock_put:
  assumes "badger_ok B items writes" and "txnSet B (newTxn B (st_db s)) (prefixKey prefixLocks q) data = Inr t"
    and "txnCommit B (st_db s) t = Inr db"
  shows "db_lock J items (s\<lparr>st_db := db\<rparr>) p = (if p = q then UnmarshalLock J data else db_lock J items s p)"
  using badger_ok_commit [OF assms(1,3)] badger_ok_set [OF assms(1,2)] badger_ok_newTxn [OF assms(1)]
  by (simp add: db_lock_def)

lemma db_lock_remove:
  assumes "badger_ok B items writes" and "txnDelete B (newTxn B (st_db s)) (prefixKey prefixLocks q) = Inr t"
    and "txnCommit B (st_db s) t = Inr db"
  shows "db_lock J items (s\<lparr>st_db := db\<rparr>) p = (if p = q then None else db_lock J items s p)"
  using badger_ok_commit [OF assms(1,3)] badger_ok_delete [OF assms(1,2)] badger_ok_newTxn [OF assms(1)]
  by (simp add: db_lock_def)

lemma cached_SetLock:
  "cached_lock (on_cache (SetLock pick l) s) p = Some m \<Longrightarrow>
   (if p = lk_ResourcePath l then m = l else cached_lock s p = Some m)"
  by (cases "active_cache s") (auto simp: cached_lock_def dest!: lk_cache.hit_after_put)

lemma cached_share_lock:
  "cached_lock (on_cache (share_lock l) s) p =
   (if p = lk_ResourcePath l \<and> cached_lock s p \<noteq> None then Some l else cached_lock s p)"
  by (cases "active_cache s") (auto simp: cached_lock_def share_lock_def cacheGetLock_def)

lemma cached_DeleteLock:
  "cached_lock (on_cache (cacheDeleteLock q) s) p = (if p = q then None else cached_lock s p)"
  by (cases "active_cache s") (auto simp: cached_lock_def cache_defs)

subsection \<open>What each operation does to the table of locks\<close>

lemma GetLock_effect:
  assumes inv: "lock_inv B J V items writes s" and get: "GetLock B J pick q s = (r, s')"
  shows "lock_inv B J V items writes s'" and "db_lock J items s' = db_lock J items s"
    and "lock_coherent J items s p \<Longrightarrow> lock_coherent J items s' p"
    and "found_lock r = Some l \<Longrightarrow> keyed_lock V q l"
    and "lock_coherent J items s q \<Longrightarrow> found_lock r = db_lock J items s q"
    and "r \<noteq> Panic"
proof -
  have get': "viewGet B (st_db s) (prefixKey prefixLocks q) =
      (case map_of (items (st_db s)) (prefixKey prefixLocks q) of None \<Rightarrow> Inl ErrKeyNotFound | Some v \<Rightarrow> Inr v)"
    using inv badger_ok_get by (auto simp: lock_inv_def)
  consider (hit) m where "cached_lock s q = Some m" "r = Ret m" "s' = s"
    | (miss) e where "cached_lock s q = None" "db_lock J items s q = None" "r = Err e" "s' = s"
    | (fill) m where "cached_lock s q = None" "db_lock J items s q = Some m" "r = Ret m"
        "s' = on_cache (SetLock pick m) s"
    using get get' unfolding GetLock_def
    by (auto simp: cached_lock_def db_lock_def split: option.splits)
  then have "lock_inv B J V items writes s' \<and> db_lock J items s' = db_lock J items s \<and>
    (lock_coherent J items s p \<longrightarrow> lock_coherent J items s' p) \<and>
    (found_lock r = Some l \<longrightarrow> keyed_lock V q l) \<and>
    (lock_coherent J items s q \<longrightarrow> found_lock r = db_lock J items s q) \<and> r \<noteq> Panic"
  proof cases
    case hit
    then show ?thesis using inv by (auto simp: lock_inv_def lock_coherent_def found_lock_def)
  next
    case miss
    then show ?thesis using inv by (auto simp: found_lock_def)
  next
    case fill
    have key: "keyed_lock V q m" using inv fill(2) by (auto simp: lock_inv_def)
    then have path: "lk_ResourcePath m = q" by (simp add: keyed_lock_def)
    have cached: "if p = q then x = m else cached_lock s p = Some x" if "cached_lock s' p = Some x" for p x
      using cached_SetLock [of pick m s p x] that fill(4) path by simp
    have "lock_inv B J V items writes s'"
      using inv fill(4) key cached by (fastforce simp: lock_inv_def split: if_splits)
    moreover have "lock_coherent J items s' p" if "lock_coherent J items s p"
      using that cached fill(2,4) by (fastforce simp: lock_coherent_def split: if_splits)
    ultimately show ?thesis using fill key by (auto simp: found_lock_def)
  qed
  then show "lock_inv B J V items writes s'" "db_lock J items s' = db_lock J items s"
    "lock_coherent J items s p \<Longrightarrow> lock_coherent J items s' p"
    "found_lock r = Some l \<Longrightarrow> keyed_lock V q l"
    "lock_coherent J items s q \<Longrightarrow> found_lock r = db_lock J items s q" "r \<noteq> Panic"
    by simp_all
qed

lemma share_lock_effect:
  assumes "lock_inv B J V items writes s" and "keyed_lock V q l"
  shows "lock_inv B J V items writes (on_cache (share_lock l) s)"
    and "p \<noteq> q \<Longrightarrow> lock_coherent J items s p \<Longrightarrow> lock_coherent J items (on_cache (share_lock l) s) p"
  using assms by (auto simp: lock_inv_def lock_coherent_def cached_share_lock keyed_lock_def)

lemma storeLockInternal_effect:
  assumes inv: "lock_inv B J V items writes s" and key: "keyed_lock V q l"
    and run: "storeLockInternal B J now pick l logToWAL s = (r, s')"
  shows "lock_inv B J V items writes s'"
    and "p \<noteq> q \<Longrightarrow> db_lock J items s' p = db_lock J items s p"
    and "p \<noteq> q \<Longrightarrow> lock_coherent J items s p \<Longrightarrow> lock_coherent J items s' p"
    and "r = Ret () \<Longrightarrow> db_lock J items s' q = Some l \<and> lock_coherent J items s' q"
    and "r \<noteq> Ret () \<Longrightarrow> st_db s' = st_db s \<and> cached_lock s' = cached_lock s"
    and "r \<noteq> Panic"
proof -
  have path: "lk_ResourcePath l = q" using key by (simp add: keyed_lock_def)
  have B: "badger_ok B items writes" using inv by (simp add: lock_inv_def)
  obtain data where data: "MarshalLock J l = Some data" "UnmarshalLock J data = Some l"
  proof -
    have "json_rt_lock J l" using inv key by (simp add: lock_inv_def lock_codec_ok_def keyed_lock_def)
    then show ?thesis using that by (auto simp: json_rt_lock_def)
  qed
  define s1 where "s1 = (if logToWAL then log_entry WALLock now data s else s)"
  have s1: "st_db s1 = st_db s" "cached_lock s1 = cached_lock s" "db_lock J items s1 = db_lock J items s"
    by (simp_all add: s1_def)
  consider (fail) e where "r = Err e" "s' = s1"
    | (stored) t db where "txnSet B (newTxn B (st_db s)) (prefixKey prefixLocks q) data = Inr t"
        "txnCommit B (st_db s) t = Inr db" "r = Ret ()" "s' = on_cache (SetLock pick l) (s1\<lparr>st_db := db\<rparr>)"
    using run unfolding storeLockInternal_def
    by (auto simp: data path s1(1) Let_def simp flip: s1_def split: sum.splits)
  then have "lock_inv B J V items writes s' \<and> (p \<noteq> q \<longrightarrow> db_lock J items s' p = db_lock J items s p) \<and>
    (p \<noteq> q \<longrightarrow> lock_coherent J items s p \<longrightarrow> lock_coherent J items s' p) \<and>
    (r = Ret () \<longrightarrow> db_lock J items s' q = Some l \<and> lock_coherent J items s' q) \<and>
    (r \<noteq> Ret () \<longrightarrow> st_db s' = st_db s \<and> cached_lock s' = cached_lock s) \<and> r \<noteq> Panic"
  proof cases
    case fail
    then show ?thesis using inv s1 by (simp add: lock_inv_def lock_coherent_def)
  next
    case stored
    have db: "db_lock J items s' x = (if x = q then Some l else db_lock J items s x)" for x
      using db_lock_put [OF B, of s1 q data t db J x] stored s1 data by simp
    have cached: "if x = q then m = l else cached_lock s x = Some m" if "cached_lock s' x = Some m" for x m
      using cached_SetLock [of pick l "s1\<lparr>st_db := db\<rparr>" x m] that stored(4) path s1
      by (auto split: if_splits)
    have "lock_inv B J V items writes s'"
      using inv key db cached by (fastforce simp: lock_inv_def split: if_splits)
    moreover have "lock_coherent J items s' x" if "x = q \<or> lock_coherent J items s x" for x
      using that db cached by (fastforce simp: lock_coherent_def split: if_splits)
    ultimately show ?thesis using db stored(3) by simp
  qed
  then show "lock_inv B J V items writes s'" "p \<noteq> q \<Longrightarrow> db_lock J items s' p = db_lock J items s p"
    "p \<noteq> q \<Longrightarrow> lock_coherent J items s p \<Longrightarrow> lock_coherent J items s' p"
    "r = Ret () \<Longrightarrow> db_lock J items s' q = Some l \<and> lock_coherent J items s' q"
    "r \<noteq> Ret () \<Longrightarrow> st_db s' = st_db s \<and> cached_lock s' = cached_lock s" "r \<noteq> Panic"
    by simp_all
qed


lemma AcquireLock_decide_cases [consumes 6, case_names refused granted]:
  assumes "AcquireLock_decide E req found = d" and "alr_ResourcePath req = q"
    and "\<And>l. found = Some l \<Longrightarrow> keyed_lock V q l"
    and "V q" "V (alr_AgentId req)" "V (env_uuid E)"
  obtains (refused) l where "d = Inl LockedByOther" "found = Some l" "live (env_now E 0) l"
      "lk_HolderAgent l \<noteq> alr_AgentId req"
    | (granted) l shared where "d = Inr (l, shared)" "keyed_lock V q l" "lk_HolderAgent l = alr_AgentId req"
      "lk_ExpiresAt l = Some (env_now E 1 + ttl_duration (alr_TtlSeconds req))"
  using assms
  by (cases found)
    (auto simp: AcquireLock_decide_def keyed_lock_def lock_strings_def Let_def split: if_splits, blast)

lemma AcquireLock_commit_effect:
  assumes inv: "lock_inv B J V items writes s" and key: "keyed_lock V q l"
    and run: "AcquireLock_commit B J E (Inr (l, shared)) s = (r, s')"
  shows "lock_inv B J V items writes s'"
    and "p \<noteq> q \<Longrightarrow> db_lock J items s' p = db_lock J items s p"
    and "p \<noteq> q \<Longrightarrow> lock_coherent J items s p \<Longrightarrow> lock_coherent J items s' p"
    and "r = Ret m \<Longrightarrow> m = l \<and> db_lock J items s' q = Some l \<and> lock_coherent J items s' q"
    and "r \<noteq> Panic"
proof -
  define s1 where "s1 = (if shared then on_cache (share_lock l) s else s)"
  have inv1: "lock_inv B J V items writes s1"
    using inv share_lock_effect(1) [OF inv key] by (simp add: s1_def)
  have db1: "db_lock J items s1 = db_lock J items s" by (simp add: s1_def)
  have coh1: "lock_coherent J items s1 p" if "p \<noteq> q" "lock_coherent J items s p"
    using that share_lock_effect(2) [OF inv key] by (simp add: s1_def)
  obtain r1 s2 where store: "storeLockInternal B J (env_now E 2) (env_pick E 1) l True s1 = (r1, s2)"
    by (cases "storeLockInternal B J (env_now E 2) (env_pick E 1) l True s1")
  note eff = storeLockInternal_effect [OF inv1 key store]
  have r: "s' = s2" "r = Ret m \<Longrightarrow> r1 = Ret () \<and> m = l" "r \<noteq> Panic"
    using run store eff(6) by (auto simp: AcquireLock_commit_def Let_def simp flip: s1_def split: outcome.splits)
  show "lock_inv B J V items writes s'" "r \<noteq> Panic" using eff(1) r by simp_all
  show "p \<noteq> q \<Longrightarrow> db_lock J items s' p = db_lock J items s p" using eff(2) r db1 by simp
  show "p \<noteq> q \<Longrightarrow> lock_coherent J items s p \<Longrightarrow> lock_coherent J items s' p"
    using eff(3) coh1 r by simp
  show "r = Ret m \<Longrightarrow> m = l \<and> db_lock J items s' q = Some l \<and> lock_coherent J items s' q"
    using eff(4) r by blast
qed

lemma ReleaseLock_cases [consumes 3]:
  assumes run: "ReleaseLock B J E req s = (r, s')" and q: "rlr_ResourcePath req = q"
    and get: "GetLock B J (env_pick E 0) q s = (r1, s1)"
  obtains (none) "found_lock r1 = None" "r = Ret False" "s' = s1"
    | (other) m where "found_lock r1 = Some m" "lk_HolderAgent m \<noteq> rlr_AgentId req" "r = Err HeldByOther" "s' = s1"
    | (fails) m e where "found_lock r1 = Some m" "lk_HolderAgent m = rlr_AgentId req" "r = Err e" "s' = s1"
    | (gone) m t db where "found_lock r1 = Some m" "lk_HolderAgent m = rlr_AgentId req"
        "lk_LockId m = rlr_LockId req"
        "txnDelete B (newTxn B (st_db s1)) (prefixKey prefixLocks q) = Inr t"
        "txnCommit B (st_db s1) t = Inr db" "r = Ret True"
        "s' = on_cache (cacheDeleteLock q) (s1\<lparr>st_db := db\<rparr>)"
proof (cases "found_lock r1")
  case None
  with run get q show ?thesis
    by (intro none) (auto simp: ReleaseLock_def found_lock_def split: outcome.splits)
next
  case (Some m)
  then have r1: "r1 = Ret m" by (auto simp: found_lock_def split: outcome.splits)
  show ?thesis
  proof (cases "lk_HolderAgent m = rlr_AgentId req \<and> lk_LockId m = rlr_LockId req")
    case False
    with run get q r1 Some other fails show ?thesis
      by (auto simp: ReleaseLock_def split: if_splits)
  next
    case True
    with run get q r1 have run': "(case txnDelete B (newTxn B (st_db s1)) (prefixKey prefixLocks q) of
        Inl e \<Rightarrow> (Err (DeleteFailed e), s1)
      | Inr t \<Rightarrow> (case txnCommit B (st_db s1) t of
          Inl e \<Rightarrow> (Err (CommitFailed e), s1)
        | Inr db \<Rightarrow> (Ret True, on_cache (cacheDeleteLock q) (s1\<lparr>st_db := db\<rparr>)))) = (r, s')"
      by (auto simp: ReleaseLock_def split: sum.splits)
    show ?thesis
    proof (cases "txnDelete B (newTxn B (st_db s1)) (prefixKey prefixLocks q)")
      case (Inl e)
      with run' fails Some True show ?thesis by auto
    next
      case (Inr t)
      show ?thesis
      proof (cases "txnCommit B (st_db s1) t")
        case (Inl e)
        with run' \<open>_ = Inr t\<close> fails Some True show ?thesis by auto
      next
        case db: (Inr db)
        with run' Inr have "r = Ret True" "s' = on_cache (cacheDeleteLock q) (s1\<lparr>st_db := db\<rparr>)" by simp_all
        with gone Some True Inr db show ?thesis by blast
      qed
    qed
  qed
qed

lemma ReleaseLock_effect:
  assumes inv: "lock_inv B J V items writes s" and run: "ReleaseLock B J E req s = (r, s')"
    and q: "rlr_ResourcePath req = q"
  shows "lock_inv B J V items writes s'"
    and "p \<noteq> q \<Longrightarrow> db_lock J items s' p = db_lock J items s p"
    and "lock_coherent J items s p \<Longrightarrow> lock_coherent J items s' p"
    and "r = Ret True \<Longrightarrow> lock_coherent J items s q \<Longrightarrow> db_lock J items s' q = None \<and>
      (\<exists>l. db_lock J items s q = Some l \<and> lk_HolderAgent l = rlr_AgentId req \<and> lk_LockId l = rlr_LockId req)"
    and "r \<noteq> Ret True \<Longrightarrow> db_lock J items s' q = db_lock J items s q"
    and "lock_coherent J items s q \<Longrightarrow> db_lock J items s q = Some l \<Longrightarrow> lk_HolderAgent l \<noteq> rlr_AgentId req \<Longrightarrow>
      r = Err HeldByOther"
    and "lock_coherent J items s q \<Longrightarrow> db_lock J items s q = None \<Longrightarrow> r = Ret False"
proof -
  have B: "badger_ok B items writes" using inv by (simp add: lock_inv_def)
  obtain r1 s1 where get: "GetLock B J (env_pick E 0) q s = (r1, s1)"
    by (cases "GetLock B J (env_pick E 0) q s")
  note g = GetLock_effect [OF inv get]
  from run q get have "lock_inv B J V items writes s' \<and> (p \<noteq> q \<longrightarrow> db_lock J items s' p = db_lock J items s p) \<and>
    (lock_coherent J items s p \<longrightarrow> lock_coherent J items s' p) \<and>
    (r = Ret True \<longrightarrow> db_lock J items s' q = None \<and> (\<exists>l. found_lock r1 = Some l \<and>
       lk_HolderAgent l = rlr_AgentId req \<and> lk_LockId l = rlr_LockId req)) \<and>
    (r \<noteq> Ret True \<longrightarrow> db_lock J items s' q = db_lock J items s q) \<and>
    (found_lock r1 = Some l \<longrightarrow> lk_HolderAgent l \<noteq> rlr_AgentId req \<longrightarrow> r = Err HeldByOther) \<and>
    (found_lock r1 = None \<longrightarrow> r = Ret False)"
  proof (cases rule: ReleaseLock_cases)
    case (gone m t db)
    have db: "db_lock J items s' x = (if x = q then None else db_lock J items s x)" for x
      using db_lock_remove [OF B gone(4,5), of J x] gone(7) g(2) by simp
    have cached: "cached_lock s' x = (if x = q then None else cached_lock s1 x)" for x
      using gone(7) by (simp add: cached_DeleteLock)
    have "lock_inv B J V items writes s'" "lock_coherent J items s1 x \<Longrightarrow> lock_coherent J items s' x" for x
      using g(1,2) db cached by (auto simp: lock_inv_def lock_coherent_def)
    then show ?thesis using gone db g(3) by auto
  qed (use g in auto)
  then show "lock_inv B J V items writes s'" "p \<noteq> q \<Longrightarrow> db_lock J items s' p = db_lock J items s p"
    "lock_coherent J items s p \<Longrightarrow> lock_coherent J items s' p"
    "r = Ret True \<Longrightarrow> lock_coherent J items s q \<Longrightarrow> db_lock J items s' q = None \<and>
      (\<exists>l. db_lock J items s q = Some l \<and> lk_HolderAgent l = rlr_AgentId req \<and> lk_LockId l = rlr_LockId req)"
    "r \<noteq> Ret True \<Longrightarrow> db_lock J items s' q = db_lock J items s q"
    "lock_coherent J items s q \<Longrightarrow> db_lock J items s q = Some l \<Longrightarrow> lk_HolderAgent l \<noteq> rlr_AgentId req \<Longrightarrow>
      r = Err HeldByOther"
    "lock_coherent J items s q \<Longrightarrow> db_lock J items s q = None \<Longrightarrow> r = Ret False"
    using g(5) by simp_all
qed


subsection \<open>The storage as a lock service\<close>

definition storage_acquire ::
  "('db, 'txn) badger \<Rightarrow> json_codec \<Rightarrow> env \<Rightarrow> bytes \<Rightarrow> bytes \<Rightarrow> 32 word \<Rightarrow> 'db Storage \<Rightarrow>
   (storage_error, LockHandle) outcome \<times> 'db Storage" where
  "storage_acquire B J E p a ttl =
     AcquireLock B J E \<lparr>alr_ResourcePath = p, alr_AgentId = a, alr_TtlSeconds = ttl\<rparr>"

definition storage_release ::
  "('db, 'txn) badger \<Rightarrow> json_codec \<Rightarrow> env \<Rightarrow> bytes \<Rightarrow> bytes \<Rightarrow> bytes \<Rightarrow> 'db Storage \<Rightarrow>
   (storage_error, bool) outcome \<times> 'db Storage" where
  "storage_release B J E p a i =
     ReleaseLock B J E \<lparr>rlr_ResourcePath = p, rlr_AgentId = a, rlr_LockId = i\<rparr>"

definition lock_ok ::
  "('db, 'txn) badger \<Rightarrow> json_codec \<Rightarrow> (bytes \<Rightarrow> bool) \<Rightarrow> ('db \<Rightarrow> (bytes \<times> bytes) list) \<Rightarrow>
   ('txn \<Rightarrow> (bytes \<times> bytes option) list) \<Rightarrow> 'db Storage \<Rightarrow> bytes \<Rightarrow> bool" where
  "lock_ok B J V items writes s p \<longleftrightarrow> lock_inv B J V items writes s \<and> lock_coherent J items s p"

lemma AcquireLock_blocked:
  assumes "lock_ok B J V items writes s p" and "db_lock J items s p = Some l"
    and "lk_HolderAgent l \<noteq> alr_AgentId req" and "live (env_now E 0) l" and "alr_ResourcePath req = p"
  shows "\<exists>s'. AcquireLock B J E req s = (Err LockedByOther, s') \<and> lock_ok B J V items writes s' p \<and>
    db_lock J items s' p = Some l"
proof -
  obtain r1 s1 where get: "GetLock B J (env_pick E 0) p s = (r1, s1)"
    by (cases "GetLock B J (env_pick E 0) p s")
  note g = GetLock_effect [OF _ get, of V items writes]
  have "found_lock r1 = Some l" using g(5) assms(1,2) by (simp add: lock_ok_def)
  then have "AcquireLock B J E req s = (Err LockedByOther, s1)"
    using get assms(3-5) by (simp add: AcquireLock_def AcquireLock_decide_def AcquireLock_commit_def Let_def)
  then show ?thesis using g(1,2,3) assms(1,2) by (auto simp: lock_ok_def)
qed

lemma AcquireLock_effect:
  assumes ok: "lock_inv B J V items writes s" and V: "V q" "V (alr_AgentId req)" "V (env_uuid E)"
    and q: "alr_ResourcePath req = q" and run: "AcquireLock B J E req s = (r, s')"
  shows "lock_inv B J V items writes s'"
    and "p \<noteq> q \<Longrightarrow> db_lock J items s' p = db_lock J items s p"
    and "p \<noteq> q \<Longrightarrow> lock_coherent J items s p \<Longrightarrow> lock_coherent J items s' p"
    and "r = Ret l \<Longrightarrow> db_lock J items s' q = Some l \<and> lock_coherent J items s' q \<and> keyed_lock V q l \<and>
      lk_HolderAgent l = alr_AgentId req \<and> expiry l = env_now E 1 + ttl_duration (alr_TtlSeconds req)"
proof -
  obtain r1 s1 where get: "GetLock B J (env_pick E 0) q s = (r1, s1)"
    by (cases "GetLock B J (env_pick E 0) q s")
  note g = GetLock_effect [OF ok get]
  define d where "d = AcquireLock_decide E req (found_lock r1)"
  have run': "AcquireLock_commit B J E d s1 = (r, s')"
    using run get q by (simp add: AcquireLock_def d_def)
  consider (refused) "d = Inl LockedByOther"
    | (granted) x shared where "d = Inr (x, shared)" "keyed_lock V q x" "lk_HolderAgent x = alr_AgentId req"
      "lk_ExpiresAt x = Some (env_now E 1 + ttl_duration (alr_TtlSeconds req))"
    using AcquireLock_decide_cases [OF d_def [symmetric] q g(4) V] by metis
  then have "lock_inv B J V items writes s' \<and> (p \<noteq> q \<longrightarrow> db_lock J items s' p = db_lock J items s p) \<and>
    (p \<noteq> q \<longrightarrow> lock_coherent J items s p \<longrightarrow> lock_coherent J items s' p) \<and>
    (r = Ret l \<longrightarrow> db_lock J items s' q = Some l \<and> lock_coherent J items s' q \<and> keyed_lock V q l \<and>
      lk_HolderAgent l = alr_AgentId req \<and> expiry l = env_now E 1 + ttl_duration (alr_TtlSeconds req))"
  proof cases
    case refused
    have "r = Err LockedByOther" "s' = s1"
      using run' [unfolded refused] by (simp_all add: AcquireLock_commit_def)
    then show ?thesis using g by simp
  next
    case (granted x shared)
    note e = AcquireLock_commit_effect [OF g(1) granted(2) run' [unfolded granted(1)]]
    show ?thesis using e(1,2,3,4) g(2,3) granted by auto
  qed
  then show "lock_inv B J V items writes s'" "p \<noteq> q \<Longrightarrow> db_lock J items s' p = db_lock J items s p"
    "p \<noteq> q \<Longrightarrow> lock_coherent J items s p \<Longrightarrow> lock_coherent J items s' p"
    "r = Ret l \<Longrightarrow> db_lock J items s' q = Some l \<and> lock_coherent J items s' q \<and> keyed_lock V q l \<and>
      lk_HolderAgent l = alr_AgentId req \<and> expiry l = env_now E 1 + ttl_duration (alr_TtlSeconds req)"
    by simp_all
qed

interpretation storage_locks:
  lock_service "db_lock J items" "lock_ok B J V items writes" V "storage_acquire B J" "storage_release B J"
  for B J V items writes
proof
  fix s p l a ttl and E :: env
  assume "lock_ok B J V items writes s p" "db_lock J items s p = Some l" "lk_HolderAgent l \<noteq> a" "live (env_now E 0) l"
  then show "\<exists>e s'. storage_acquire B J E p a ttl s = (Err e, s') \<and> lock_ok B J V items writes s' p \<and>
      db_lock J items s' p = db_lock J items s p"
    unfolding storage_acquire_def
    using AcquireLock_blocked [of B J V items writes s p l
        "\<lparr>alr_ResourcePath = p, alr_AgentId = a, alr_TtlSeconds = ttl\<rparr>" E] by auto
next
  fix s p q a ttl r s' and E :: env
  assume *: "lock_ok B J V items writes s p" "q \<noteq> p" "V q" "V a" "V (env_uuid E)"
    and run: "storage_acquire B J E q a ttl s = (r, s')"
  have inv: "lock_inv B J V items writes s" using * by (simp add: lock_ok_def)
  note e = AcquireLock_effect [OF inv _ _ _ _ run [unfolded storage_acquire_def]]
  show "lock_ok B J V items writes s' p \<and> db_lock J items s' p = db_lock J items s p"
    using e(1) e(2,3) [where p = p] * by (simp add: lock_ok_def)
next
  fix s p a ttl l s' and E :: env
  assume *: "lock_ok B J V items writes s p" "V p" "V a" "V (env_uuid E)"
    and run: "storage_acquire B J E p a ttl s = (Ret l, s')"
  have inv: "lock_inv B J V items writes s" using * by (simp add: lock_ok_def)
  note e = AcquireLock_effect [OF inv _ _ _ _ run [unfolded storage_acquire_def]]
  show "lock_ok B J V items writes s' p \<and> db_lock J items s' p = Some l \<and> lk_HolderAgent l = a \<and>
      lk_ResourcePath l = p"
    using e(1) e(4) [where l = l] * by (simp add: lock_ok_def keyed_lock_def)
next
  fix s p l a i and E :: env
  assume *: "lock_ok B J V items writes s p" "db_lock J items s p = Some l" "lk_HolderAgent l \<noteq> a"
  obtain r s' where run: "storage_release B J E p a i s = (r, s')" by (cases "storage_release B J E p a i s")
  have inv: "lock_inv B J V items writes s" using * by (simp add: lock_ok_def)
  note e = ReleaseLock_effect [OF inv run [unfolded storage_release_def]]
  show "\<exists>e s'. storage_release B J E p a i s = (Err e, s') \<and> lock_ok B J V items writes s' p \<and>
      db_lock J items s' p = db_lock J items s p"
    using e(1) e(3) [where p = p] e(5) e(6) [where l = l] * run by (simp add: lock_ok_def)
next
  fix s p q a i x s' and E :: env
  assume *: "lock_ok B J V items writes s p" "q \<noteq> p" and run: "storage_release B J E q a i s = (x, s')"
  have inv: "lock_inv B J V items writes s" using * by (simp add: lock_ok_def)
  note e = ReleaseLock_effect [OF inv run [unfolded storage_release_def]]
  show "lock_ok B J V items writes s' p \<and> db_lock J items s' p = db_lock J items s p"
    using e(1) e(2,3) [where p = p] * by (simp add: lock_ok_def)
qed


subsection \<open>The lock operations, case by case\<close>

lemma storeLockInternal_total:
  assumes "badger_total B" and "lock_inv B J V items writes s" and "keyed_lock V q l"
  shows "fst (storeLockInternal B J now pick l logToWAL s) = Ret ()"
proof -
  have "json_rt_lock J l" using assms(2,3) by (simp add: lock_inv_def lock_codec_ok_def keyed_lock_def)
  then obtain data where "MarshalLock J l = Some data" by (auto simp: json_rt_lock_def)
  then show ?thesis using assms(1)
    by (auto simp: storeLockInternal_def Let_def split: sum.splits)
qed

lemma AcquireLock_commit_total:
  assumes "badger_total B" and "lock_inv B J V items writes s" and "keyed_lock V q l"
  shows "fst (AcquireLock_commit B J E (Inr (l, shared)) s) = Ret l"
proof -
  let ?s = "if shared then on_cache (share_lock l) s else s"
  have "lock_inv B J V items writes ?s"
    using share_lock_effect(1) [OF assms(2,3)] assms(2) by simp
  then have "fst (storeLockInternal B J (env_now E 2) (env_pick E 1) l True ?s) = Ret ()"
    using storeLockInternal_total [OF assms(1) _ assms(3)] by blast
  then show ?thesis
    by (cases "storeLockInternal B J (env_now E 2) (env_pick E 1) l True ?s")
      (simp add: AcquireLock_commit_def Let_def)
qed

text \<open>What \<open>AcquireLock\<close> is meant to do, on the lock it finds: refuse, extend, or grant a new lock.\<close>

definition acquire_spec :: "env \<Rightarrow> AcquireLockRequest \<Rightarrow> LockHandle option \<Rightarrow> LockHandle option" where
  "acquire_spec E req found =
     (let expires = Some (env_now E 1 + ttl_duration (alr_TtlSeconds req))
      in case found of
           Some l \<Rightarrow>
             if live (env_now E 0) l
             then if lk_HolderAgent l = alr_AgentId req then Some (l\<lparr>lk_ExpiresAt := expires\<rparr>) else None
             else Some \<lparr>lk_ResourcePath = alr_ResourcePath req, lk_HolderAgent = alr_AgentId req,
               lk_ExpiresAt = expires, lk_LockId = env_uuid E\<rparr>
         | None \<Rightarrow> Some \<lparr>lk_ResourcePath = alr_ResourcePath req, lk_HolderAgent = alr_AgentId req,
               lk_ExpiresAt = expires, lk_LockId = env_uuid E\<rparr>)"

lemma decide_spec:
  "AcquireLock_decide E req found =
   (case acquire_spec E req found of
      None \<Rightarrow> Inl LockedByOther
    | Some l \<Rightarrow> Inr (l, \<exists>m. found = Some m \<and> live (env_now E 0) m))"
  by (auto simp: AcquireLock_decide_def acquire_spec_def Let_def split: option.splits)

lemma acquire_spec_keyed:
  assumes "acquire_spec E req found = Some l" and "\<And>m. found = Some m \<Longrightarrow> keyed_lock V (alr_ResourcePath req) m"
    and "V (alr_ResourcePath req)" "V (alr_AgentId req)" "V (env_uuid E)"
  shows "keyed_lock V (alr_ResourcePath req) l"
  using assms
  by (auto simp: acquire_spec_def keyed_lock_def lock_strings_def Let_def split: option.splits if_splits)

lemma AcquireLock_refines:
  assumes ok: "lock_ok B J V items writes s p" and total: "badger_total B"
    and p: "alr_ResourcePath req = p" and V: "V p" "V (alr_AgentId req)" "V (env_uuid E)"
    and run: "AcquireLock B J E req s = (r, s')"
  shows "case acquire_spec E req (db_lock J items s p) of
      None \<Rightarrow> r = Err LockedByOther \<and> db_lock J items s' = db_lock J items s
    | Some l \<Rightarrow> r = Ret l \<and> db_lock J items s' = (db_lock J items s)(p \<mapsto> l)"
    and "lock_ok B J V items writes s' p"
proof -
  have inv: "lock_inv B J V items writes s" and coh: "lock_coherent J items s p"
    using ok by (simp_all add: lock_ok_def)
  obtain r1 s1 where get: "GetLock B J (env_pick E 0) p s = (r1, s1)"
    by (cases "GetLock B J (env_pick E 0) p s")
  note g = GetLock_effect [OF inv get]
  have run': "AcquireLock_commit B J E (AcquireLock_decide E req (db_lock J items s p)) s1 = (r, s')"
    using run get p g(5) [OF coh] by (simp add: AcquireLock_def)
  have "(case acquire_spec E req (db_lock J items s p) of
      None \<Rightarrow> r = Err LockedByOther \<and> db_lock J items s' = db_lock J items s
    | Some l \<Rightarrow> r = Ret l \<and> db_lock J items s' = (db_lock J items s)(p \<mapsto> l)) \<and>
    lock_ok B J V items writes s' p"
  proof (cases "acquire_spec E req (db_lock J items s p)")
    case None
    with run' have "r = Err LockedByOther" "s' = s1"
      by (simp_all add: decide_spec AcquireLock_commit_def)
    with None g(1,2) g(3) [OF coh] show ?thesis by (simp add: lock_ok_def)
  next
    case (Some l)
    have key: "keyed_lock V p l"
      using acquire_spec_keyed [OF Some, of V] inv V p by (auto simp: lock_inv_def)
    have run'': "AcquireLock_commit B J E (Inr (l, \<exists>m. db_lock J items s p = Some m \<and> live (env_now E 0) m)) s1 = (r, s')"
      using run' Some by (simp add: decide_spec)
    then have r: "r = Ret l"
      using AcquireLock_commit_total [OF total g(1) key] by (metis fst_conv)
    note c = AcquireLock_commit_effect [OF g(1) key run'']
    have "db_lock J items s' = (db_lock J items s)(p \<mapsto> l)"
      using c(2) c(4) [OF r] g(2) by auto
    with c(1) c(4) [OF r] Some r show ?thesis by (simp add: lock_ok_def)
  qed
  then show "case acquire_spec E req (db_lock J items s p) of
      None \<Rightarrow> r = Err LockedByOther \<and> db_lock J items s' = db_lock J items s
    | Some l \<Rightarrow> r = Ret l \<and> db_lock J items s' = (db_lock J items s)(p \<mapsto> l)"
    and "lock_ok B J V items writes s' p" by simp_all
qed


text \<open>A storage over the reference store and codec, with nothing in it.\<close>

definition ref_storage :: "ref_db Storage" where
  "ref_storage = \<lparr>st_CacheEnabled = True, st_cache = NewCache 2 2 2 Second, st_db = ref_empty, st_wal = [],
     st_events = make_chan 2\<rparr>"

definition env_at :: "gotime \<Rightarrow> bytes \<Rightarrow> env" where
  "env_at t u = \<lparr>env_now = (\<lambda>_. t), env_uuid = u, env_pick = (\<lambda>_. 0)\<rparr>"

lemma env_at_simps [simp]: "env_now (env_at t u) i = t" "env_uuid (env_at t u) = u" "env_pick (env_at t u) i = 0"
  by (simp_all add: env_at_def)

lemma cached_ref_storage [simp]: "cached_lock ref_storage p = None"
  by (simp add: cached_lock_def ref_storage_def active_cache_def NewCache_def cacheGetLock_def)

lemma db_lock_ref_storage [simp]: "db_lock J ref_items ref_storage p = None"
  by (simp add: db_lock_def ref_storage_def)

lemma ref_storage_ok: "lock_ok ref_badger ref_codec (\<lambda>_. True) ref_items (\<lambda>t. t) ref_storage p"
  by (simp add: lock_ok_def lock_inv_def lock_coherent_def lock_codec_ok_def ref_badger_ok)

lemma ref_storage_acquire:
  "\<exists>s'. storage_acquire ref_badger ref_codec E p a ttl ref_storage =
     (Ret \<lparr>lk_ResourcePath = p, lk_HolderAgent = a, lk_ExpiresAt = Some (env_now E 1 + ttl_duration ttl),
           lk_LockId = env_uuid E\<rparr>, s')"
proof -
  let ?req = "\<lparr>alr_ResourcePath = p, alr_AgentId = a, alr_TtlSeconds = ttl\<rparr>"
  obtain r s' where run: "AcquireLock ref_badger ref_codec E ?req ref_storage = (r, s')"
    by (cases "AcquireLock ref_badger ref_codec E ?req ref_storage")
  from AcquireLock_refines(1) [OF ref_storage_ok [of p] ref_badger_total _ _ _ _ run]
  show ?thesis using run by (simp add: acquire_spec_def storage_acquire_def Let_def)
qed

text \<open>C1. Mutual exclusion of the storage's locks. Once \<open>AcquireLock\<close> has given agent \<open>a\<close> a lock on \<open>p\<close>,
  every \<open>AcquireLock\<close> of \<open>p\<close> by another agent before that lock expires returns an error and leaves
  the lock as it is, after any sequence of complete calls of other agents (on any path, failing or
  not). The hypotheses are the contract of Badger, the JSON round trip of locks with valid strings, and
  the storage's invariant.\<close>

theorem storage_lock_exclusion:
  assumes "lock_ok B J V items writes s p" and "storage_acquire B J E p a ttl s = (Ret l, s')"
    and "V p" "V a" "V (env_uuid E)"
    and "\<forall>c \<in> set cs. caller c \<noteq> a \<and> live (call_time c) l \<and> (\<forall>x \<in> call_strings c. V x)"
    and "b \<noteq> a" and "live (env_now E' 0) l"
  shows "\<exists>e s''. storage_acquire B J E' p b ttl' (fold (run_call (storage_acquire B J) (storage_release B J)) cs s') =
      (Err e, s'') \<and> db_lock J items s'' p = Some l"
  by (rule storage_locks.exclusion [OF assms])

theorem storage_lock_exclusion_witness:
  "\<exists>l s' e s''. storage_acquire ref_badger ref_codec (env_at 0 ''u'') ''p'' ''a'' 60 ref_storage = (Ret l, s') \<and>
     storage_acquire ref_badger ref_codec (env_at Second ''v'') ''p'' ''b'' 60
       (fold (run_call (storage_acquire ref_badger ref_codec) (storage_release ref_badger ref_codec))
          [CallAcquire (env_at 1 ''w'') ''q'' ''c'' 5, CallRelease (env_at 2 ''x'') ''p'' ''b'' ''u''] s') = (Err e, s'')"
proof -
  obtain s' where run: "storage_acquire ref_badger ref_codec (env_at 0 ''u'') ''p'' ''a'' 60 ref_storage =
     (Ret \<lparr>lk_ResourcePath = ''p'', lk_HolderAgent = ''a'', lk_ExpiresAt = Some (ttl_duration 60),
           lk_LockId = ''u''\<rparr>, s')"
    using ref_storage_acquire [of "env_at 0 ''u''" "''p''" "''a''" 60] by auto
  have ttl: "ttl_duration 60 = 60 * Second" by (simp add: ttl_duration_def)
  show ?thesis
    using storage_lock_exclusion [OF ref_storage_ok run, where b = "''b''" and E' = "env_at Second ''v''" and ttl' = 60 and
        cs = "[CallAcquire (env_at 1 ''w'') ''q'' ''c'' 5, CallRelease (env_at 2 ''x'') ''p'' ''b'' ''u'']"]
      run ttl by auto
qed

text \<open>C3. \<open>AcquireLock\<close> and the table of locks: with a store whose transactions succeed, the call returns
  exactly what the specification says for the lock the table holds (refused while another agent's lock
  is live; extended under its old lock id for its holder; otherwise granted anew with the requested
  lifetime), the table changes only at the requested path, and the invariant is kept.\<close>

theorem storage_acquire_spec:
  assumes "lock_ok B J V items writes s p" and "badger_total B" and "alr_ResourcePath req = p"
    and "V p" "V (alr_AgentId req)" "V (env_uuid E)" and "AcquireLock B J E req s = (r, s')"
  shows "(case acquire_spec E req (db_lock J items s p) of
       None \<Rightarrow> r = Err LockedByOther \<and> db_lock J items s' = db_lock J items s
     | Some l \<Rightarrow> r = Ret l \<and> db_lock J items s' = (db_lock J items s)(p \<mapsto> l)) \<and>
     lock_ok B J V items writes s' p"
  using AcquireLock_refines [OF assms] by simp

theorem storage_acquire_spec_witness:
  "\<exists>s'. AcquireLock ref_badger ref_codec (env_at 7 ''u'') \<lparr>alr_ResourcePath = ''p'', alr_AgentId = ''a'', alr_TtlSeconds = 1\<rparr>
       ref_storage = (Ret \<lparr>lk_ResourcePath = ''p'', lk_HolderAgent = ''a'', lk_ExpiresAt = Some (7 + Second), lk_LockId = ''u''\<rparr>, s') \<and>
     lock_ok ref_badger ref_codec (\<lambda>_. True) ref_items (\<lambda>t. t) s' ''p''"
proof -
  let ?req = "\<lparr>alr_ResourcePath = ''p'', alr_AgentId = ''a'', alr_TtlSeconds = 1\<rparr>"
  obtain r s' where run: "AcquireLock ref_badger ref_codec (env_at 7 ''u'') ?req ref_storage = (r, s')"
    by (cases "AcquireLock ref_badger ref_codec (env_at 7 ''u'') ?req ref_storage")
  from storage_acquire_spec [OF ref_storage_ok [of "''p''"] ref_badger_total _ _ _ _ run] run
  show ?thesis by (simp add: acquire_spec_def ttl_duration_def Let_def)
qed

lemma ReleaseLock_refines:
  assumes "lock_ok B J V items writes s p" and "badger_total B" and "rlr_ResourcePath req = p"
    and "ReleaseLock B J E req s = (r, s')"
  shows "(case db_lock J items s p of
       None \<Rightarrow> r = Ret False \<and> db_lock J items s' = db_lock J items s
     | Some l \<Rightarrow>
         if lk_HolderAgent l \<noteq> rlr_AgentId req then r = Err HeldByOther \<and> db_lock J items s' = db_lock J items s
         else if lk_LockId l \<noteq> rlr_LockId req then r = Err LockIdMismatch \<and> db_lock J items s' = db_lock J items s
         else r = Ret True \<and> db_lock J items s' = (db_lock J items s)(p := None)) \<and>
     lock_ok B J V items writes s' p"
proof -
  have inv: "lock_inv B J V items writes s" and coh: "lock_coherent J items s p"
    using assms(1) by (simp_all add: lock_ok_def)
  obtain r1 s1 where get: "GetLock B J (env_pick E 0) p s = (r1, s1)"
    by (cases "GetLock B J (env_pick E 0) p s")
  note g = GetLock_effect [OF inv get]
  note e = ReleaseLock_effect [OF inv assms(4,3)]
  have "r = Ret True \<and> db_lock J items s' p = None"
    if "db_lock J items s p = Some l" "lk_HolderAgent l = rlr_AgentId req" "lk_LockId l = rlr_LockId req" for l
  proof -
    have "r1 = Ret l" using g(5) [OF coh] that(1) by (auto simp: found_lock_def split: outcome.splits)
    then have "r = Ret True"
      using assms(2-4) get that(2,3) by (auto simp: ReleaseLock_def split: sum.splits)
    with e(4) coh show ?thesis by simp
  qed
  moreover have "r = Err LockIdMismatch"
    if "db_lock J items s p = Some l" "lk_HolderAgent l = rlr_AgentId req" "lk_LockId l \<noteq> rlr_LockId req" for l
  proof -
    have "r1 = Ret l" using g(5) [OF coh] that(1) by (auto simp: found_lock_def split: outcome.splits)
    then show ?thesis using assms(3,4) get that(2,3) by (auto simp: ReleaseLock_def)
  qed
  moreover have "db_lock J items s' = (db_lock J items s)(p := db_lock J items s' p)"
    using e(2) by (auto simp: fun_eq_iff)
  moreover from this have "db_lock J items s' = db_lock J items s" if "r \<noteq> Ret True"
    using e(5) [OF that] by simp
  moreover have "lock_ok B J V items writes s' p" using e(1,3) coh by (simp add: lock_ok_def)
  ultimately show ?thesis
    using e(6,7) [OF coh] by (auto split: option.splits)
qed

text \<open>C4. \<open>ReleaseLock\<close> and the table of locks, on every branch: no lock (false), another holder or
  another lock id (an error, nothing changes), and the holder with the right id (true, the path is
  free, every other path is as before).\<close>

theorem storage_release_spec:
  assumes "lock_ok B J V items writes s p" and "badger_total B" and "rlr_ResourcePath req = p"
    and "ReleaseLock B J E req s = (r, s')"
  shows "(case db_lock J items s p of
       None \<Rightarrow> r = Ret False \<and> db_lock J items s' = db_lock J items s
     | Some l \<Rightarrow>
         if lk_HolderAgent l \<noteq> rlr_AgentId req then r = Err HeldByOther \<and> db_lock J items s' = db_lock J items s
         else if lk_LockId l \<noteq> rlr_LockId req then r = Err LockIdMismatch \<and> db_lock J items s' = db_lock J items s
         else r = Ret True \<and> db_lock J items s' = (db_lock J items s)(p := None)) \<and>
     lock_ok B J V items writes s' p"
  by (rule ReleaseLock_refines [OF assms])

theorem storage_release_spec_witness:
  "\<exists>s'. ReleaseLock ref_badger ref_codec (env_at 7 ''u'') \<lparr>rlr_ResourcePath = ''p'', rlr_AgentId = ''a'', rlr_LockId = ''i''\<rparr>
       ref_storage = (Ret False, s')"
proof -
  let ?req = "\<lparr>rlr_ResourcePath = ''p'', rlr_AgentId = ''a'', rlr_LockId = ''i''\<rparr>"
  obtain r s' where run: "ReleaseLock ref_badger ref_codec (env_at 7 ''u'') ?req ref_storage = (r, s')"
    by (cases "ReleaseLock ref_badger ref_codec (env_at 7 ''u'') ?req ref_storage")
  from storage_release_spec [OF ref_storage_ok [of "''p''"] ref_badger_total _ run] run show ?thesis by simp
qed

end
