(* ===== verification/Storage_Records.thy ===== *)
theory Storage_Records
  imports Storage_Locks
begin

text \<open>
  The contexts and work units of the storage: what the database holds for an identifier, the
  coherence of the cache with it, and what the operations do to both.
\<close>

definition db_wu :: "json_codec \<Rightarrow> ('db \<Rightarrow> (bytes \<times> bytes) list) \<Rightarrow> 'db Storage \<Rightarrow> bytes \<Rightarrow> WorkUnit option" where
  "db_wu J items s i = Option.bind (map_of (items (st_db s)) (prefixKey prefixWorkUnits i)) (UnmarshalWorkUnit J)"

definition db_ctx :: "json_codec \<Rightarrow> ('db \<Rightarrow> (bytes \<times> bytes) list) \<Rightarrow> 'db Storage \<Rightarrow> bytes \<Rightarrow> Context option" where
  "db_ctx J items s i = Option.bind (map_of (items (st_db s)) (prefixKey prefixContexts i)) (UnmarshalContext J)"

text \<open>The index entry of a context at an instant: the identifier of the unit stored there.\<close>

definition db_index :: "('db \<Rightarrow> (bytes \<times> bytes) list) \<Rightarrow> 'db Storage \<Rightarrow> bytes \<Rightarrow> gotime \<Rightarrow> bytes option" where
  "db_index items s c t = map_of (items (st_db s)) (makeContextTimeKey c t)"

lemmas db_view_defs = db_wu_def db_ctx_def db_lock_def db_index_def

definition cached_wu :: "'db Storage \<Rightarrow> bytes \<Rightarrow> WorkUnit option" where
  "cached_wu s i = Option.bind (active_cache s) (\<lambda>c. cacheGetWorkUnit c i)"

definition cached_ctx :: "'db Storage \<Rightarrow> bytes \<Rightarrow> Context option" where
  "cached_ctx s i = Option.bind (active_cache s) (\<lambda>c. cacheGetContext c i)"

text \<open>The three views of the cache are independent of each other.\<close>

lemma cached_frame [simp]:
  "cached_wu (on_cache (SetContext k x) s) = cached_wu s" "cached_wu (on_cache (SetLock k l) s) = cached_wu s"
  "cached_wu (on_cache (share_context x) s) = cached_wu s" "cached_wu (on_cache (share_lock l) s) = cached_wu s"
  "cached_wu (on_cache (cacheDeleteLock q) s) = cached_wu s"
  "cached_ctx (on_cache (SetWorkUnit k w) s) = cached_ctx s" "cached_ctx (on_cache (SetLock k l) s) = cached_ctx s"
  "cached_ctx (on_cache (share_lock l) s) = cached_ctx s" "cached_ctx (on_cache (cacheDeleteLock q) s) = cached_ctx s"
  "cached_lock (on_cache (SetWorkUnit k w) s) = cached_lock s" "cached_lock (on_cache (SetContext k x) s) = cached_lock s"
  "cached_lock (on_cache (share_context x) s) = cached_lock s"
  by (cases "active_cache s"; simp add: cached_wu_def cached_ctx_def cached_lock_def cache_defs fun_eq_iff
      share_context_def share_lock_def)+

lemma cached_simps [simp]:
  "cached_wu (s\<lparr>st_db := db\<rparr>) = cached_wu s" "cached_ctx (s\<lparr>st_db := db\<rparr>) = cached_ctx s"
  "cached_wu (s\<lparr>st_events := ch\<rparr>) = cached_wu s" "cached_ctx (s\<lparr>st_events := ch\<rparr>) = cached_ctx s"
  "cached_lock (s\<lparr>st_events := ch\<rparr>) = cached_lock s"
  "cached_wu (log_entry ty t d s) = cached_wu s" "cached_ctx (log_entry ty t d s) = cached_ctx s"
  by (simp_all add: cached_wu_def cached_ctx_def cached_lock_def fun_eq_iff)

text \<open>Seen from the storage, the guarded cache is again a lossy cache.\<close>

interpretation st_ctx: lossy_cache cached_ctx "\<lambda>pick x. on_cache (SetContext pick x)" ctx_Id
proof
  fix pick x k w and s :: "'db Storage"
  assume "cached_ctx (on_cache (SetContext pick x) s) k = Some w"
  then show "if k = ctx_Id x then w = x else cached_ctx s k = Some w"
    by (cases "active_cache s") (auto simp: cached_ctx_def dest!: ctx_cache.hit_after_put)
qed

interpretation st_wu: lossy_cache cached_wu "\<lambda>pick w. on_cache (SetWorkUnit pick w)" wu_Id
proof
  fix pick x k w and s :: "'db Storage"
  assume "cached_wu (on_cache (SetWorkUnit pick x) s) k = Some w"
  then show "if k = wu_Id x then w = x else cached_wu s k = Some w"
    by (cases "active_cache s") (auto simp: cached_wu_def dest!: wu_cache.hit_after_put)
qed

lemma cached_share_context:
  "cached_ctx (on_cache (share_context x) s) i =
   (if i = ctx_Id x \<and> cached_ctx s i \<noteq> None then Some x else cached_ctx s i)"
  by (cases "active_cache s") (auto simp: cached_ctx_def share_context_def cacheGetContext_def)

text \<open>Only the database matters to the views of it.\<close>

lemma db_views_cong:
  "st_db s = st_db t \<Longrightarrow> db_wu J items s = db_wu J items t" "st_db s = st_db t \<Longrightarrow> db_ctx J items s = db_ctx J items t"
  "st_db s = st_db t \<Longrightarrow> db_lock J items s = db_lock J items t" "st_db s = st_db t \<Longrightarrow> db_index items s = db_index items t"
  by (simp_all add: db_view_defs fun_eq_iff)

lemma db_views_frame [simp]:
  "db_wu J items (on_cache f s) = db_wu J items s" "db_ctx J items (on_cache f s) = db_ctx J items s"
  "db_index items (on_cache f s) = db_index items s"
  "db_wu J items (log_entry ty t d s) = db_wu J items s" "db_ctx J items (log_entry ty t d s) = db_ctx J items s"
  "db_index items (log_entry ty t d s) = db_index items s"
  by (auto intro!: db_views_cong)

subsection \<open>The store operations\<close>

lemma storeContextInternal_cases [consumes 1]:
  assumes "storeContextInternal B J now pick x logToWAL s = (r, s')"
  obtains (unmarshalled) "MarshalContext J x = None" "r = Err MarshalFailed" "s' = s"
    | (failed) data e where "MarshalContext J x = Some data" "r = Err e"
        "s' = (if logToWAL then log_entry WALContext now data s else s)"
    | (stored) data t db where "MarshalContext J x = Some data"
        "txnSet B (newTxn B (st_db s)) (prefixKey prefixContexts (ctx_Id x)) data = Inr t"
        "txnCommit B (st_db s) t = Inr db" "r = Ret ()"
        "s' = on_cache (SetContext pick x) ((if logToWAL then log_entry WALContext now data s else s)\<lparr>st_db := db\<rparr>)"
proof (cases "MarshalContext J x")
  case None
  with assms unmarshalled show ?thesis by (simp add: storeContextInternal_def)
next
  case (Some data)
  define s1 where "s1 = (if logToWAL then log_entry WALContext now data s else s)"
  have s1: "st_db s1 = st_db s" by (simp add: s1_def)
  show ?thesis
  proof (cases "txnSet B (newTxn B (st_db s)) (prefixKey prefixContexts (ctx_Id x)) data")
    case (Inl e)
    with assms Some s1 show ?thesis
      by (intro failed [OF Some, of "StoreFailed e"]) (simp_all add: storeContextInternal_def Let_def flip: s1_def)
  next
    case (Inr t)
    with assms Some s1 failed stored show ?thesis
      by (cases "txnCommit B (st_db s) t") (auto simp: storeContextInternal_def Let_def simp flip: s1_def)
  qed
qed

lemma storeWorkUnitInternal_cases [consumes 1]:
  assumes "storeWorkUnitInternal B J now pick w logToWAL s = (r, s')"
  obtains (unmarshalled) "MarshalWorkUnit J w = None" "r = Err MarshalFailed" "s' = s"
    | (failed) data e where "MarshalWorkUnit J w = Some data" "r = Err e"
        "s' = (if logToWAL then log_entry WALWorkUnit now data s else s)"
    | (stored) data t t' db s1 where "MarshalWorkUnit J w = Some data"
        "s1 = (if logToWAL then log_entry WALWorkUnit now data s else s)"
        "txnSet B (newTxn B (st_db s)) (prefixKey prefixWorkUnits (wu_Id w)) data = Inr t"
        "txnSet B t (makeContextTimeKey (wu_ContextId w) (AsTime (wu_Ts w))) (wu_Id w) = Inr t'"
        "txnCommit B (st_db s) t' = Inr db"
        "(r, s') = (case try_send (st_events s) w of
            SendPanics \<Rightarrow> (Panic, s1\<lparr>st_db := db\<rparr>)
          | Full \<Rightarrow> (Ret (), on_cache (SetWorkUnit pick w) (s1\<lparr>st_db := db\<rparr>))
          | Sent ch \<Rightarrow> (Ret (), on_cache (SetWorkUnit pick w) (s1\<lparr>st_db := db, st_events := ch\<rparr>)))"
proof (cases "MarshalWorkUnit J w")
  case None
  with assms unmarshalled show ?thesis by (simp add: storeWorkUnitInternal_def)
next
  case (Some data)
  define s1 where "s1 = (if logToWAL then log_entry WALWorkUnit now data s else s)"
  have s1: "st_db s1 = st_db s" "st_events s1 = st_events s" by (simp_all add: s1_def)
  note run = assms [unfolded storeWorkUnitInternal_def, simplified Some option.case Let_def, folded s1_def,
      unfolded s1]
  show ?thesis
  proof (cases "txnSet B (newTxn B (st_db s)) (prefixKey prefixWorkUnits (wu_Id w)) data")
    case (Inl e)
    with run show ?thesis by (intro failed [OF Some, of "StoreFailed e"]) (simp_all flip: s1_def)
  next
    case t: (Inr t)
    show ?thesis
    proof (cases "txnSet B t (makeContextTimeKey (wu_ContextId w) (AsTime (wu_Ts w))) (wu_Id w)")
      case (Inl e)
      with t run show ?thesis by (intro failed [OF Some, of "IndexFailed e"]) (simp_all flip: s1_def)
    next
      case t': (Inr t')
      show ?thesis
      proof (cases "txnCommit B (st_db s) t'")
        case (Inl e)
        with t t' run show ?thesis by (intro failed [OF Some, of "CommitFailed e"]) (simp_all flip: s1_def)
      next
        case (Inr db)
        show ?thesis
          by (rule stored [OF Some s1_def t t' Inr]) (use run t t' Inr s1 in simp)
      qed
    qed
  qed
qed


subsection \<open>The coherence of the cached records\<close>

text \<open>A cached record is the stored one up to the JSON normal form.\<close>

definition records_ok ::
  "('db, 'txn) badger \<Rightarrow> json_codec \<Rightarrow> ('db \<Rightarrow> (bytes \<times> bytes) list) \<Rightarrow>
   ('txn \<Rightarrow> (bytes \<times> bytes option) list) \<Rightarrow> 'db Storage \<Rightarrow> bool" where
  "records_ok B J items writes s \<longleftrightarrow> badger_ok B items writes \<and>
     coherent json_norm_ctx ctx_Id (cached_ctx s) (db_ctx J items s) \<and>
     coherent json_norm_wu wu_Id (cached_wu s) (db_wu J items s)"

text \<open>The same, whatever the cache holds for the context \<open>q\<close>.\<close>

definition records_ok_but ::
  "bytes \<Rightarrow> ('db, 'txn) badger \<Rightarrow> json_codec \<Rightarrow> ('db \<Rightarrow> (bytes \<times> bytes) list) \<Rightarrow>
   ('txn \<Rightarrow> (bytes \<times> bytes option) list) \<Rightarrow> 'db Storage \<Rightarrow> bool" where
  "records_ok_but q B J items writes s \<longleftrightarrow> badger_ok B items writes \<and>
     coherent json_norm_ctx ctx_Id ((cached_ctx s)(q := None)) (db_ctx J items s) \<and>
     coherent json_norm_wu wu_Id (cached_wu s) (db_wu J items s)"

lemma records_ok_forget: "records_ok B J items writes s \<Longrightarrow> records_ok_but q B J items writes s"
  by (simp add: records_ok_def records_ok_but_def coherent_forget)

lemma json_norm_idem [simp]:
  "json_norm_ctx (json_norm_ctx x) = json_norm_ctx x" "json_norm_wu (json_norm_wu w) = json_norm_wu w"
  by (simp_all add: json_norm_ctx_def json_norm_wu_def json_norm_rel_def omit_map_def omit_bytes_def o_def)

lemma json_rt_marshal:
  "json_rt_ctx J x \<Longrightarrow> MarshalContext J x = Some d \<Longrightarrow> UnmarshalContext J d = Some (json_norm_ctx x)"
  "json_rt_wu J w \<Longrightarrow> MarshalWorkUnit J w = Some d \<Longrightarrow> UnmarshalWorkUnit J d = Some (json_norm_wu w)"
  "json_rt_ctx J x \<Longrightarrow> MarshalContext J x \<noteq> None" "json_rt_wu J w \<Longrightarrow> MarshalWorkUnit J w \<noteq> None"
  by (auto simp: json_rt_defs)

lemma db_views_put_ctx:
  assumes "badger_ok B items writes" and "txnSet B (newTxn B (st_db s)) (prefixKey prefixContexts q) data = Inr t"
    and "txnCommit B (st_db s) t = Inr db" and "st_db s' = db"
  shows "db_ctx J items s' = (db_ctx J items s)(q := UnmarshalContext J data)"
    and "db_wu J items s' = db_wu J items s" "db_lock J items s' = db_lock J items s" "db_index items s' = db_index items s"
  using badger_ok_commit [OF assms(1,3)] badger_ok_set [OF assms(1,2)] badger_ok_newTxn [OF assms(1)] assms(4)
  by (simp_all add: db_view_defs fun_eq_iff)

lemma db_views_put_wu:
  assumes "badger_ok B items writes" and "txnSet B (newTxn B (st_db s)) (prefixKey prefixWorkUnits q) data = Inr t"
    and "txnSet B t (makeContextTimeKey c ts) i = Inr t'"
    and "txnCommit B (st_db s) t' = Inr db" and "st_db s' = db"
  shows "db_wu J items s' = (db_wu J items s)(q := UnmarshalWorkUnit J data)"
    and "db_ctx J items s' = db_ctx J items s" "db_lock J items s' = db_lock J items s"
    and "db_index items s' c' u = (if makeContextTimeKey c' u = makeContextTimeKey c ts then Some i else db_index items s c' u)"
  using badger_ok_commit [OF assms(1,4)] badger_ok_set [OF assms(1,3)] badger_ok_set [OF assms(1,2)]
    badger_ok_newTxn [OF assms(1)] assms(5)
  by (simp_all add: db_view_defs fun_eq_iff)

lemma storeContextInternal_effect:
  assumes ok: "records_ok_but (ctx_Id x) B J items writes s" and rt: "json_rt_ctx J x"
    and run: "storeContextInternal B J now pick x logToWAL s = (r, s')"
  shows "r = Ret () \<Longrightarrow> db_ctx J items s' = (db_ctx J items s)(ctx_Id x \<mapsto> json_norm_ctx x) \<and>
      records_ok B J items writes s'"
    and "r \<noteq> Ret () \<Longrightarrow> st_db s' = st_db s"
    and "r \<noteq> Panic" and "badger_total B \<Longrightarrow> r = Ret ()"
proof -
  have B: "badger_ok B items writes" using ok by (simp add: records_ok_but_def)
  from run have "(r = Ret () \<longrightarrow> db_ctx J items s' = (db_ctx J items s)(ctx_Id x \<mapsto> json_norm_ctx x) \<and>
      records_ok B J items writes s') \<and> (r \<noteq> Ret () \<longrightarrow> st_db s' = st_db s) \<and> r \<noteq> Panic"
  proof (cases rule: storeContextInternal_cases)
    case (stored data t db)
    have views: "db_ctx J items s' = (db_ctx J items s)(ctx_Id x \<mapsto> json_norm_ctx x)" "db_wu J items s' = db_wu J items s"
      using db_views_put_ctx(1,2) [OF B stored(2,3), of s' J] json_rt_marshal(1) [OF rt stored(1)] stored(5) by simp_all
    have wu: "cached_wu s' = cached_wu s" using stored(5) by simp
    have "coherent json_norm_ctx ctx_Id (cached_ctx s') ((db_ctx J items s)(ctx_Id x \<mapsto> json_norm_ctx x))"
      unfolding stored(5) by (rule st_ctx.coherent_put) (use ok in \<open>simp_all add: records_ok_but_def\<close>)
    then have "records_ok B J items writes s'" using ok views wu by (simp add: records_ok_def records_ok_but_def)
    with views stored(4) show ?thesis by simp
  next
    case unmarshalled
    then show ?thesis using json_rt_marshal(3) [OF rt] by simp
  next
    case (failed data e)
    then show ?thesis by simp
  qed
  moreover have "badger_total B \<Longrightarrow> r = Ret ()"
    using run json_rt_marshal(3) [OF rt] by (auto simp: storeContextInternal_def Let_def split: option.splits sum.splits)
  ultimately show "r = Ret () \<Longrightarrow> db_ctx J items s' = (db_ctx J items s)(ctx_Id x \<mapsto> json_norm_ctx x) \<and>
      records_ok B J items writes s'"
    "r \<noteq> Ret () \<Longrightarrow> st_db s' = st_db s"
    "r \<noteq> Panic" "badger_total B \<Longrightarrow> r = Ret ()" by simp_all
qed


lemma storeWorkUnitInternal_effect:
  assumes ok: "records_ok B J items writes s" and rt: "json_rt_wu J w"
    and run: "storeWorkUnitInternal B J now pick w logToWAL s = (r, s')"
  shows "r = Ret () \<Longrightarrow> db_wu J items s' = (db_wu J items s)(wu_Id w \<mapsto> json_norm_wu w) \<and>
      db_index items s' (wu_ContextId w) (AsTime (wu_Ts w)) = Some (wu_Id w) \<and> records_ok B J items writes s'"
    and "r \<noteq> Panic \<Longrightarrow> db_ctx J items s' = db_ctx J items s \<and> db_lock J items s' = db_lock J items s"
    and "badger_total B \<Longrightarrow> \<not> ch_closed (st_events s) \<Longrightarrow> r = Ret ()"
proof -
  have B: "badger_ok B items writes" using ok by (simp add: records_ok_def)
  from run have "(r = Ret () \<longrightarrow> db_wu J items s' = (db_wu J items s)(wu_Id w \<mapsto> json_norm_wu w) \<and>
      db_index items s' (wu_ContextId w) (AsTime (wu_Ts w)) = Some (wu_Id w) \<and> records_ok B J items writes s') \<and>
     (r \<noteq> Panic \<longrightarrow> db_ctx J items s' = db_ctx J items s \<and> db_lock J items s' = db_lock J items s)"
  proof (cases rule: storeWorkUnitInternal_cases)
    case (stored data t t' db s1)
    have db: "st_db s' = db" using stored(6) by (cases "try_send (st_events s) w") simp_all
    have views: "db_wu J items s' = (db_wu J items s)(wu_Id w \<mapsto> json_norm_wu w)" "db_ctx J items s' = db_ctx J items s"
      "db_lock J items s' = db_lock J items s" "db_index items s' (wu_ContextId w) (AsTime (wu_Ts w)) = Some (wu_Id w)"
      using db_views_put_wu(1,2,3) [OF B stored(3-5) db, of J] db_views_put_wu(4) [OF B stored(3-5) db]
        json_rt_marshal(2) [OF rt stored(1)] by simp_all
    have s1: "cached_ctx s1 = cached_ctx s" "cached_wu s1 = cached_wu s" by (simp_all add: stored(2))
    have ctx: "cached_ctx s' = cached_ctx s"
      using stored(6) s1 by (cases "try_send (st_events s) w") simp_all
    have "records_ok B J items writes s'" if ret: "r = Ret ()"
    proof -
      obtain s2 where s2: "s' = on_cache (SetWorkUnit pick w) s2" "cached_wu s2 = cached_wu s"
        using stored(6) ret s1 by (cases "try_send (st_events s) w") auto
      have "coherent json_norm_wu wu_Id (cached_wu s') ((db_wu J items s)(wu_Id w \<mapsto> json_norm_wu w))"
        unfolding s2(1)
        by (rule st_wu.coherent_put) (use ok s2(2) in \<open>simp_all add: records_ok_def coherent_forget\<close>)
      then show ?thesis using ok views ctx by (simp add: records_ok_def)
    qed
    with views show ?thesis by simp
  next
    case unmarshalled
    then show ?thesis using json_rt_marshal(4) [OF rt] by simp
  next
    case (failed data e)
    then show ?thesis by (auto simp: db_lock_simps)
  qed
  moreover have "badger_total B \<Longrightarrow> \<not> ch_closed (st_events s) \<Longrightarrow> r = Ret ()"
    using run json_rt_marshal(4) [OF rt] try_send_open [of "st_events s" w]
    by (auto simp: storeWorkUnitInternal_def Let_def split: option.splits sum.splits send_result.splits if_splits)
  ultimately show "r = Ret () \<Longrightarrow> db_wu J items s' = (db_wu J items s)(wu_Id w \<mapsto> json_norm_wu w) \<and>
      db_index items s' (wu_ContextId w) (AsTime (wu_Ts w)) = Some (wu_Id w) \<and> records_ok B J items writes s'"
    "r \<noteq> Panic \<Longrightarrow> db_ctx J items s' = db_ctx J items s \<and> db_lock J items s' = db_lock J items s"
    "badger_total B \<Longrightarrow> \<not> ch_closed (st_events s) \<Longrightarrow> r = Ret ()" by simp_all
qed

lemma GetContext_effect:
  assumes ok: "records_ok B J items writes s" and get: "GetContext B J pick q s = (r, s')"
  shows "records_ok B J items writes s'" and "st_db s' = st_db s" and "r \<noteq> Panic"
    and "r = Ret x \<Longrightarrow> db_ctx J items s q = Some (json_norm_ctx x) \<and> ctx_Id x = q"
    and "db_ctx J items s q = Some y \<Longrightarrow> \<exists>x. r = Ret x"
    and "r = Ret x \<Longrightarrow> cached_ctx s' q = Some z \<Longrightarrow> z = x"
proof -
  have get': "viewGet B (st_db s) (prefixKey prefixContexts q) =
      (case map_of (items (st_db s)) (prefixKey prefixContexts q) of None \<Rightarrow> Inl ErrKeyNotFound | Some v \<Rightarrow> Inr v)"
    using ok badger_ok_get by (auto simp: records_ok_def)
  consider (hit) m where "cached_ctx s q = Some m" "r = Ret m" "s' = s"
    | (miss) e where "cached_ctx s q = None" "db_ctx J items s q = None" "r = Err e" "s' = s"
    | (fill) m where "cached_ctx s q = None" "db_ctx J items s q = Some m" "r = Ret m"
        "s' = on_cache (SetContext pick m) s"
    using get get' unfolding GetContext_def
    by (auto simp: cached_ctx_def db_ctx_def split: option.splits)
  then have "records_ok B J items writes s' \<and> st_db s' = st_db s \<and> r \<noteq> Panic \<and>
    (r = Ret x \<longrightarrow> db_ctx J items s q = Some (json_norm_ctx x) \<and> ctx_Id x = q) \<and>
    (db_ctx J items s q = Some y \<longrightarrow> (\<exists>x. r = Ret x)) \<and> (r = Ret x \<longrightarrow> cached_ctx s' q = Some z \<longrightarrow> z = x)"
  proof cases
    case hit
    then show ?thesis
      using ok coherent_hit [of json_norm_ctx ctx_Id "cached_ctx s" "db_ctx J items s" q m]
      by (auto simp: records_ok_def)
  next
    case miss
    then show ?thesis using ok by simp
  next
    case fill
    have coh: "coherent json_norm_ctx ctx_Id (cached_ctx s) (db_ctx J items s)"
      using ok by (simp add: records_ok_def)
    have m: "ctx_Id m = q" "json_norm_ctx m = m" using coherent_stored [OF coh fill(2)] by simp_all
    have "coherent json_norm_ctx ctx_Id (cached_ctx s') (db_ctx J items s)"
      unfolding fill(4) using st_ctx.coherent_fill [OF coh, of m pick] fill(2) m(1) by simp
    then have "records_ok B J items writes s'" using ok fill(4) by (simp add: records_ok_def)
    moreover have "z = m" if "cached_ctx s' q = Some z"
      using st_ctx.hit_after_put [OF that [unfolded fill(4)]] m(1) by simp
    ultimately show ?thesis using fill m by auto
  qed
  then show "records_ok B J items writes s'" "st_db s' = st_db s" "r \<noteq> Panic"
    "r = Ret x \<Longrightarrow> db_ctx J items s q = Some (json_norm_ctx x) \<and> ctx_Id x = q"
    "db_ctx J items s q = Some y \<Longrightarrow> \<exists>x. r = Ret x"
    "r = Ret x \<Longrightarrow> cached_ctx s' q = Some z \<Longrightarrow> z = x" by simp_all
qed


subsection \<open>Updating a context\<close>

lemma set_add_missing [simp]: "set (add_missing as xs) = set as \<union> set xs"
  by (induction as xs rule: add_missing.induct) auto

lemma distinct_add_missing: "distinct xs \<Longrightarrow> distinct (add_missing as xs)"
  by (induction as xs rule: add_missing.induct) auto

lemma set_remove_listed [simp]: "set (remove_listed rs xs) = set xs - set rs"
  by (auto simp: remove_listed_def)

lemma distinct_remove_listed: "distinct xs \<Longrightarrow> distinct (remove_listed rs xs)"
  by (simp add: remove_listed_def)

lemma map_of_fold_update:
  "map_of (fold (\<lambda>(k, v). AList.update k v) ps m) = map_of m ++ map_of (rev ps)"
  by (induction ps arbitrary: m) (auto simp: map_add_def fun_eq_iff split: option.splits)

lemma map_of_rev_distinct: "distinct (map fst ps) \<Longrightarrow> map_of (rev ps) = map_of ps"
  by (intro map_of_inject_set [THEN iffD2]) (simp_all flip: rev_map)

lemma merge_meta_entries:
  assumes "merge_meta new old = Some m" and "distinct (map fst (entries_of new))"
  shows "map_of (entries_of m) = map_of (entries_of old) ++ map_of (entries_of new)"
  using assms
  by (auto simp: merge_meta_def map_of_fold_update map_of_rev_distinct split: if_splits option.splits)

text \<open>What an update is meant to do to a context, field by field.\<close>

definition context_updated :: "env \<Rightarrow> UpdateContextRequest \<Rightarrow> Context \<Rightarrow> Context \<Rightarrow> bool" where
  "context_updated E req old new \<longleftrightarrow>
     ctx_Id new = ctx_Id old \<and>
     ctx_DisplayName new = (if ucr_DisplayName req = [] then ctx_DisplayName old else ucr_DisplayName req) \<and>
     set (ctx_AgentIds new) = (set (ctx_AgentIds old) \<union> set (ucr_AddAgents req)) - set (ucr_RemoveAgents req) \<and>
     (distinct (ctx_AgentIds old) \<longrightarrow> distinct (ctx_AgentIds new)) \<and>
     set (ctx_PinnedUnits new) = (set (ctx_PinnedUnits old) \<union> set (ucr_PinUnits req)) - set (ucr_UnpinUnits req) \<and>
     (distinct (ctx_PinnedUnits old) \<longrightarrow> distinct (ctx_PinnedUnits new)) \<and>
     map_of (entries_of (ctx_Meta new)) = map_of (entries_of (ctx_Meta old)) ++ map_of (entries_of (ucr_Meta req)) \<and>
     ctx_CreatedAt new = ctx_CreatedAt old \<and> ctx_UpdatedAt new = Some (env_now E 0)"

lemma entries_of_omit_map [simp]: "entries_of (omit_map m) = entries_of m"
  by (simp add: omit_map_def)

lemma context_updated_norm: "context_updated E req (json_norm_ctx x) new \<longleftrightarrow> context_updated E req x new"
  by (simp add: context_updated_def json_norm_ctx_def)

lemma edit_context_updated:
  assumes "merge_meta (ucr_Meta req) (ctx_Meta (edit_context req x)) = Some m"
    and "distinct (map fst (entries_of (ucr_Meta req)))"
  shows "context_updated E req x ((edit_context req x)\<lparr>ctx_Meta := m, ctx_UpdatedAt := Some (env_now E 0)\<rparr>)"
  using merge_meta_entries [OF assms]
  by (auto simp: context_updated_def edit_context_def intro: distinct_add_missing distinct_remove_listed)

lemma UpdateContext_update:
  assumes ok: "records_ok B J items writes s" and run: "UpdateContext B J E req s = (r, s')"
    and old: "db_ctx J items s (ucr_Id req) = Some old" and keys: "distinct (map fst (entries_of (ucr_Meta req)))"
    and ret: "r = Ret new" and rt: "json_rt_ctx J new"
  shows "context_updated E req old new \<and> db_ctx J items s' = (db_ctx J items s)(ucr_Id req \<mapsto> json_norm_ctx new) \<and>
    records_ok B J items writes s'"
proof -
  obtain r1 s1 where get: "GetContext B J (env_pick E 0) (ucr_Id req) s = (r1, s1)"
    by (cases "GetContext B J (env_pick E 0) (ucr_Id req) s")
  note g = GetContext_effect [OF ok get]
  obtain x where x: "r1 = Ret x" using g(5) [OF old] by blast
  have old': "old = json_norm_ctx x" "ctx_Id x = ucr_Id req" using g(4) [OF x] old by simp_all
  obtain m where m: "merge_meta (ucr_Meta req) (ctx_Meta (edit_context req x)) = Some m"
    using run get x ret by (auto simp: UpdateContext_def Let_def split: option.splits)
  define y where "y = (edit_context req x)\<lparr>ctx_Meta := m, ctx_UpdatedAt := Some (env_now E 0)\<rparr>"
  define s2 where "s2 = on_cache (share_context y) s1"
  obtain r3 s3 where store: "storeContextInternal B J (env_now E 1) (env_pick E 1) y True s2 = (r3, s3)"
    by (cases "storeContextInternal B J (env_now E 1) (env_pick E 1) y True s2")
  have res: "r3 = Ret ()" "new = y" "s' = s3"
    using run get x m store ret by (auto simp: UpdateContext_def Let_def simp flip: y_def s2_def split: outcome.splits)
  have y: "context_updated E req old y" "ctx_Id y = ucr_Id req"
    using edit_context_updated [OF m keys, of E] old'
    by (simp_all add: context_updated_norm y_def edit_context_def)
  have "(cached_ctx s2)(ctx_Id y := None) = (cached_ctx s1)(ctx_Id y := None)"
    by (auto simp: s2_def cached_share_context fun_eq_iff)
  then have "records_ok_but (ctx_Id y) B J items writes s2"
    using records_ok_forget [OF g(1), of "ctx_Id y"] by (simp add: records_ok_but_def s2_def)
  from storeContextInternal_effect(1) [OF this _ store res(1)] rt res
  have "db_ctx J items s' = (db_ctx J items s2)(ctx_Id y \<mapsto> json_norm_ctx y)" "records_ok B J items writes s'"
    by simp_all
  moreover have "db_ctx J items s2 = db_ctx J items s" using db_views_cong(2) g(2) by (simp add: s2_def)
  ultimately show ?thesis using y res(2) by simp
qed


lemma UpdateContext_create:
  assumes ok: "records_ok B J items writes s" and total: "badger_total B"
    and new: "db_ctx J items s (ucr_Id req) = None"
    and x: "x = new_context E req"
    and rt: "json_rt_ctx J x"
  shows "\<exists>s'. UpdateContext B J E req s = (Ret x, s') \<and> records_ok B J items writes s' \<and>
    db_ctx J items s' = (db_ctx J items s)(ctx_Id x \<mapsto> json_norm_ctx x)"
proof -
  obtain r1 s1 where get: "GetContext B J (env_pick E 0) (ucr_Id req) s = (r1, s1)"
    by (cases "GetContext B J (env_pick E 0) (ucr_Id req) s")
  note g = GetContext_effect [OF ok get]
  obtain e where r1: "r1 = Err e" using g(3,4) new by (cases r1) auto
  obtain r3 s3 where store: "storeContextInternal B J (env_now E 2) (env_pick E 1) x True s1 = (r3, s3)"
    by (cases "storeContextInternal B J (env_now E 2) (env_pick E 1) x True s1")
  note eff = storeContextInternal_effect [OF records_ok_forget [OF g(1)] rt store]
  have "r3 = Ret ()" using eff(4) total by simp
  moreover have "UpdateContext B J E req s = (Ret x, s3)"
    using get r1 store calculation by (simp add: UpdateContext_def Let_def flip: x)
  ultimately show ?thesis using eff(1) db_views_cong(2) [OF g(2), of J items] by auto
qed

text \<open>C5. Updating an existing context. When \<open>UpdateContext\<close> succeeds, the returned context is the stored one
  with the requested changes: the name if one is given, agents and pinned units as sets (added, then
  removed) without introducing duplicates, metadata overridden entry by entry, the creation time kept and the
  update time set. The database changes at that identifier only, and the cache stays coherent.\<close>

theorem update_context_existing:
  assumes "records_ok B J items writes s" and "UpdateContext B J E req s = (Ret new, s')"
    and "db_ctx J items s (ucr_Id req) = Some old" and "distinct (map fst (entries_of (ucr_Meta req)))"
    and "json_rt_ctx J new"
  shows "context_updated E req old new \<and> db_ctx J items s' = (db_ctx J items s)(ucr_Id req \<mapsto> json_norm_ctx new) \<and>
    records_ok B J items writes s'"
  using UpdateContext_update [OF assms(1,2,3,4) refl assms(5)] .

lemma ref_records_ok: "records_ok ref_badger ref_codec ref_items (\<lambda>t. t) ref_storage"
  by (simp add: records_ok_def ref_badger_ok coherent_def cached_ctx_def cached_wu_def db_ctx_def db_wu_def
      ref_storage_def active_cache_def NewCache_def cacheGetContext_def cacheGetWorkUnit_def)

lemma db_ctx_ref_storage [simp]: "db_ctx J ref_items ref_storage i = None"
  by (simp add: db_ctx_def ref_storage_def)

definition ref_request :: UpdateContextRequest where
  "ref_request = \<lparr>ucr_Id = ''c'', ucr_DisplayName = ''n'', ucr_AddAgents = [''a'', ''b''], ucr_RemoveAgents = [],
     ucr_PinUnits = [], ucr_UnpinUnits = [], ucr_Meta = Some [(''k'', ''v'')]\<rparr>"

definition ref_context :: Context where
  "ref_context = \<lparr>ctx_Id = ''c'', ctx_DisplayName = ''n'', ctx_AgentIds = [''a'', ''b''], ctx_PinnedUnits = [],
     ctx_Meta = Some [(''k'', ''v'')], ctx_CreatedAt = Some 5, ctx_UpdatedAt = Some 5\<rparr>"

lemma ref_created:
  "\<exists>s1. UpdateContext ref_badger ref_codec (env_at 5 ''u'') ref_request ref_storage = (Ret ref_context, s1) \<and>
     records_ok ref_badger ref_codec ref_items (\<lambda>t. t) s1 \<and> db_ctx ref_codec ref_items s1 ''c'' = Some ref_context"
proof -
  have "json_norm_ctx ref_context = ref_context"
    by (simp add: ref_context_def json_norm_ctx_def omit_map_def)
  then show ?thesis
    using UpdateContext_create [OF ref_records_ok ref_badger_total, of ref_request ref_context "env_at 5 ''u''"]
    by (auto simp: ref_request_def ref_context_def new_context_def)
qed

theorem update_context_existing_witness:
  "\<exists>s1 s2 new. UpdateContext ref_badger ref_codec (env_at 5 ''u'') ref_request ref_storage = (Ret ref_context, s1) \<and>
     UpdateContext ref_badger ref_codec (env_at 9 ''u'') (ref_request\<lparr>ucr_RemoveAgents := [''b'']\<rparr>) s1 = (Ret new, s2) \<and>
     set (ctx_AgentIds new) = {''a''} \<and> records_ok ref_badger ref_codec ref_items (\<lambda>t. t) s2"
proof -
  let ?req = "ref_request\<lparr>ucr_RemoveAgents := [''b'']\<rparr>"
  obtain s1 where s1: "UpdateContext ref_badger ref_codec (env_at 5 ''u'') ref_request ref_storage = (Ret ref_context, s1)"
    "records_ok ref_badger ref_codec ref_items (\<lambda>t. t) s1" "db_ctx ref_codec ref_items s1 ''c'' = Some ref_context"
    using ref_created by blast
  obtain r1 s1' where get: "GetContext ref_badger ref_codec 0 ''c'' s1 = (r1, s1')"
    by (cases "GetContext ref_badger ref_codec 0 ''c'' s1")
  note g = GetContext_effect [OF s1(2) get]
  obtain x where x: "r1 = Ret x" using g(5) [OF s1(3)] by blast
  have "json_norm_ctx x = ref_context" using g(4) [OF x] s1(3) by simp
  then have "ctx_Meta (json_norm_ctx x) = Some [(''k'', ''v'')]" by (simp add: ref_context_def)
  then have meta: "ctx_Meta x = Some [(''k'', ''v'')]"
    by (simp add: json_norm_ctx_def omit_map_def split: if_splits)
  obtain r s2 where run: "UpdateContext ref_badger ref_codec (env_at 9 ''u'') ?req s1 = (r, s2)"
    by (cases "UpdateContext ref_badger ref_codec (env_at 9 ''u'') ?req s1")
  have "\<exists>new. r = Ret new"
    using run get x meta
    by (auto simp: UpdateContext_def ref_request_def Let_def merge_meta_def edit_context_def
        storeContextInternal_def ref_codec_def split: outcome.splits prod.splits)
  then obtain new where new: "r = Ret new" by blast
  have "context_updated (env_at 9 ''u'') ?req ref_context new \<and> records_ok ref_badger ref_codec ref_items (\<lambda>t. t) s2"
    using update_context_existing [OF s1(2) run [unfolded new]] s1(3) by (simp add: ref_request_def)
  then show ?thesis
    using s1(1) run new by (auto simp: context_updated_def ref_request_def ref_context_def)
qed


text \<open>Creating a context and reading it back. An update of an identifier that is not stored creates the
  requested context (under a generated identifier when none is given); every later \<open>GetContext\<close> of it
  returns a context that equals it up to the JSON normal form.\<close>

lemma create_context_then_get:
  assumes "records_ok B J items writes s" and "badger_total B" and "db_ctx J items s (ucr_Id req) = None"
    and "json_rt_ctx J (new_context E req)"
  shows "\<exists>s1 s2 x. UpdateContext B J E req s = (Ret (new_context E req), s1) \<and>
     GetContext B J pick (ctx_Id (new_context E req)) s1 = (Ret x, s2) \<and>
     json_norm_ctx x = json_norm_ctx (new_context E req) \<and> records_ok B J items writes s2"
proof -
  let ?i = "ctx_Id (new_context E req)"
  obtain s1 where s1: "UpdateContext B J E req s = (Ret (new_context E req), s1)" "records_ok B J items writes s1"
    "db_ctx J items s1 ?i = Some (json_norm_ctx (new_context E req))"
    using UpdateContext_create [OF assms(1-3) refl assms(4)] by auto
  obtain r s2 where get: "GetContext B J pick ?i s1 = (r, s2)" by (cases "GetContext B J pick ?i s1")
  note g = GetContext_effect [OF s1(2) get]
  obtain x where x: "r = Ret x" using g(5) [OF s1(3)] by blast
  then have "json_norm_ctx x = json_norm_ctx (new_context E req)" using g(4) [OF x] s1(3) by simp
  with s1(1) get x g(1) show ?thesis by blast
qed

theorem create_context_then_get_witness:
  "\<exists>s1 s2 x. UpdateContext ref_badger ref_codec (env_at 5 ''u'') ref_request ref_storage = (Ret ref_context, s1) \<and>
     GetContext ref_badger ref_codec 0 ''c'' s1 = (Ret x, s2) \<and> json_norm_ctx x = ref_context"
proof -
  have "new_context (env_at 5 ''u'') ref_request = ref_context" "json_norm_ctx ref_context = ref_context"
    "ctx_Id ref_context = ''c''"
    by (simp_all add: new_context_def ref_request_def ref_context_def json_norm_ctx_def omit_map_def)
  then show ?thesis
    using create_context_then_get [OF ref_records_ok ref_badger_total, of ref_request "env_at 5 ''u''" 0] by auto
qed

text \<open>C6. Creating a work unit. With a store whose transactions succeed and an open event stream,
  \<open>CreateWorkUnit\<close> returns the unit built from the request; the database holds it under its identifier and its
  context-time index entry points to it; exactly one log entry, holding its encoding, is sent; the unit is
  put on the event stream if the stream has room; the cache stays coherent.\<close>

theorem create_work_unit_spec:
  assumes "records_ok B J items writes s" and "badger_total B" and "\<not> ch_closed (st_events s)"
    and "json_rt_wu J (new_work_unit E req)"
  shows "\<exists>s' data. CreateWorkUnit B J E req s = (Ret (new_work_unit E req), s') \<and>
     records_ok B J items writes s' \<and>
     db_wu J items s' = (db_wu J items s)(env_uuid E \<mapsto> json_norm_wu (new_work_unit E req)) \<and>
     db_index items s' (cwr_ContextId req) (env_now E 0) = Some (env_uuid E) \<and>
     MarshalWorkUnit J (new_work_unit E req) = Some data \<and>
     st_wal s' = st_wal s @ [\<lparr>we_Type = WALWorkUnit, we_Timestamp = env_now E 1, we_Data = data\<rparr>] \<and>
     ch_buf (st_events s') =
       (if length (ch_buf (st_events s)) < ch_cap (st_events s) then ch_buf (st_events s) @ [new_work_unit E req]
        else ch_buf (st_events s))"
proof -
  define w where "w = new_work_unit E req"
  have rt: "json_rt_wu J w" using assms(4) by (simp add: w_def)
  have w: "wu_Id w = env_uuid E" "wu_ContextId w = cwr_ContextId req" "AsTime (wu_Ts w) = env_now E 0"
    by (simp_all add: w_def new_work_unit_def)
  obtain r s' where run: "storeWorkUnitInternal B J (env_now E 1) (env_pick E 0) w True s = (r, s')"
    by (cases "storeWorkUnitInternal B J (env_now E 1) (env_pick E 0) w True s")
  note eff = storeWorkUnitInternal_effect [OF assms(1) rt run]
  have r: "r = Ret ()" using eff(3) assms(2,3) by simp
  from run have "\<exists>data. MarshalWorkUnit J w = Some data \<and>
      st_wal s' = st_wal s @ [\<lparr>we_Type = WALWorkUnit, we_Timestamp = env_now E 1, we_Data = data\<rparr>] \<and>
      ch_buf (st_events s') = (if length (ch_buf (st_events s)) < ch_cap (st_events s) then ch_buf (st_events s) @ [w]
        else ch_buf (st_events s))"
  proof (cases rule: storeWorkUnitInternal_cases)
    case (stored data t t' db s1)
    then show ?thesis using assms(3) by (auto simp: try_send_def log_entry_def split: if_splits)
  qed (use r in auto)
  moreover have "CreateWorkUnit B J E req s = (Ret w, s')"
    using run r by (simp add: CreateWorkUnit_def Let_def flip: w_def)
  ultimately show ?thesis using eff(1) [OF r] w by (auto simp flip: w_def)
qed

definition ref_create :: CreateWorkUnitRequest where
  "ref_create = \<lparr>cwr_ContextId = ''c'', cwr_AgentId = ''a'', cwr_Type = WorkUnitType_MESSAGE, cwr_Meta = None,
     cwr_Payload = Some ''hi'', cwr_Relationships = []\<rparr>"

theorem create_work_unit_spec_witness:
  "\<exists>s'. CreateWorkUnit ref_badger ref_codec (env_at 5 ''u'') ref_create ref_storage =
       (Ret (new_work_unit (env_at 5 ''u'') ref_create), s') \<and>
     db_index ref_items s' ''c'' 5 = Some ''u'' \<and> ch_buf (st_events s') = [new_work_unit (env_at 5 ''u'') ref_create]"
proof -
  have "\<not> ch_closed (st_events ref_storage)" "ch_buf (st_events ref_storage) = []" "ch_cap (st_events ref_storage) = 2"
    by (simp_all add: ref_storage_def)
  then show ?thesis
    using create_work_unit_spec [OF ref_records_ok ref_badger_total, of "env_at 5 ''u''" ref_create]
    by (auto simp: ref_create_def)
qed

text \<open>Reading a work unit succeeds exactly when it is cached. On a cache miss \<open>GetWorkUnit\<close> returns an error even when
  the database holds the unit (the unit it decodes is local to the closure); the miss puts the decoded unit
  into the cache, so a repeated read may succeed. A returned unit is the stored one up to the JSON
  normal form.\<close>

lemma get_work_unit_iff_cached:
  assumes "records_ok B J items writes s" and "GetWorkUnit B J pick i s = (r, s')"
  shows "((\<exists>w. r = Ret w) \<longleftrightarrow> cached_wu s i \<noteq> None) \<and>
     (\<forall>w. r = Ret w \<longrightarrow> db_wu J items s i = Some (json_norm_wu w)) \<and>
     (\<forall>w. cached_wu s i = None \<and> db_wu J items s i = Some w \<longrightarrow>
        r = Err (NotFound i) \<and> s' = on_cache (SetWorkUnit pick w) s)"
proof -
  have B: "badger_ok B items writes" and coh: "coherent json_norm_wu wu_Id (cached_wu s) (db_wu J items s)"
    using assms(1) by (simp_all add: records_ok_def)
  note get = badger_ok_get [OF B, of "st_db s" "prefixKey prefixWorkUnits i"]
  have hit: "r = Ret w \<longleftrightarrow> cached_wu s i = Some w" for w
    using assms(2) by (auto simp: GetWorkUnit_def cached_wu_def split: option.splits sum.splits badger_error.splits)
  moreover have "r = Err (NotFound i) \<and> s' = on_cache (SetWorkUnit pick w) s"
    if "cached_wu s i = None" "db_wu J items s i = Some w" for w
    using assms(2) that get
    by (auto simp: GetWorkUnit_def cached_wu_def db_wu_def split: option.splits Option.bind_splits)
  moreover have "db_wu J items s i = Some (json_norm_wu w)" if "r = Ret w" for w
    using coherent_hit [OF coh] hit that by blast
  ultimately show ?thesis by auto
qed

definition ref_uncached :: "ref_db Storage" where
  "ref_uncached = ref_storage\<lparr>st_CacheEnabled := False\<rparr>"

lemma ref_uncached_ok: "records_ok ref_badger ref_codec ref_items (\<lambda>t. t) ref_uncached"
  by (simp add: records_ok_def ref_badger_ok coherent_def cached_ctx_def cached_wu_def db_ctx_def db_wu_def
      ref_uncached_def ref_storage_def active_cache_def)

theorem get_work_unit_iff_cached_witness:
  "\<exists>s' s'' r. CreateWorkUnit ref_badger ref_codec (env_at 5 ''u'') ref_create ref_uncached =
       (Ret (new_work_unit (env_at 5 ''u'') ref_create), s') \<and> db_wu ref_codec ref_items s' ''u'' \<noteq> None \<and>
     GetWorkUnit ref_badger ref_codec 0 ''u'' s' = (r, s'') \<and> r = Err (NotFound ''u'')"
proof -
  let ?w = "new_work_unit (env_at 5 ''u'') ref_create"
  obtain s' where s': "storeWorkUnitInternal ref_badger ref_codec 5 0 ?w True ref_uncached = (Ret (), s')"
    "active_cache s' = None"
    by (simp add: storeWorkUnitInternal_def ref_codec_def Let_def try_send_def on_cache_def ref_uncached_def
        ref_storage_def active_cache_def log_entry_def)
  have "json_rt_wu ref_codec ?w" by simp
  note eff = storeWorkUnitInternal_effect(1) [OF ref_uncached_ok this s'(1) refl]
  have id: "wu_Id ?w = ''u''" by (simp add: new_work_unit_def)
  obtain r s'' where get: "GetWorkUnit ref_badger ref_codec 0 ''u'' s' = (r, s'')"
    by (cases "GetWorkUnit ref_badger ref_codec 0 ''u'' s'")
  have "cached_wu s' ''u'' = None" using s'(2) by (simp add: cached_wu_def)
  with get_work_unit_iff_cached [OF _ get, of ref_items "\<lambda>t. t"] eff id
  have "r = Err (NotFound ''u'')" by auto
  with get eff id s'(1) show ?thesis by (simp add: CreateWorkUnit_def Let_def)
qed

text \<open>Updating the metadata of a context that has none. When the object \<open>UpdateContext\<close> finds has a nil metadata map and
  the request carries metadata, the call panics (it assigns to an entry of a nil map) and nothing is
  stored. A context created without metadata is of this kind.\<close>

lemma update_context_nil_meta_panics:
  assumes "records_ok B J items writes s" and "GetContext B J (env_pick E 0) (ucr_Id req) s = (Ret x, s1)"
    and "ctx_Meta x = None" and "entries_of (ucr_Meta req) \<noteq> []"
  shows "\<exists>s'. UpdateContext B J E req s = (Panic, s') \<and> st_db s' = st_db s \<and> st_wal s' = st_wal s"
proof -
  have "st_wal s1 = st_wal s"
    using assms(2) by (auto simp: GetContext_def split: option.splits sum.splits badger_error.splits)
  with assms GetContext_effect(2) [OF assms(1,2)] show ?thesis
    by (simp add: UpdateContext_def merge_meta_def edit_context_def Let_def)
qed

lemma GetContext_uncached:
  assumes "badger_ok B items writes" and "active_cache s = None" and "db_ctx J items s i = Some x"
  shows "GetContext B J pick i s = (Ret x, s)"
  using assms(2,3) badger_ok_get [OF assms(1), of "st_db s" "prefixKey prefixContexts i"]
  by (auto simp: GetContext_def db_ctx_def on_cache_def split: option.splits Option.bind_splits)

theorem update_context_nil_meta_panics_witness:
  "\<exists>s1 s2. storeContextInternal ref_badger ref_codec 5 0 (ref_context\<lparr>ctx_Meta := None\<rparr>) True ref_uncached = (Ret (), s1) \<and>
     UpdateContext ref_badger ref_codec (env_at 6 ''u'') ref_request s1 = (Panic, s2)"
proof -
  let ?x = "ref_context\<lparr>ctx_Meta := None\<rparr>"
  have x: "ctx_Id ?x = ''c''" "json_norm_ctx ?x = ?x" "ctx_Meta ?x = None"
    by (simp_all add: ref_context_def json_norm_ctx_def omit_map_def)
  obtain s1 where s1: "storeContextInternal ref_badger ref_codec 5 0 ?x True ref_uncached = (Ret (), s1)"
    "active_cache s1 = None"
    by (simp add: storeContextInternal_def ref_codec_def Let_def on_cache_def ref_uncached_def
        ref_storage_def active_cache_def log_entry_def)
  have "json_rt_ctx ref_codec ?x" by simp
  note eff = storeContextInternal_effect(1) [OF records_ok_forget [OF ref_uncached_ok] this s1(1) refl]
  have "GetContext ref_badger ref_codec 0 ''c'' s1 = (Ret ?x, s1)"
    by (rule GetContext_uncached [OF ref_badger_ok s1(2)]) (use eff x in simp)
  then show ?thesis
    using update_context_nil_meta_panics [of ref_badger ref_codec ref_items "\<lambda>t. t" s1 "env_at 6 ''u''" ref_request ?x s1]
      eff x s1(1) by (auto simp: ref_request_def)
qed

end
