(* ===== verification/Storage_Listing.thy ===== *)
theory Storage_Listing
  imports Storage_Records
begin

text \<open>
  \<open>ListWorkUnits\<close> of \<open>internal/storage/badger/storage.go\<close>: the pages of the context-time index. The
  theory models the iteration over the index, shows that the byte order of the index keys is the
  order of time, and follows a client from page to page.
\<close>

subsection \<open>The operation\<close>

definition index_prefix :: "bytes \<Rightarrow> bytes" where
  "index_prefix contextID = prefixMeta @ contextID @ '':''"

text \<open>Where the iterator is positioned: at the cursor, or at the first key of the index, or (backwards)
  at the prefix followed by eight bytes \<open>0xFF\<close>.\<close>

definition list_start :: "bytes \<Rightarrow> bytes \<Rightarrow> bool \<Rightarrow> bytes" where
  "list_start pfx cursor reverse =
     (if cursor = [] then (if reverse then pfx @ replicate 8 (char_of (255 :: nat)) else pfx) else cursor)"

text \<open>The loop. Its list argument is what the iterator has still to yield, the item it stands at first;
  the counter \<open>count\<close> of the source is the number of units collected. The \<open>i\<close>-th visited entry uses the
  \<open>i\<close>-th random choice of the cache. The result holds the items at which the loop stopped.\<close>

fun list_loop ::
  "('db, 'txn) badger \<Rightarrow> json_codec \<Rightarrow> (nat \<Rightarrow> nat) \<Rightarrow> bytes \<Rightarrow> bool \<Rightarrow> int \<Rightarrow> nat \<Rightarrow> WorkUnit list \<Rightarrow>
   (bytes \<times> (badger_error + bytes)) list \<Rightarrow> 'db Storage \<Rightarrow>
   WorkUnit list \<times> (bytes \<times> (badger_error + bytes)) list \<times> 'db Storage" where
  "list_loop B J picks pfx reverse limit i units [] s = (units, [], s)"
| "list_loop B J picks pfx reverse limit i units ((key, val) # it) s =
     (if \<not> int (length units) < limit then (units, (key, val) # it, s)
      else if \<not> prefix pfx key then
        (if reverse then list_loop B J picks pfx reverse limit (Suc i) units it s
         else (units, (key, val) # it, s))
      else case val of
        Inl e \<Rightarrow> list_loop B J picks pfx reverse limit (Suc i) units it s
      | Inr unitID \<Rightarrow>
          (case GetWorkUnit B J (picks i) unitID s of
             (Ret unit, s) \<Rightarrow> list_loop B J picks pfx reverse limit (Suc i) (units @ [unit]) it s
           | (_, s) \<Rightarrow> list_loop B J picks pfx reverse limit (Suc i) units it s))"

text \<open>\<open>make([]*proto.WorkUnit, 0, limit)\<close> panics for a negative capacity.\<close>

definition ListWorkUnits ::
  "('db, 'txn) badger \<Rightarrow> json_codec \<Rightarrow> (nat \<Rightarrow> nat) \<Rightarrow> bytes \<Rightarrow> int \<Rightarrow> bytes \<Rightarrow> bool \<Rightarrow> 'db Storage \<Rightarrow>
   (storage_error, WorkUnit list \<times> bytes) outcome \<times> 'db Storage" where
  "ListWorkUnits B J picks contextID limit cursor reverse s =
     (if limit < 0 then (Panic, s)
      else
        let pfx = index_prefix contextID;
            it = viewSeek B (st_db s) reverse (list_start pfx cursor reverse)
        in case list_loop B J picks pfx reverse limit 0 [] it s of
             (units, it, s) \<Rightarrow>
               (Ret (units,
                  case it of
                    [] \<Rightarrow> []
                  | (key, val) # _ \<Rightarrow> if limit \<le> int (length units) \<and> prefix pfx key then key else []), s))"

subsection \<open>The order of keys\<close>

lemma less_snoc:
  "length xs = length ys \<Longrightarrow> (xs @ [c] < ys @ [d]) = (xs < ys \<or> xs = ys \<and> c < (d :: char))"
  by (induction xs ys rule: list_induct2) auto

lemma le_bytes_inj:
  "a < 256 ^ w \<Longrightarrow> b < 256 ^ w \<Longrightarrow> (le_bytes w a = le_bytes w b) = (a = b)"
  by (metis le_nat_le_bytes mod_less)

lemma big_endian_less:
  assumes "a < 256 ^ w" and "b < 256 ^ w"
  shows "(rev (le_bytes w a) < rev (le_bytes w b)) = (a < b)"
  using assms
proof (induction w arbitrary: a b)
  case (Suc w)
  have div: "a div 256 < 256 ^ w" "b div 256 < 256 ^ w"
    using Suc.prems by (simp_all add: less_mult_imp_div_less)
  have char: "(char_of a < (char_of b :: char)) = (a mod 256 < b mod 256)"
    by (simp add: less_char_def)
  have "(rev (le_bytes (Suc w) a) < rev (le_bytes (Suc w) b)) =
      (a div 256 < b div 256 \<or> a div 256 = b div 256 \<and> a mod 256 < b mod 256)"
    using Suc.IH [OF div] le_bytes_inj [OF div] by (simp add: less_snoc char)
  also have "\<dots> = (a < b)"
    using div_mult_mod_eq [of a 256] div_mult_mod_eq [of b 256]
      mod_less_divisor [of 256 a] mod_less_divisor [of 256 b]
    by (cases rule: linorder_cases [of "a div 256" "b div 256"]) linarith+
  finally show ?case .
qed simp


lemma timeBytes_less:
  assumes "0 \<le> a" "a < 2 ^ 63" and "0 \<le> b" "b < 2 ^ 63"
  shows "(timeBytes a < timeBytes b) = (a < b)"
proof -
  have nat: "unat (word_of_int x :: 64 word) = nat x" if "0 \<le> x" "x < 2 ^ 63" for x
    using that by (simp add: unat_eq_nat_uint uint_word_of_int_eq take_bit_int_eq_self)
  show ?thesis
    using assms big_endian_less [of "nat a" 8 "nat b"] by (auto simp: timeBytes_def nat)
qed

lemma timeBytes_eq:
  assumes "0 \<le> a" "a < 2 ^ 63" and "0 \<le> b" "b < 2 ^ 63"
  shows "(timeBytes a = timeBytes b) = (a = b)"
  using timeBytes_less [OF assms] timeBytes_less [OF assms(3,4,1,2)] by (metis linorder_less_linear order_less_irrefl)

lemma length_timeBytes [simp]: "length (timeBytes t) = 8"
  by (simp add: timeBytes_def)

lemma makeContextTimeKey_prefix: "makeContextTimeKey c t = index_prefix c @ timeBytes t"
  by (simp add: makeContextTimeKey_def index_prefix_def)

subsection \<open>One page\<close>

text \<open>The index of a context, in the direction of the listing: the items whose key has the prefix of the
  context.\<close>

definition context_index ::
  "('db \<Rightarrow> (bytes \<times> bytes) list) \<Rightarrow> 'db Storage \<Rightarrow> bytes \<Rightarrow> bool \<Rightarrow> (bytes \<times> bytes) list" where
  "context_index items s c reverse =
     (let I = filter (\<lambda>(k, v). prefix (index_prefix c) k) (items (st_db s)) in if reverse then rev I else I)"

text \<open>A list in which the items of an interval come first is split by that interval.\<close>

lemma split_leading:
  "sorted_wrt (\<lambda>x y. P y \<longrightarrow> P x) xs \<Longrightarrow> xs = filter P xs @ filter (\<lambda>x. \<not> P x) xs"
proof (induction xs)
  case (Cons x xs)
  then show ?case
    by (cases "P x") (auto simp: filter_empty_conv intro!: sym [OF filter_True])
qed simp

lemma filter_from_nth:
  assumes "sorted_wrt R xs" and "transp R" and "irreflp R" and "i < length xs"
  shows "filter (\<lambda>x. x = xs ! i \<or> R (xs ! i) x) xs = drop i xs"
  using assms(1,4)
proof (induction xs arbitrary: i)
  case (Cons x xs)
  show ?case
  proof (cases i)
    case 0
    then show ?thesis using Cons.prems by (auto intro!: filter_True)
  next
    case (Suc j)
    then have "R x (xs ! j)" using Cons.prems by simp
    then have "\<not> (x = xs ! j \<or> R (xs ! j) x)"
      using assms(2,3) by (metis irreflp_def transpD)
    then show ?thesis using Suc Cons by simp
  qed
qed simp


abbreviation (input) cached_unit :: "'db Storage \<Rightarrow> bytes \<times> bytes \<Rightarrow> WorkUnit" where
  "cached_unit s \<equiv> \<lambda>(k, v). the (cached_wu s v)"

lemma GetWorkUnit_hit: "cached_wu s v = Some w \<Longrightarrow> GetWorkUnit B J pick v s = (Ret w, s)"
  by (simp add: GetWorkUnit_def cached_wu_def)

lemma list_loop_outside:
  assumes "\<forall>(k, v) \<in> set C. \<not> prefix pfx k"
  shows "\<exists>rest. list_loop B J picks pfx reverse limit i units C s = (units, rest, s) \<and>
     (\<forall>k v r. rest = (k, v) # r \<longrightarrow> \<not> prefix pfx k)"
  using assms
proof (induction C arbitrary: i)
  case (Cons c C)
  obtain k v where c: "c = (k, v)" by (cases c)
  show ?case using Cons.prems Cons.IH [of "Suc i"] by (auto simp: c)
qed simp

lemma list_loop_page:
  assumes "\<forall>(k, v) \<in> set A. prefix pfx k \<and> cached_wu s v \<noteq> None" and "\<forall>(k, v) \<in> set C. \<not> prefix pfx k"
    and "int (length units) \<le> limit"
  shows "\<exists>rest. list_loop B J picks pfx reverse limit i units (readable A @ C) s =
       (units @ map (cached_unit s) (take (nat (limit - int (length units))) A),
        readable (drop (nat (limit - int (length units))) A) @ rest, s) \<and>
     (\<forall>k v r. rest = (k, v) # r \<longrightarrow> \<not> prefix pfx k)"
  using assms(1,3)
proof (induction A arbitrary: i units)
  case Nil
  then show ?case using list_loop_outside [OF assms(2)] by simp
next
  case (Cons a A)
  obtain k v w where a: "a = (k, v)" "prefix pfx k" "cached_wu s v = Some w"
    using Cons.prems by (cases a) auto
  show ?case
  proof (cases "int (length units) = limit")
    case True
    then show ?thesis using assms(2) a by (intro exI [of _ C]) auto
  next
    case False
    then have n: "nat (limit - int (length units)) = Suc (nat (limit - int (length (units @ [w]))))"
      using Cons.prems(2) by simp
    have "int (length (units @ [w])) \<le> limit" using False Cons.prems(2) by simp
    then show ?thesis
      using Cons.IH [of "units @ [w]" "Suc i"] Cons.prems a False
      by (simp add: n GetWorkUnit_hit [OF a(3)] del: nat_diff_distrib)
  qed
qed

text \<open>The start of the \<open>i\<close>-th entry of the index: no cursor for the first, its key for the others.\<close>

definition index_cursor :: "(bytes \<times> bytes) list \<Rightarrow> nat \<Rightarrow> bytes \<Rightarrow> bool" where
  "index_cursor I i cursor \<longleftrightarrow> (if cursor = [] then i = 0 else i < length I \<and> cursor = fst (I ! i))"

text \<open>Every key with the prefix of the context is at or below the position from which a backward listing
  starts.\<close>

definition index_bounded :: "('db \<Rightarrow> (bytes \<times> bytes) list) \<Rightarrow> 'db Storage \<Rightarrow> bytes \<Rightarrow> bool" where
  "index_bounded items s c \<longleftrightarrow>
     (\<forall>(k, v) \<in> set (items (st_db s)). prefix (index_prefix c) k \<longrightarrow> k \<le> list_start (index_prefix c) [] True)"


lemma context_index_set: "(k, v) \<in> set (context_index items s c reverse) \<Longrightarrow> prefix (index_prefix c) k"
  by (auto simp: context_index_def Let_def split: if_splits)

lemma sorted_fst_inj:
  assumes "sorted_wrt (\<lambda>x y. R (fst x) (fst y)) xs" and "irreflp R"
    and "x \<in> set xs" "y \<in> set xs" and "fst x = fst y"
  shows "x = y"
proof -
  obtain a b where ab: "a < length xs" "x = xs ! a" "b < length xs" "y = xs ! b"
    using assms(3,4) by (auto simp: in_set_conv_nth)
  have "\<not> a < b" "\<not> b < a"
    using sorted_wrt_nth_less [OF assms(1)] irreflpD [OF assms(2)] ab assms(5) by metis+
  with ab show ?thesis by simp
qed

text \<open>An iteration over keys in the order \<open>R\<close> from a position \<open>start\<close>: among the keys with the prefix it yields
  the rest of the index, and they come first.\<close>

lemma seek_from:
  assumes "sorted_wrt (\<lambda>x y. R (fst x) (fst y)) L" and "transp R" and "irreflp R"
    and "index_cursor (filter (\<lambda>(k, v). prefix p k) L) i cursor"
    and "if cursor = [] then \<forall>(k, v) \<in> set L. prefix p k \<longrightarrow> R\<^sup>=\<^sup>= start k else start = cursor"
  shows "filter (\<lambda>(k, v). prefix p k) (filter (\<lambda>(k, v). R\<^sup>=\<^sup>= start k) L) =
     drop i (filter (\<lambda>(k, v). prefix p k) L)" (is "filter ?P (filter ?S L) = drop i ?I")
proof -
  have swap: "filter ?P (filter ?S L) = filter ?S ?I" by (auto simp: conj_commute split_def)
  show ?thesis
  proof (cases "cursor = []")
    case True
    with assms(5) have "filter ?S ?I = ?I" by (intro filter_True) auto
    with True show ?thesis using assms(4) swap by (simp add: index_cursor_def)
  next
    case False
    then have i: "i < length ?I" and cur: "start = fst (?I ! i)"
      using assms(4,5) by (simp_all add: index_cursor_def)
    let ?R = "\<lambda>x y :: bytes \<times> bytes. R (fst x) (fst y)"
    have sorted: "sorted_wrt ?R ?I" using assms(1) by (rule sorted_wrt_filter)
    have "?S x \<longleftrightarrow> x = y \<or> ?R y x" if "x \<in> set ?I" "y \<in> set ?I" "start = fst y" for x y
      using sorted_fst_inj [OF sorted assms(3) that(1,2)] that(3) by (cases x; cases y) auto
    from this [OF _ nth_mem [OF i] cur] have "?S x \<longleftrightarrow> x = ?I ! i \<or> ?R (?I ! i) x" if "x \<in> set ?I" for x
      using that by blast
    then have "filter ?S ?I = filter (\<lambda>x. x = ?I ! i \<or> ?R (?I ! i) x) ?I"
      by (rule filter_cong [OF refl])
    also have "\<dots> = drop i ?I"
      by (rule filter_from_nth [OF sorted _ _ i])
        (use assms(2,3) in \<open>auto simp: transp_def irreflp_def\<close>)
    finally show ?thesis using swap by simp
  qed
qed

lemma seek_split:
  assumes "sorted_wrt (\<lambda>x y. R (fst x) (fst y)) L" and "transp R" and "irreflp R"
    and "index_cursor (filter (\<lambda>(k, v). prefix p k) L) i cursor"
    and "if cursor = [] then \<forall>(k, v) \<in> set L. prefix p k \<longrightarrow> R\<^sup>=\<^sup>= start k else start = cursor"
    and between: "\<And>k l. R\<^sup>=\<^sup>= start k \<Longrightarrow> R k l \<Longrightarrow> prefix p l \<Longrightarrow> prefix p k"
  shows "\<exists>C. filter (\<lambda>(k, v). R\<^sup>=\<^sup>= start k) L = drop i (filter (\<lambda>(k, v). prefix p k) L) @ C \<and>
     (\<forall>(k, v) \<in> set C. \<not> prefix p k)"
proof -
  let ?S = "filter (\<lambda>(k, v). R\<^sup>=\<^sup>= start k) L" and ?P = "\<lambda>(k, v). prefix p k"
  have "sorted_wrt (\<lambda>x y. ?P y \<longrightarrow> ?P x) ?S"
    by (rule sorted_wrt_mono_rel [OF _ sorted_wrt_filter [OF assms(1)]]) (use between in auto)
  then have "?S = filter ?P ?S @ filter (\<lambda>x. \<not> ?P x) ?S" by (rule split_leading)
  then have "?S = drop i (filter ?P L) @ filter (\<lambda>x. \<not> ?P x) ?S" by (simp only: seek_from [OF assms(1-5)])
  then show ?thesis by (rule exI [of _ "filter (\<lambda>x. \<not> ?P x) ?S", OF conjI]) auto
qed


lemma seek_context_index:
  assumes B: "badger_ok B items writes" and cur: "index_cursor (context_index items s c reverse) i cursor"
    and bounded: "reverse \<longrightarrow> index_bounded items s c"
  shows "\<exists>C. viewSeek B (st_db s) reverse (list_start (index_prefix c) cursor reverse) =
       readable (drop i (context_index items s c reverse)) @ C \<and> (\<forall>(k, v) \<in> set C. \<not> prefix (index_prefix c) k)"
proof -
  let ?p = "index_prefix c" and ?L = "items (st_db s)" and ?st = "list_start (index_prefix c) cursor reverse"
  let ?P = "\<lambda>(k, v). prefix ?p k"
  have sorted: "sorted_wrt (\<lambda>x y. fst x < fst y) ?L" using badger_ok_sorted [OF B] by (simp add: sorted_wrt_map)
  have start: "\<exists>x. ?st = ?p @ x"
  proof (cases "cursor = []")
    case False
    then have "cursor = fst (context_index items s c reverse ! i)" "i < length (context_index items s c reverse)"
      using cur by (simp_all add: index_cursor_def)
    then have "prefix ?p cursor" using context_index_set [of cursor _ items s c reverse] by (metis nth_mem prod.collapse)
    then show ?thesis using False by (auto simp: list_start_def prefix_def)
  qed (auto simp: list_start_def)
  have "\<exists>C. (if reverse then rev (filter (\<lambda>(k, v). k \<le> ?st) ?L) else filter (\<lambda>(k, v). ?st \<le> k) ?L) =
      drop i (context_index items s c reverse) @ C \<and> (\<forall>(k, v) \<in> set C. \<not> prefix ?p k)"
  proof (cases reverse)
    case True
    have "\<exists>C. filter (\<lambda>(k, v). (\<lambda>a b. b < a)\<^sup>=\<^sup>= ?st k) (rev ?L) = drop i (filter ?P (rev ?L)) @ C \<and>
        (\<forall>(k, v) \<in> set C. \<not> prefix ?p k)"
    proof (rule seek_split)
      show "if cursor = [] then \<forall>(k, v) \<in> set (rev ?L). prefix ?p k \<longrightarrow> (\<lambda>a b. b < a)\<^sup>=\<^sup>= ?st k else ?st = cursor"
        using bounded True by (auto simp: index_bounded_def list_start_def order_le_less)
      show "prefix ?p k" if "(\<lambda>a b. b < a)\<^sup>=\<^sup>= ?st k" "l < k" "prefix ?p l" for k l
      proof -
        have "k \<le> ?st" using that(1) by auto
        moreover from start obtain x where "?st = ?p @ x" by blast
        moreover have "?p \<le> k" using prefix_le [OF that(3)] that(2) by simp
        ultimately show ?thesis using prefix_between by metis
      qed
    qed (use sorted cur True in \<open>auto simp: sorted_wrt_rev transp_def irreflp_def context_index_def rev_filter\<close>)
    moreover have "filter (\<lambda>(k, v). (\<lambda>a b. b < a)\<^sup>=\<^sup>= ?st k) (rev ?L) = rev (filter (\<lambda>(k, v). k \<le> ?st) ?L)"
      unfolding rev_filter by (rule filter_cong) (auto simp: order_le_less)
    ultimately show ?thesis using True by (simp add: context_index_def rev_filter)
  next
    case False
    have "\<exists>C. filter (\<lambda>(k, v). (<)\<^sup>=\<^sup>= ?st k) ?L = drop i (filter ?P ?L) @ C \<and> (\<forall>(k, v) \<in> set C. \<not> prefix ?p k)"
    proof (rule seek_split)
      show "if cursor = [] then \<forall>(k, v) \<in> set ?L. prefix ?p k \<longrightarrow> (<)\<^sup>=\<^sup>= ?st k else ?st = cursor"
        using False prefix_le by (auto simp: list_start_def order_le_less)
      show "prefix ?p k" if "(<)\<^sup>=\<^sup>= ?st k" "k < l" "prefix ?p l" for k l
      proof -
        have "?st \<le> k" using that(1) by auto
        moreover have "?p \<le> ?st" using start prefix_le by (auto simp: prefix_def)
        moreover from that(3) obtain y where "l = ?p @ y" by (auto simp: prefix_def)
        ultimately show ?thesis using that(2) prefix_between [of ?p k y] by simp
      qed
    qed (use sorted cur False in \<open>auto simp: transp_def irreflp_def context_index_def\<close>)
    moreover have "filter (\<lambda>(k, v). (<)\<^sup>=\<^sup>= ?st k) ?L = filter (\<lambda>(k, v). ?st \<le> k) ?L"
      by (rule filter_cong) (auto simp: order_le_less)
    ultimately show ?thesis using False by (simp add: context_index_def)
  qed
  then obtain C where "(if reverse then rev (filter (\<lambda>(k, v). k \<le> ?st) ?L) else filter (\<lambda>(k, v). ?st \<le> k) ?L) =
      drop i (context_index items s c reverse) @ C" "\<forall>(k, v) \<in> set C. \<not> prefix ?p k" by blast
  then show ?thesis
    by (intro exI [of _ "readable C"]) (cases reverse; auto simp: badger_ok_seek [OF B] simp flip: readable_simps(3) simp: readable_def)
qed


lemma ListWorkUnits_page:
  assumes B: "badger_ok B items writes" and "0 \<le> limit"
    and I: "I = context_index items s c reverse" and cur: "index_cursor I i cursor"
    and bounded: "reverse \<longrightarrow> index_bounded items s c" and hit: "\<forall>(k, v) \<in> set I. cached_wu s v \<noteq> None"
  shows "ListWorkUnits B J picks c limit cursor reverse s =
     (Ret (map (cached_unit s) (take (nat limit) (drop i I)),
           if i + nat limit < length I then fst (I ! (i + nat limit)) else []), s)"
proof -
  let ?p = "index_prefix c" and ?A = "drop i I" and ?n = "nat limit"
  obtain C where seek: "viewSeek B (st_db s) reverse (list_start ?p cursor reverse) = readable ?A @ C"
    and C: "\<forall>(k, v) \<in> set C. \<not> prefix ?p k"
    using seek_context_index [OF B cur [unfolded I] bounded] I by blast
  have A: "\<forall>(k, v) \<in> set ?A. prefix ?p k \<and> cached_wu s v \<noteq> None"
    using hit context_index_set I by (auto dest!: in_set_dropD)
  obtain rest where loop: "list_loop B J picks ?p reverse limit 0 [] (readable ?A @ C) s =
       (map (cached_unit s) (take ?n ?A), readable (drop ?n ?A) @ rest, s)"
    and rest: "\<And>k v r. rest = (k, v) # r \<Longrightarrow> \<not> prefix ?p k"
    using list_loop_page [OF A C, of "[]" limit B J picks reverse 0] assms(2) by auto
  show ?thesis
  proof (cases "i + ?n < length I")
    case True
    obtain k v where kv: "I ! (i + ?n) = (k, v)" by fastforce
    have "drop ?n ?A = (k, v) # drop (Suc (i + ?n)) I"
      using Cons_nth_drop_Suc [OF True] kv by (simp add: add.commute)
    moreover have "prefix ?p k"
      using I context_index_set [of k v items s c reverse] nth_mem [OF True] kv by simp
    ultimately show ?thesis using True assms(2) seek loop kv by (simp add: ListWorkUnits_def Let_def)
  next
    case False
    then show ?thesis
      using assms(2) seek loop rest by (auto simp: ListWorkUnits_def Let_def split: list.splits)
  qed
qed

subsection \<open>From page to page\<close>

text \<open>A client that asks for pages of \<open>limit\<close> units, each from the cursor the page before returned, until the
  cursor is empty: \<open>None\<close> when a call fails or \<open>fuel\<close> pages were not enough.\<close>

fun follow_cursor ::
  "nat \<Rightarrow> ('db, 'txn) badger \<Rightarrow> json_codec \<Rightarrow> (nat \<Rightarrow> nat) \<Rightarrow> bytes \<Rightarrow> int \<Rightarrow> bytes \<Rightarrow> bool \<Rightarrow> 'db Storage \<Rightarrow>
   WorkUnit list option" where
  "follow_cursor 0 B J picks c limit cursor reverse s = None"
| "follow_cursor (Suc fuel) B J picks c limit cursor reverse s =
     (case ListWorkUnits B J picks c limit cursor reverse s of
        (Ret (units, next), s) \<Rightarrow>
          if next = [] then Some units
          else map_option (\<lambda>more. units @ more) (follow_cursor fuel B J picks c limit next reverse s)
      | _ \<Rightarrow> None)"

lemma follow_cursor_from:
  assumes B: "badger_ok B items writes" and limit: "0 < limit"
    and I: "I = context_index items s c reverse"
    and bounded: "reverse \<longrightarrow> index_bounded items s c" and hit: "\<forall>(k, v) \<in> set I. cached_wu s v \<noteq> None"
    and "index_cursor I i cursor" and "length I - i < fuel"
  shows "follow_cursor fuel B J picks c limit cursor reverse s = Some (map (cached_unit s) (drop i I))"
  using assms(6,7)
proof (induction fuel arbitrary: i cursor)
  case (Suc fuel)
  let ?j = "i + nat limit"
  note page = ListWorkUnits_page [OF B less_imp_le [OF limit] I Suc.prems(1) bounded hit, of J picks]
  show ?case
  proof (cases "?j < length I")
    case True
    have "prefix (index_prefix c) (fst (I ! ?j))"
      using nth_mem [OF True] context_index_set [of "fst (I ! ?j)" "snd (I ! ?j)" items s c reverse] I by simp
    then have nonempty: "fst (I ! ?j) \<noteq> []" by (auto simp: index_prefix_def prefix_def)
    have "follow_cursor fuel B J picks c limit (fst (I ! ?j)) reverse s = Some (map (cached_unit s) (drop ?j I))"
      by (rule Suc.IH) (use True limit Suc.prems nonempty in \<open>auto simp: index_cursor_def\<close>)
    moreover have "take (nat limit) (drop i I) @ drop ?j I = drop i I"
      by (metis append_take_drop_id drop_drop add.commute)
    ultimately show ?thesis using True page nonempty by (simp flip: map_append)
  next
    case False
    then show ?thesis using page by simp
  qed
qed simp


text \<open>C18. Pagination is complete. When the units of a context are cached, a client that follows the cursors
  gets every entry of the context's index exactly once and in the order of the index (or its reverse), for every
  positive page size, and needs at most one page more than there are entries.\<close>

theorem list_pages_complete:
  assumes "badger_ok B items writes" and "0 < limit" and "reverse \<longrightarrow> index_bounded items s c"
    and "\<forall>(k, v) \<in> set (context_index items s c reverse). cached_wu s v \<noteq> None"
  shows "follow_cursor (Suc (length (context_index items s c reverse))) B J picks c limit [] reverse s =
     Some (map (\<lambda>(k, v). the (cached_wu s v)) (context_index items s c reverse))"
  using follow_cursor_from [OF assms(1,2) refl assms(3,4), of 0 "[]"]
  by (simp add: index_cursor_def del: follow_cursor.simps)

definition ref_unit :: "bytes \<Rightarrow> bytes \<Rightarrow> gotime \<Rightarrow> WorkUnit" where
  "ref_unit i c t = \<lparr>wu_Id = i, wu_ContextId = c, wu_AgentId = ''a'', wu_Type = WorkUnitType_MESSAGE,
     wu_Ts = Some t, wu_Meta = None, wu_Payload = None, wu_Relationships = []\<rparr>"

text \<open>Three units, two of them of the context \<open>c\<close>.\<close>

definition ref_listing :: "ref_db Storage" where
  "ref_listing = ref_storage\<lparr>
     st_cache := Some \<lparr>c_workUnits = [(''u'', ref_unit ''u'' ''c'' 5), (''v'', ref_unit ''v'' ''c'' 300)], c_contexts = [],
       c_locks = [], c_expiration = 1, c_workUnitSize = 2, c_contextSize = 2, c_lockSize = 2\<rparr>,
     st_db := ref_commit [(makeContextTimeKey ''c'' 300, Some ''v''), (makeContextTimeKey ''d'' 7, Some ''w''),
       (makeContextTimeKey ''c'' 5, Some ''u'')] ref_empty\<rparr>"

lemma ref_listing_index:
  "context_index ref_items ref_listing ''c'' False =
     [(makeContextTimeKey ''c'' 5, ''u''), (makeContextTimeKey ''c'' 300, ''v'')]"
  by (simp add: context_index_def ref_listing_def makeContextTimeKey_def prefix_defs index_prefix_def
      timeBytes_less timeBytes_eq less_char_def)

theorem list_pages_complete_witness:
  "follow_cursor 3 ref_badger ref_codec (\<lambda>_. 0) ''c'' 1 [] False ref_listing =
     Some [ref_unit ''u'' ''c'' 5, ref_unit ''v'' ''c'' 300]"
proof -
  have cached: "cached_wu ref_listing ''u'' = Some (ref_unit ''u'' ''c'' 5)"
    "cached_wu ref_listing ''v'' = Some (ref_unit ''v'' ''c'' 300)"
    by (simp_all add: cached_wu_def ref_listing_def ref_storage_def active_cache_def cacheGetWorkUnit_def)
  show ?thesis
    using list_pages_complete [OF ref_badger_ok, of 1 False ref_listing "''c''" ref_codec "\<lambda>_. 0"] cached
    by (simp add: ref_listing_index numeral_3_eq_3 del: follow_cursor.simps)
qed

text \<open>The index is in the order of time. For instants that fit a signed 64-bit number of nanoseconds since the
  epoch, the keys of a context are ordered as their instants are, and two entries share a key only if context and
  instant are the same.\<close>

lemma index_key_order:
  assumes "0 \<le> a" "a < 2 ^ 63" and "0 \<le> b" "b < 2 ^ 63"
  shows "(makeContextTimeKey c a < makeContextTimeKey c b \<longleftrightarrow> a < b) \<and>
     (makeContextTimeKey c a = makeContextTimeKey d b \<longleftrightarrow> c = d \<and> a = b)"
proof -
  have "(index_prefix c @ timeBytes a = index_prefix d @ timeBytes b) \<longleftrightarrow> c = d \<and> timeBytes a = timeBytes b"
    by (subst append_eq_append_conv) (auto simp: index_prefix_def)
  then show ?thesis
    using timeBytes_less [OF assms] timeBytes_eq [OF assms] by (simp add: makeContextTimeKey_prefix)
qed

theorem index_key_order_witness:
  "makeContextTimeKey ''c'' 255 < makeContextTimeKey ''c'' 256 \<and> makeContextTimeKey ''c'' 5 \<noteq> makeContextTimeKey ''c:'' 5"
  using index_key_order [of 255 256 "''c''"] index_key_order [of 5 5 "''c''" "''c:''"] by simp


subsection \<open>What a page may contain\<close>

lemma GetWorkUnit_effect:
  assumes ok: "records_ok B J items writes s" and get: "GetWorkUnit B J pick v s = (r, s')"
  shows "records_ok B J items writes s'" and "st_db s' = st_db s"
    and "r = Ret w \<Longrightarrow> db_wu J items s v = Some (json_norm_wu w) \<and> wu_Id w = v"
proof -
  have get': "viewGet B (st_db s) (prefixKey prefixWorkUnits v) =
      (case map_of (items (st_db s)) (prefixKey prefixWorkUnits v) of None \<Rightarrow> Inl ErrKeyNotFound | Some v \<Rightarrow> Inr v)"
    using ok badger_ok_get by (auto simp: records_ok_def)
  have coh: "coherent json_norm_wu wu_Id (cached_wu s) (db_wu J items s)" using ok by (simp add: records_ok_def)
  consider (hit) m where "cached_wu s v = Some m" "r = Ret m" "s' = s"
    | (miss) e where "r = Err e" "s' = s"
    | (fill) m e where "db_wu J items s v = Some m" "r = Err e" "s' = on_cache (SetWorkUnit pick m) s"
  proof (cases "cached_wu s v")
    case None
    then have "GetWorkUnit B J pick v s = (case map_of (items (st_db s)) (prefixKey prefixWorkUnits v) of
        None \<Rightarrow> (Err (NotFound v), s)
      | Some d \<Rightarrow> (case UnmarshalWorkUnit J d of
          None \<Rightarrow> (Err UnmarshalFailed, s) | Some m \<Rightarrow> (Err (NotFound v), on_cache (SetWorkUnit pick m) s)))"
      using get' by (auto simp: GetWorkUnit_def cached_wu_def split: option.splits)
    with get that(2,3) show ?thesis by (auto simp: db_wu_def split: option.splits)
  next
    case (Some m)
    from GetWorkUnit_hit [OF Some, of B J pick] get have "r = Ret m" "s' = s" by simp_all
    then show ?thesis by (rule that(1) [OF Some])
  qed
  then have "records_ok B J items writes s' \<and> st_db s' = st_db s \<and>
    (r = Ret w \<longrightarrow> db_wu J items s v = Some (json_norm_wu w) \<and> wu_Id w = v)"
  proof cases
    case hit
    then show ?thesis using ok coherent_hit [OF coh] by auto
  next
    case miss
    then show ?thesis using ok by simp
  next
    case fill
    have "coherent json_norm_wu wu_Id (cached_wu s') (db_wu J items s)"
      unfolding fill(3) using st_wu.coherent_fill [OF coh, of m pick] coherent_stored [OF coh fill(1)] fill(1) by simp
    then show ?thesis using ok fill by (simp add: records_ok_def)
  qed
  then show "records_ok B J items writes s'" "st_db s' = st_db s"
    "r = Ret w \<Longrightarrow> db_wu J items s v = Some (json_norm_wu w) \<and> wu_Id w = v" by simp_all
qed

text \<open>A run of the loop over \<open>xs\<close> from the state \<open>s\<close>: the units it added and where it stopped.\<close>

definition loop_sound where
  "loop_sound B J items writes pfx limit xs units s units' rest s' \<longleftrightarrow>
     records_ok B J items writes s' \<and> st_db s' = st_db s \<and> suffix rest (readable xs) \<and>
     int (length units') \<le> limit \<and>
     (\<exists>vs. units' = units @ vs \<and> subseq (map wu_Id vs) (map snd (filter (\<lambda>(k, v). prefix pfx k) xs)) \<and>
        (\<forall>w \<in> set vs. db_wu J items s (wu_Id w) = Some (json_norm_wu w)))"

lemma loop_sound_skip:
  "loop_sound B J items writes pfx limit xs units s units' rest s' \<Longrightarrow>
   loop_sound B J items writes pfx limit (x # xs) units s units' rest s'"
  by (cases x) (auto simp: loop_sound_def suffix_ConsI)

lemma db_wu_cong: "st_db s' = st_db s \<Longrightarrow> db_wu J items s' = db_wu J items s"
  by (simp add: db_wu_def fun_eq_iff)

lemma loop_sound_state:
  "loop_sound B J items writes pfx limit xs units s1 units' rest s' \<Longrightarrow> st_db s1 = st_db s \<Longrightarrow>
   loop_sound B J items writes pfx limit xs units s units' rest s'"
  using db_wu_cong [of s1 s J items] by (simp add: loop_sound_def)

lemma loop_sound_take:
  assumes "loop_sound B J items writes pfx limit xs (units @ [w]) s units' rest s'" and "prefix pfx k"
    and "db_wu J items s (wu_Id w) = Some (json_norm_wu w)"
  shows "loop_sound B J items writes pfx limit ((k, wu_Id w) # xs) units s units' rest s'"
proof -
  obtain vs where vs: "units' = (units @ [w]) @ vs" "subseq (map wu_Id vs) (map snd (filter (\<lambda>(k, v). prefix pfx k) xs))"
    "\<forall>w \<in> set vs. db_wu J items s (wu_Id w) = Some (json_norm_wu w)"
    using assms(1) by (auto simp: loop_sound_def)
  then show ?thesis
    using assms unfolding loop_sound_def by (intro conjI exI [of _ "w # vs"]) (auto simp: suffix_ConsI)
qed

lemma list_loop_sound:
  assumes "records_ok B J items writes s" and "int (length units) \<le> limit"
    and "list_loop B J picks pfx reverse limit i units (readable xs) s = (units', rest, s')"
  shows "loop_sound B J items writes pfx limit xs units s units' rest s'"
  using assms
proof (induction xs arbitrary: i units s)
  case Nil
  then show ?case by (simp add: loop_sound_def)
next
  case (Cons x xs)
  obtain k v where x: "x = (k, v)" by (cases x)
  obtain r s1 where get: "GetWorkUnit B J (picks i) v s = (r, s1)" by fastforce
  note eff = GetWorkUnit_effect [OF Cons.prems(1) get]
  have stop: "loop_sound B J items writes pfx limit (x # xs) units s units (readable (x # xs)) s"
    using Cons.prems(1,2) by (auto simp: loop_sound_def)
  show ?case
  proof (cases "int (length units) < limit \<and> prefix pfx k")
    case False
    then show ?thesis
      using Cons.prems stop loop_sound_skip [OF Cons.IH [of s units "Suc i"]] by (auto simp: x split: if_splits)
  next
    case True
    show ?thesis
    proof (cases "\<exists>w. r = Ret w")
      case False
      then have "list_loop B J picks pfx reverse limit (Suc i) units (readable xs) s1 = (units', rest, s')"
        using True Cons.prems(3) get by (cases r) (auto simp: x)
      then show ?thesis
        using loop_sound_skip [OF loop_sound_state [OF Cons.IH [OF eff(1) Cons.prems(2)] eff(2)]] by blast
    next
      case ret: True
      then obtain w where w: "r = Ret w" by blast
      have "list_loop B J picks pfx reverse limit (Suc i) (units @ [w]) (readable xs) s1 = (units', rest, s')"
        using True Cons.prems(3) get w by (simp add: x)
      moreover have "int (length (units @ [w])) \<le> limit" using True by simp
      ultimately show ?thesis
        using loop_sound_take [OF loop_sound_state [OF Cons.IH [OF eff(1)] eff(2)]] eff(3) [OF w] True x by blast
    qed
  qed
qed


lemma suffix_ConsD_set: "suffix ((k, v) # rest) (readable xs) \<Longrightarrow> k \<in> fst ` set xs"
  by (auto simp: readable_def dest!: set_mono_suffix) force

text \<open>C19. A page is sound for any cursor, also one the storage did not return, and whatever is cached. It has at most
  \<open>limit\<close> units; their identifiers are a subsequence of the entries of the context's index in the asked
  direction, so no entry is listed twice or out of order; each unit is the stored one up to the JSON normal form;
  a cursor that is returned is a key of the index; nothing but the cache changes.\<close>

theorem list_page_sound:
  assumes "records_ok B J items writes s" and "0 \<le> limit"
  shows "\<exists>units cur s'. ListWorkUnits B J picks c limit cursor reverse s = (Ret (units, cur), s') \<and>
     records_ok B J items writes s' \<and> st_db s' = st_db s \<and> int (length units) \<le> limit \<and>
     subseq (map wu_Id units) (map snd (context_index items s c reverse)) \<and>
     (\<forall>w \<in> set units. db_wu J items s (wu_Id w) = Some (json_norm_wu w)) \<and>
     (cur \<noteq> [] \<longrightarrow> prefix (index_prefix c) cur \<and> cur \<in> fst ` set (items (st_db s)))"
proof -
  let ?p = "index_prefix c" and ?st = "list_start (index_prefix c) cursor reverse"
  define xs where "xs = (if reverse then rev (filter (\<lambda>(k, v). k \<le> ?st) (items (st_db s)))
    else filter (\<lambda>(k, v). ?st \<le> k) (items (st_db s)))"
  have seek: "viewSeek B (st_db s) reverse ?st = readable xs"
    using assms(1) badger_ok_seek by (cases reverse) (auto simp: xs_def records_ok_def)
  obtain units rest s' where loop: "list_loop B J picks ?p reverse limit 0 [] (readable xs) s = (units, rest, s')"
    by (metis prod_cases3)
  have sound: "loop_sound B J items writes ?p limit xs [] s units rest s'"
    using list_loop_sound [OF assms(1) _ loop] assms(2) by simp
  obtain ys Q where ys: "xs = filter Q ys" "context_index items s c reverse = filter (\<lambda>(k, v). prefix ?p k) ys"
    by (cases reverse) (auto simp: xs_def context_index_def rev_filter)
  have "filter (\<lambda>(k, v). prefix ?p k) (filter Q ys) = filter Q (filter (\<lambda>(k, v). prefix ?p k) ys)"
    by (simp add: conj_commute)
  then have "subseq (map snd (filter (\<lambda>(k, v). prefix ?p k) xs)) (map snd (context_index items s c reverse))"
    unfolding ys by (metis subseq_filter_left subseq_map)
  moreover have "k \<in> fst ` set (items (st_db s))" if "suffix ((k, v) # r) (readable xs)" for k v r
    using suffix_ConsD_set [OF that] by (auto simp: xs_def split: if_splits)
  ultimately show ?thesis
    using sound loop assms(2) seek subseq_order.order_trans unfolding loop_sound_def
    by (auto simp: ListWorkUnits_def Let_def split: list.splits if_splits)
qed

theorem list_page_sound_witness:
  "\<exists>units cur s'. ListWorkUnits ref_badger ref_codec (\<lambda>_. 0) ''c'' 1 ''zz'' True ref_storage = (Ret (units, cur), s') \<and>
     st_db s' = st_db ref_storage \<and> int (length units) \<le> 1"
  using list_page_sound [OF ref_records_ok, of 1 "\<lambda>_. 0" "''c''" "''zz''" True] by auto

text \<open>A context whose identifier continues that of another after a colon appears in the other's index: the key of every
  unit of \<open>c:d\<close> has the prefix of \<open>c\<close>, so listing \<open>c\<close> reaches it. A unit stored in the context \<open>c:x\<close>
  of an empty storage is returned when the context \<open>c\<close> is listed.\<close>

lemma list_reaches_other_context:
  "prefix (index_prefix c) (makeContextTimeKey (c @ '':'' @ d) t) \<and>
   (\<exists>s'. storeWorkUnitInternal ref_badger ref_codec 0 0 (ref_unit ''u'' ''c:x'' 5) True ref_storage = (Ret (), s') \<and>
      ListWorkUnits ref_badger ref_codec picks ''c'' 10 [] False s' = (Ret ([ref_unit ''u'' ''c:x'' 5], []), s'))"
proof
  show "prefix (index_prefix c) (makeContextTimeKey (c @ '':'' @ d) t)"
    by (simp add: index_prefix_def makeContextTimeKey_def)
next
  obtain s' where run: "storeWorkUnitInternal ref_badger ref_codec 0 0 (ref_unit ''u'' ''c:x'' 5) True ref_storage = (Ret (), s')"
    and I: "context_index ref_items s' ''c'' False = [(makeContextTimeKey ''c:x'' 5, ''u'')]"
    and hit: "cached_wu s' ''u'' = Some (ref_unit ''u'' ''c:x'' 5)"
    by (simp add: storeWorkUnitInternal_def ref_codec_def Let_def try_send_def on_cache_def ref_storage_def
        active_cache_def log_entry_def ref_unit_def NewCache_def SetWorkUnit_def bounded_put_def cached_wu_def
        cacheGetWorkUnit_def context_index_def makeContextTimeKey_def prefix_defs index_prefix_def prefixKey_def less_char_def)
  from run ListWorkUnits_page [OF ref_badger_ok _ refl, of 10 s' "''c''" False 0 "[]" ref_codec picks] I hit
  show "\<exists>s'. storeWorkUnitInternal ref_badger ref_codec 0 0 (ref_unit ''u'' ''c:x'' 5) True ref_storage = (Ret (), s') \<and>
      ListWorkUnits ref_badger ref_codec picks ''c'' 10 [] False s' = (Ret ([ref_unit ''u'' ''c:x'' 5], []), s')"
    by (simp add: index_cursor_def)
qed

end
