(* ===== verification/Storage_Wal_Batch.thy ===== *)
theory Storage_Wal_Batch
  imports Storage_Wal
begin

text \<open>
  The goroutine \<open>processWAL\<close> of \<open>internal/storage/badger/storage.go\<close> as a transition system. Its
  state is the channel \<open>walEntries\<close> (capacity \<open>WALBatchSize*2\<close>), its local batch, and the log file.
  One transition is one round of its \<open>for\<close> loop: a case of the \<open>select\<close> followed by the drain loop.
  Senders are the storage operations.
\<close>

record walProc =
  wp_chan :: "WALEntry list"
  wp_batch :: "WALEntry list"
  wp_file :: bytes
  wp_running :: bool

definition flush :: "write_fault \<Rightarrow> walProc \<Rightarrow> walProc" where
  "flush fault s = s\<lparr>wp_file := syncWALBatch fault (wp_batch s) (wp_file s), wp_batch := []\<rparr>"

text \<open>The loop \<open>drainLoop\<close>, from counter \<open>i\<close>.\<close>

function drain :: "write_fault \<Rightarrow> nat \<Rightarrow> nat \<Rightarrow> walProc \<Rightarrow> walProc" where
  "drain fault batchSize i s =
     (if i < batchSize - length (wp_batch s) then
        (case wp_chan s of
           [] \<Rightarrow> s
         | e # q \<Rightarrow>
             let s' = s\<lparr>wp_chan := q, wp_batch := wp_batch s @ [e]\<rparr>
             in if length (wp_batch s') \<ge> batchSize then flush fault s'
                else drain fault batchSize (Suc i) s')
      else s)"
  by pat_completeness auto
termination
  by (relation "measure (\<lambda>(fault, n, i, s). length (wp_chan s))") auto

declare drain.simps [simp del]

datatype wal_event =
    WSend WALEntry
  | WRecv bool write_fault write_fault
  | WTick write_fault write_fault
  | WSync write_fault write_fault
  | WDone write_fault

definition flush_pending :: "write_fault \<Rightarrow> walProc \<Rightarrow> walProc" where
  "flush_pending fault s = (if wp_batch s \<noteq> [] then flush fault s else s)"

text \<open>Receiving an entry; \<open>aged\<close> says whether the batch has been accumulating for more than
  \<open>maxBatchTime\<close>.\<close>

definition recv_entry :: "bool \<Rightarrow> write_fault \<Rightarrow> nat \<Rightarrow> WALEntry \<Rightarrow> WALEntry list \<Rightarrow> walProc \<Rightarrow> walProc" where
  "recv_entry aged fault batchSize e q s =
     (let s' = s\<lparr>wp_chan := q, wp_batch := wp_batch s @ [e]\<rparr>
      in if length (wp_batch s') \<ge> batchSize \<or> aged then flush fault s' else s')"

inductive wal_step :: "nat \<Rightarrow> walProc \<Rightarrow> wal_event \<Rightarrow> walProc \<Rightarrow> bool" for batchSize where
  send: "length (wp_chan s) < batchSize * 2 \<Longrightarrow>
     wal_step batchSize s (WSend e) (s\<lparr>wp_chan := wp_chan s @ [e]\<rparr>)"
| recv: "wp_running s \<Longrightarrow> wp_chan s = e # q \<Longrightarrow>
     wal_step batchSize s (WRecv aged f g) (drain g batchSize 0 (recv_entry aged f batchSize e q s))"
| tick: "wp_running s \<Longrightarrow>
     wal_step batchSize s (WTick f g) (drain g batchSize 0 (flush_pending f s))"
| sync: "wp_running s \<Longrightarrow>
     wal_step batchSize s (WSync f g) (drain g batchSize 0 (flush_pending f s))"
| stop: "wp_running s \<Longrightarrow>
     wal_step batchSize s (WDone f) ((flush_pending f s)\<lparr>wp_running := False\<rparr>)"

inductive_cases wal_step_doneE: "wal_step batchSize s (WDone f) t"
inductive_simps wal_step_send_iff: "wal_step batchSize s (WSend e) t"

inductive wal_run :: "nat \<Rightarrow> walProc \<Rightarrow> wal_event list \<Rightarrow> walProc \<Rightarrow> bool" for batchSize s0 where
  nil: "wal_run batchSize s0 [] s0"
| snoc: "wal_run batchSize s0 evs s \<Longrightarrow> wal_step batchSize s ev t \<Longrightarrow>
     wal_run batchSize s0 (evs @ [ev]) t"

definition wal_start :: "bytes \<Rightarrow> walProc" where
  "wal_start file = \<lparr>wp_chan = [], wp_batch = [], wp_file = file, wp_running = True\<rparr>"

fun sent_entries :: "wal_event list \<Rightarrow> WALEntry list" where
  "sent_entries [] = []"
| "sent_entries (WSend e # evs) = e # sent_entries evs"
| "sent_entries (_ # evs) = sent_entries evs"

fun writes_complete :: "wal_event \<Rightarrow> bool" where
  "writes_complete (WSend e) = True"
| "writes_complete (WRecv aged f g) = (f = None \<and> g = None)"
| "writes_complete (WTick f g) = (f = None \<and> g = None)"
| "writes_complete (WSync f g) = (f = None \<and> g = None)"
| "writes_complete (WDone f) = (f = None)"

subsection \<open>Nothing is lost or reordered\<close>

text \<open>The invariant of a run whose writes succeed: the file holds a prefix of the entries sent, the
  batch and the channel the rest, in order, and the batch is below its limit.\<close>

definition wal_inv :: "nat \<Rightarrow> bytes \<Rightarrow> WALEntry list \<Rightarrow> WALEntry list \<Rightarrow> walProc \<Rightarrow> bool" where
  "wal_inv batchSize hdr sent fl s \<longleftrightarrow>
     wp_file s = hdr @ encode_batch fl \<and> sent = fl @ wp_batch s @ wp_chan s \<and>
     length (wp_batch s) < batchSize"

lemma wal_inv_flush:
  assumes "wp_file s = hdr @ encode_batch fl" and "sent = fl @ wp_batch s @ wp_chan s" and "0 < batchSize"
  shows "wal_inv batchSize hdr sent (fl @ wp_batch s) (flush None s)"
  using assms by (auto simp: wal_inv_def flush_def syncWALBatch_def)

lemma wal_inv_drain:
  "wal_inv batchSize hdr sent fl s \<Longrightarrow> \<exists>fl'. wal_inv batchSize hdr sent fl' (drain None batchSize i s)"
proof (induction "None :: write_fault" batchSize i s arbitrary: fl rule: drain.induct)
  case (1 batchSize i s)
  show ?case
  proof (cases "wp_chan s")
    case Nil
    with "1.prems" show ?thesis by (subst drain.simps) auto
  next
    case (Cons e q)
    let ?s = "s\<lparr>wp_chan := q, wp_batch := wp_batch s @ [e]\<rparr>"
    have *: "wp_file ?s = hdr @ encode_batch fl" "sent = fl @ wp_batch ?s @ wp_chan ?s"
      using "1.prems" Cons by (auto simp: wal_inv_def)
    have "0 < batchSize" using "1.prems" by (auto simp: wal_inv_def)
    then have fl: "\<exists>fl'. wal_inv batchSize hdr sent fl' (flush None ?s)"
      using wal_inv_flush [OF *] by blast
    have rec: "\<exists>fl'. wal_inv batchSize hdr sent fl' (drain None batchSize (Suc i) ?s)"
      if "i < batchSize - length (wp_batch s)" "\<not> batchSize \<le> length (wp_batch ?s)"
      using "1.hyps" [OF that(1) Cons refl that(2), of fl] * that(2) by (auto simp: wal_inv_def)
    show ?thesis
      using "1.prems" Cons fl rec by (subst drain.simps) (auto simp: Let_def)
  qed
qed

lemma wal_inv_flush_pending:
  "wal_inv batchSize hdr sent fl s \<Longrightarrow> \<exists>fl'. wal_inv batchSize hdr sent fl' (flush_pending None s)"
  using wal_inv_flush [of s hdr fl sent batchSize]
  by (cases "wp_batch s = []") (auto simp: flush_pending_def wal_inv_def)

lemma wal_inv_recv:
  assumes "wal_inv batchSize hdr sent fl s" and "wp_chan s = e # q"
  shows "\<exists>fl'. wal_inv batchSize hdr sent fl' (recv_entry aged None batchSize e q s)"
proof -
  let ?s = "s\<lparr>wp_chan := q, wp_batch := wp_batch s @ [e]\<rparr>"
  have "\<exists>fl'. wal_inv batchSize hdr sent fl' (flush None ?s)"
    using wal_inv_flush [of ?s hdr fl sent batchSize] assms by (auto simp: wal_inv_def)
  moreover have "wal_inv batchSize hdr sent fl ?s" if "\<not> batchSize \<le> length (wp_batch ?s)"
    using that assms by (auto simp: wal_inv_def)
  ultimately show ?thesis by (auto simp: recv_entry_def Let_def)
qed

lemma wal_inv_flush_drain:
  assumes "wal_inv batchSize hdr sent fl s"
  shows "\<exists>fl'. wal_inv batchSize hdr sent fl' (drain None batchSize 0 (flush_pending None s))"
  using wal_inv_flush_pending [OF assms] wal_inv_drain by blast

lemma wal_inv_step:
  assumes "wal_step batchSize s ev t" and "writes_complete ev" and inv: "wal_inv batchSize hdr sent fl s"
  shows "\<exists>fl'. wal_inv batchSize hdr (sent @ sent_entries [ev]) fl' t"
  using assms(1,2)
proof (cases rule: wal_step.cases)
  case (send e)
  with inv show ?thesis by (auto simp: wal_inv_def)
next
  case (recv e q aged f g)
  obtain fl' where "wal_inv batchSize hdr sent fl' (recv_entry aged None batchSize e q s)"
    using wal_inv_recv [OF inv recv(4)] by blast
  from wal_inv_drain [OF this] recv assms(2) show ?thesis by simp
next
  case (tick f g)
  with wal_inv_flush_drain [OF inv] assms(2) show ?thesis by simp
next
  case (sync f g)
  with wal_inv_flush_drain [OF inv] assms(2) show ?thesis by simp
next
  case (stop f)
  then show ?thesis
    using wal_inv_flush_pending [OF inv] assms(2) by (simp add: wal_inv_def)
qed

lemma sent_entries_append [simp]: "sent_entries (xs @ ys) = sent_entries xs @ sent_entries ys"
  by (induction xs rule: sent_entries.induct) auto

lemma wal_inv_run:
  assumes "wal_run batchSize (wal_start file) evs s" and "\<forall>ev \<in> set evs. writes_complete ev"
    and "0 < batchSize"
  shows "\<exists>fl. wal_inv batchSize file (sent_entries evs) fl s"
  using assms(1,2)
proof (induction rule: wal_run.induct)
  case nil
  have "wal_inv batchSize file [] [] (wal_start file)"
    using assms(3) by (simp add: wal_inv_def wal_start_def)
  then show ?case by auto
next
  case (snoc evs s ev t)
  then obtain fl where "wal_inv batchSize file (sent_entries evs) fl s" by auto
  from wal_inv_step [OF snoc.hyps(2) _ this] snoc.prems show ?case by auto
qed

end
