(* ===== verification/Storage_Recovery.thy ===== *)
theory Storage_Recovery
  imports Storage_Records Storage_Wal_Batch
begin

text \<open>
  Durability: the entries the store operations send, followed through the batching goroutine to the
  file and back through \<open>replayWAL\<close> in \<open>NewStorage\<close>.
\<close>

datatype logged = LogUnit WorkUnit | LogContext Context | LogLock LockHandle

text \<open>One store operation with its clock reading and eviction choice; all three writers of the log
  (\<open>CreateWorkUnit\<close>, \<open>UpdateContext\<close>, \<open>AcquireLock\<close>) end in one of these calls.\<close>

type_synonym store_call = "gotime \<times> nat \<times> logged"

fun store_logged :: "('db, 'txn) badger \<Rightarrow> json_codec \<Rightarrow> store_call \<Rightarrow> 'db Storage \<Rightarrow> 'db Storage" where
  "store_logged B J (now, pick, LogUnit w) s = snd (storeWorkUnitInternal B J now pick w True s)"
| "store_logged B J (now, pick, LogContext x) s = snd (storeContextInternal B J now pick x True s)"
| "store_logged B J (now, pick, LogLock l) s = snd (storeLockInternal B J now pick l True s)"

text \<open>The entry such a call sends.\<close>

fun logged_entry :: "json_codec \<Rightarrow> store_call \<Rightarrow> WALEntry" where
  "logged_entry J (now, pick, LogUnit w) =
     \<lparr>we_Type = WALWorkUnit, we_Timestamp = now, we_Data = the (MarshalWorkUnit J w)\<rparr>"
| "logged_entry J (now, pick, LogContext x) =
     \<lparr>we_Type = WALContext, we_Timestamp = now, we_Data = the (MarshalContext J x)\<rparr>"
| "logged_entry J (now, pick, LogLock l) =
     \<lparr>we_Type = WALLock, we_Timestamp = now, we_Data = the (MarshalLock J l)\<rparr>"

fun logged_ok :: "json_codec \<Rightarrow> logged \<Rightarrow> bool" where
  "logged_ok J (LogUnit w) = (json_rt_wu J w \<and> json_rt_wu J (json_norm_wu w))"
| "logged_ok J (LogContext x) = (json_rt_ctx J x \<and> json_rt_ctx J (json_norm_ctx x))"
| "logged_ok J (LogLock l) = json_rt_lock J l"

text \<open>Two storages hold the same records, indexes and locks.\<close>

definition same_records :: "json_codec \<Rightarrow> ('db \<Rightarrow> (bytes \<times> bytes) list) \<Rightarrow> 'db Storage \<Rightarrow> 'db Storage \<Rightarrow> bool" where
  "same_records J items s t \<longleftrightarrow> db_wu J items s = db_wu J items t \<and> db_ctx J items s = db_ctx J items t \<and>
     db_lock J items s = db_lock J items t \<and> db_index items s = db_index items t"

lemma store_unit_records:
  assumes B: "badger_ok B items writes" and total: "badger_total B" and rt: "json_rt_wu J w"
    and ch: "\<not> ch_closed (st_events s)" and run: "storeWorkUnitInternal B J now pick w b s = (r, s')"
  shows "\<exists>data. MarshalWorkUnit J w = Some data \<and>
     st_wal s' = st_wal s @ (if b then [\<lparr>we_Type = WALWorkUnit, we_Timestamp = now, we_Data = data\<rparr>] else []) \<and>
     \<not> ch_closed (st_events s') \<and> db_wu J items s' = (db_wu J items s)(wu_Id w \<mapsto> json_norm_wu w) \<and>
     db_ctx J items s' = db_ctx J items s \<and> db_lock J items s' = db_lock J items s \<and>
     db_index items s' = (\<lambda>c t. if makeContextTimeKey c t = makeContextTimeKey (wu_ContextId w) (AsTime (wu_Ts w))
        then Some (wu_Id w) else db_index items s c t)"
  using run
proof (cases rule: storeWorkUnitInternal_cases)
  case unmarshalled
  then show ?thesis using json_rt_marshal(4) [OF rt] by simp
next
  case (failed data e)
  then show ?thesis
    using run total try_send_open [OF ch] by (auto simp: storeWorkUnitInternal_def Let_def
        split: option.splits sum.splits send_result.splits if_splits)
next
  case (stored data t t' db s1)
  have s': "st_db s' = db" "st_wal s' = st_wal s1" "\<not> ch_closed (st_events s')"
    using stored(2,6) ch by (auto simp: try_send_def split: if_splits)
  have "db_index items s' = (\<lambda>c t. if makeContextTimeKey c t = makeContextTimeKey (wu_ContextId w) (AsTime (wu_Ts w))
        then Some (wu_Id w) else db_index items s c t)"
    by (intro ext) (rule db_views_put_wu(4) [OF B stored(3-5) s'(1)])
  then show ?thesis
    using db_views_put_wu(1,2,3) [OF B stored(3-5) s'(1), of J] json_rt_marshal(2) [OF rt stored(1)] stored(1,2) s'(2,3)
    by (simp add: log_entry_def)
qed

lemma store_context_records:
  assumes B: "badger_ok B items writes" and total: "badger_total B" and rt: "json_rt_ctx J x"
    and run: "storeContextInternal B J now pick x b s = (r, s')"
  shows "\<exists>data. MarshalContext J x = Some data \<and>
     st_wal s' = st_wal s @ (if b then [\<lparr>we_Type = WALContext, we_Timestamp = now, we_Data = data\<rparr>] else []) \<and>
     st_events s' = st_events s \<and> db_ctx J items s' = (db_ctx J items s)(ctx_Id x \<mapsto> json_norm_ctx x) \<and>
     db_wu J items s' = db_wu J items s \<and> db_lock J items s' = db_lock J items s \<and> db_index items s' = db_index items s"
  using run
proof (cases rule: storeContextInternal_cases)
  case unmarshalled
  then show ?thesis using json_rt_marshal(3) [OF rt] by simp
next
  case (failed data e)
  then show ?thesis
    using run total by (auto simp: storeContextInternal_def Let_def split: option.splits sum.splits)
next
  case (stored data t db)
  have s': "st_db s' = db" using stored(5) by simp
  show ?thesis
    using db_views_put_ctx(1,2,3) [OF B stored(2,3) s', of J] db_views_put_ctx(4) [OF B stored(2,3) s']
      json_rt_marshal(1) [OF rt stored(1)] stored(1,5) by (simp add: log_entry_def)
qed

lemma store_lock_records:
  assumes B: "badger_ok B items writes" and total: "badger_total B" and rt: "json_rt_lock J l"
    and run: "storeLockInternal B J now pick l b s = (r, s')"
  shows "\<exists>data. MarshalLock J l = Some data \<and>
     st_wal s' = st_wal s @ (if b then [\<lparr>we_Type = WALLock, we_Timestamp = now, we_Data = data\<rparr>] else []) \<and>
     st_events s' = st_events s \<and> db_lock J items s' = (db_lock J items s)(lk_ResourcePath l \<mapsto> l) \<and>
     db_wu J items s' = db_wu J items s \<and> db_ctx J items s' = db_ctx J items s \<and> db_index items s' = db_index items s"
proof -
  obtain data where data: "MarshalLock J l = Some data" "UnmarshalLock J data = Some l"
    using rt by (auto simp: json_rt_lock_def)
  define s1 where "s1 = (if b then log_entry WALLock now data s else s)"
  have s1: "st_db s1 = st_db s" by (simp add: s1_def)
  obtain t db where t: "txnSet B (newTxn B (st_db s)) (prefixKey prefixLocks (lk_ResourcePath l)) data = Inr t"
    "txnCommit B (st_db s) t = Inr db"
    using total unfolding badger_total_def by meson
  then have s': "s' = on_cache (SetLock pick l) (s1\<lparr>st_db := db\<rparr>)"
    using run data s1 by (simp add: storeLockInternal_def Let_def flip: s1_def)
  have items: "map_of (items (st_db s')) = (map_of (items (st_db s)))(prefixKey prefixLocks (lk_ResourcePath l) \<mapsto> data)"
    using badger_ok_commit [OF B t(2)] badger_ok_set [OF B t(1)] badger_ok_newTxn [OF B] s' by simp
  show ?thesis
    unfolding db_view_defs items using data s' by (auto simp: fun_eq_iff log_entry_def s1_def)
qed

text \<open>Storing a value here and restoring its log entry there keeps two storages the same.\<close>

lemma store_and_restore:
  assumes B: "badger_ok B items writes" and total: "badger_total B" and rt: "logged_ok J x"
    and ch: "\<not> ch_closed (st_events s)" "\<not> ch_closed (st_events t)" and same: "same_records J items s t"
    and e_def: "e = logged_entry J (now, pick, x)"
  shows "st_wal (store_logged B J (now, pick, x) s) = st_wal s @ [e] \<and>
     same_records J items (store_logged B J (now, pick, x) s) (restore_entry B J k (we_Type e) (we_Data e) t) \<and>
     \<not> ch_closed (st_events (store_logged B J (now, pick, x) s)) \<and>
     \<not> ch_closed (st_events (restore_entry B J k (we_Type e) (we_Data e) t))"
proof (cases x)
  case (LogUnit w)
  have rt: "json_rt_wu J w" "json_rt_wu J (json_norm_wu w)" using rt LogUnit by simp_all
  obtain r s' where run: "storeWorkUnitInternal B J now pick w True s = (r, s')"
    by (cases "storeWorkUnitInternal B J now pick w True s")
  obtain q t' where run': "storeWorkUnitInternal B J 0 k (json_norm_wu w) False t = (q, t')"
    by (cases "storeWorkUnitInternal B J 0 k (json_norm_wu w) False t")
  obtain data where data: "MarshalWorkUnit J w = Some data"
    using store_unit_records [OF B total rt(1) ch(1) run] by blast
  have "restore_entry B J k WALWorkUnit data t = t'"
    using json_rt_marshal(2) [OF rt(1) data] run' by (simp add: restore_entry_def)
  then show ?thesis
    using store_unit_records [OF B total rt(1) ch(1) run] store_unit_records [OF B total rt(2) ch(2) run']
      data same run LogUnit
    by (simp add: same_records_def fun_eq_iff e_def)
next
  case (LogContext c)
  have rt: "json_rt_ctx J c" "json_rt_ctx J (json_norm_ctx c)" using rt LogContext by simp_all
  obtain r s' where run: "storeContextInternal B J now pick c True s = (r, s')"
    by (cases "storeContextInternal B J now pick c True s")
  obtain q t' where run': "storeContextInternal B J 0 k (json_norm_ctx c) False t = (q, t')"
    by (cases "storeContextInternal B J 0 k (json_norm_ctx c) False t")
  obtain data where data: "MarshalContext J c = Some data"
    using store_context_records [OF B total rt(1) run] by blast
  have "restore_entry B J k WALContext data t = t'"
    using json_rt_marshal(1) [OF rt(1) data] run' by (simp add: restore_entry_def wal_type_defs)
  then show ?thesis
    using store_context_records [OF B total rt(1) run] store_context_records [OF B total rt(2) run']
      data same run LogContext ch
    by (simp add: same_records_def fun_eq_iff e_def)
next
  case (LogLock l)
  have rt: "json_rt_lock J l" using rt LogLock by simp
  then have um: "MarshalLock J l = Some d \<Longrightarrow> UnmarshalLock J d = Some l" for d by (auto simp: json_rt_lock_def)
  obtain r s' where run: "storeLockInternal B J now pick l True s = (r, s')"
    by (cases "storeLockInternal B J now pick l True s")
  obtain q t' where run': "storeLockInternal B J 0 k l False t = (q, t')"
    by (cases "storeLockInternal B J 0 k l False t")
  obtain data where data: "MarshalLock J l = Some data" using store_lock_records [OF B total rt run] by blast
  have "restore_entry B J k WALLock data t = t'"
    using um [OF data] run' by (simp add: restore_entry_def wal_type_defs)
  then show ?thesis
    using store_lock_records [OF B total rt run] store_lock_records [OF B total rt run'] data same run LogLock ch
    by (simp add: same_records_def fun_eq_iff e_def)
qed


text \<open>The same for a sequence: every store sends one entry, and restoring the entries in order, on a
  storage that held the same records, reaches the same records again.\<close>

lemma store_all_and_restore:
  assumes B: "badger_ok B items writes" and total: "badger_total B"
    and "\<forall>x \<in> set xs. logged_ok J (snd (snd x))"
    and "\<not> ch_closed (st_events s)" "\<not> ch_closed (st_events t)" "same_records J items s t"
  shows "\<exists>t'. st_wal (fold (store_logged B J) xs s) = st_wal s @ map (logged_entry J) xs \<and>
     fold (\<lambda>e. restore_nth B J picks (we_Type e) (we_Data e)) (map (logged_entry J) xs) (i, t) = (i + length xs, t') \<and>
     same_records J items (fold (store_logged B J) xs s) t'"
  using assms(3-6)
proof (induction xs arbitrary: s t i)
  case Nil
  then show ?case by simp
next
  case (Cons x xs)
  obtain now pick y where x: "x = (now, pick, y)" by (cases x)
  let ?e = "logged_entry J x"
  let ?t = "restore_entry B J (picks i) (we_Type ?e) (we_Data ?e) t"
  have e: "st_wal (store_logged B J x s) = st_wal s @ [?e]" "same_records J items (store_logged B J x s) ?t"
    "\<not> ch_closed (st_events (store_logged B J x s))" "\<not> ch_closed (st_events ?t)"
    using store_and_restore [OF B total _ Cons.prems(2-4) refl, of y now pick "picks i"] Cons.prems(1) x by simp_all
  obtain t' where "st_wal (fold (store_logged B J) xs (store_logged B J x s)) = st_wal s @ ?e # map (logged_entry J) xs"
    "fold (\<lambda>e. restore_nth B J picks (we_Type e) (we_Data e)) (map (logged_entry J) xs) (Suc i, ?t) = (Suc i + length xs, t')"
    "same_records J items (fold (store_logged B J) xs (store_logged B J x s)) t'"
    using Cons.IH [OF _ e(3,4,2), of "Suc i"] Cons.prems(1) e(1) by auto
  then show ?case
    by (intro exI [of _ t']) (simp add: restore_nth_def)
qed

text \<open>\<open>NewStorage\<close> before the replay.\<close>

lemma config_cache_Some: "\<exists>c. config_cache config = Some c"
  by (simp add: config_cache_def default_if_nonpos_def DefaultConfig_def NewCache_def)

definition fresh_storage :: "StorageConfig \<Rightarrow> 'db \<Rightarrow> 'db Storage" where
  "fresh_storage config db = \<lparr>st_CacheEnabled = cfg_CacheEnabled config,
     st_cache = (if cfg_CacheEnabled config then config_cache config else None), st_db = db, st_wal = [],
     st_events = make_chan 1000\<rparr>"

lemma NewStorage_replay:
  "NewStorage B J picks config db file =
   (case replayWAL (restore_nth B J picks) file (0, fresh_storage config db) of
      (Some e, _) \<Rightarrow> Inl (ReplayFailed e) | (None, _, s) \<Rightarrow> Inr s)"
  using config_cache_Some [of config]
  by (auto simp: NewStorage_def fresh_storage_def Let_def split: option.splits prod.splits)

lemma replay_flushed:
  assumes "\<forall>e \<in> set fl. wal_entry_ok e"
  shows "replayWAL restore (Start_header [] @ encode_batch fl) s =
    (None, fold (\<lambda>e. restore (we_Type e) (we_Data e)) fl s)"
  using replay_entries_encode [OF assms, of restore "[]" s]
  by (simp add: Start_header_def replayWAL_header)

text \<open>C2. Prefix-consistent recovery. Let any sequence of stores run against the storage while the log goroutine receives their
  entries, batches and writes them in any schedule with complete writes, and let the process stop at any point. Then
  \<open>NewStorage\<close> on the log file, over a database that holds what the database held at the start, succeeds, and the
  result holds exactly the records, index entries and locks that the storage held after the first \<open>n\<close> stores, where
  \<open>n\<close> entries had been written; when neither the batch nor the channel holds an entry, these are all stores.\<close>

theorem recovery_prefix_consistent:
  assumes "badger_ok B items writes" and "badger_total B"
    and "\<forall>x \<in> set xs. logged_ok J (snd (snd x))" and "\<not> ch_closed (st_events s)" and "st_wal s = []"
    and "wal_run batchSize (wal_start (Start_header [])) evs p" and "\<forall>ev \<in> set evs. writes_complete ev" and "0 < batchSize"
    and "sent_entries evs = st_wal (fold (store_logged B J) xs s)"
    and "\<forall>e \<in> set (sent_entries evs). wal_entry_ok e"
    and "same_records J items s (fresh_storage config db)"
  shows "\<exists>n t. n + length (wp_batch p) + length (wp_chan p) = length xs \<and>
     NewStorage B J picks config db (wp_file p) = Inr t \<and>
     same_records J items (fold (store_logged B J) (take n xs) s) t"
proof -
  obtain fl where fl: "wp_file p = Start_header [] @ encode_batch fl" "sent_entries evs = fl @ wp_batch p @ wp_chan p"
    using wal_inv_run [OF assms(6-8)] by (auto simp: wal_inv_def)
  have ch: "\<not> ch_closed (st_events (fresh_storage config db))" by (simp add: fresh_storage_def)
  have all: "sent_entries evs = map (logged_entry J) xs"
    using store_all_and_restore [OF assms(1-4) ch assms(11), of picks 0] assms(5,9) by auto
  define n where "n = length fl"
  have n: "n + length (wp_batch p) + length (wp_chan p) = length xs"
    using arg_cong [OF fl(2), of length] all by (simp add: n_def)
  have fl': "fl = map (logged_entry J) (take n xs)"
    using fl(2) all by (metis append_eq_conv_conj n_def take_map)
  have ok: "\<forall>x \<in> set (take n xs). logged_ok J (snd (snd x))" using assms(3) in_set_takeD by fast
  obtain t where t: "fold (\<lambda>e. restore_nth B J picks (we_Type e) (we_Data e)) fl (0, fresh_storage config db) = (length (take n xs), t)"
    "same_records J items (fold (store_logged B J) (take n xs) s) t"
    using store_all_and_restore [OF assms(1,2) ok assms(4) ch assms(11), of picks 0] by (auto simp: fl')
  have "\<forall>e \<in> set fl. wal_entry_ok e" using assms(10) fl(2) by simp
  from replay_flushed [OF this, of "restore_nth B J picks" "(0, fresh_storage config db)"]
  have "NewStorage B J picks config db (wp_file p) = Inr t"
    using t(1) by (simp add: NewStorage_replay fl(1))
  with n t(2) show ?thesis by blast
qed


definition ref_lock :: LockHandle where
  "ref_lock = \<lparr>lk_ResourcePath = ''p'', lk_HolderAgent = ''a'', lk_ExpiresAt = Some 9, lk_LockId = ''u''\<rparr>"

definition ref_stores :: "store_call list" where
  "ref_stores = [(1, 0, LogLock ref_lock), (2, 0, LogLock (ref_lock\<lparr>lk_ResourcePath := ''q''\<rparr>))]"

lemma ref_stores_entries_ok: "\<forall>e \<in> set (map (logged_entry ref_codec) ref_stores). wal_entry_ok e"
  by (simp add: ref_stores_def ref_lock_def ref_codec_def wal_entry_ok_def enc_lock_def enc_str_def enc_nat_def
      enc_opt_def enc_list_def enc_int_def)

lemma ref_stores_wal: "st_wal (fold (store_logged ref_badger ref_codec) ref_stores ref_storage) = map (logged_entry ref_codec) ref_stores"
  by (simp add: ref_stores_def storeLockInternal_def ref_codec_def Let_def log_entry_def ref_storage_def)

lemma ref_fresh_same: "same_records ref_codec ref_items ref_storage (fresh_storage DefaultConfig ref_empty)"
  unfolding same_records_def by (intro conjI db_views_cong) (simp_all add: ref_storage_def fresh_storage_def)

theorem recovery_prefix_consistent_witness:
  "\<exists>p n t. wal_run 4 (wal_start (Start_header []))
       [WSend (logged_entry ref_codec (ref_stores ! 0)), WRecv True None None, WSend (logged_entry ref_codec (ref_stores ! 1))] p \<and>
     NewStorage ref_badger ref_codec (\<lambda>_. 0) DefaultConfig ref_empty (wp_file p) = Inr t \<and>
     same_records ref_codec ref_items (fold (store_logged ref_badger ref_codec) (take n ref_stores) ref_storage) t"
proof -
  let ?e0 = "logged_entry ref_codec (ref_stores ! 0)" and ?e1 = "logged_entry ref_codec (ref_stores ! 1)"
  let ?evs = "[WSend ?e0, WRecv True None None, WSend ?e1]"
  define p0 where "p0 = wal_start (Start_header [])"
  define p1 where "p1 = p0\<lparr>wp_chan := [?e0]\<rparr>"
  define p2 where "p2 = drain None 4 0 (recv_entry True None 4 ?e0 [] p1)"
  define p3 where "p3 = p2\<lparr>wp_chan := wp_chan p2 @ [?e1]\<rparr>"
  have p2: "wp_chan p2 = []"
    by (simp add: p2_def p1_def p0_def wal_start_def recv_entry_def flush_def Let_def drain.simps)
  have "wal_step 4 p0 (WSend ?e0) p1" using wal_step.send [of p0 4 ?e0] by (simp add: p1_def p0_def wal_start_def)
  moreover have "wal_step 4 p1 (WRecv True None None) p2"
    unfolding p2_def by (rule wal_step.recv) (simp_all add: p1_def p0_def wal_start_def)
  moreover have "wal_step 4 p2 (WSend ?e1) p3" unfolding p3_def by (rule wal_step.send) (simp add: p2)
  ultimately have "wal_run 4 p0 ((([] @ [WSend ?e0]) @ [WRecv True None None]) @ [WSend ?e1]) p3"
    by (blast intro: wal_run.intros)
  then have run: "wal_run 4 (wal_start (Start_header [])) ?evs p3" by (simp add: p0_def)
  have sent: "sent_entries ?evs = st_wal (fold (store_logged ref_badger ref_codec) ref_stores ref_storage)"
    unfolding ref_stores_wal by (simp add: ref_stores_def)
  have "\<forall>x \<in> set ref_stores. logged_ok ref_codec (snd (snd x))" by (simp add: ref_stores_def)
  moreover have "\<not> ch_closed (st_events ref_storage)" "st_wal ref_storage = []" "0 < (4::nat)"
    by (simp_all add: ref_storage_def)
  moreover have "\<forall>ev \<in> set ?evs. writes_complete ev" by simp
  moreover have "\<forall>e \<in> set (sent_entries ?evs). wal_entry_ok e"
    unfolding sent ref_stores_wal by (rule ref_stores_entries_ok)
  ultimately have "\<exists>n t. n + length (wp_batch p3) + length (wp_chan p3) = length ref_stores \<and>
     NewStorage ref_badger ref_codec (\<lambda>_. 0) DefaultConfig ref_empty (wp_file p3) = Inr t \<and>
     same_records ref_codec ref_items (fold (store_logged ref_badger ref_codec) (take n ref_stores) ref_storage) t"
    using recovery_prefix_consistent [OF ref_badger_ok ref_badger_total _ _ _ run _ _ sent _ ref_fresh_same] by blast
  with run show ?thesis by blast
qed

text \<open>C36. A torn write stops recovery. When the write of a batch fails in the middle of an entry, the next \<open>NewStorage\<close>
  returns an error; the complete entries before the torn one have been restored into the database by then, so no
  acknowledged entry before it is lost.\<close>

theorem torn_write_refused:
  assumes "\<forall>e \<in> set (fl @ xs). wal_entry_ok e" and "wal_entry_ok e" and "0 < k" and "k < length (encode_entry e)"
  shows "\<exists>err. NewStorage B J picks config db
        (syncWALBatch (Some (length (encode_batch xs) + k)) (xs @ e # ys) (Start_header [] @ encode_batch fl)) =
        Inl (ReplayFailed err) \<and>
     replayWAL (restore_nth B J picks)
        (syncWALBatch (Some (length (encode_batch xs) + k)) (xs @ e # ys) (Start_header [] @ encode_batch fl))
        (0, fresh_storage config db) =
      (Some err, fold (\<lambda>e. restore_nth B J picks (we_Type e) (we_Data e)) (fl @ xs) (0, fresh_storage config db))"
proof -
  have log: "syncWALBatch (Some (length (encode_batch xs) + k)) (xs @ e # ys) (Start_header [] @ encode_batch fl) =
      le_bytes 4 (unat walMagic) @ encode_batch (fl @ xs) @ take k (encode_entry e)"
    using assms(4) by (simp add: syncWALBatch_def Start_header_def)
  obtain err where "read_entry (take k (encode_entry e)) = Inl err" using read_entry_torn [OF assms(2-4)] by blast
  then have "replay_entries restore (take k (encode_entry e)) s = (Some err, s)" for restore and s :: "nat \<times> 'a Storage"
    by (subst replay_entries.simps) simp
  then show ?thesis
    unfolding log NewStorage_replay replayWAL_header replay_entries_encode [OF assms(1)] by simp
qed

theorem torn_write_refused_witness:
  "\<exists>err. NewStorage ref_badger ref_codec (\<lambda>_. 0) DefaultConfig ref_empty
     (syncWALBatch (Some 7) [\<lparr>we_Type = WALLock, we_Timestamp = 1, we_Data = ''xy''\<rparr>] (Start_header [])) = Inl (ReplayFailed err)"
  using torn_write_refused [of "[]" "[]" "\<lparr>we_Type = WALLock, we_Timestamp = 1, we_Data = ''xy''\<rparr>" 7 ref_badger ref_codec
      "\<lambda>_. 0" DefaultConfig ref_empty "[]"]
  by (auto simp: wal_entry_ok_def length_encode_entry)

end
