(* ===== verification/Lock_Manager.thy ===== *)
theory Lock_Manager
  imports Lock_Spec
begin

text \<open>
  The lock manager of \<open>internal/lockmanager/lockmanager.go\<close>. The table of locks is changed under the
  mutex by the calls of agents and by the cleanup; the goroutines a call starts (persisting, extending or
  releasing the lock in the storage) are tasks that run later, in any order. The storage is the Go
  interface \<open>StorageInterface\<close>: an argument of the tasks, with a state of its own.
\<close>

record ('e, 's) StorageInterface =
  si_AcquireLock :: "env \<Rightarrow> AcquireLockRequest \<Rightarrow> 's \<Rightarrow> ('e, LockHandle) outcome \<times> 's"
  si_ReleaseLock :: "env \<Rightarrow> ReleaseLockRequest \<Rightarrow> 's \<Rightarrow> ('e, bool) outcome \<times> 's"

datatype lm_error =
    LockedBy bytes bytes gotime
  | HeldByAnotherAgent
  | LockIDMismatch
  | NoLockFound bytes
  | LockExpired bytes
  | AcquireFailed bytes lm_error

text \<open>The started goroutines: persist a new lock (and undo it in memory when that fails), extend a
  lock in the storage, release it there; \<open>UndoLock\<close> is the second half of a failed persist, which takes the
  mutex again.\<close>

datatype lm_task =
    PersistLock AcquireLockRequest bytes
  | UndoLock bytes bytes
  | ExtendStored AcquireLockRequest
  | ReleaseStored ReleaseLockRequest

record LockManager =
  lm_DefaultTTL :: duration
  lm_CleanupInterval :: duration
  lm_locks :: "LockHandle gomap"
  lm_tasks :: "lm_task list"

definition lm_DefaultConfig_ttl :: duration where "lm_DefaultConfig_ttl = Minute"

definition NewLockManager :: "duration \<Rightarrow> duration \<Rightarrow> LockManager" where
  "NewLockManager defaultTTL cleanupInterval =
     \<lparr>lm_DefaultTTL = (if defaultTTL = 0 then lm_DefaultConfig_ttl else defaultTTL),
      lm_CleanupInterval = (if cleanupInterval = 0 then lm_DefaultConfig_ttl else cleanupInterval),
      lm_locks = [], lm_tasks = []\<rparr>"

definition loadLocks :: "LockManager \<Rightarrow> LockManager" where
  "loadLocks m = m\<lparr>lm_locks := []\<rparr>"

text \<open>The two critical sections of \<open>performCleanup\<close>; other calls may come between them.\<close>

definition cleanup_scan :: "gotime \<Rightarrow> LockManager \<Rightarrow> bytes list" where
  "cleanup_scan now m = map fst (filter (\<lambda>(path, lock). Before (expiry lock) now) (lm_locks m))"

fun cleanup_remove :: "gotime \<Rightarrow> bytes list \<Rightarrow> LockManager \<Rightarrow> LockManager" where
  "cleanup_remove now [] m = m"
| "cleanup_remove now (path # expired) m =
     cleanup_remove now expired
       (case map_of (lm_locks m) path of
          Some lock \<Rightarrow> if Before (expiry lock) now then m\<lparr>lm_locks := AList.delete path (lm_locks m)\<rparr> else m
        | None \<Rightarrow> m)"

definition performCleanup :: "gotime \<Rightarrow> LockManager \<Rightarrow> LockManager" where
  "performCleanup now m = cleanup_remove now (cleanup_scan now m) m"

definition lmAcquireLock ::
  "env \<Rightarrow> bytes \<Rightarrow> bytes \<Rightarrow> duration \<Rightarrow> LockManager \<Rightarrow> (lm_error, LockHandle) outcome \<times> LockManager" where
  "lmAcquireLock E resourcePath agentID ttl m =
     (let ttl = (if ttl = 0 then lm_DefaultTTL m else ttl);
          req = \<lparr>alr_ResourcePath = resourcePath, alr_AgentId = agentID, alr_TtlSeconds = seconds32 ttl\<rparr>;
          lock = \<lparr>lk_ResourcePath = resourcePath, lk_HolderAgent = agentID,
            lk_ExpiresAt = Some (env_now E 1 + ttl), lk_LockId = env_uuid E\<rparr>;
          fresh = (Ret lock, m\<lparr>lm_locks := AList.update resourcePath lock (lm_locks m),
            lm_tasks := lm_tasks m @ [PersistLock req (env_uuid E)]\<rparr>)
      in case map_of (lm_locks m) resourcePath of
           None \<Rightarrow> fresh
         | Some existingLock \<Rightarrow>
             if After (expiry existingLock) (env_now E 0)
             then if lk_HolderAgent existingLock = agentID
                  then let existingLock = existingLock\<lparr>lk_ExpiresAt := Some (env_now E 1 + ttl)\<rparr>
                       in (Ret existingLock,
                           m\<lparr>lm_locks := AList.update resourcePath existingLock (lm_locks m),
                             lm_tasks := lm_tasks m @ [ExtendStored req]\<rparr>)
                  else (Err (LockedBy resourcePath (lk_HolderAgent existingLock) (expiry existingLock)), m)
             else fresh)"

definition lmReleaseLock ::
  "env \<Rightarrow> bytes \<Rightarrow> bytes \<Rightarrow> bytes \<Rightarrow> LockManager \<Rightarrow> (lm_error, bool) outcome \<times> LockManager" where
  "lmReleaseLock E resourcePath agentID lockID m =
     (case map_of (lm_locks m) resourcePath of
        None \<Rightarrow> (Ret False, m)
      | Some existingLock \<Rightarrow>
          if lk_HolderAgent existingLock \<noteq> agentID then (Err HeldByAnotherAgent, m)
          else if lk_LockId existingLock \<noteq> lockID then (Err LockIDMismatch, m)
          else (Ret True,
                m\<lparr>lm_locks := AList.delete resourcePath (lm_locks m),
                  lm_tasks := lm_tasks m @ [ReleaseStored \<lparr>rlr_ResourcePath = resourcePath,
                    rlr_AgentId = agentID, rlr_LockId = lockID\<rparr>]\<rparr>))"

definition lmGetLock :: "gotime \<Rightarrow> bytes \<Rightarrow> LockManager \<Rightarrow> (lm_error, LockHandle) outcome" where
  "lmGetLock now resourcePath m =
     (case map_of (lm_locks m) resourcePath of
        None \<Rightarrow> Err (NoLockFound resourcePath)
      | Some lock \<Rightarrow> if Before (expiry lock) now then Err (LockExpired resourcePath) else Ret lock)"

text \<open>\<open>AcquireMultipleLocks\<close>: the loop over the sorted resources, with the handles acquired so far; when
  one acquisition fails, those are released in the order they were acquired. Every inner call has
  its own environment.\<close>

fun release_all :: "env \<Rightarrow> bytes \<Rightarrow> LockHandle list \<Rightarrow> LockManager \<Rightarrow> LockManager" where
  "release_all E agentID [] m = m"
| "release_all E agentID (l # ls) m =
     release_all E agentID ls (snd (lmReleaseLock E (lk_ResourcePath l) agentID (lk_LockId l) m))"

fun acquire_loop ::
  "(nat \<Rightarrow> env) \<Rightarrow> bytes \<Rightarrow> duration \<Rightarrow> bytes list \<Rightarrow> LockHandle list \<Rightarrow> LockManager \<Rightarrow>
   (lm_error, LockHandle list) outcome \<times> LockManager" where
  "acquire_loop Es agentID ttl [] locks m = (Ret locks, m)"
| "acquire_loop Es agentID ttl (resource # rs) locks m =
     (case lmAcquireLock (Es (length locks)) resource agentID ttl m of
        (Ret lock, m) \<Rightarrow> acquire_loop Es agentID ttl rs (locks @ [lock]) m
      | (Err e, m) \<Rightarrow> (Err (AcquireFailed resource e), release_all (Es (length locks)) agentID locks m)
      | (Panic, m) \<Rightarrow> (Panic, m))"

definition lmAcquireMultipleLocks ::
  "(nat \<Rightarrow> env) \<Rightarrow> bytes list \<Rightarrow> bytes \<Rightarrow> duration \<Rightarrow> LockManager \<Rightarrow>
   (lm_error, LockHandle list) outcome \<times> LockManager" where
  "lmAcquireMultipleLocks Es resources agentID ttl m =
     (if resources = [] then (Ret [], m) else acquire_loop Es agentID ttl (sort resources) [] m)"

text \<open>A started goroutine runs its task: the storage call, then what the goroutine does with the result.\<close>

fun run_task ::
  "('e, 's) StorageInterface \<Rightarrow> env \<Rightarrow> lm_task \<Rightarrow> LockManager \<times> 's \<Rightarrow> LockManager \<times> 's" where
  "run_task SI E (PersistLock req lockID) (m, s) =
     (case si_AcquireLock SI E req s of
        (Ret _, s) \<Rightarrow> (m, s)
      | (_, s) \<Rightarrow> (m\<lparr>lm_tasks := lm_tasks m @ [UndoLock (alr_ResourcePath req) lockID]\<rparr>, s))"
| "run_task SI E (UndoLock resourcePath lockID) (m, s) =
     (case map_of (lm_locks m) resourcePath of
        Some current \<Rightarrow>
          (if lk_LockId current = lockID then m\<lparr>lm_locks := AList.delete resourcePath (lm_locks m)\<rparr> else m, s)
      | None \<Rightarrow> (m, s))"
| "run_task SI E (ExtendStored req) (m, s) = (m, snd (si_AcquireLock SI E req s))"
| "run_task SI E (ReleaseStored req) (m, s) = (m, snd (si_ReleaseLock SI E req s))"

subsection \<open>The manager as a transition system\<close>

datatype lm_event =
    EvAcquire env bytes bytes duration
  | EvRelease env bytes bytes bytes
  | EvScan gotime
  | EvRemove gotime "bytes list"
  | EvTask lm_task env

inductive lm_step ::
  "('e, 's) StorageInterface \<Rightarrow> LockManager \<times> 's \<Rightarrow> lm_event \<Rightarrow> LockManager \<times> 's \<Rightarrow> bool"
  for SI where
  acquire: "lm_step SI (m, s) (EvAcquire E p a ttl) (snd (lmAcquireLock E p a ttl m), s)"
| release: "lm_step SI (m, s) (EvRelease E p a i) (snd (lmReleaseLock E p a i m), s)"
| scan: "lm_step SI (m, s) (EvScan now) (m, s)"
| remove: "lm_step SI (m, s) (EvRemove now ps) (cleanup_remove now ps m, s)"
| task: "lm_tasks m = xs @ t # ys \<Longrightarrow>
     lm_step SI (m, s) (EvTask t E) (run_task SI E t (m\<lparr>lm_tasks := xs @ ys\<rparr>, s))"

inductive lm_reachable :: "('e, 's) StorageInterface \<Rightarrow> LockManager \<times> 's \<Rightarrow> bool" for SI where
  init: "lm_reachable SI (NewLockManager d c, s)"
| step: "lm_reachable SI x \<Longrightarrow> lm_step SI x ev y \<Longrightarrow> lm_reachable SI y"

inductive_cases lm_step_taskE: "lm_step SI x (EvTask t E) y"
inductive_simps lm_step_acquire_iff: "lm_step SI x (EvAcquire E p a ttl) y"

subsection \<open>The invariant\<close>

definition lm_inv :: "LockManager \<Rightarrow> bool" where
  "lm_inv m \<longleftrightarrow> keyed lk_ResourcePath (lm_locks m)"

lemma lm_inv_acquire: "lm_inv m \<Longrightarrow> lm_inv (snd (lmAcquireLock E p a ttl m))"
  by (auto simp: lm_inv_def lmAcquireLock_def Let_def intro!: keyed_update dest: keyed_lookup split: option.splits)

lemma lm_inv_release: "lm_inv m \<Longrightarrow> lm_inv (snd (lmReleaseLock E p a i m))"
  by (auto simp: lm_inv_def lmReleaseLock_def split: option.splits)

lemma lm_inv_delete: "lm_inv m \<Longrightarrow> lm_inv (m\<lparr>lm_locks := AList.delete p (lm_locks m)\<rparr>)"
  by (auto simp: lm_inv_def)

lemma lm_inv_cleanup_remove: "lm_inv m \<Longrightarrow> lm_inv (cleanup_remove now ps m)"
  by (induction now ps m rule: cleanup_remove.induct) (auto simp: lm_inv_delete split: option.splits)

lemma lm_inv_tasks: "lm_inv (m\<lparr>lm_tasks := ts\<rparr>) \<longleftrightarrow> lm_inv m"
  by (simp add: lm_inv_def)

lemma lm_inv_task: "lm_inv m \<Longrightarrow> lm_inv (fst (run_task SI E t (m, s)))"
  by (cases t) (auto simp: lm_inv_tasks lm_inv_delete split: prod.splits outcome.splits option.splits)

lemmas lm_inv_intros = lm_inv_acquire lm_inv_release lm_inv_cleanup_remove lm_inv_task

lemma lm_inv_step: "lm_step SI x ev y \<Longrightarrow> lm_inv (fst x) \<Longrightarrow> lm_inv (fst y)"
  by (induction rule: lm_step.induct) (auto simp: lm_inv_tasks intro: lm_inv_intros)

lemma lm_reachable_inv: "lm_reachable SI x \<Longrightarrow> lm_inv (fst x)"
proof (induction rule: lm_reachable.induct)
  case (init d c s)
  then show ?case by (simp add: NewLockManager_def lm_inv_def)
next
  case (step x ev y)
  then show ?case by (blast intro: lm_inv_step)
qed


subsection \<open>The manager as a lock service\<close>

lemma lmAcquireLock_Ret:
  assumes "lm_inv m" and "lmAcquireLock E p a ttl m = (Ret l, m')"
  shows "map_of (lm_locks m') = (map_of (lm_locks m))(p \<mapsto> l)" and "lk_HolderAgent l = a" and "lk_ResourcePath l = p"
    and "expiry l = env_now E 1 + (if ttl = 0 then lm_DefaultTTL m else ttl)"
  using assms keyed_lookup [of lk_ResourcePath "lm_locks m" p]
  by (auto simp: lm_inv_def lmAcquireLock_def Let_def split: option.splits if_splits)

lemma lmAcquireLock_not_Ret:
  assumes "lmAcquireLock E p a ttl m = (r, m')" and "\<And>l. r \<noteq> Ret l"
  shows "m' = m \<and> (\<exists>l. map_of (lm_locks m) p = Some l \<and> live (env_now E 0) l \<and> lk_HolderAgent l \<noteq> a \<and>
    r = Err (LockedBy p (lk_HolderAgent l) (expiry l)))"
  using assms by (auto simp: lmAcquireLock_def Let_def split: option.splits if_splits)

lemma lmAcquireLock_elsewhere:
  "q \<noteq> p \<Longrightarrow> map_of (lm_locks (snd (lmAcquireLock E q a ttl m))) p = map_of (lm_locks m) p"
  by (auto simp: lmAcquireLock_def Let_def split: option.splits)

lemma lmReleaseLock_table:
  "map_of (lm_locks (snd (lmReleaseLock E q a i m))) =
   (case map_of (lm_locks m) q of
      Some l \<Rightarrow> if lk_HolderAgent l = a \<and> lk_LockId l = i then (map_of (lm_locks m))(q := None) else map_of (lm_locks m)
    | None \<Rightarrow> map_of (lm_locks m))"
  by (auto simp: lmReleaseLock_def split: option.splits)

interpretation manager_locks:
  lock_service "\<lambda>m. map_of (lm_locks m)" "\<lambda>m p. lm_inv m" "\<lambda>_. True" lmAcquireLock lmReleaseLock
proof
  fix m p l a ttl and E :: env
  assume "lm_inv m" "map_of (lm_locks m) p = Some l" "lk_HolderAgent l \<noteq> a" "live (env_now E 0) l"
  then show "\<exists>e m'. lmAcquireLock E p a ttl m = (Err e, m') \<and> lm_inv m' \<and> map_of (lm_locks m') p = map_of (lm_locks m) p"
    by (simp add: lmAcquireLock_def Let_def)
next
  fix m p q a ttl r m' and E :: env
  assume "lm_inv m" "q \<noteq> p" "lmAcquireLock E q a ttl m = (r, m')"
  then show "lm_inv m' \<and> map_of (lm_locks m') p = map_of (lm_locks m) p"
    using lm_inv_acquire [of m E q a ttl] lmAcquireLock_elsewhere [of q p E a ttl m] by simp
next
  fix m p a ttl l m' and E :: env
  assume *: "lm_inv m" "lmAcquireLock E p a ttl m = (Ret l, m')"
  then show "lm_inv m' \<and> map_of (lm_locks m') p = Some l \<and> lk_HolderAgent l = a \<and> lk_ResourcePath l = p"
    using lm_inv_acquire [of m E p a ttl] lmAcquireLock_Ret [OF *] by simp
next
  fix m p l a i and E :: env
  assume "lm_inv m" "map_of (lm_locks m) p = Some l" "lk_HolderAgent l \<noteq> a"
  then show "\<exists>e m'. lmReleaseLock E p a i m = (Err e, m') \<and> lm_inv m' \<and> map_of (lm_locks m') p = map_of (lm_locks m) p"
    by (simp add: lmReleaseLock_def)
next
  fix m p q a i x m' and E :: env
  assume "lm_inv m" "q \<noteq> p" "lmReleaseLock E q a i m = (x, m')"
  then show "lm_inv m' \<and> map_of (lm_locks m') p = map_of (lm_locks m) p"
    using lm_inv_release [of m E q a i] lmReleaseLock_table [of E q a i m] by (auto split: option.splits)
qed

subsection \<open>Cleanup and goroutines\<close>

lemma cleanup_remove_table:
  "map_of (lm_locks (cleanup_remove now ps m)) p =
   (case map_of (lm_locks m) p of
      Some l \<Rightarrow> if p \<in> set ps \<and> expiry l < now then None else Some l
    | None \<Rightarrow> None)"
proof (induction now ps m rule: cleanup_remove.induct)
  case (2 now q ps m)
  then show ?case by (cases "map_of (lm_locks m) q") (auto split: option.splits)
qed (simp split: option.splits)

lemma run_task_table:
  "map_of (lm_locks (fst (run_task SI E t (m, s)))) p =
   (case map_of (lm_locks m) p of
      Some l \<Rightarrow> if t = UndoLock p (lk_LockId l) then None else Some l
    | None \<Rightarrow> None)"
  by (cases t) (auto split: prod.splits outcome.splits option.splits)

text \<open>The instant an event compares lifetimes with.\<close>

fun event_time :: "lm_event \<Rightarrow> gotime option" where
  "event_time (EvAcquire E p a ttl) = Some (env_now E 0)"
| "event_time (EvRemove now ps) = Some now"
| "event_time _ = None"

lemma lm_step_lock_kept:
  assumes "lm_step SI x ev y" and "lm_inv (fst x)" and "map_of (lm_locks (fst x)) p = Some l"
    and "\<And>now. event_time ev = Some now \<Longrightarrow> live now l"
  shows "(\<exists>l'. map_of (lm_locks (fst y)) p = Some l' \<and> lk_HolderAgent l' = lk_HolderAgent l \<and> lk_LockId l' = lk_LockId l) \<or>
    (\<exists>E. ev = EvRelease E p (lk_HolderAgent l) (lk_LockId l)) \<or> (\<exists>E. ev = EvTask (UndoLock p (lk_LockId l)) E)"
  using assms
proof (cases rule: lm_step.cases)
  case (acquire m s E q a ttl)
  show ?thesis
  proof (cases "q = p")
    case True
    with acquire assms(3,4) show ?thesis
      by (auto simp: lmAcquireLock_def Let_def)
  next
    case False
    with acquire assms(3) lmAcquireLock_elsewhere [of q p E a ttl m] show ?thesis by simp
  qed
next
  case (release m s E q a i)
  then show ?thesis
    using assms(3) lmReleaseLock_table [of E q a i m] by (cases "map_of (lm_locks m) q") auto
next
  case (scan m s now)
  then show ?thesis using assms(3) by simp
next
  case (remove m s now ps)
  then show ?thesis using assms(3,4) by (auto simp: cleanup_remove_table)
next
  case (task m xs t ys s E)
  then show ?thesis using assms(3) by (auto simp: run_task_table)
qed

subsection \<open>Several locks at once\<close>

lemma lmReleaseLock_at:
  "map_of (lm_locks (snd (lmReleaseLock E q a i m))) p =
   (case map_of (lm_locks m) p of
      None \<Rightarrow> None
    | Some c \<Rightarrow> if p = q \<and> lk_HolderAgent c = a \<and> lk_LockId c = i then None else Some c)"
  by (cases "p = q") (auto simp: lmReleaseLock_table split: option.splits)

lemma release_all_table:
  "map_of (lm_locks (release_all E a ls m)) p =
   (case map_of (lm_locks m) p of
      None \<Rightarrow> None
    | Some c \<Rightarrow> if lk_HolderAgent c = a \<and> (\<exists>l \<in> set ls. lk_ResourcePath l = p \<and> lk_LockId l = lk_LockId c) then None
               else Some c)"
proof (induction ls arbitrary: m)
  case (Cons l ls)
  show ?case
    by (simp add: Cons.IH lmReleaseLock_at split: option.splits) auto
qed (simp split: option.splits)

lemma lm_inv_release_all: "lm_inv m \<Longrightarrow> lm_inv (release_all E a ls m)"
  by (induction ls arbitrary: m) (auto intro: lm_inv_release)

text \<open>The table after acquiring \<open>locks\<close> in that order.\<close>

definition acquired_over :: "LockHandle list \<Rightarrow> (bytes \<rightharpoonup> LockHandle) \<Rightarrow> (bytes \<rightharpoonup> LockHandle)" where
  "acquired_over locks t = t ++ map_of (rev (map (\<lambda>l. (lk_ResourcePath l, l)) locks))"

lemma acquired_over_snoc: "acquired_over (ls @ [l]) t = (acquired_over ls t)(lk_ResourcePath l \<mapsto> l)"
  by (simp add: acquired_over_def)

lemma acquired_over_notin: "p \<notin> lk_ResourcePath ` set ls \<Longrightarrow> acquired_over ls t p = t p"
  by (force simp: acquired_over_def map_add_def map_of_eq_None_iff split: option.splits dest: map_of_SomeD)

lemma acquired_over_in:
  "p \<in> lk_ResourcePath ` set ls \<Longrightarrow> \<exists>l \<in> set ls. lk_ResourcePath l = p \<and> acquired_over ls t p = Some l"
proof (induction ls rule: rev_induct)
  case (snoc l ls)
  then show ?case by (auto simp: acquired_over_snoc)
qed simp

lemma acquire_loop_spec:
  assumes "lm_inv m" and "\<forall>l \<in> set locks. lk_HolderAgent l = a" and "map_of (lm_locks m) = acquired_over locks t"
    and "acquire_loop Es a ttl rs locks m = (r, m')"
  shows "lm_inv m' \<and> r \<noteq> Panic \<and>
    (\<forall>ls. r = Ret ls \<longrightarrow> map lk_ResourcePath ls = map lk_ResourcePath locks @ rs \<and> (\<forall>l \<in> set ls. lk_HolderAgent l = a) \<and>
       map_of (lm_locks m') = acquired_over ls t) \<and>
    (\<forall>e. r = Err e \<longrightarrow> (\<exists>ds q rest h x. rs = ds @ q # rest \<and> e = AcquireFailed q (LockedBy q h x) \<and> h \<noteq> a \<and>
       (\<forall>p. map_of (lm_locks m') p = (if p \<in> lk_ResourcePath ` set locks \<union> set ds then None else t p))))"
  using assms
proof (induction rs arbitrary: locks m)
  case Nil
  then show ?case by auto
next
  case (Cons q rs)
  obtain r1 m1 where acq: "lmAcquireLock (Es (length locks)) q a ttl m = (r1, m1)"
    by (cases "lmAcquireLock (Es (length locks)) q a ttl m")
  show ?case
  proof (cases r1)
    case (Ret l)
    note got = lmAcquireLock_Ret [OF Cons.prems(1) acq [unfolded Ret]]
    have inv1: "lm_inv m1" using lm_inv_acquire [OF Cons.prems(1), of "Es (length locks)" q a ttl] acq by simp
    have run: "acquire_loop Es a ttl rs (locks @ [l]) m1 = (r, m')" using Cons.prems(4) acq Ret by simp
    have table: "map_of (lm_locks m1) = acquired_over (locks @ [l]) t"
      using Cons.prems(3) got by (simp add: acquired_over_snoc)
    have IH: "lm_inv m' \<and> r \<noteq> Panic \<and>
      (\<forall>ls. r = Ret ls \<longrightarrow> map lk_ResourcePath ls = map lk_ResourcePath locks @ q # rs \<and> (\<forall>l \<in> set ls. lk_HolderAgent l = a) \<and>
         map_of (lm_locks m') = acquired_over ls t) \<and>
      (\<forall>e. r = Err e \<longrightarrow> (\<exists>ds q' rest h x. rs = ds @ q' # rest \<and> e = AcquireFailed q' (LockedBy q' h x) \<and> h \<noteq> a \<and>
         (\<forall>p. map_of (lm_locks m') p = (if p \<in> lk_ResourcePath ` set locks \<union> set (q # ds) then None else t p))))"
      using Cons.IH [OF inv1 _ table run] Cons.prems(2) got by simp
    show ?thesis
    proof (cases r)
      case (Err e)
      with IH obtain ds q' rest h x where "rs = ds @ q' # rest" "e = AcquireFailed q' (LockedBy q' h x)" "h \<noteq> a"
        "\<forall>p. map_of (lm_locks m') p = (if p \<in> lk_ResourcePath ` set locks \<union> set (q # ds) then None else t p)" by blast
      then have "\<exists>ds q' rest h x. q # rs = ds @ q' # rest \<and> e = AcquireFailed q' (LockedBy q' h x) \<and> h \<noteq> a \<and>
         (\<forall>p. map_of (lm_locks m') p = (if p \<in> lk_ResourcePath ` set locks \<union> set ds then None else t p))"
        by (intro exI [of _ "q # ds"] exI [of _ q'] exI [of _ rest] exI [of _ h] exI [of _ x]) simp
      with IH Err show ?thesis by simp
    qed (use IH in simp_all)
  next
    case (Err e)
    then have e: "m1 = m" "\<exists>l. e = LockedBy q (lk_HolderAgent l) (expiry l) \<and> lk_HolderAgent l \<noteq> a"
      using lmAcquireLock_not_Ret [OF acq] by auto
    have r: "r = Err (AcquireFailed q e)" "m' = release_all (Es (length locks)) a locks m"
      using Cons.prems(4) acq Err e(1) by simp_all
    have "map_of (lm_locks m') p = (if p \<in> lk_ResourcePath ` set locks then None else t p)" for p
      using Cons.prems(2,3) acquired_over_in [of p locks t] acquired_over_notin [of p locks t]
      by (auto simp: r(2) release_all_table split: option.splits)
    moreover have "lm_inv m'" unfolding r(2) using Cons.prems(1) by (rule lm_inv_release_all)
    ultimately show ?thesis using e(2) r(1) by fastforce
  next
    case Panic
    then show ?thesis using lmAcquireLock_not_Ret [OF acq] by simp
  qed
qed


subsection \<open>Properties\<close>

definition lm0 :: LockManager where "lm0 = NewLockManager 0 0"

definition lm_env :: "gotime \<Rightarrow> bytes \<Rightarrow> env" where
  "lm_env t u = \<lparr>env_now = (\<lambda>_. t), env_uuid = u, env_pick = (\<lambda>_. 0)\<rparr>"

lemma lm0_inv: "lm_inv lm0"
  by (simp add: lm0_def NewLockManager_def lm_inv_def)

lemmas lm_eval = lm0_def lm_env_def NewLockManager_def lm_DefaultConfig_ttl_def lmAcquireLock_def Let_def

text \<open>C7. Mutual exclusion of the lock manager. After agent \<open>a\<close> has acquired \<open>p\<close>, every acquisition of \<open>p\<close> by another agent before the
  lock expires returns an error and leaves the lock, after any sequence of calls of other agents.\<close>

theorem manager_lock_exclusion:
  assumes "lm_inv m" and "lmAcquireLock E p a ttl m = (Ret l, m')"
    and "\<forall>c \<in> set cs. caller c \<noteq> a \<and> live (call_time c) l" and "b \<noteq> a" and "live (env_now E' 0) l"
  shows "\<exists>e m''. lmAcquireLock E' p b ttl' (fold (run_call lmAcquireLock lmReleaseLock) cs m') = (Err e, m'') \<and>
    map_of (lm_locks m'') p = Some l"
  using manager_locks.exclusion [OF assms(1,2), of cs b E' ttl'] assms(3-5) by simp

theorem manager_lock_exclusion_witness:
  "\<exists>e m''. lmAcquireLock (lm_env 5 ''v'') ''p'' ''b'' 0
     (fold (run_call lmAcquireLock lmReleaseLock) [CallRelease (lm_env 3 ''w'') ''p'' ''b'' ''u'']
       (snd (lmAcquireLock (lm_env 0 ''u'') ''p'' ''a'' 0 lm0))) = (Err e, m'')"
proof -
  obtain l m' where run: "lmAcquireLock (lm_env 0 ''u'') ''p'' ''a'' 0 lm0 = (Ret l, m')" and l: "expiry l = Minute"
    by (simp add: lm_eval)
  show ?thesis
    using manager_lock_exclusion [OF lm0_inv run, of "[CallRelease (lm_env 3 ''w'') ''p'' ''b'' ''u'']" "''b''" "lm_env 5 ''v''" 0]
      run l by (auto simp: lm_env_def)
qed

text \<open>C8. Who can end a lock. In every reachable state of the manager, a step (a call of any agent, either half of a
  cleanup, or any started goroutine, in any order) that looks at a lock before it expires leaves it with
  the same holder and lock id, except the release by its holder under its lock id, and the goroutine of the
  acquisition that created it, when it could not persist it.\<close>

theorem manager_lock_kept:
  assumes "lm_reachable SI x" and "lm_step SI x ev y" and "map_of (lm_locks (fst x)) p = Some l"
    and "\<And>now. event_time ev = Some now \<Longrightarrow> live now l"
  shows "(\<exists>l'. map_of (lm_locks (fst y)) p = Some l' \<and> lk_HolderAgent l' = lk_HolderAgent l \<and> lk_LockId l' = lk_LockId l) \<or>
    (\<exists>E. ev = EvRelease E p (lk_HolderAgent l) (lk_LockId l)) \<or> (\<exists>E. ev = EvTask (UndoLock p (lk_LockId l)) E)"
  by (rule lm_step_lock_kept [OF assms(2) lm_reachable_inv [OF assms(1)] assms(3,4)])

text \<open>A storage that accepts everything, for the examples.\<close>

definition si_accept :: "(unit, unit) StorageInterface" where
  "si_accept = \<lparr>si_AcquireLock = (\<lambda>E req s. (Ret \<lparr>lk_ResourcePath = alr_ResourcePath req,
      lk_HolderAgent = alr_AgentId req, lk_ExpiresAt = None, lk_LockId = ''mock-lock-id''\<rparr>, s)),
    si_ReleaseLock = (\<lambda>E req s. (Ret True, s))\<rparr>"

theorem manager_lock_kept_witness:
  "\<exists>l'. map_of (lm_locks (cleanup_remove 9 [''p''] (snd (lmAcquireLock (lm_env 0 ''u'') ''p'' ''a'' 0 lm0)))) ''p'' = Some l' \<and>
     lk_HolderAgent l' = ''a''"
proof -
  obtain l m' where run: "lmAcquireLock (lm_env 0 ''u'') ''p'' ''a'' 0 lm0 = (Ret l, m')" and l: "expiry l = Minute"
    "map_of (lm_locks m') ''p'' = Some l" "lk_HolderAgent l = ''a''"
    by (simp add: lm_eval)
  have "lm_reachable si_accept (lm0, ())" unfolding lm0_def by (rule lm_reachable.init)
  moreover have "lm_step si_accept (lm0, ()) (EvAcquire (lm_env 0 ''u'') ''p'' ''a'' 0) (m', ())"
    using lm_step.acquire [of si_accept lm0 "()" "lm_env 0 ''u''" "''p''" "''a''" 0] run by simp
  ultimately have "lm_reachable si_accept (m', ())" by (rule lm_reachable.step)
  from manager_lock_kept [OF this lm_step.remove [of si_accept m' "()" 9 "[''p'']"], of "''p''" l] l run
  show ?thesis by simp
qed

text \<open>The cleanup removes exactly the expired locks: after \<open>performCleanup\<close> at an instant, the table maps a path to the lock
  it had if that lock has not expired by then, and to nothing otherwise.\<close>

lemma manager_cleanup_exact:
  "map_of (lm_locks (performCleanup now m)) p =
     (case map_of (lm_locks m) p of Some l \<Rightarrow> if expiry l < now then None else Some l | None \<Rightarrow> None)"
proof -
  have "p \<in> set (cleanup_scan now m)" if "map_of (lm_locks m) p = Some l" "expiry l < now" for l
    using map_of_SomeD [OF that(1)] that(2) by (force simp: cleanup_scan_def)
  then show ?thesis
    by (auto simp: performCleanup_def cleanup_remove_table split: option.splits)
qed

text \<open>C9. Acquiring several locks is all or nothing. \<open>AcquireMultipleLocks\<close> either returns one handle per requested
  resource, in sorted order, all held by the agent, with every other entry of the table unchanged; or it fails at a
  resource another agent holds, and then every resource acquired before it (in sorted order) is free and every other entry
  is unchanged.\<close>

theorem manager_acquire_multiple:
  assumes "lm_inv m" and "lmAcquireMultipleLocks Es resources a ttl m = (r, m')"
  shows "(\<exists>ls. r = Ret ls \<and> map lk_ResourcePath ls = sort resources \<and> (\<forall>l \<in> set ls. lk_HolderAgent l = a) \<and>
       map_of (lm_locks m') = acquired_over ls (map_of (lm_locks m))) \<or>
     (\<exists>ds q rest h x. r = Err (AcquireFailed q (LockedBy q h x)) \<and> h \<noteq> a \<and> sort resources = ds @ q # rest \<and>
       (\<forall>p. map_of (lm_locks m') p = (if p \<in> set ds then None else map_of (lm_locks m) p)))"
proof (cases "resources = []")
  case True
  with assms(2) show ?thesis by (simp add: lmAcquireMultipleLocks_def acquired_over_def)
next
  case False
  have "acquire_loop Es a ttl (sort resources) [] m = (r, m')"
    using assms(2) False by (simp add: lmAcquireMultipleLocks_def)
  note spec = acquire_loop_spec [OF assms(1) _ _ this, of "map_of (lm_locks m)", simplified acquired_over_def, simplified]
  show ?thesis
  proof (cases r)
    case (Err e)
    with spec obtain ds q rest h x where "sort resources = ds @ q # rest" "e = AcquireFailed q (LockedBy q h x)" "h \<noteq> a"
      "\<forall>p. map_of (lm_locks m') p = (if p \<in> set ds then None else map_of (lm_locks m) p)" by blast
    with Err show ?thesis by blast
  qed (use spec in \<open>simp_all add: acquired_over_def\<close>)
qed

theorem manager_acquire_multiple_witness:
  "\<exists>ls. fst (lmAcquireMultipleLocks (\<lambda>i. lm_env 0 [char_of i]) [''q'', ''p''] ''a'' 0 lm0) = Ret ls \<and>
     map lk_ResourcePath ls = [''p'', ''q'']"
proof -
  obtain r m' where run: "lmAcquireMultipleLocks (\<lambda>i. lm_env 0 [char_of i]) [''q'', ''p''] ''a'' 0 lm0 = (r, m')"
    by (cases "lmAcquireMultipleLocks (\<lambda>i. lm_env 0 [char_of i]) [''q'', ''p''] ''a'' 0 lm0")
  have sorted: "sort [''q'', ''p''] = [''p'', ''q'']" by code_simp
  have "\<exists>ls. r = Ret ls"
    using run by (auto simp: lmAcquireMultipleLocks_def sorted lm_eval)
  then show ?thesis
    using manager_acquire_multiple [OF lm0_inv run] run sorted by auto
qed

end
