(* ===== verification/Lock_System.thy ===== *)
theory Lock_System
  imports Storage_Locks Lock_Manager
begin

text \<open>
  The lock manager on top of the storage, as \<open>internal/engine/engine.go\<close> connects them: the storage's
  \<open>AcquireLock\<close> and \<open>ReleaseLock\<close> are the calls of the manager's goroutines. The theory follows one lock
  through both tables.
\<close>

definition storage_interface ::
  "('db, 'txn) badger \<Rightarrow> json_codec \<Rightarrow> (storage_error, 'db Storage) StorageInterface" where
  "storage_interface B J = \<lparr>si_AcquireLock = AcquireLock B J, si_ReleaseLock = ReleaseLock B J\<rparr>"

text \<open>The request a persist sends, for the requested lifetime.\<close>

definition persist_request :: "LockManager \<Rightarrow> bytes \<Rightarrow> bytes \<Rightarrow> duration \<Rightarrow> AcquireLockRequest" where
  "persist_request m p a ttl = \<lparr>alr_ResourcePath = p, alr_AgentId = a,
     alr_TtlSeconds = seconds32 (if ttl = 0 then lm_DefaultTTL m else ttl)\<rparr>"

lemma persist_request_simps [simp]:
  "alr_ResourcePath (persist_request m p a ttl) = p" "alr_AgentId (persist_request m p a ttl) = a"
  by (simp_all add: persist_request_def)

lemma lmAcquireLock_fresh:
  assumes "map_of (lm_locks m) p = None" and "lmAcquireLock E p a ttl m = (r, m')"
  shows "\<exists>l. r = Ret l \<and> lk_LockId l = env_uuid E \<and> lk_HolderAgent l = a \<and>
     map_of (lm_locks m') = (map_of (lm_locks m))(p \<mapsto> l) \<and>
     lm_tasks m' = lm_tasks m @ [PersistLock (persist_request m p a ttl) (env_uuid E)]"
  using assms by (auto simp: lmAcquireLock_def persist_request_def Let_def)

lemma persist_free:
  assumes "lock_ok B J V items writes s p" and "badger_total B" and "db_lock J items s p = None"
    and "alr_ResourcePath req = p" and "V p" "V (alr_AgentId req)" "V (env_uuid E)"
    and "run_task (storage_interface B J) E (PersistLock req i) (m, s) = (m', s')"
  shows "m' = m \<and> lock_ok B J V items writes s' p \<and>
     db_lock J items s' p = Some \<lparr>lk_ResourcePath = p, lk_HolderAgent = alr_AgentId req,
       lk_ExpiresAt = Some (env_now E 1 + ttl_duration (alr_TtlSeconds req)), lk_LockId = env_uuid E\<rparr>"
proof -
  obtain r s1 where run: "AcquireLock B J E req s = (r, s1)" by (cases "AcquireLock B J E req s")
  from AcquireLock_refines [OF assms(1,2,4-7) run] assms(3,4)
  have "\<exists>l. r = Ret l" "lock_ok B J V items writes s1 p"
    "db_lock J items s1 p = Some \<lparr>lk_ResourcePath = p, lk_HolderAgent = alr_AgentId req,
       lk_ExpiresAt = Some (env_now E 1 + ttl_duration (alr_TtlSeconds req)), lk_LockId = env_uuid E\<rparr>"
    by (auto simp: acquire_spec_def Let_def)
  then show ?thesis using assms(8) run by (auto simp: storage_interface_def)
qed

text \<open>A released lock stays in the storage. The manager and the storage each generate an identifier for the same
  lock. So when an agent acquires a free path and releases it again, and both goroutines have run, the
  path is free in the manager, but the storage has refused the release (the identifiers differ) and holds the lock
  until it expires.\<close>

lemma released_lock_stays_stored:
  assumes "lock_ok B J V items writes s p" and "badger_total B" and "db_lock J items s p = None"
    and "V p" "V a" "V (env_uuid Es)" and "env_uuid Es \<noteq> env_uuid E"
    and "map_of (lm_locks m) p = None" and "lmAcquireLock E p a ttl m = (Ret l, m1)"
    and "run_task (storage_interface B J) Es (PersistLock (persist_request m p a ttl) (env_uuid E)) (m1, s) = (m2, s2)"
    and "lmReleaseLock E' p a (lk_LockId l) m2 = (r, m3)"
    and "run_task (storage_interface B J) E''
       (ReleaseStored \<lparr>rlr_ResourcePath = p, rlr_AgentId = a, rlr_LockId = lk_LockId l\<rparr>) (m3, s2) = (m4, s4)"
  shows "r = Ret True \<and> map_of (lm_locks m4) p = None \<and>
     (\<exists>k. db_lock J items s4 p = Some k \<and> lk_HolderAgent k = a \<and> lk_LockId k = env_uuid Es \<and>
        expiry k = env_now Es 1 + ttl_duration (alr_TtlSeconds (persist_request m p a ttl)))"
proof -
  note l = lmAcquireLock_fresh [OF assms(8,9)]
  note s2 = persist_free [OF assms(1-3) _ assms(4) _ assms(6,10), simplified, OF assms(5)]
  obtain x s5 where rel: "ReleaseLock B J E'' \<lparr>rlr_ResourcePath = p, rlr_AgentId = a, rlr_LockId = lk_LockId l\<rparr> s2 = (x, s5)"
    by fastforce
  have s4: "m4 = m3" "s4 = s5" using assms(12) rel by (simp_all add: storage_interface_def)
  have "db_lock J items s5 = db_lock J items s2"
    using ReleaseLock_refines [OF conjunct1 [OF conjunct2 [OF s2]] assms(2) _ rel] s2 l assms(7) by auto
  moreover have "r = Ret True" "map_of (lm_locks m3) p = None"
    using assms(11) l s2 by (auto simp: lmReleaseLock_def)
  ultimately show ?thesis using s2 s4 by simp
qed

text \<open>A manager with nothing in it over the empty reference storage.\<close>

abbreviation ref_si :: "(storage_error, ref_db Storage) StorageInterface" where
  "ref_si \<equiv> storage_interface ref_badger ref_codec"

definition ref_manager :: LockManager where
  "ref_manager = NewLockManager Minute Minute"

lemma ref_manager_free [simp]: "map_of (lm_locks ref_manager) p = None"
  by (simp add: ref_manager_def NewLockManager_def)

theorem released_lock_stays_stored_witness:
  "\<exists>l m1 m2 s2 m3 m4 s4 k. lmAcquireLock (env_at 0 ''u'') ''p'' ''a'' 0 ref_manager = (Ret l, m1) \<and>
     run_task ref_si (env_at 1 ''v'') (PersistLock (persist_request ref_manager ''p'' ''a'' 0) ''u'') (m1, ref_storage) = (m2, s2) \<and>
     lmReleaseLock (env_at 2 ''x'') ''p'' ''a'' (lk_LockId l) m2 = (Ret True, m3) \<and>
     run_task ref_si (env_at 3 ''y'')
       (ReleaseStored \<lparr>rlr_ResourcePath = ''p'', rlr_AgentId = ''a'', rlr_LockId = lk_LockId l\<rparr>) (m3, s2) = (m4, s4) \<and>
     db_lock ref_codec ref_items s4 ''p'' = Some k \<and> lk_HolderAgent k = ''a''"
proof -
  obtain r0 m1 where acq: "lmAcquireLock (env_at 0 ''u'') ''p'' ''a'' 0 ref_manager = (r0, m1)" by fastforce
  then obtain l where l: "r0 = Ret l" using lmAcquireLock_fresh [OF ref_manager_free acq] by auto
  obtain m2 s2 where persist: "run_task ref_si (env_at 1 ''v'')
      (PersistLock (persist_request ref_manager ''p'' ''a'' 0) ''u'') (m1, ref_storage) = (m2, s2)" by fastforce
  obtain r m3 where rel: "lmReleaseLock (env_at 2 ''x'') ''p'' ''a'' (lk_LockId l) m2 = (r, m3)" by fastforce
  obtain m4 s4 where free: "run_task ref_si (env_at 3 ''y'')
      (ReleaseStored \<lparr>rlr_ResourcePath = ''p'', rlr_AgentId = ''a'', rlr_LockId = lk_LockId l\<rparr>) (m3, s2) = (m4, s4)" by fastforce
  show ?thesis
    using released_lock_stays_stored [OF ref_storage_ok ref_badger_total db_lock_ref_storage, where p = "''p''" and a = "''a''" and
        Es = "env_at 1 ''v''" and E = "env_at 0 ''u''" and m = ref_manager and ttl = 0 and E' = "env_at 2 ''x''" and E'' = "env_at 3 ''y''" and
        l = l and ?m1.0 = m1 and ?m2.0 = m2 and ?s2.0 = s2 and r = r and ?m3.0 = m3 and ?m4.0 = m4 and ?s4.0 = s4]
      acq [unfolded l] persist rel free by (auto simp del: run_task.simps)
qed

text \<open>The next holder of such a path loses its lock. When the storage holds a live lock of another agent that the
  manager does not know, the manager grants the path and returns the lock to the caller; the persisting
  goroutine is refused by the storage, and its second half removes the lock from the manager although nobody
  released it.\<close>

lemma granted_lock_withdrawn:
  assumes "lock_ok B J V items writes s p" and "db_lock J items s p = Some k" and "lk_HolderAgent k \<noteq> b"
    and "live (env_now Es 0) k" and "map_of (lm_locks m) p = None"
    and "lmAcquireLock E p b ttl m = (r, m1)"
    and "run_task (storage_interface B J) Es (PersistLock (persist_request m p b ttl) (env_uuid E)) (m1, s) = (m2, s2)"
    and "run_task (storage_interface B J) Eu (UndoLock p (env_uuid E)) (m2, s2) = (m3, s3)"
  shows "\<exists>l. r = Ret l \<and> map_of (lm_locks m1) p = Some l \<and> UndoLock p (env_uuid E) \<in> set (lm_tasks m2) \<and>
     map_of (lm_locks m3) p = None \<and> db_lock J items s3 p = Some k"
proof -
  note l = lmAcquireLock_fresh [OF assms(5,6)]
  obtain s' where "AcquireLock B J Es (persist_request m p b ttl) s = (Err LockedByOther, s')" "db_lock J items s' p = Some k"
    using AcquireLock_blocked [OF assms(1,2), of "persist_request m p b ttl" Es] assms(3,4) by auto
  with assms(7) have m2: "m2 = m1\<lparr>lm_tasks := lm_tasks m1 @ [UndoLock p (env_uuid E)]\<rparr>" "db_lock J items s2 p = Some k"
    by (auto simp: storage_interface_def)
  with assms(8) l show ?thesis by (auto split: option.splits if_splits)
qed

theorem granted_lock_withdrawn_witness:
  "\<exists>k s1 l m1 m2 s2 m3 s3. storage_acquire ref_badger ref_codec (env_at 0 ''v'') ''p'' ''a'' 60 ref_storage = (Ret k, s1) \<and>
     lmAcquireLock (env_at 1 ''u'') ''p'' ''b'' 0 ref_manager = (Ret l, m1) \<and>
     run_task ref_si (env_at 2 ''w'') (PersistLock (persist_request ref_manager ''p'' ''b'' 0) ''u'') (m1, s1) = (m2, s2) \<and>
     run_task ref_si (env_at 3 ''x'') (UndoLock ''p'' ''u'') (m2, s2) = (m3, s3) \<and> map_of (lm_locks m3) ''p'' = None"
proof -
  obtain s1 where acq: "storage_acquire ref_badger ref_codec (env_at 0 ''v'') ''p'' ''a'' 60 ref_storage =
     (Ret \<lparr>lk_ResourcePath = ''p'', lk_HolderAgent = ''a'', lk_ExpiresAt = Some (ttl_duration 60), lk_LockId = ''v''\<rparr>, s1)"
    (is "_ = (Ret ?k, s1)")
    using ref_storage_acquire [of "env_at 0 ''v''" "''p''" "''a''" 60] by auto
  have held: "lock_ok ref_badger ref_codec (\<lambda>_. True) ref_items (\<lambda>t. t) s1 ''p''"
    "db_lock ref_codec ref_items s1 ''p'' = Some ?k"
    using storage_locks.acq_gives [OF ref_storage_ok _ _ _ acq] by simp_all
  obtain r m1 where grant: "lmAcquireLock (env_at 1 ''u'') ''p'' ''b'' 0 ref_manager = (r, m1)" by fastforce
  obtain m2 s2 where persist: "run_task ref_si (env_at 2 ''w'')
      (PersistLock (persist_request ref_manager ''p'' ''b'' 0) ''u'') (m1, s1) = (m2, s2)" by fastforce
  obtain m3 s3 where undo: "run_task ref_si (env_at 3 ''x'') (UndoLock ''p'' ''u'') (m2, s2) = (m3, s3)" by fastforce
  have "ttl_duration 60 = 60 * Second" by (simp add: ttl_duration_def)
  then show ?thesis
    using granted_lock_withdrawn [OF held, where b = "''b''" and Es = "env_at 2 ''w''" and m = ref_manager and E = "env_at 1 ''u''" and
        ttl = 0 and Eu = "env_at 3 ''x''" and r = r and ?m1.0 = m1 and ?m2.0 = m2 and ?s2.0 = s2 and ?m3.0 = m3 and ?s3.0 = s3]
      acq grant persist undo by (auto simp del: run_task.simps)
qed

text \<open>C37. The storage's \<open>AcquireLock\<close> is not atomic. Nothing protects the time between looking at the lock and storing
  the new one: when two agents both look at a free path before either stores, both calls succeed, and each
  agent is told it holds the path.\<close>

theorem storage_acquire_race:
  assumes "lock_ok B J V items writes s p" and "badger_total B" and "db_lock J items s p = None"
    and "alr_ResourcePath ra = p" "alr_ResourcePath rb = p"
    and "V p" "V (alr_AgentId ra)" "V (env_uuid Ea)" "V (alr_AgentId rb)" "V (env_uuid Eb)"
    and "GetLock B J (env_pick Ea 0) p s = (fa, s1)" and "GetLock B J (env_pick Eb 0) p s1 = (fb, s2)"
    and "AcquireLock_commit B J Ea (AcquireLock_decide Ea ra (found_lock fa)) s2 = (xa, s3)"
    and "AcquireLock_commit B J Eb (AcquireLock_decide Eb rb (found_lock fb)) s3 = (xb, s4)"
  shows "\<exists>la lb. xa = Ret la \<and> xb = Ret lb \<and> lk_HolderAgent la = alr_AgentId ra \<and> lk_HolderAgent lb = alr_AgentId rb \<and>
     lk_ResourcePath la = p \<and> lk_ResourcePath lb = p \<and>
     expiry la = env_now Ea 1 + ttl_duration (alr_TtlSeconds ra) \<and> db_lock J items s4 p = Some lb"
proof -
  have inv: "lock_inv B J V items writes s" and coh: "lock_coherent J items s p" using assms(1) by (simp_all add: lock_ok_def)
  note ga = GetLock_effect [OF inv assms(11)]
  note gb = GetLock_effect [OF ga(1) assms(12)]
  have none: "found_lock fa = None" "found_lock fb = None"
    using ga(5) [OF coh] gb(5) [OF ga(3) [OF coh]] ga(2) assms(3) by simp_all
  define la where "la = \<lparr>lk_ResourcePath = p, lk_HolderAgent = alr_AgentId ra,
    lk_ExpiresAt = Some (env_now Ea 1 + ttl_duration (alr_TtlSeconds ra)), lk_LockId = env_uuid Ea\<rparr>"
  define lb where "lb = \<lparr>lk_ResourcePath = p, lk_HolderAgent = alr_AgentId rb,
    lk_ExpiresAt = Some (env_now Eb 1 + ttl_duration (alr_TtlSeconds rb)), lk_LockId = env_uuid Eb\<rparr>"
  have key: "keyed_lock V p la" "keyed_lock V p lb"
    using assms(6-10) by (simp_all add: la_def lb_def keyed_lock_def lock_strings_def)
  have runs: "AcquireLock_commit B J Ea (Inr (la, False)) s2 = (xa, s3)" "AcquireLock_commit B J Eb (Inr (lb, False)) s3 = (xb, s4)"
    using assms(4,5,13,14) none by (simp_all add: AcquireLock_decide_def la_def lb_def)
  note ca = AcquireLock_commit_effect(1) [OF gb(1) key(1) runs(1)]
  have "xa = Ret la" using AcquireLock_commit_total [OF assms(2) gb(1) key(1), of Ea False] runs(1) by simp
  moreover have xb: "xb = Ret lb" using AcquireLock_commit_total [OF assms(2) ca key(2), of Eb False] runs(2) by simp
  moreover have "db_lock J items s4 p = Some lb" using AcquireLock_commit_effect(4) [OF ca key(2) runs(2) xb] by simp
  ultimately show ?thesis by (auto simp: la_def lb_def)
qed

theorem storage_acquire_race_witness:
  "\<exists>fa s1 fb s2 la s3 lb s4.
     GetLock ref_badger ref_codec 0 ''p'' ref_storage = (fa, s1) \<and> GetLock ref_badger ref_codec 0 ''p'' s1 = (fb, s2) \<and>
     AcquireLock_commit ref_badger ref_codec (env_at 5 ''u'') (AcquireLock_decide (env_at 5 ''u'')
       \<lparr>alr_ResourcePath = ''p'', alr_AgentId = ''a'', alr_TtlSeconds = 60\<rparr> (found_lock fa)) s2 = (Ret la, s3) \<and>
     AcquireLock_commit ref_badger ref_codec (env_at 6 ''v'') (AcquireLock_decide (env_at 6 ''v'')
       \<lparr>alr_ResourcePath = ''p'', alr_AgentId = ''b'', alr_TtlSeconds = 60\<rparr> (found_lock fb)) s3 = (Ret lb, s4) \<and>
     lk_HolderAgent la = ''a'' \<and> lk_HolderAgent lb = ''b'' \<and> live 6 la"
proof -
  let ?ra = "\<lparr>alr_ResourcePath = ''p'', alr_AgentId = ''a'', alr_TtlSeconds = 60\<rparr>"
  let ?rb = "\<lparr>alr_ResourcePath = ''p'', alr_AgentId = ''b'', alr_TtlSeconds = 60\<rparr>"
  obtain fa s1 where a1: "GetLock ref_badger ref_codec 0 ''p'' ref_storage = (fa, s1)" by fastforce
  obtain fb s2 where b1: "GetLock ref_badger ref_codec 0 ''p'' s1 = (fb, s2)" by fastforce
  obtain xa s3 where a2: "AcquireLock_commit ref_badger ref_codec (env_at 5 ''u'')
      (AcquireLock_decide (env_at 5 ''u'') ?ra (found_lock fa)) s2 = (xa, s3)" by fastforce
  obtain xb s4 where b2: "AcquireLock_commit ref_badger ref_codec (env_at 6 ''v'')
      (AcquireLock_decide (env_at 6 ''v'') ?rb (found_lock fb)) s3 = (xb, s4)" by fastforce
  have "ttl_duration 60 = 60 * Second" by (simp add: ttl_duration_def)
  then show ?thesis
    using storage_acquire_race [OF ref_storage_ok ref_badger_total db_lock_ref_storage, where p = "''p''" and ra = ?ra and
        rb = ?rb and Ea = "env_at 5 ''u''" and Eb = "env_at 6 ''v''" and fa = fa and fb = fb and ?s1.0 = s1 and ?s2.0 = s2 and
        xa = xa and ?s3.0 = s3 and xb = xb and ?s4.0 = s4] a1 b1 a2 b2 by auto
qed

end
