(* ===== verification/Go_Index.thy ===== *)
theory Go_Index
  imports Engram_Prelude
begin

text \<open>
  The nested maps \<open>map[string]map[string]struct{}\<close> that the program uses as indexes: a set of strings per
  key, created on the first addition and deleted when its last member is removed. The router
  (\<open>contextSubs\<close>) and the enhanced lock manager (\<open>agentLocks\<close>) keep one each.
\<close>

type_synonym set_index = "bytes list gomap"

definition idx_add :: "bytes \<Rightarrow> bytes \<Rightarrow> set_index \<Rightarrow> set_index" where
  "idx_add k x m =
     (case map_of m k of
        None \<Rightarrow> AList.update k [x] m
      | Some xs \<Rightarrow> AList.update k (List.insert x xs) m)"

definition idx_del :: "bytes \<Rightarrow> bytes \<Rightarrow> set_index \<Rightarrow> set_index" where
  "idx_del k x m =
     (case map_of m k of
        None \<Rightarrow> m
      | Some xs \<Rightarrow>
          let xs = removeAll x xs
          in if xs = [] then AList.delete k m else AList.update k xs m)"

definition idx_mem :: "set_index \<Rightarrow> bytes \<Rightarrow> bytes \<Rightarrow> bool" where
  "idx_mem m k x = (case map_of m k of None \<Rightarrow> False | Some xs \<Rightarrow> x \<in> set xs)"

definition idx_members :: "set_index \<Rightarrow> bytes \<Rightarrow> bytes list" where
  "idx_members m k = (case map_of m k of None \<Rightarrow> [] | Some xs \<Rightarrow> xs)"

definition idx_ok :: "set_index \<Rightarrow> bool" where
  "idx_ok m \<longleftrightarrow> distinct (map fst m) \<and> (\<forall>k xs. map_of m k = Some xs \<longrightarrow> xs \<noteq> [] \<and> distinct xs)"

lemma idx_mem_members: "idx_mem m k x \<longleftrightarrow> x \<in> set (idx_members m k)"
  by (simp add: idx_mem_def idx_members_def split: option.splits)

lemma idx_mem_Nil [simp]: "\<not> idx_mem [] k x"
  by (simp add: idx_mem_def)

lemma idx_ok_Nil [simp]: "idx_ok []"
  by (simp add: idx_ok_def)

lemma idx_mem_add [simp]: "idx_mem (idx_add k x m) k' x' \<longleftrightarrow> (k' = k \<and> x' = x) \<or> idx_mem m k' x'"
  by (auto simp: idx_mem_def idx_add_def split: option.splits)

lemma removeAll_eq_Nil: "removeAll x xs = [] \<longleftrightarrow> set xs \<subseteq> {x}"
  by (induction xs) auto

lemma idx_mem_del [simp]: "idx_mem (idx_del k x m) k' x' \<longleftrightarrow> idx_mem m k' x' \<and> \<not> (k' = k \<and> x' = x)"
  by (auto simp: idx_mem_def idx_del_def Let_def removeAll_eq_Nil split: option.splits)

lemma idx_ok_update: "idx_ok m \<Longrightarrow> xs \<noteq> [] \<Longrightarrow> distinct xs \<Longrightarrow> idx_ok (AList.update k xs m)"
  unfolding idx_ok_def by (simp del: map_of_eq_Some_iff)

lemma idx_ok_delete: "idx_ok m \<Longrightarrow> idx_ok (AList.delete k m)"
  unfolding idx_ok_def by (simp del: map_of_eq_Some_iff)

lemma idx_ok_lookup: "idx_ok m \<Longrightarrow> map_of m k = Some xs \<Longrightarrow> xs \<noteq> [] \<and> distinct xs"
  by (simp add: idx_ok_def del: map_of_eq_Some_iff)

lemma idx_ok_add: "idx_ok m \<Longrightarrow> idx_ok (idx_add k x m)"
proof (cases "map_of m k")
  case (Some xs)
  assume "idx_ok m"
  with idx_ok_lookup [OF this Some] Some show ?thesis by (simp add: idx_add_def idx_ok_update List.insert_def)
qed (simp add: idx_add_def idx_ok_update)

lemma idx_ok_del: "idx_ok m \<Longrightarrow> idx_ok (idx_del k x m)"
proof (cases "map_of m k")
  case (Some xs)
  assume "idx_ok m"
  with idx_ok_lookup [OF this Some] Some show ?thesis
    by (simp add: idx_del_def Let_def idx_ok_update idx_ok_delete distinct_removeAll)
qed (simp add: idx_del_def)

lemma idx_members_add:
  "idx_members (idx_add k x m) k' = (if k' = k then List.insert x (idx_members m k) else idx_members m k')"
  by (auto simp: idx_members_def idx_add_def split: option.splits)

lemma idx_members_del:
  "idx_members (idx_del k x m) k' = (if k' = k then removeAll x (idx_members m k) else idx_members m k')"
  by (auto simp: idx_members_def idx_del_def Let_def split: option.splits)

lemma idx_members_distinct: "idx_ok m \<Longrightarrow> distinct (idx_members m k)"
proof (cases "map_of m k")
  case (Some xs)
  assume "idx_ok m"
  from idx_ok_lookup [OF this Some] Some show ?thesis by (simp add: idx_members_def)
qed (simp add: idx_members_def)

text \<open>Adding one member under each of several keys, and removing it.\<close>

definition idx_add_all :: "bytes list \<Rightarrow> bytes \<Rightarrow> set_index \<Rightarrow> set_index" where
  "idx_add_all ks x m = fold (\<lambda>k. idx_add k x) ks m"

definition idx_del_all :: "bytes list \<Rightarrow> bytes \<Rightarrow> set_index \<Rightarrow> set_index" where
  "idx_del_all ks x m = fold (\<lambda>k. idx_del k x) ks m"

lemma idx_mem_add_all [simp]: "idx_mem (idx_add_all ks x m) k' x' \<longleftrightarrow> (k' \<in> set ks \<and> x' = x) \<or> idx_mem m k' x'"
  unfolding idx_add_all_def by (induction ks arbitrary: m) auto

lemma idx_mem_del_all [simp]: "idx_mem (idx_del_all ks x m) k' x' \<longleftrightarrow> idx_mem m k' x' \<and> \<not> (k' \<in> set ks \<and> x' = x)"
  unfolding idx_del_all_def by (induction ks arbitrary: m) auto

lemma idx_ok_add_all: "idx_ok m \<Longrightarrow> idx_ok (idx_add_all ks x m)"
  unfolding idx_add_all_def by (induction ks arbitrary: m) (auto intro: idx_ok_add)

lemma idx_ok_del_all: "idx_ok m \<Longrightarrow> idx_ok (idx_del_all ks x m)"
  unfolding idx_del_all_def by (induction ks arbitrary: m) (auto intro: idx_ok_del)

lemmas idx_ok_intros = idx_ok_add idx_ok_del idx_ok_add_all idx_ok_del_all

end
