(* ===== verification/Lock_Manager_Enhanced.thy ===== *)
theory Lock_Manager_Enhanced
  imports Lock_Manager Go_Index
begin

text \<open>
  The lock manager of \<open>internal/lockmanager/lockmanager_enhanced.go\<close>: the table of locks with an index
  of the paths per agent, a limit per agent, waiting requests, and goroutines that retry the storage. As in
  \<open>Lock_Manager\<close> the started goroutines are tasks. Metrics, logging and the sleeps between retries are
  left out.

  \<open>AcquireLock\<close> may wait. What the rest of the system does to the manager while the caller waits, and
  what ends the wait, is an argument: a function from the state in which the request is registered to the
  state at the end of the wait and the result that was received (or the cancellation).
\<close>

record EnhancedConfig =
  ec_DefaultTTL :: duration
  ec_CleanupInterval :: duration
  ec_MaxLocksPerAgent :: int
  ec_AcquisitionTimeout :: duration
  ec_MaxRetries :: int

definition DefaultEnhancedConfig :: EnhancedConfig where
  "DefaultEnhancedConfig = \<lparr>ec_DefaultTTL = Minute, ec_CleanupInterval = Minute, ec_MaxLocksPerAgent = 100,
     ec_AcquisitionTimeout = 5 * Second, ec_MaxRetries = 3\<rparr>"

datatype em_error =
    MaxLocksReached int
  | ResourceLocked bytes bytes gotime
  | AcquisitionTimedOut bytes
  | ContextCancelled
  | EmHeldByOther
  | EmLockIdMismatch
  | EmNotFound bytes
  | EmExpired bytes
  | EmAcquireFailed bytes em_error

text \<open>A \<open>lockResult\<close> is an error, a lock, or (both nil) the signal that the lock is free.\<close>

datatype lockResult = LockAvailable | LockResult "(em_error, LockHandle) outcome"

text \<open>\<open>wr_id\<close> identifies the request object, \<open>wr_resultCh\<close> is its result channel of capacity one.\<close>

record waitingRequest =
  wr_id :: nat
  wr_resourcePath :: bytes
  wr_agentID :: bytes
  wr_ttl :: duration
  wr_deadline :: gotime

datatype em_task =
    EmPersist AcquireLockRequest bytes
  | EmUndo bytes bytes bytes
  | EmExtendStored AcquireLockRequest
  | EmReleaseStored ReleaseLockRequest
  | EmNotify bytes
  | EmTryWaiting waitingRequest

record EnhancedLockManager =
  em_config :: EnhancedConfig
  em_locks :: "LockHandle gomap"
  em_agentLocks :: set_index
  em_waiting :: "waitingRequest gomap"
  em_results :: "(nat \<times> lockResult) list"
  em_tasks :: "em_task list"

definition NewEnhancedLockManager :: "EnhancedConfig \<Rightarrow> EnhancedLockManager" where
  "NewEnhancedLockManager c =
     \<lparr>em_config = c\<lparr>
        ec_DefaultTTL := (if ec_DefaultTTL c = 0 then ec_DefaultTTL DefaultEnhancedConfig else ec_DefaultTTL c),
        ec_CleanupInterval := (if ec_CleanupInterval c = 0 then ec_CleanupInterval DefaultEnhancedConfig else ec_CleanupInterval c),
        ec_MaxLocksPerAgent := (if ec_MaxLocksPerAgent c = 0 then ec_MaxLocksPerAgent DefaultEnhancedConfig else ec_MaxLocksPerAgent c),
        ec_AcquisitionTimeout := (if ec_AcquisitionTimeout c = 0 then ec_AcquisitionTimeout DefaultEnhancedConfig else ec_AcquisitionTimeout c)\<rparr>,
      em_locks = [], em_agentLocks = [], em_waiting = [], em_results = [], em_tasks = []\<rparr>"

definition em_loadLocks :: "EnhancedLockManager \<Rightarrow> EnhancedLockManager" where
  "em_loadLocks m = m\<lparr>em_locks := [], em_agentLocks := []\<rparr>"

definition em_start_task :: "em_task \<Rightarrow> EnhancedLockManager \<Rightarrow> EnhancedLockManager" where
  "em_start_task t m = m\<lparr>em_tasks := em_tasks m @ [t]\<rparr>"

text \<open>Removing a lock from the table and from the index of an agent.\<close>

definition em_drop :: "bytes \<Rightarrow> bytes \<Rightarrow> EnhancedLockManager \<Rightarrow> EnhancedLockManager" where
  "em_drop agentID path m =
     m\<lparr>em_locks := AList.delete path (em_locks m), em_agentLocks := idx_del agentID path (em_agentLocks m)\<rparr>"

subsection \<open>Cleanup\<close>

text \<open>The two critical sections of \<open>performCleanup\<close>. The agent whose index is cleaned is the one seen by the
  scan.\<close>

definition em_cleanup_scan :: "gotime \<Rightarrow> EnhancedLockManager \<Rightarrow> (bytes \<times> bytes) list" where
  "em_cleanup_scan now m =
     map (\<lambda>(path, lock). (path, lk_HolderAgent lock))
       (filter (\<lambda>(path, lock). Before (expiry lock) now) (em_locks m))"

fun em_cleanup_remove :: "gotime \<Rightarrow> (bytes \<times> bytes) list \<Rightarrow> EnhancedLockManager \<Rightarrow> EnhancedLockManager" where
  "em_cleanup_remove now [] m = m"
| "em_cleanup_remove now ((path, agentID) # expired) m =
     em_cleanup_remove now expired
       (case map_of (em_locks m) path of
          Some lock \<Rightarrow>
            if Before (expiry lock) now then em_start_task (EmNotify path) (em_drop agentID path m) else m
        | None \<Rightarrow> m)"

definition em_performCleanup :: "gotime \<Rightarrow> EnhancedLockManager \<Rightarrow> EnhancedLockManager" where
  "em_performCleanup now m = em_cleanup_remove now (em_cleanup_scan now m) m"

subsection \<open>Waiting requests\<close>

text \<open>A send to a result channel in a \<open>select\<close> with a default: dropped when the channel is full.\<close>

definition em_send :: "nat \<Rightarrow> lockResult \<Rightarrow> EnhancedLockManager \<Rightarrow> EnhancedLockManager" where
  "em_send i r m = (if i \<in> fst ` set (em_results m) then m else m\<lparr>em_results := (i, r) # em_results m\<rparr>)"

definition notifyWaitingRequests :: "bytes \<Rightarrow> EnhancedLockManager \<Rightarrow> EnhancedLockManager" where
  "notifyWaitingRequests resourcePath m =
     (case map_of (em_waiting m) resourcePath of
        None \<Rightarrow> m
      | Some req \<Rightarrow>
          em_send (wr_id req) LockAvailable (m\<lparr>em_waiting := AList.delete resourcePath (em_waiting m)\<rparr>))"

definition em_timed_out :: "gotime \<Rightarrow> EnhancedLockManager \<Rightarrow> (bytes \<times> waitingRequest) list" where
  "em_timed_out now m = filter (\<lambda>(path, req). After now (wr_deadline req)) (em_waiting m)"

definition em_try_acquire :: "gotime \<Rightarrow> EnhancedLockManager \<Rightarrow> (bytes \<times> waitingRequest) list" where
  "em_try_acquire now m =
     filter (\<lambda>(path, req). \<not> After now (wr_deadline req) \<and> map_of (em_locks m) path = None) (em_waiting m)"

definition checkWaitingRequests :: "gotime \<Rightarrow> EnhancedLockManager \<Rightarrow> EnhancedLockManager" where
  "checkWaitingRequests now m =
     (let timedOut = em_timed_out now m; tryAcquire = em_try_acquire now m;
          m = fold (\<lambda>(path, req) m.
                em_send (wr_id req) (LockResult (Err (AcquisitionTimedOut path)))
                  (m\<lparr>em_waiting := AList.delete path (em_waiting m)\<rparr>)) timedOut m
      in fold (\<lambda>(path, req) m.
           em_start_task (EmTryWaiting req) (m\<lparr>em_waiting := AList.delete path (em_waiting m)\<rparr>)) tryAcquire m)"

subsection \<open>Acquiring\<close>

definition tryAcquireLock ::
  "env \<Rightarrow> bytes \<Rightarrow> bytes \<Rightarrow> duration \<Rightarrow> EnhancedLockManager \<Rightarrow>
   (em_error, LockHandle) outcome \<times> EnhancedLockManager" where
  "tryAcquireLock E resourcePath agentID ttl m =
     (let ttl = (if ttl = 0 then ec_DefaultTTL (em_config m) else ttl);
          maxLocks = ec_MaxLocksPerAgent (em_config m);
          req = \<lparr>alr_ResourcePath = resourcePath, alr_AgentId = agentID, alr_TtlSeconds = seconds32 ttl\<rparr>;
          lock = \<lparr>lk_ResourcePath = resourcePath, lk_HolderAgent = agentID,
            lk_ExpiresAt = Some (env_now E 1 + ttl), lk_LockId = env_uuid E\<rparr>;
          fresh = (Ret lock,
            em_start_task (EmPersist req (env_uuid E))
              (m\<lparr>em_locks := AList.update resourcePath lock (em_locks m),
                 em_agentLocks := idx_add agentID resourcePath (em_agentLocks m)\<rparr>))
      in if maxLocks > 0 \<and> int (length (idx_members (em_agentLocks m) agentID)) \<ge> maxLocks
         then (Err (MaxLocksReached maxLocks), m)
         else case map_of (em_locks m) resourcePath of
           None \<Rightarrow> fresh
         | Some existingLock \<Rightarrow>
             if After (expiry existingLock) (env_now E 0)
             then if lk_HolderAgent existingLock = agentID
                  then let existingLock = existingLock\<lparr>lk_ExpiresAt := Some (env_now E 1 + ttl)\<rparr>
                       in (Ret existingLock,
                           em_start_task (EmExtendStored req)
                             (m\<lparr>em_locks := AList.update resourcePath existingLock (em_locks m)\<rparr>))
                  else (Err (ResourceLocked resourcePath (lk_HolderAgent existingLock) (expiry existingLock)), m)
             else fresh)"

datatype wait_end = Received lockResult | Cancelled

text \<open>\<open>AcquireLock\<close>: try; on contention register a waiting request (one per resource: a later one replaces an
  earlier one), wait, try again unless the result is an error. The deferred function removes the
  request if it is still registered.\<close>

definition em_unregister :: "bytes \<Rightarrow> nat \<Rightarrow> EnhancedLockManager \<Rightarrow> EnhancedLockManager" where
  "em_unregister resourcePath i m =
     (case map_of (em_waiting m) resourcePath of
        Some req \<Rightarrow> if wr_id req = i then m\<lparr>em_waiting := AList.delete resourcePath (em_waiting m)\<rparr> else m
      | None \<Rightarrow> m)"

definition emAcquireLock ::
  "(nat \<Rightarrow> EnhancedLockManager \<Rightarrow> wait_end \<times> EnhancedLockManager) \<Rightarrow> nat \<Rightarrow> env \<Rightarrow> env \<Rightarrow> bytes \<Rightarrow> bytes \<Rightarrow>
   duration \<Rightarrow> EnhancedLockManager \<Rightarrow> (em_error, LockHandle) outcome \<times> EnhancedLockManager" where
  "emAcquireLock wait i E E' resourcePath agentID ttl m =
     (case tryAcquireLock E resourcePath agentID ttl m of
        (Ret lock, m) \<Rightarrow> (Ret lock, m)
      | (Err (ResourceLocked p h x), m) \<Rightarrow>
          let waitReq = \<lparr>wr_id = i, wr_resourcePath = resourcePath, wr_agentID = agentID, wr_ttl = ttl,
                wr_deadline = env_now E 2 + ec_AcquisitionTimeout (em_config m)\<rparr>;
              m = m\<lparr>em_waiting := AList.update resourcePath waitReq (em_waiting m)\<rparr>
          in (case wait i m of
                (Received (LockResult (Err e)), m) \<Rightarrow> (Err e, em_unregister resourcePath i m)
              | (Received _, m) \<Rightarrow>
                  (case tryAcquireLock E' resourcePath agentID ttl m of
                     (r, m) \<Rightarrow> (r, em_unregister resourcePath i m))
              | (Cancelled, m) \<Rightarrow> (Err ContextCancelled, em_unregister resourcePath i m))
      | (Err e, m) \<Rightarrow> (Err e, m)
      | (Panic, m) \<Rightarrow> (Panic, m))"

definition emReleaseLock ::
  "env \<Rightarrow> bytes \<Rightarrow> bytes \<Rightarrow> bytes \<Rightarrow> EnhancedLockManager \<Rightarrow> (em_error, bool) outcome \<times> EnhancedLockManager" where
  "emReleaseLock E resourcePath agentID lockID m =
     (case map_of (em_locks m) resourcePath of
        None \<Rightarrow> (Ret False, m)
      | Some existingLock \<Rightarrow>
          if lk_HolderAgent existingLock \<noteq> agentID then (Err EmHeldByOther, m)
          else if lk_LockId existingLock \<noteq> lockID then (Err EmLockIdMismatch, m)
          else (Ret True,
                em_start_task (EmReleaseStored \<lparr>rlr_ResourcePath = resourcePath, rlr_AgentId = agentID,
                  rlr_LockId = lockID\<rparr>) (em_drop agentID resourcePath m)))"

definition emGetLock :: "gotime \<Rightarrow> bytes \<Rightarrow> EnhancedLockManager \<Rightarrow> (em_error, LockHandle) outcome" where
  "emGetLock now resourcePath m =
     (case map_of (em_locks m) resourcePath of
        None \<Rightarrow> Err (EmNotFound resourcePath)
      | Some lock \<Rightarrow> if Before (expiry lock) now then Err (EmExpired resourcePath) else Ret lock)"

text \<open>\<open>AcquireMultipleLocks\<close>, with the pairs (resource, lock id) acquired so far.\<close>

fun em_release_pairs :: "env \<Rightarrow> bytes \<Rightarrow> (bytes \<times> bytes) list \<Rightarrow> EnhancedLockManager \<Rightarrow> EnhancedLockManager" where
  "em_release_pairs E agentID [] m = m"
| "em_release_pairs E agentID ((path, lockID) # ls) m =
     em_release_pairs E agentID ls (snd (emReleaseLock E path agentID lockID m))"

fun em_acquire_loop ::
  "(nat \<Rightarrow> EnhancedLockManager \<Rightarrow> wait_end \<times> EnhancedLockManager) \<Rightarrow> (nat \<Rightarrow> env) \<Rightarrow> (nat \<Rightarrow> env) \<Rightarrow> bytes \<Rightarrow> duration \<Rightarrow>
   bytes list \<Rightarrow> (bytes \<times> LockHandle) list \<Rightarrow> EnhancedLockManager \<Rightarrow>
   (em_error, LockHandle list) outcome \<times> EnhancedLockManager" where
  "em_acquire_loop wait Es Es' agentID ttl [] locks m = (Ret (map snd locks), m)"
| "em_acquire_loop wait Es Es' agentID ttl (resource # rs) locks m =
     (let k = length locks
      in case emAcquireLock wait k (Es k) (Es' k) resource agentID ttl m of
           (Ret lock, m) \<Rightarrow> em_acquire_loop wait Es Es' agentID ttl rs (locks @ [(resource, lock)]) m
         | (Err e, m) \<Rightarrow>
             (Err (EmAcquireFailed resource e),
              em_release_pairs (Es k) agentID (map (\<lambda>(p, l). (p, lk_LockId l)) locks) m)
         | (Panic, m) \<Rightarrow> (Panic, m))"

definition emAcquireMultipleLocks ::
  "(nat \<Rightarrow> EnhancedLockManager \<Rightarrow> wait_end \<times> EnhancedLockManager) \<Rightarrow> (nat \<Rightarrow> env) \<Rightarrow> (nat \<Rightarrow> env) \<Rightarrow> bytes list \<Rightarrow>
   bytes \<Rightarrow> duration \<Rightarrow> EnhancedLockManager \<Rightarrow> (em_error, LockHandle list) outcome \<times> EnhancedLockManager" where
  "emAcquireMultipleLocks wait Es Es' resources agentID ttl m =
     (if resources = [] then (Ret [], m) else em_acquire_loop wait Es Es' agentID ttl (sort resources) [] m)"

subsection \<open>Queries and extension\<close>

definition ListLocks :: "gotime \<Rightarrow> EnhancedLockManager \<Rightarrow> LockHandle list" where
  "ListLocks now m = filter (\<lambda>lock. After (expiry lock) now) (map snd (em_locks m))"

definition GetAgentLocks :: "gotime \<Rightarrow> bytes \<Rightarrow> EnhancedLockManager \<Rightarrow> LockHandle list" where
  "GetAgentLocks now agentID m =
     filter (\<lambda>lock. After (expiry lock) now)
       (List.map_filter (\<lambda>path. map_of (em_locks m) path) (idx_members (em_agentLocks m) agentID))"

definition GetLockCount :: "gotime \<Rightarrow> EnhancedLockManager \<Rightarrow> nat" where
  "GetLockCount now m = length (filter (\<lambda>(path, lock). After (expiry lock) now) (em_locks m))"

definition ExtendLock ::
  "env \<Rightarrow> bytes \<Rightarrow> bytes \<Rightarrow> bytes \<Rightarrow> duration \<Rightarrow> EnhancedLockManager \<Rightarrow>
   (em_error, LockHandle) outcome \<times> EnhancedLockManager" where
  "ExtendLock E resourcePath agentID lockID extension m =
     (case map_of (em_locks m) resourcePath of
        None \<Rightarrow> (Err (EmNotFound resourcePath), m)
      | Some existingLock \<Rightarrow>
          if lk_HolderAgent existingLock \<noteq> agentID then (Err EmHeldByOther, m)
          else if lk_LockId existingLock \<noteq> lockID then (Err EmLockIdMismatch, m)
          else if Before (expiry existingLock) (env_now E 0) then (Err (EmExpired resourcePath), m)
          else let existingLock = existingLock\<lparr>lk_ExpiresAt := Some (env_now E 1 + extension)\<rparr>
               in (Ret existingLock,
                   em_start_task (EmExtendStored \<lparr>alr_ResourcePath = resourcePath, alr_AgentId = agentID,
                     alr_TtlSeconds = seconds32 extension\<rparr>)
                   (m\<lparr>em_locks := AList.update resourcePath existingLock (em_locks m)\<rparr>)))"

subsection \<open>Goroutines\<close>

text \<open>The retry loops: at most \<open>MaxRetries + 1\<close> calls of the storage, each with its own environment, until one
  succeeds. The result has the number of calls.\<close>

fun persist_attempts ::
  "('e, 's) StorageInterface \<Rightarrow> (nat \<Rightarrow> env) \<Rightarrow> AcquireLockRequest \<Rightarrow> nat \<Rightarrow> nat \<Rightarrow> 's \<Rightarrow> bool \<times> nat \<times> 's" where
  "persist_attempts SI Es req 0 calls s = (False, calls, s)"
| "persist_attempts SI Es req (Suc n) calls s =
     (case si_AcquireLock SI (Es calls) req s of
        (Ret _, s) \<Rightarrow> (True, Suc calls, s)
      | (_, s) \<Rightarrow> persist_attempts SI Es req n (Suc calls) s)"

fun release_attempts ::
  "('e, 's) StorageInterface \<Rightarrow> (nat \<Rightarrow> env) \<Rightarrow> ReleaseLockRequest \<Rightarrow> nat \<Rightarrow> nat \<Rightarrow> 's \<Rightarrow> bool \<times> nat \<times> 's" where
  "release_attempts SI Es req 0 calls s = (False, calls, s)"
| "release_attempts SI Es req (Suc n) calls s =
     (case si_ReleaseLock SI (Es calls) req s of
        (Ret True, s) \<Rightarrow> (True, Suc calls, s)
      | (_, s) \<Rightarrow> release_attempts SI Es req n (Suc calls) s)"

definition max_attempts :: "EnhancedLockManager \<Rightarrow> nat" where
  "max_attempts m = nat (ec_MaxRetries (em_config m) + 1)"

fun em_run_task ::
  "('e, 's) StorageInterface \<Rightarrow> (nat \<Rightarrow> env) \<Rightarrow> em_task \<Rightarrow> EnhancedLockManager \<times> 's \<Rightarrow> EnhancedLockManager \<times> 's" where
  "em_run_task SI Es (EmPersist req lockID) (m, s) =
     (case persist_attempts SI Es req (max_attempts m) 0 s of
        (True, _, s) \<Rightarrow> (m, s)
      | (False, _, s) \<Rightarrow> (em_start_task (EmUndo (alr_ResourcePath req) (alr_AgentId req) lockID) m, s))"
| "em_run_task SI Es (EmUndo resourcePath agentID lockID) (m, s) =
     (case map_of (em_locks m) resourcePath of
        Some current \<Rightarrow> (if lk_LockId current = lockID then em_drop agentID resourcePath m else m, s)
      | None \<Rightarrow> (m, s))"
| "em_run_task SI Es (EmExtendStored req) (m, s) = (m, snd (si_AcquireLock SI (Es 0) req s))"
| "em_run_task SI Es (EmReleaseStored req) (m, s) =
     (case release_attempts SI Es req (max_attempts m) 0 s of
        (_, _, s) \<Rightarrow> (notifyWaitingRequests (rlr_ResourcePath req) m, s))"
| "em_run_task SI Es (EmNotify resourcePath) (m, s) = (notifyWaitingRequests resourcePath m, s)"
| "em_run_task SI Es (EmTryWaiting req) (m, s) =
     (case tryAcquireLock (Es 0) (wr_resourcePath req) (wr_agentID req) (wr_ttl req) m of
        (r, m) \<Rightarrow> (em_send (wr_id req) (LockResult r) m, s))"

datatype em_event =
    EmEvAcquire env bytes bytes duration
  | EmEvRegister waitingRequest
  | EmEvUnregister bytes nat
  | EmEvRelease env bytes bytes bytes
  | EmEvExtend env bytes bytes bytes duration
  | EmEvRemove gotime "(bytes \<times> bytes) list"
  | EmEvCheck gotime
  | EmEvTask em_task "nat \<Rightarrow> env"

inductive em_step ::
  "('e, 's) StorageInterface \<Rightarrow> EnhancedLockManager \<times> 's \<Rightarrow> em_event \<Rightarrow> EnhancedLockManager \<times> 's \<Rightarrow> bool"
  for SI where
  acquire: "em_step SI (m, s) (EmEvAcquire E p a ttl) (snd (tryAcquireLock E p a ttl m), s)"
| register: "em_step SI (m, s) (EmEvRegister w)
     (m\<lparr>em_waiting := AList.update (wr_resourcePath w) w (em_waiting m)\<rparr>, s)"
| unregister: "em_step SI (m, s) (EmEvUnregister p i) (em_unregister p i m, s)"
| release: "em_step SI (m, s) (EmEvRelease E p a i) (snd (emReleaseLock E p a i m), s)"
| extend: "em_step SI (m, s) (EmEvExtend E p a i d) (snd (ExtendLock E p a i d m), s)"
| remove: "em_step SI (m, s) (EmEvRemove now ps) (em_cleanup_remove now ps m, s)"
| check: "em_step SI (m, s) (EmEvCheck now) (checkWaitingRequests now m, s)"
| task: "em_tasks m = xs @ t # ys \<Longrightarrow>
     em_step SI (m, s) (EmEvTask t Es) (em_run_task SI Es t (m\<lparr>em_tasks := xs @ ys\<rparr>, s))"

inductive em_reachable :: "('e, 's) StorageInterface \<Rightarrow> EnhancedLockManager \<times> 's \<Rightarrow> bool" for SI where
  init: "em_reachable SI (NewEnhancedLockManager c, s)"
| step: "em_reachable SI x \<Longrightarrow> em_step SI x ev y \<Longrightarrow> em_reachable SI y"


subsection \<open>The invariant\<close>

text \<open>Every lock is indexed under its holder, and no index exceeds the limit. The converse of the first part does not
  hold: an expired lock that is taken over stays indexed under its old holder.\<close>

definition em_inv :: "EnhancedLockManager \<Rightarrow> bool" where
  "em_inv m \<longleftrightarrow> keyed lk_ResourcePath (em_locks m) \<and> idx_ok (em_agentLocks m) \<and>
     (\<forall>p l. map_of (em_locks m) p = Some l \<longrightarrow> idx_mem (em_agentLocks m) (lk_HolderAgent l) p) \<and>
     (0 < ec_MaxLocksPerAgent (em_config m) \<longrightarrow>
        (\<forall>a. int (length (idx_members (em_agentLocks m) a)) \<le> ec_MaxLocksPerAgent (em_config m)))"

lemma em_inv_cong:
  "em_config m' = em_config m \<Longrightarrow> em_locks m' = em_locks m \<Longrightarrow> em_agentLocks m' = em_agentLocks m \<Longrightarrow> em_inv m' \<longleftrightarrow> em_inv m"
  by (simp add: em_inv_def)

lemma em_frame [simp]:
  "em_config (em_start_task t m) = em_config m" "em_locks (em_start_task t m) = em_locks m"
  "em_agentLocks (em_start_task t m) = em_agentLocks m" "em_waiting (em_start_task t m) = em_waiting m"
  "em_config (em_send i r m) = em_config m" "em_locks (em_send i r m) = em_locks m" "em_agentLocks (em_send i r m) = em_agentLocks m"
  "em_config (notifyWaitingRequests p m) = em_config m" "em_locks (notifyWaitingRequests p m) = em_locks m"
  "em_agentLocks (notifyWaitingRequests p m) = em_agentLocks m"
  "em_config (em_unregister p i m) = em_config m" "em_locks (em_unregister p i m) = em_locks m"
  "em_agentLocks (em_unregister p i m) = em_agentLocks m"
  by (simp_all add: em_start_task_def em_send_def notifyWaitingRequests_def em_unregister_def split: option.splits)

lemma em_fold_frame:
  assumes "\<And>x m. em_config (f x m) = em_config m \<and> em_locks (f x m) = em_locks m \<and> em_agentLocks (f x m) = em_agentLocks m"
  shows "em_config (fold f xs m) = em_config m \<and> em_locks (fold f xs m) = em_locks m \<and>
    em_agentLocks (fold f xs m) = em_agentLocks m"
  using assms by (induction xs arbitrary: m) auto

lemma checkWaitingRequests_frame [simp]:
  "em_config (checkWaitingRequests now m) = em_config m" "em_locks (checkWaitingRequests now m) = em_locks m"
  "em_agentLocks (checkWaitingRequests now m) = em_agentLocks m"
proof -
  let ?f = "\<lambda>(path, req) m. em_send (wr_id req) (LockResult (Err (AcquisitionTimedOut path)))
                  (m\<lparr>em_waiting := AList.delete path (em_waiting m)\<rparr>)"
  let ?g = "\<lambda>(path, req) m. em_start_task (EmTryWaiting req) (m\<lparr>em_waiting := AList.delete path (em_waiting m)\<rparr>)"
  have "em_config (fold ?f xs m) = em_config m \<and> em_locks (fold ?f xs m) = em_locks m \<and> em_agentLocks (fold ?f xs m) = em_agentLocks m"
    "em_config (fold ?g xs m) = em_config m \<and> em_locks (fold ?g xs m) = em_locks m \<and> em_agentLocks (fold ?g xs m) = em_agentLocks m"
    for xs m by (rule em_fold_frame; auto)+
  then show "em_config (checkWaitingRequests now m) = em_config m" "em_locks (checkWaitingRequests now m) = em_locks m"
    "em_agentLocks (checkWaitingRequests now m) = em_agentLocks m"
    by (simp_all add: checkWaitingRequests_def Let_def)
qed

lemma em_inv_simps [simp]:
  "em_inv (em_start_task t m) \<longleftrightarrow> em_inv m" "em_inv (em_send i r m) \<longleftrightarrow> em_inv m"
  "em_inv (notifyWaitingRequests p m) \<longleftrightarrow> em_inv m" "em_inv (em_unregister p i m) \<longleftrightarrow> em_inv m"
  "em_inv (checkWaitingRequests now m) \<longleftrightarrow> em_inv m" "em_inv (m\<lparr>em_tasks := ts\<rparr>) \<longleftrightarrow> em_inv m"
  "em_inv (m\<lparr>em_waiting := w\<rparr>) \<longleftrightarrow> em_inv m"
  by (rule em_inv_cong; simp)+

lemma em_limit_del:
  "0 < mx \<longrightarrow> (\<forall>a. int (length (idx_members x a)) \<le> mx) \<Longrightarrow> 0 < mx \<longrightarrow> (\<forall>b. int (length (idx_members (idx_del a p x) b)) \<le> mx)"
proof (intro impI allI)
  fix b
  assume "0 < mx \<longrightarrow> (\<forall>a. int (length (idx_members x a)) \<le> mx)" "0 < mx"
  then have "int (length (idx_members x b)) \<le> mx" by blast
  moreover have "length (removeAll p (idx_members x b)) \<le> length (idx_members x b)" by simp
  ultimately have "int (length (removeAll p (idx_members x b))) \<le> mx" by linarith
  then show "int (length (idx_members (idx_del a p x) b)) \<le> mx"
    using \<open>int (length (idx_members x b)) \<le> mx\<close> by (auto simp: idx_members_del)
qed

lemma em_inv_drop: "em_inv m \<Longrightarrow> em_inv (em_drop a p m)"
  unfolding em_inv_def em_drop_def by (auto simp: idx_ok_del em_limit_del)

text \<open>Replacing a lock by one of the same holder, and adding a lock with its index entry.\<close>

lemma em_inv_replace:
  assumes "em_inv m" and "map_of (em_locks m) p = Some l" and "lk_ResourcePath l' = lk_ResourcePath l"
    and "lk_HolderAgent l' = lk_HolderAgent l"
  shows "em_inv (m\<lparr>em_locks := AList.update p l' (em_locks m)\<rparr>)"
  using assms keyed_lookup [of lk_ResourcePath "em_locks m" p l] unfolding em_inv_def by auto

lemma em_inv_add:
  assumes "em_inv m" and "lk_ResourcePath l = p" and "lk_HolderAgent l = a"
    and "0 < ec_MaxLocksPerAgent (em_config m) \<Longrightarrow>
      int (length (idx_members (em_agentLocks m) a)) < ec_MaxLocksPerAgent (em_config m)"
  shows "em_inv (m\<lparr>em_locks := AList.update p l (em_locks m), em_agentLocks := idx_add a p (em_agentLocks m)\<rparr>)"
  using assms unfolding em_inv_def by (auto simp: idx_ok_add idx_members_add List.insert_def)

lemma em_inv_tryAcquire: "em_inv m \<Longrightarrow> em_inv (snd (tryAcquireLock E p a ttl m))"
  unfolding tryAcquireLock_def Let_def
  by (auto split: option.splits intro!: em_inv_add em_inv_replace)

lemma em_inv_release: "em_inv m \<Longrightarrow> em_inv (snd (emReleaseLock E p a i m))"
  by (auto simp: emReleaseLock_def em_inv_drop split: option.splits)

lemma em_inv_extend: "em_inv m \<Longrightarrow> em_inv (snd (ExtendLock E p a i d m))"
  unfolding ExtendLock_def Let_def
  by (auto split: option.splits intro!: em_inv_replace)

lemma em_inv_cleanup: "em_inv m \<Longrightarrow> em_inv (em_cleanup_remove now ps m)"
  by (induction now ps m rule: em_cleanup_remove.induct)
    (auto simp: em_inv_drop split: option.splits)

lemma em_inv_task: "em_inv m \<Longrightarrow> em_inv (fst (em_run_task SI Es t (m, s)))"
proof (cases t)
  case (EmTryWaiting req)
  assume "em_inv m"
  then have "em_inv (snd (tryAcquireLock (Es 0) (wr_resourcePath req) (wr_agentID req) (wr_ttl req) m))"
    by (rule em_inv_tryAcquire)
  then show ?thesis using EmTryWaiting by (auto split: prod.splits)
qed (auto simp: em_inv_drop split: prod.splits bool.splits option.splits)

lemmas em_inv_intros = em_inv_tryAcquire em_inv_release em_inv_extend em_inv_cleanup em_inv_task

lemma em_inv_step: "em_step SI x ev y \<Longrightarrow> em_inv (fst x) \<Longrightarrow> em_inv (fst y)"
  by (induction rule: em_step.induct) (auto intro: em_inv_intros)

lemma em_inv_new: "em_inv (NewEnhancedLockManager c)"
  by (simp add: em_inv_def NewEnhancedLockManager_def idx_members_def)

lemma em_reachable_inv: "em_reachable SI x \<Longrightarrow> em_inv (fst x)"
proof (induction rule: em_reachable.induct)
  case (step x ev y)
  then show ?case by (blast intro: em_inv_step)
qed (simp add: em_inv_new)

text \<open>The locks an agent holds are among its indexed paths.\<close>

lemma em_held_bound:
  assumes "em_inv m"
  shows "card {p. \<exists>l. map_of (em_locks m) p = Some l \<and> lk_HolderAgent l = a} \<le> length (idx_members (em_agentLocks m) a)"
proof -
  have "{p. \<exists>l. map_of (em_locks m) p = Some l \<and> lk_HolderAgent l = a} \<subseteq> set (idx_members (em_agentLocks m) a)"
    using assms by (auto simp: em_inv_def simp flip: idx_mem_members simp del: map_of_eq_Some_iff)
  then have "card {p. \<exists>l. map_of (em_locks m) p = Some l \<and> lk_HolderAgent l = a} \<le> card (set (idx_members (em_agentLocks m) a))"
    by (intro card_mono) auto
  also have "\<dots> \<le> length (idx_members (em_agentLocks m) a)" by (rule card_length)
  finally show ?thesis .
qed


subsection \<open>The enhanced manager as a lock service\<close>

lemma tryAcquireLock_Ret:
  assumes "em_inv m" and "tryAcquireLock E p a ttl m = (Ret l, m')"
  shows "map_of (em_locks m') = (map_of (em_locks m))(p \<mapsto> l)" and "lk_HolderAgent l = a" and "lk_ResourcePath l = p"
    and "expiry l = env_now E 1 + (if ttl = 0 then ec_DefaultTTL (em_config m) else ttl)"
  using assms keyed_lookup [of lk_ResourcePath "em_locks m" p]
  by (auto simp: em_inv_def tryAcquireLock_def Let_def split: option.splits if_splits)

lemma tryAcquireLock_Err: "tryAcquireLock E p a ttl m = (r, m') \<Longrightarrow> (\<And>l. r \<noteq> Ret l) \<Longrightarrow> m' = m \<and> (\<exists>e. r = Err e)"
  by (auto simp: tryAcquireLock_def Let_def split: option.splits if_splits)

lemma tryAcquireLock_elsewhere:
  "q \<noteq> p \<Longrightarrow> map_of (em_locks (snd (tryAcquireLock E q a ttl m))) p = map_of (em_locks m) p"
  by (auto simp: tryAcquireLock_def Let_def split: option.splits)

lemma emReleaseLock_at:
  "map_of (em_locks (snd (emReleaseLock E q a i m))) p =
   (case map_of (em_locks m) p of
      None \<Rightarrow> None
    | Some c \<Rightarrow> if p = q \<and> lk_HolderAgent c = a \<and> lk_LockId c = i then None else Some c)"
  by (cases "p = q") (auto simp: emReleaseLock_def em_drop_def split: option.splits)

interpretation enhanced_locks:
  lock_service "\<lambda>m. map_of (em_locks m)" "\<lambda>m p. em_inv m" "\<lambda>_. True" tryAcquireLock emReleaseLock
proof
  fix m p l a ttl and E :: env
  assume "em_inv m" "map_of (em_locks m) p = Some l" "lk_HolderAgent l \<noteq> a" "live (env_now E 0) l"
  then show "\<exists>e m'. tryAcquireLock E p a ttl m = (Err e, m') \<and> em_inv m' \<and> map_of (em_locks m') p = map_of (em_locks m) p"
    by (simp add: tryAcquireLock_def Let_def)
next
  fix m p q a ttl r m' and E :: env
  assume "em_inv m" "q \<noteq> p" "tryAcquireLock E q a ttl m = (r, m')"
  then show "em_inv m' \<and> map_of (em_locks m') p = map_of (em_locks m) p"
    using em_inv_tryAcquire [of m E q a ttl] tryAcquireLock_elsewhere [of q p E a ttl m] by simp
next
  fix m p a ttl l m' and E :: env
  assume *: "em_inv m" "tryAcquireLock E p a ttl m = (Ret l, m')"
  then show "em_inv m' \<and> map_of (em_locks m') p = Some l \<and> lk_HolderAgent l = a \<and> lk_ResourcePath l = p"
    using em_inv_tryAcquire [of m E p a ttl] tryAcquireLock_Ret [OF *] by simp
next
  fix m p l a i and E :: env
  assume "em_inv m" "map_of (em_locks m) p = Some l" "lk_HolderAgent l \<noteq> a"
  then show "\<exists>e m'. emReleaseLock E p a i m = (Err e, m') \<and> em_inv m' \<and> map_of (em_locks m') p = map_of (em_locks m) p"
    by (simp add: emReleaseLock_def)
next
  fix m p q a i x m' and E :: env
  assume "em_inv m" "q \<noteq> p" "emReleaseLock E q a i m = (x, m')"
  then show "em_inv m' \<and> map_of (em_locks m') p = map_of (em_locks m) p"
    using em_inv_release [of m E q a i] emReleaseLock_at [of E q a i m p] by (auto split: option.splits)
qed

subsection \<open>Properties\<close>

definition em0 :: "int \<Rightarrow> EnhancedLockManager" where
  "em0 n = NewEnhancedLockManager (DefaultEnhancedConfig\<lparr>ec_MaxLocksPerAgent := n\<rparr>)"

lemma em0_inv: "em_inv (em0 n)"
  by (simp add: em0_def em_inv_new)

lemmas em_eval = em0_def NewEnhancedLockManager_def DefaultEnhancedConfig_def lm_env_def tryAcquireLock_def Let_def
  em_start_task_def idx_members_def idx_add_def

text \<open>C10. The limit per agent. In every reachable state of an enhanced manager with a positive limit, under any schedule of calls,
  cleanups, waiting requests and goroutines, no agent holds more locks than \<open>MaxLocksPerAgent\<close>.\<close>

theorem enhanced_limit:
  assumes "em_reachable SI (m, s)" and "0 < ec_MaxLocksPerAgent (em_config m)"
  shows "int (card {p. \<exists>l. map_of (em_locks m) p = Some l \<and> lk_HolderAgent l = a}) \<le> ec_MaxLocksPerAgent (em_config m)"
proof -
  have inv: "em_inv m" using em_reachable_inv [OF assms(1)] by simp
  then have "int (length (idx_members (em_agentLocks m) a)) \<le> ec_MaxLocksPerAgent (em_config m)"
    using assms(2) by (simp add: em_inv_def)
  with em_held_bound [OF inv, of a] show ?thesis by linarith
qed

theorem enhanced_limit_witness:
  "\<exists>m. em_reachable si_accept (m, ()) \<and> em_locks m \<noteq> [] \<and>
     int (card {p. \<exists>l. map_of (em_locks m) p = Some l \<and> lk_HolderAgent l = ''a''}) \<le> 1"
proof -
  let ?m = "snd (tryAcquireLock (lm_env 0 ''u'') ''p'' ''a'' 0 (em0 1))"
  have "em_reachable si_accept (em0 1, ())" unfolding em0_def by (rule em_reachable.init)
  then have reach: "em_reachable si_accept (?m, ())" by (rule em_reachable.step) (rule em_step.acquire)
  have "em_locks ?m \<noteq> []" "ec_MaxLocksPerAgent (em_config ?m) = 1" by (simp_all add: em_eval)
  with enhanced_limit [OF reach, of "''a''"] reach show ?thesis by (intro exI [of _ ?m]) simp
qed

definition basic_of :: "EnhancedLockManager \<Rightarrow> LockManager" where
  "basic_of m = \<lparr>lm_DefaultTTL = ec_DefaultTTL (em_config m), lm_CleanupInterval = ec_CleanupInterval (em_config m),
     lm_locks = em_locks m, lm_tasks = []\<rparr>"

fun lock_of :: "('e, 'a) outcome \<Rightarrow> 'a option" where
  "lock_of (Ret l) = Some l"
| "lock_of _ = None"

text \<open>C11. The enhanced manager refines the basic one. When the agent is below its limit, \<open>tryAcquireLock\<close> returns the same lock and makes the
  same change to the table of locks as the basic manager's \<open>AcquireLock\<close> on the same table; it refuses exactly when that
  one refuses. The two release operations agree as well.\<close>

theorem enhanced_refines_basic:
  assumes "ec_MaxLocksPerAgent (em_config m) \<le> 0 \<or>
    int (length (idx_members (em_agentLocks m) a)) < ec_MaxLocksPerAgent (em_config m)"
  shows "lock_of (fst (tryAcquireLock E p a ttl m)) = lock_of (fst (lmAcquireLock E p a ttl (basic_of m))) \<and>
     em_locks (snd (tryAcquireLock E p a ttl m)) = lm_locks (snd (lmAcquireLock E p a ttl (basic_of m))) \<and>
     lock_of (fst (emReleaseLock E p a i m)) = lock_of (fst (lmReleaseLock E p a i (basic_of m))) \<and>
     em_locks (snd (emReleaseLock E p a i m)) = lm_locks (snd (lmReleaseLock E p a i (basic_of m)))"
  using assms
  by (auto simp: tryAcquireLock_def lmAcquireLock_def emReleaseLock_def lmReleaseLock_def basic_of_def em_drop_def Let_def
      split: option.splits)

theorem enhanced_refines_basic_witness:
  "em_locks (snd (tryAcquireLock (lm_env 0 ''u'') ''p'' ''a'' 0 (em0 5))) =
     lm_locks (snd (lmAcquireLock (lm_env 0 ''u'') ''p'' ''a'' 0 (basic_of (em0 5)))) \<and>
   em_locks (snd (tryAcquireLock (lm_env 0 ''u'') ''p'' ''a'' 0 (em0 5))) \<noteq> []"
proof
  have "int (length (idx_members (em_agentLocks (em0 5)) ''a'')) < ec_MaxLocksPerAgent (em_config (em0 5))"
    by (simp add: em_eval)
  then show "em_locks (snd (tryAcquireLock (lm_env 0 ''u'') ''p'' ''a'' 0 (em0 5))) =
     lm_locks (snd (lmAcquireLock (lm_env 0 ''u'') ''p'' ''a'' 0 (basic_of (em0 5))))"
    using enhanced_refines_basic by blast
  show "em_locks (snd (tryAcquireLock (lm_env 0 ''u'') ''p'' ''a'' 0 (em0 5))) \<noteq> []" by (simp add: em_eval)
qed

text \<open>A lock returned by \<open>AcquireLock\<close> is held. Whatever happens to the manager while the caller waits, as long as it keeps the
  manager's invariant: when \<open>AcquireLock\<close> returns a lock, the table holds that lock for that path and that agent.\<close>

lemma enhanced_acquire_held:
  assumes "em_inv m" and "\<And>i m. em_inv m \<Longrightarrow> em_inv (snd (wait i m))"
    and "emAcquireLock wait i E E' p a ttl m = (Ret l, m')"
  shows "em_inv m' \<and> map_of (em_locks m') p = Some l \<and> lk_HolderAgent l = a \<and> lk_ResourcePath l = p"
proof -
  obtain r1 m1 where att: "tryAcquireLock E p a ttl m = (r1, m1)" by (cases "tryAcquireLock E p a ttl m")
  have inv1: "em_inv m1" using em_inv_tryAcquire [OF assms(1), of E p a ttl] att by simp
  consider (now) "r1 = Ret l" "m' = m1"
    | (later) i' m2 m3 where "em_inv m2" "tryAcquireLock E' p a ttl m2 = (Ret l, m3)" "m' = em_unregister p i' m3"
  proof (cases r1)
    case (Ret x)
    then show ?thesis using assms(3) att now by (simp add: emAcquireLock_def)
  next
    case (Err e)
    let ?w = "\<lparr>wr_id = i, wr_resourcePath = p, wr_agentID = a, wr_ttl = ttl,
                wr_deadline = env_now E 2 + ec_AcquisitionTimeout (em_config m1)\<rparr>"
    obtain x m2 where w: "wait i (m1\<lparr>em_waiting := AList.update p ?w (em_waiting m1)\<rparr>) = (x, m2)"
      by (cases "wait i (m1\<lparr>em_waiting := AList.update p ?w (em_waiting m1)\<rparr>)")
    have inv2: "em_inv m2" using assms(2) [of "m1\<lparr>em_waiting := AList.update p ?w (em_waiting m1)\<rparr>" i] inv1 w by simp
    obtain r3 m3 where att': "tryAcquireLock E' p a ttl m2 = (r3, m3)" by (cases "tryAcquireLock E' p a ttl m2")
    have "r3 = Ret l \<and> m' = em_unregister p i m3"
      using assms(3) att Err w att'
      by (auto simp: emAcquireLock_def Let_def split: em_error.splits wait_end.splits lockResult.splits outcome.splits)
    then show ?thesis using later [OF inv2] att' by blast
  next
    case Panic
    then show ?thesis using tryAcquireLock_Err [OF att] by simp
  qed
  then show ?thesis
  proof cases
    case now
    then show ?thesis using inv1 tryAcquireLock_Ret [OF assms(1) att [unfolded now(1)]] by simp
  next
    case (later i' m2 m3)
    have "em_inv m3" using em_inv_tryAcquire [OF later(1), of E' p a ttl] later(2) by simp
    then show ?thesis using tryAcquireLock_Ret [OF later(1,2)] later(3) by simp
  qed
qed


theorem enhanced_acquire_held_witness:
  "\<exists>l m'. emAcquireLock (\<lambda>i m. (Received LockAvailable, m)) 0 (lm_env 0 ''u'') (lm_env (2 * Minute) ''v'') ''p'' ''b'' 0
      (snd (tryAcquireLock (lm_env 0 ''w'') ''p'' ''a'' 0 (em0 5))) = (Ret l, m') \<and>
     map_of (em_locks m') ''p'' = Some l \<and> lk_HolderAgent l = ''b''"
proof -
  let ?m = "snd (tryAcquireLock (lm_env 0 ''w'') ''p'' ''a'' 0 (em0 5))"
  have inv: "em_inv ?m" by (rule em_inv_tryAcquire [OF em0_inv])
  obtain l m' where run: "emAcquireLock (\<lambda>i m. (Received LockAvailable, m)) 0 (lm_env 0 ''u'') (lm_env (2 * Minute) ''v'') ''p'' ''b'' 0 ?m = (Ret l, m')"
    by (simp add: emAcquireLock_def em_eval)
  with enhanced_acquire_held [OF inv _ run] show ?thesis by simp
qed

fun acquire_fails :: "('e, 's) StorageInterface \<Rightarrow> (nat \<Rightarrow> env) \<Rightarrow> AcquireLockRequest \<Rightarrow> nat \<Rightarrow> nat \<Rightarrow> 's \<Rightarrow> bool" where
  "acquire_fails SI Es req 0 i s = True"
| "acquire_fails SI Es req (Suc n) i s =
     ((\<forall>l. fst (si_AcquireLock SI (Es i) req s) \<noteq> Ret l) \<and>
      acquire_fails SI Es req n (Suc i) (snd (si_AcquireLock SI (Es i) req s)))"

lemma persist_attempts_spec:
  "persist_attempts SI Es req n calls s = (b, k, s') \<Longrightarrow>
   calls \<le> k \<and> k \<le> calls + n \<and> (\<not> b \<longleftrightarrow> acquire_fails SI Es req n calls s) \<and> (\<not> b \<longrightarrow> k = calls + n)"
proof (induction SI Es req n calls s arbitrary: b k s' rule: persist_attempts.induct)
  case (2 SI Es req n calls s)
  obtain r s1 where r: "si_AcquireLock SI (Es calls) req s = (r, s1)" by (cases "si_AcquireLock SI (Es calls) req s")
  show ?case
  proof (cases r)
    case (Ret l)
    with "2.prems" r show ?thesis by auto
  next
    case (Err e)
    with "2.IH" "2.prems" r show ?thesis by fastforce
  next
    case Panic
    with "2.IH" "2.prems" r show ?thesis by fastforce
  qed
qed simp

text \<open>Persisting a lock is retried a bounded number of times: the goroutine calls the storage at most \<open>MaxRetries + 1\<close> times and stops at the
  first success; it reports failure only when every call failed, and then the task that undoes the lock in memory is started.\<close>

lemma enhanced_persist_bounded:
  assumes "persist_attempts SI Es req (max_attempts m) 0 s = (b, k, s')"
  shows "k \<le> nat (ec_MaxRetries (em_config m) + 1) \<and>
     (\<not> b \<longleftrightarrow> acquire_fails SI Es req (nat (ec_MaxRetries (em_config m) + 1)) 0 s) \<and>
     em_run_task SI Es (EmPersist req lockID) (m, s) =
       (if b then m else em_start_task (EmUndo (alr_ResourcePath req) (alr_AgentId req) lockID) m, s')"
  using persist_attempts_spec [OF assms] assms by (cases b) (simp_all add: max_attempts_def)

definition si_refuse :: "(unit, nat) StorageInterface" where
  "si_refuse = \<lparr>si_AcquireLock = (\<lambda>E req s. (Err (), Suc s)), si_ReleaseLock = (\<lambda>E req s. (Err (), s))\<rparr>"

theorem enhanced_persist_bounded_witness:
  "\<exists>k. persist_attempts si_refuse (\<lambda>_. lm_env 0 ''u'') \<lparr>alr_ResourcePath = ''p'', alr_AgentId = ''a'', alr_TtlSeconds = 1\<rparr>
        (max_attempts (em0 5)) 0 0 = (False, k, 4) \<and> k \<le> nat (ec_MaxRetries (em_config (em0 5)) + 1)"
proof -
  let ?req = "\<lparr>alr_ResourcePath = ''p'', alr_AgentId = ''a'', alr_TtlSeconds = 1\<rparr>"
  have "max_attempts (em0 5) = Suc (Suc (Suc (Suc 0)))"
    by (simp add: max_attempts_def em_eval)
  then have run: "persist_attempts si_refuse (\<lambda>_. lm_env 0 ''u'') ?req (max_attempts (em0 5)) 0 0 = (False, 4, 4)"
    by (simp add: si_refuse_def)
  from enhanced_persist_bounded [OF run] run show ?thesis by blast
qed

text \<open>C12. A release wakes the waiter. When an agent waits for a lock and its holder releases it, then after the release and the goroutine it starts
  (whatever the storage answers) the waiting request is off the list and its result channel holds the signal that the
  lock is available; and unless another agent came first, the waiter, if below its limit, then gets the lock.\<close>

theorem enhanced_release_wakes_waiter:
  assumes "map_of (em_locks m) p = Some l" and "lk_HolderAgent l = h" and "lk_LockId l = i"
    and "map_of (em_waiting m) p = Some w" and "wr_id w \<notin> fst ` set (em_results m)"
    and "emReleaseLock E p h i m = (r, m1)"
    and "em_run_task SI Es (EmReleaseStored \<lparr>rlr_ResourcePath = p, rlr_AgentId = h, rlr_LockId = i\<rparr>) (m1, s) = (m2, s')"
  shows "r = Ret True \<and> map_of (em_waiting m2) p = None \<and> map_of (em_results m2) (wr_id w) = Some LockAvailable \<and>
     (ec_MaxLocksPerAgent (em_config m) \<le> 0 \<or>
        int (length (idx_members (em_agentLocks m2) (wr_agentID w))) < ec_MaxLocksPerAgent (em_config m) \<longrightarrow>
      (\<exists>l' m3. tryAcquireLock E' p (wr_agentID w) (wr_ttl w) m2 = (Ret l', m3) \<and> map_of (em_locks m3) p = Some l'))"
proof -
  have m1: "r = Ret True" "m1 = em_start_task (EmReleaseStored \<lparr>rlr_ResourcePath = p, rlr_AgentId = h, rlr_LockId = i\<rparr>) (em_drop h p m)"
    using assms(1-3,6) by (auto simp: emReleaseLock_def)
  have m2: "m2 = notifyWaitingRequests p m1" using assms(7) by (auto split: prod.splits)
  have "map_of (em_waiting m2) p = None" "map_of (em_results m2) (wr_id w) = Some LockAvailable"
    using assms(4,5) by (auto simp: m1 m2 notifyWaitingRequests_def em_send_def em_start_task_def em_drop_def)
  moreover have "map_of (em_locks m2) p = None" "em_config m2 = em_config m"
    by (simp_all add: m1 m2 em_drop_def)
  ultimately show ?thesis using m1(1) by (auto simp: tryAcquireLock_def Let_def)
qed

theorem enhanced_release_wakes_waiter_witness:
  "\<exists>m m1 m2. map_of (em_waiting m) ''p'' \<noteq> None \<and> emReleaseLock (lm_env 3 ''x'') ''p'' ''a'' ''u'' m = (Ret True, m1) \<and>
     em_run_task si_accept (\<lambda>_. lm_env 4 ''y'') (EmReleaseStored \<lparr>rlr_ResourcePath = ''p'', rlr_AgentId = ''a'', rlr_LockId = ''u''\<rparr>)
       (m1, ()) = (m2, ()) \<and> map_of (em_results m2) 7 = Some LockAvailable"
proof -
  define w where "w = \<lparr>wr_id = 7, wr_resourcePath = ''p'', wr_agentID = ''b'', wr_ttl = 0, wr_deadline = Second\<rparr>"
  define m where "m = (snd (tryAcquireLock (lm_env 0 ''u'') ''p'' ''a'' 0 (em0 5)))\<lparr>em_waiting := [(''p'', w)]\<rparr>"
  obtain l where l: "map_of (em_locks m) ''p'' = Some l" "lk_HolderAgent l = ''a''" "lk_LockId l = ''u''"
    by (simp add: m_def em_eval)
  have w: "map_of (em_waiting m) ''p'' = Some w" "wr_id w \<notin> fst ` set (em_results m)" by (simp_all add: m_def em_eval)
  obtain r m1 where r: "emReleaseLock (lm_env 3 ''x'') ''p'' ''a'' ''u'' m = (r, m1)"
    by (cases "emReleaseLock (lm_env 3 ''x'') ''p'' ''a'' ''u'' m")
  obtain m2 where t: "em_run_task si_accept (\<lambda>_. lm_env 4 ''y'')
      (EmReleaseStored \<lparr>rlr_ResourcePath = ''p'', rlr_AgentId = ''a'', rlr_LockId = ''u''\<rparr>) (m1, ()) = (m2, ())"
    by (cases "em_run_task si_accept (\<lambda>_. lm_env 4 ''y'')
      (EmReleaseStored \<lparr>rlr_ResourcePath = ''p'', rlr_AgentId = ''a'', rlr_LockId = ''u''\<rparr>) (m1, ())") auto
  from enhanced_release_wakes_waiter [OF l w r t] r t w show ?thesis by (auto simp: w_def)
qed

text \<open>A stale index. After agent \<open>a\<close>'s lock expired and agent \<open>b\<close> took it over, \<open>GetAgentLocks\<close> for \<open>a\<close> returns the
  lock of \<open>b\<close>, and the taken-over path still counts against the limit of \<open>a\<close>.\<close>

lemma enhanced_stale_index:
  "let m1 = snd (tryAcquireLock (lm_env 0 ''u'') ''p'' ''a'' Second (em0 1));
       m2 = snd (tryAcquireLock (lm_env (2 * Second) ''v'') ''p'' ''b'' Second m1)
   in map lk_HolderAgent (GetAgentLocks (2 * Second) ''a'' m2) = [''b''] \<and>
      fst (tryAcquireLock (lm_env (2 * Second) ''w'') ''q'' ''a'' Second m2) = Err (MaxLocksReached 1)"
  by (simp add: em_eval GetAgentLocks_def List.map_filter_def)

end
