(* ===== verification/Event_Router.thy ===== *)
theory Event_Router
  imports Proto_Types Go_Index
begin

text \<open>
  The event router of \<open>internal/router/router.go\<close>: subscriptions with their buffered channels, and the
  index from contexts to subscriptions. A channel outlives its subscription (the subscriber keeps it), so
  the channels are kept apart, under the identifier of the subscription they were made for.
\<close>

record routerSubscription =
  rs_ID :: bytes
  rs_ContextIDs :: "bytes list"
  rs_LastAccessed :: gotime

record Router =
  rt_MaxBufferSize :: int
  rt_subscriptions :: "routerSubscription gomap"
  rt_contextSubs :: set_index
  rt_chans :: "WorkUnit chan gomap"

datatype router_error = SubscriptionNotFound bytes

definition routerDefaultConfig :: int where "routerDefaultConfig = 100"

definition NewRouter :: "int option \<Rightarrow> Router" where
  "NewRouter config =
     \<lparr>rt_MaxBufferSize = (case config of None \<Rightarrow> routerDefaultConfig | Some n \<Rightarrow> n),
      rt_subscriptions = [], rt_contextSubs = [], rt_chans = []\<rparr>"

definition rt_chan :: "Router \<Rightarrow> bytes \<Rightarrow> WorkUnit chan" where
  "rt_chan r i = (case map_of (rt_chans r) i of None \<Rightarrow> make_chan 0 | Some c \<Rightarrow> c)"

definition rt_set_chan :: "bytes \<Rightarrow> WorkUnit chan \<Rightarrow> Router \<Rightarrow> Router" where
  "rt_set_chan i c r = r\<lparr>rt_chans := AList.update i c (rt_chans r)\<rparr>"

subsection \<open>Routing\<close>

text \<open>The identifiers copied under the read lock.\<close>

definition route_targets :: "WorkUnit \<Rightarrow> Router \<Rightarrow> bytes list" where
  "route_targets event r = (if wu_ContextId event = [] then [] else idx_members (rt_contextSubs r) (wu_ContextId event))"

text \<open>The send to one subscriber that was found. It panics when the channel has been closed meanwhile.\<close>

definition route_send :: "gotime \<Rightarrow> WorkUnit \<Rightarrow> bytes \<Rightarrow> Router \<Rightarrow> (unit, unit) outcome \<times> Router" where
  "route_send now event i r =
     (case try_send (rt_chan r i) event of
        SendPanics \<Rightarrow> (Panic, r)
      | Full \<Rightarrow> (Ret (), r)
      | Sent c \<Rightarrow>
          (Ret (), (rt_set_chan i c r)\<lparr>rt_subscriptions :=
             (case map_of (rt_subscriptions r) i of
                None \<Rightarrow> rt_subscriptions r
              | Some sub \<Rightarrow> AList.update i (sub\<lparr>rs_LastAccessed := now\<rparr>) (rt_subscriptions r))\<rparr>))"

definition route_one :: "gotime \<Rightarrow> WorkUnit \<Rightarrow> bytes \<Rightarrow> Router \<Rightarrow> (unit, unit) outcome \<times> Router" where
  "route_one now event i r =
     (if map_of (rt_subscriptions r) i = None then (Ret (), r) else route_send now event i r)"

fun route_all :: "gotime \<Rightarrow> WorkUnit \<Rightarrow> bytes list \<Rightarrow> Router \<Rightarrow> (unit, unit) outcome \<times> Router" where
  "route_all now event [] r = (Ret (), r)"
| "route_all now event (i # ids) r =
     (case route_one now event i r of
        (Ret _, r) \<Rightarrow> route_all now event ids r
      | (x, r) \<Rightarrow> (x, r))"

definition routeEvent :: "gotime \<Rightarrow> WorkUnit option \<Rightarrow> Router \<Rightarrow> (unit, unit) outcome \<times> Router" where
  "routeEvent now event r =
     (case event of None \<Rightarrow> (Ret (), r) | Some e \<Rightarrow> route_all now e (route_targets e r) r)"

subsection \<open>Subscriptions\<close>

text \<open>\<open>make\<close> of a channel panics when its size is negative.\<close>

definition Subscribe :: "env \<Rightarrow> bytes list \<Rightarrow> Router \<Rightarrow> (unit, bytes) outcome \<times> Router" where
  "Subscribe E contextIDs r =
     (if rt_MaxBufferSize r < 0 then (Panic, r)
      else
        let sub = \<lparr>rs_ID = env_uuid E, rs_ContextIDs = contextIDs, rs_LastAccessed = env_now E 0\<rparr>
        in (Ret (env_uuid E),
            r\<lparr>rt_subscriptions := AList.update (env_uuid E) sub (rt_subscriptions r),
              rt_contextSubs := idx_add_all contextIDs (env_uuid E) (rt_contextSubs r),
              rt_chans := AList.update (env_uuid E) (make_chan (nat (rt_MaxBufferSize r))) (rt_chans r)\<rparr>))"

definition Unsubscribe :: "bytes \<Rightarrow> Router \<Rightarrow> Router" where
  "Unsubscribe subID r =
     (case map_of (rt_subscriptions r) subID of
        None \<Rightarrow> r
      | Some sub \<Rightarrow>
          (rt_set_chan subID (close_chan (rt_chan r subID)) r)
            \<lparr>rt_contextSubs := idx_del_all (rs_ContextIDs sub) subID (rt_contextSubs r),
             rt_subscriptions := AList.delete subID (rt_subscriptions r)\<rparr>)"

definition UpdateSubscription :: "env \<Rightarrow> bytes \<Rightarrow> bytes list \<Rightarrow> Router \<Rightarrow> (router_error, unit) outcome \<times> Router" where
  "UpdateSubscription E subID contextIDs r =
     (case map_of (rt_subscriptions r) subID of
        None \<Rightarrow> (Err (SubscriptionNotFound subID), r)
      | Some sub \<Rightarrow>
          (Ret (),
           r\<lparr>rt_contextSubs :=
               idx_add_all contextIDs subID (idx_del_all (rs_ContextIDs sub) subID (rt_contextSubs r)),
             rt_subscriptions :=
               AList.update subID (sub\<lparr>rs_ContextIDs := contextIDs, rs_LastAccessed := env_now E 0\<rparr>) (rt_subscriptions r)\<rparr>))"

definition maxIdleTime :: duration where "maxIdleTime = 5 * Minute"

definition idle_subscriptions :: "gotime \<Rightarrow> Router \<Rightarrow> bytes list" where
  "idle_subscriptions now r =
     map fst (filter (\<lambda>(i, sub). now - rs_LastAccessed sub > maxIdleTime) (rt_subscriptions r))"

definition routerPerformCleanup :: "gotime \<Rightarrow> Router \<Rightarrow> Router" where
  "routerPerformCleanup now r = fold Unsubscribe (idle_subscriptions now r) r"

definition routerShutdown :: "Router \<Rightarrow> Router" where
  "routerShutdown r =
     r\<lparr>rt_chans := map (\<lambda>(i, c). (i, if map_of (rt_subscriptions r) i = None then c else close_chan c)) (rt_chans r),
       rt_subscriptions := [], rt_contextSubs := []\<rparr>"

text \<open>A subscriber receives: the oldest buffered event, if there is one.\<close>

definition rt_receive :: "bytes \<Rightarrow> Router \<Rightarrow> WorkUnit option \<times> Router" where
  "rt_receive i r =
     (case ch_buf (rt_chan r i) of
        [] \<Rightarrow> (None, r)
      | e # q \<Rightarrow> (Some e, rt_set_chan i ((rt_chan r i)\<lparr>ch_buf := q\<rparr>) r))"

subsection \<open>The router as a transition system\<close>

datatype rt_event =
    RtRoute gotime "WorkUnit option"
  | RtSubscribe env "bytes list"
  | RtUnsubscribe bytes
  | RtUpdate env bytes "bytes list"
  | RtCleanup gotime
  | RtShutdown
  | RtReceive bytes

text \<open>Generated identifiers are new.\<close>

inductive rt_step :: "Router \<Rightarrow> rt_event \<Rightarrow> Router \<Rightarrow> bool" where
  route: "rt_step r (RtRoute now e) (snd (routeEvent now e r))"
| subscribe: "map_of (rt_chans r) (env_uuid E) = None \<Longrightarrow> rt_step r (RtSubscribe E cs) (snd (Subscribe E cs r))"
| unsubscribe: "rt_step r (RtUnsubscribe i) (Unsubscribe i r)"
| update: "rt_step r (RtUpdate E i cs) (snd (UpdateSubscription E i cs r))"
| cleanup: "rt_step r (RtCleanup now) (routerPerformCleanup now r)"
| shutdown: "rt_step r RtShutdown (routerShutdown r)"
| receive: "rt_step r (RtReceive i) (snd (rt_receive i r))"

inductive rt_reachable :: "Router \<Rightarrow> bool" where
  init: "rt_reachable (NewRouter c)"
| step: "rt_reachable r \<Longrightarrow> rt_step r ev r' \<Longrightarrow> rt_reachable r'"

subsection \<open>The invariant\<close>

text \<open>The index is exactly the inverse of the subscriptions' contexts; the channel of a subscription is open;
  no buffer exceeds the configured size.\<close>

definition rt_inv :: "Router \<Rightarrow> bool" where
  "rt_inv r \<longleftrightarrow> keyed rs_ID (rt_subscriptions r) \<and> idx_ok (rt_contextSubs r) \<and>
     (\<forall>c i. idx_mem (rt_contextSubs r) c i \<longleftrightarrow> (\<exists>sub. map_of (rt_subscriptions r) i = Some sub \<and> c \<in> set (rs_ContextIDs sub))) \<and>
     (\<forall>i sub. map_of (rt_subscriptions r) i = Some sub \<longrightarrow> (\<exists>ch. map_of (rt_chans r) i = Some ch \<and> \<not> ch_closed ch)) \<and>
     (\<forall>i ch. map_of (rt_chans r) i = Some ch \<longrightarrow> chan_ok ch \<and> int (ch_cap ch) = rt_MaxBufferSize r)"

lemma rt_chan_set [simp]: "rt_chan (rt_set_chan i c r) j = (if j = i then c else rt_chan r j)"
  by (simp add: rt_chan_def rt_set_chan_def)

lemma rt_set_chan_simps [simp]:
  "rt_subscriptions (rt_set_chan i c r) = rt_subscriptions r" "rt_contextSubs (rt_set_chan i c r) = rt_contextSubs r"
  "rt_MaxBufferSize (rt_set_chan i c r) = rt_MaxBufferSize r"
  "map_of (rt_chans (rt_set_chan i c r)) j = (if j = i then Some c else map_of (rt_chans r) j)"
  by (simp_all add: rt_set_chan_def)


text \<open>What a send appends to a buffer.\<close>

definition push :: "WorkUnit \<Rightarrow> WorkUnit chan \<Rightarrow> WorkUnit chan" where
  "push e c = (if length (ch_buf c) < ch_cap c then c\<lparr>ch_buf := ch_buf c @ [e]\<rparr> else c)"

lemma push_simps [simp]: "ch_closed (push e c) = ch_closed c" "ch_cap (push e c) = ch_cap c" "chan_ok c \<Longrightarrow> chan_ok (push e c)"
  by (simp_all add: push_def chan_ok_def)

lemma rt_inv_open:
  assumes "rt_inv r" and "map_of (rt_subscriptions r) i = Some sub"
  shows "map_of (rt_chans r) i = Some (rt_chan r i) \<and> \<not> ch_closed (rt_chan r i)"
  using assms unfolding rt_inv_def by (fastforce simp: rt_chan_def)

text \<open>The contexts of a subscription (none when it does not exist).\<close>

definition rt_contexts :: "Router \<Rightarrow> bytes \<Rightarrow> bytes set" where
  "rt_contexts r i = (case map_of (rt_subscriptions r) i of None \<Rightarrow> {} | Some sub \<Rightarrow> set (rs_ContextIDs sub))"

lemma rt_inv_targets: "rt_inv r \<Longrightarrow> idx_mem (rt_contextSubs r) c i \<longleftrightarrow> c \<in> rt_contexts r i"
  by (auto simp: rt_inv_def rt_contexts_def split: option.splits)

lemma route_send_effect:
  assumes inv: "rt_inv r" and sub: "map_of (rt_subscriptions r) i = Some sub"
  shows "\<exists>r'. route_send now e i r = (Ret (), r') \<and> rt_inv r' \<and> rt_contexts r' = rt_contexts r \<and>
     rt_contextSubs r' = rt_contextSubs r \<and> rt_chan r' = (rt_chan r)(i := push e (rt_chan r i))"
proof -
  let ?c = "rt_chan r i"
  have c: "map_of (rt_chans r) i = Some ?c" "\<not> ch_closed ?c" using rt_inv_open [OF assms] by simp_all
  show ?thesis
  proof (cases "length (ch_buf ?c) < ch_cap ?c")
    case True
    let ?subs = "AList.update i (sub\<lparr>rs_LastAccessed := now\<rparr>) (rt_subscriptions r)"
    let ?r = "(rt_set_chan i (push e ?c) r)\<lparr>rt_subscriptions := ?subs\<rparr>"
    have run: "route_send now e i r = (Ret (), ?r)"
      using True c(2) sub by (simp add: route_send_def try_send_def push_def)
    have "rs_ID sub = i" using inv sub keyed_lookup by (fastforce simp: rt_inv_def)
    then have "keyed rs_ID ?subs" using inv by (auto simp: rt_inv_def)
    then have "rt_inv ?r" using inv c sub unfolding rt_inv_def by auto
    moreover have "rt_contexts ?r = rt_contexts r" using sub by (auto simp: rt_contexts_def fun_eq_iff)
    moreover have "rt_chan ?r = (rt_chan r)(i := push e ?c)"
      by (auto simp: fun_eq_iff rt_chan_def rt_set_chan_def)
    ultimately show ?thesis using run by simp
  next
    case False
    then show ?thesis using c(2) inv by (simp add: route_send_def try_send_def push_def fun_upd_idem)
  qed
qed

lemma route_all_effect:
  assumes "rt_inv r" and "distinct ids" and "\<forall>i \<in> set ids. map_of (rt_subscriptions r) i \<noteq> None"
  shows "\<exists>r'. route_all now e ids r = (Ret (), r') \<and> rt_inv r' \<and> rt_contexts r' = rt_contexts r \<and>
     rt_chan r' = (\<lambda>i. if i \<in> set ids then push e (rt_chan r i) else rt_chan r i)"
  using assms
proof (induction ids arbitrary: r)
  case (Cons i ids)
  obtain sub where sub: "map_of (rt_subscriptions r) i = Some sub" using Cons.prems(3) by auto
  obtain r1 where r1: "route_send now e i r = (Ret (), r1)" "rt_inv r1" "rt_contexts r1 = rt_contexts r"
    "rt_chan r1 = (rt_chan r)(i := push e (rt_chan r i))"
    using route_send_effect [OF Cons.prems(1) sub] by blast
  have subs: "map_of (rt_subscriptions r1) j = None \<longleftrightarrow> map_of (rt_subscriptions r) j = None" for j
    using r1(1) by (auto simp: route_send_def split: send_result.splits option.splits if_splits)
  obtain r2 where "route_all now e ids r1 = (Ret (), r2)" "rt_inv r2" "rt_contexts r2 = rt_contexts r1"
    "rt_chan r2 = (\<lambda>j. if j \<in> set ids then push e (rt_chan r1 j) else rt_chan r1 j)"
    using Cons.IH [OF r1(2)] Cons.prems(2,3) subs by auto
  then show ?case using r1 sub Cons.prems(2) by (auto simp: route_one_def fun_eq_iff)
qed simp

lemma routeEvent_effect:
  assumes "rt_inv r"
  shows "\<exists>r'. routeEvent now (Some e) r = (Ret (), r') \<and> rt_inv r' \<and> rt_contexts r' = rt_contexts r \<and>
     rt_chan r' = (\<lambda>i. if wu_ContextId e \<noteq> [] \<and> wu_ContextId e \<in> rt_contexts r i then push e (rt_chan r i) else rt_chan r i)"
proof (cases "wu_ContextId e = []")
  case True
  then show ?thesis using assms by (simp add: routeEvent_def route_targets_def)
next
  case False
  let ?ids = "idx_members (rt_contextSubs r) (wu_ContextId e)"
  have ids: "i \<in> set ?ids \<longleftrightarrow> wu_ContextId e \<in> rt_contexts r i" for i
    using rt_inv_targets [OF assms] by (simp add: idx_mem_members)
  have "distinct ?ids" using assms by (simp add: rt_inv_def idx_members_distinct)
  moreover have "\<forall>i \<in> set ?ids. map_of (rt_subscriptions r) i \<noteq> None"
    using ids by (auto simp: rt_contexts_def split: option.splits)
  ultimately show ?thesis
    using route_all_effect [OF assms, of ?ids now e] False ids by (simp add: routeEvent_def route_targets_def)
qed


lemma rt_inv_route: "rt_inv r \<Longrightarrow> rt_inv (snd (routeEvent now e r))"
proof (cases e)
  case (Some w)
  assume "rt_inv r"
  from routeEvent_effect [OF this, of now w] Some show ?thesis by auto
qed (simp add: routeEvent_def)

lemma rt_inv_subscribe:
  assumes "rt_inv r" and new: "map_of (rt_chans r) (env_uuid E) = None"
  shows "rt_inv (snd (Subscribe E cs r))"
proof -
  have "map_of (rt_subscriptions r) (env_uuid E) = None"
    using assms unfolding rt_inv_def by (metis not_None_eq)
  with assms show ?thesis
    unfolding rt_inv_def Subscribe_def Let_def by (auto simp: idx_ok_add_all)
qed

lemma rt_inv_unsubscribe:
  assumes inv: "rt_inv r"
  shows "rt_inv (Unsubscribe i r)"
proof (cases "map_of (rt_subscriptions r) i")
  case (Some sub)
  have "map_of (rt_chans r) i = Some (rt_chan r i)" using rt_inv_open [OF inv Some] by simp
  then have ch: "chan_ok (close_chan (rt_chan r i)) \<and> int (ch_cap (close_chan (rt_chan r i))) = rt_MaxBufferSize r"
    using inv by (auto simp: rt_inv_def chan_ok_def)
  show ?thesis
    using inv Some ch unfolding rt_inv_def Unsubscribe_def by (auto simp: idx_ok_del_all)
qed (use inv in \<open>simp add: Unsubscribe_def\<close>)

lemma rt_inv_update:
  assumes inv: "rt_inv r"
  shows "rt_inv (snd (UpdateSubscription E i cs r))"
proof (cases "map_of (rt_subscriptions r) i")
  case (Some sub)
  have "rs_ID sub = i" using inv Some keyed_lookup by (fastforce simp: rt_inv_def)
  then show ?thesis
    using inv Some unfolding rt_inv_def UpdateSubscription_def by (auto simp: idx_ok_intros)
qed (use inv in \<open>simp add: UpdateSubscription_def\<close>)

lemma rt_inv_unsubscribe_all: "rt_inv r \<Longrightarrow> rt_inv (fold Unsubscribe is r)"
  by (induction "is" arbitrary: r) (simp_all add: rt_inv_unsubscribe)

lemma rt_inv_shutdown:
  assumes "rt_inv r"
  shows "rt_inv (routerShutdown r)"
proof -
  have "map_of (rt_chans (routerShutdown r)) i =
      map_option (\<lambda>c. if map_of (rt_subscriptions r) i = None then c else close_chan c) (map_of (rt_chans r) i)" for i
    by (simp add: routerShutdown_def map_of_map_keyed)
  with assms show ?thesis
    unfolding rt_inv_def by (auto simp: routerShutdown_def chan_ok_def)
qed

lemma rt_inv_set_chan:
  assumes "rt_inv r" and "map_of (rt_chans r) i = Some c" and "chan_ok c'" and "ch_cap c' = ch_cap c"
    and "ch_closed c' = ch_closed c"
  shows "rt_inv (rt_set_chan i c' r)"
proof -
  have "int (ch_cap c) = rt_MaxBufferSize r" using assms(1,2) by (simp add: rt_inv_def)
  then show ?thesis using assms unfolding rt_inv_def by auto
qed

lemma rt_inv_receive:
  assumes "rt_inv r"
  shows "rt_inv (snd (rt_receive i r))"
proof (cases "ch_buf (rt_chan r i)")
  case (Cons e q)
  then have c: "map_of (rt_chans r) i = Some (rt_chan r i)"
    by (auto simp: rt_chan_def split: option.splits)
  then have "chan_ok (rt_chan r i)" using assms unfolding rt_inv_def by blast
  then have "chan_ok ((rt_chan r i)\<lparr>ch_buf := q\<rparr>)" using Cons by (simp add: chan_ok_def)
  then show ?thesis
    using rt_inv_set_chan [OF assms c] Cons by (simp add: rt_receive_def)
qed (use assms in \<open>simp add: rt_receive_def\<close>)

lemmas rt_inv_intros = rt_inv_route rt_inv_subscribe rt_inv_unsubscribe rt_inv_update rt_inv_shutdown rt_inv_receive

lemma rt_inv_step: "rt_step r ev r' \<Longrightarrow> rt_inv r \<Longrightarrow> rt_inv r'"
  by (induction rule: rt_step.induct)
    (simp_all add: rt_inv_intros routerPerformCleanup_def rt_inv_unsubscribe_all)

lemma rt_reachable_inv: "rt_reachable r \<Longrightarrow> rt_inv r"
proof (induction rule: rt_reachable.induct)
  case (init c)
  then show ?case by (simp add: NewRouter_def rt_inv_def)
qed (rule rt_inv_step)


subsection \<open>Properties\<close>

text \<open>Routing a sequence of events with nothing in between.\<close>

fun route_many :: "(gotime \<times> WorkUnit) list \<Rightarrow> Router \<Rightarrow> Router" where
  "route_many [] r = r"
| "route_many ((now, e) # es) r = route_many es (snd (routeEvent now (Some e) r))"

lemma foldl_push:
  assumes "chan_ok c"
  shows "fold push es c = c\<lparr>ch_buf := ch_buf c @ take (ch_cap c - length (ch_buf c)) es\<rparr>"
  using assms
proof (induction es arbitrary: c)
  case (Cons e es)
  have "chan_ok (push e c)" using Cons.prems by simp
  from Cons.IH [OF this] show ?case
    by (cases "length (ch_buf c) < ch_cap c") (auto simp: push_def take_Cons' Suc_diff_le not_less)
qed simp

lemma route_many_effect:
  assumes "rt_inv r"
  shows "rt_inv (route_many es r) \<and> rt_contexts (route_many es r) = rt_contexts r \<and>
    rt_chan (route_many es r) i =
      fold push (filter (\<lambda>e. wu_ContextId e \<noteq> [] \<and> wu_ContextId e \<in> rt_contexts r i) (map snd es)) (rt_chan r i)"
  using assms
proof (induction es r rule: route_many.induct)
  case (2 now e es r)
  obtain r' where r': "routeEvent now (Some e) r = (Ret (), r')" "rt_inv r'" "rt_contexts r' = rt_contexts r"
    "rt_chan r' = (\<lambda>i. if wu_ContextId e \<noteq> [] \<and> wu_ContextId e \<in> rt_contexts r i then push e (rt_chan r i) else rt_chan r i)"
    using routeEvent_effect [OF "2.prems", of now e] by blast
  then show ?case using "2.IH" by simp
qed simp

definition r0 :: Router where "r0 = NewRouter (Some 2)"

definition ev :: "bytes \<Rightarrow> bytes \<Rightarrow> WorkUnit" where
  "ev i c = \<lparr>wu_Id = i, wu_ContextId = c, wu_AgentId = ''a'', wu_Type = WorkUnitType_MESSAGE, wu_Ts = Some 0, wu_Meta = None,
     wu_Payload = None, wu_Relationships = []\<rparr>"

definition rt_env :: "gotime \<Rightarrow> bytes \<Rightarrow> env" where
  "rt_env t u = \<lparr>env_now = (\<lambda>_. t), env_uuid = u, env_pick = (\<lambda>_. 0)\<rparr>"

lemma r0_reachable: "rt_reachable r0"
  unfolding r0_def by (rule rt_reachable.init)

lemma r1_reachable: "rt_reachable (snd (Subscribe (rt_env 0 ''s'') [''c''] r0))"
  by (rule rt_reachable.step [OF r0_reachable rt_step.subscribe]) (simp add: r0_def NewRouter_def)

lemmas rt_eval = r0_def NewRouter_def Subscribe_def Let_def rt_env_def

text \<open>C13. Delivery is exact, in order, and bounded. In every reachable state, routing a sequence of events never panics or changes a subscription's
  contexts, and appends to each subscriber's buffer exactly the events of its contexts, in the order they were routed, up to the
  free space of the buffer; the rest is dropped. No other buffer changes, and no buffer exceeds its capacity.\<close>

theorem router_delivery:
  assumes "rt_reachable r"
  shows "rt_contexts (route_many es r) = rt_contexts r \<and>
     ch_buf (rt_chan (route_many es r) i) = ch_buf (rt_chan r i) @
       take (ch_cap (rt_chan r i) - length (ch_buf (rt_chan r i)))
         (filter (\<lambda>e. wu_ContextId e \<noteq> [] \<and> wu_ContextId e \<in> rt_contexts r i) (map snd es)) \<and>
     length (ch_buf (rt_chan (route_many es r) i)) \<le> ch_cap (rt_chan r i)"
proof -
  have inv: "rt_inv r" by (rule rt_reachable_inv [OF assms])
  have ok: "chan_ok (rt_chan r i)" using inv by (auto simp: rt_inv_def rt_chan_def split: option.splits)
  show ?thesis
    using route_many_effect [OF inv, of es i] ok by (simp add: foldl_push chan_ok_def)
qed

theorem router_delivery_witness:
  "ch_buf (rt_chan (route_many [(1, ev ''1'' ''c''), (2, ev ''2'' ''d''), (3, ev ''3'' ''c''), (4, ev ''4'' ''c'')]
      (snd (Subscribe (rt_env 0 ''s'') [''c''] r0))) ''s'') = [ev ''1'' ''c'', ev ''3'' ''c'']"
  using router_delivery [OF r1_reachable, of "[(1, ev ''1'' ''c''), (2, ev ''2'' ''d''), (3, ev ''3'' ''c''), (4, ev ''4'' ''c'')]" "''s''"]
  by (simp add: rt_eval rt_contexts_def rt_chan_def ev_def)

text \<open>C14. The index and the subscriptions agree. In every reachable state, under any sequence of subscriptions, updates, unsubscriptions,
  cleanups, routed events and receptions, a subscription is listed under a context exactly when that context is one of
  its contexts, no empty entry is kept, and the channel of every subscription is open.\<close>

theorem router_index_exact:
  assumes "rt_reachable r"
  shows "(idx_mem (rt_contextSubs r) c i \<longleftrightarrow> c \<in> rt_contexts r i) \<and> map_of (rt_contextSubs r) c \<noteq> Some [] \<and>
    (map_of (rt_subscriptions r) i \<noteq> None \<longrightarrow> \<not> ch_closed (rt_chan r i))"
proof -
  have inv: "rt_inv r" by (rule rt_reachable_inv [OF assms])
  have "map_of (rt_contextSubs r) c \<noteq> Some []"
    using inv idx_ok_lookup [of "rt_contextSubs r" c "[]"] by (auto simp: rt_inv_def)
  moreover have "\<not> ch_closed (rt_chan r i)" if "map_of (rt_subscriptions r) i \<noteq> None"
    using that rt_inv_open [OF inv, of i] by blast
  ultimately show ?thesis using rt_inv_targets [OF inv] by simp
qed

theorem router_index_exact_witness:
  "idx_mem (rt_contextSubs (snd (Subscribe (rt_env 0 ''s'') [''c''] r0))) ''c'' ''s''"
  using router_index_exact [OF r1_reachable, of "''c''" "''s''"] by (simp add: rt_eval rt_contexts_def)

lemma Unsubscribe_at:
  "map_of (rt_subscriptions (Unsubscribe i r)) j = (if j = i then None else map_of (rt_subscriptions r) j)"
  "rt_chan (Unsubscribe i r) j =
     (if j = i \<and> map_of (rt_subscriptions r) i \<noteq> None then close_chan (rt_chan r j) else rt_chan r j)"
  by (auto simp: Unsubscribe_def rt_chan_def rt_set_chan_def split: option.splits)

lemma Unsubscribe_all_at:
  "distinct is \<Longrightarrow> map_of (rt_subscriptions (fold Unsubscribe is r)) j = (if j \<in> set is then None else map_of (rt_subscriptions r) j) \<and>
   rt_chan (fold Unsubscribe is r) j =
     (if j \<in> set is \<and> map_of (rt_subscriptions r) j \<noteq> None then close_chan (rt_chan r j) else rt_chan r j)"
  by (induction "is" arbitrary: r) (auto simp: Unsubscribe_at)

text \<open>The cleanup ends exactly the idle subscriptions. After \<open>performCleanup\<close> at an instant, a subscription remains exactly when it was
  accessed within the last five minutes; the channels of the others are closed with their buffered events kept, and the
  channels of the remaining ones are untouched.\<close>

lemma router_cleanup_exact:
  assumes "rt_reachable r"
  shows "map_of (rt_subscriptions (routerPerformCleanup now r)) i =
      (case map_of (rt_subscriptions r) i of
         Some sub \<Rightarrow> if now - rs_LastAccessed sub > 5 * Minute then None else Some sub
       | None \<Rightarrow> None) \<and>
     rt_chan (routerPerformCleanup now r) i =
      (case map_of (rt_subscriptions r) i of
         Some sub \<Rightarrow> if now - rs_LastAccessed sub > 5 * Minute then close_chan (rt_chan r i) else rt_chan r i
       | None \<Rightarrow> rt_chan r i)"
proof -
  have keys: "distinct (map fst (rt_subscriptions r))"
    using rt_reachable_inv [OF assms] keyed_distinct unfolding rt_inv_def by blast
  then have dist: "distinct (idle_subscriptions now r)"
    unfolding idle_subscriptions_def by (rule distinct_map_filter)
  have idle: "i \<in> set (idle_subscriptions now r) \<longleftrightarrow>
      (\<exists>sub. map_of (rt_subscriptions r) i = Some sub \<and> now - rs_LastAccessed sub > 5 * Minute)"
    using keys by (force simp: idle_subscriptions_def maxIdleTime_def map_of_eq_Some_iff)
  show ?thesis
    unfolding routerPerformCleanup_def using Unsubscribe_all_at [OF dist, of r i] idle
    by (auto split: option.splits)
qed

theorem router_cleanup_exact_witness:
  "map_of (rt_subscriptions (routerPerformCleanup (6 * Minute) (snd (Subscribe (rt_env 0 ''s'') [''c''] r0)))) ''s'' = None"
  using router_cleanup_exact [OF r1_reachable, of "6 * Minute" "''s''"] by (simp add: rt_eval)

text \<open>There is no wildcard. A subscription whose only context is the string \<open>*\<close>, or that names no context, receives no event of any other
  context, in any state reached afterwards by routing.\<close>

lemma router_no_wildcard:
  assumes "rt_reachable r" and "rt_contexts r i \<subseteq> {''*''}" and "\<forall>e \<in> set (map snd es). wu_ContextId e \<noteq> ''*''"
  shows "rt_chan (route_many es r) i = rt_chan r i"
proof -
  have "filter (\<lambda>e. wu_ContextId e \<noteq> [] \<and> wu_ContextId e \<in> rt_contexts r i) (map snd es) = []"
    using assms(2,3) by (auto simp: filter_empty_conv)
  then show ?thesis using route_many_effect [OF rt_reachable_inv [OF assms(1)], of es i] by (simp only: fold_simps)
qed

theorem router_no_wildcard_witness:
  "ch_buf (rt_chan (route_many [(1, ev ''1'' ''c'')] (snd (Subscribe (rt_env 0 ''s'') [''*''] r0))) ''s'') = []"
proof -
  have "rt_reachable (snd (Subscribe (rt_env 0 ''s'') [''*''] r0))"
    by (rule rt_reachable.step [OF r0_reachable rt_step.subscribe]) (simp add: r0_def NewRouter_def)
  from router_no_wildcard [OF this, of "''s''" "[(1, ev ''1'' ''c'')]"]
  show ?thesis by (simp add: rt_eval rt_contexts_def rt_chan_def ev_def)
qed

text \<open>A send may hit a closed channel. \<open>routeEvent\<close> looks a subscriber up under the lock and sends after releasing it; when the subscriber is
  unsubscribed in between, the send panics.\<close>

lemma router_send_after_unsubscribe_panics:
  assumes "rt_reachable r" and "map_of (rt_subscriptions r) i \<noteq> None"
  shows "fst (route_one now e i r) = Ret () \<and> fst (route_send now e i (Unsubscribe i r)) = Panic"
proof -
  have inv: "rt_inv r" by (rule rt_reachable_inv [OF assms(1)])
  obtain sub where "map_of (rt_subscriptions r) i = Some sub" using assms(2) by auto
  then show ?thesis
    using route_send_effect [OF inv, of i sub now e] Unsubscribe_at(2) [of i r i]
    by (auto simp: route_one_def route_send_def try_send_def)
qed

theorem router_send_after_unsubscribe_panics_witness:
  "fst (route_send 1 (ev ''1'' ''c'') ''s'' (Unsubscribe ''s'' (snd (Subscribe (rt_env 0 ''s'') [''c''] r0)))) = Panic"
  using router_send_after_unsubscribe_panics [OF r1_reachable, of "''s''" 1 "ev ''1'' ''c''"] by (simp add: rt_eval)

end
