(* ===== verification/Event_Notifier.thy ===== *)
theory Event_Notifier
  imports Event_Router
begin

text \<open>
  The notifier of \<open>internal/notifier\<close>: the broadcast buffer (\<open>broadcast.go\<close>), which collects events and
  passes them to the channels of its subscribers, and the clients (\<open>notifier.go\<close>), which filter the
  events of their channel by context. The web socket and the HTTP response are outside: what a client writes is
  recorded, and whether a write succeeds is an input.
\<close>

subsection \<open>The broadcast buffer\<close>

text \<open>As in the router, channels outlive their entry in the map of subscribers.\<close>

record BroadcastBuffer =
  bb_bufferSize :: int
  bb_flushInterval :: duration
  bb_subscribers :: "bytes list"
  bb_chans :: "WorkUnit chan gomap"
  bb_currentBuffer :: "WorkUnit list"
  bb_closed :: bool

text \<open>The size of a buffer is not negative.\<close>

definition NewBroadcastBuffer :: "int \<Rightarrow> duration \<Rightarrow> BroadcastBuffer" where
  "NewBroadcastBuffer bufferSize flushInterval =
     \<lparr>bb_bufferSize = bufferSize, bb_flushInterval = flushInterval, bb_subscribers = [], bb_chans = [], bb_currentBuffer = [],
      bb_closed = False\<rparr>"

definition bb_chan :: "BroadcastBuffer \<Rightarrow> bytes \<Rightarrow> WorkUnit chan" where
  "bb_chan b i = (case map_of (bb_chans b) i of None \<Rightarrow> make_chan 0 | Some c \<Rightarrow> c)"

definition bb_set_chan :: "bytes \<Rightarrow> WorkUnit chan \<Rightarrow> BroadcastBuffer \<Rightarrow> BroadcastBuffer" where
  "bb_set_chan i c b = b\<lparr>bb_chans := AList.update i c (bb_chans b)\<rparr>"

definition bbSubscribe :: "bytes \<Rightarrow> nat \<Rightarrow> BroadcastBuffer \<Rightarrow> BroadcastBuffer" where
  "bbSubscribe i n b =
     (bb_set_chan i (make_chan n) b)\<lparr>bb_subscribers := List.insert i (bb_subscribers b)\<rparr>"

text \<open>Closing a channel that is already closed panics.\<close>

definition bbUnsubscribe :: "bytes \<Rightarrow> BroadcastBuffer \<Rightarrow> (unit, unit) outcome \<times> BroadcastBuffer" where
  "bbUnsubscribe i b =
     (if i \<in> set (bb_subscribers b)
      then if ch_closed (bb_chan b i) then (Panic, b)
           else (Ret (), (bb_set_chan i (close_chan (bb_chan b i)) b)\<lparr>bb_subscribers := removeAll i (bb_subscribers b)\<rparr>)
      else (Ret (), b))"

text \<open>\<open>Publish\<close>: the flag says that the flush loop is asked to flush at once.\<close>

definition Publish :: "WorkUnit \<Rightarrow> BroadcastBuffer \<Rightarrow> bool \<times> BroadcastBuffer" where
  "Publish workUnit b =
     (let b = b\<lparr>bb_currentBuffer := bb_currentBuffer b @ [workUnit]\<rparr>
      in (int (length (bb_currentBuffer b)) \<ge> bb_bufferSize b, b))"

text \<open>The inner loop of \<open>flush\<close>: all units to one channel, each without blocking.\<close>

fun send_all :: "WorkUnit list \<Rightarrow> WorkUnit chan \<Rightarrow> WorkUnit chan option" where
  "send_all [] c = Some c"
| "send_all (w # ws) c =
     (case try_send c w of
        Sent c' \<Rightarrow> send_all ws c'
      | Full \<Rightarrow> send_all ws c
      | SendPanics \<Rightarrow> None)"

fun flush_to :: "WorkUnit list \<Rightarrow> bytes list \<Rightarrow> BroadcastBuffer \<Rightarrow> (unit, unit) outcome \<times> BroadcastBuffer" where
  "flush_to buffer [] b = (Ret (), b)"
| "flush_to buffer (i # ids) b =
     (case send_all buffer (bb_chan b i) of
        None \<Rightarrow> (Panic, b)
      | Some c \<Rightarrow> flush_to buffer ids (bb_set_chan i c b))"

definition bbFlush :: "BroadcastBuffer \<Rightarrow> (unit, unit) outcome \<times> BroadcastBuffer" where
  "bbFlush b =
     (let buffer = bb_currentBuffer b
      in if buffer = [] then (Ret (), b)
         else flush_to buffer (bb_subscribers b) (b\<lparr>bb_currentBuffer := []\<rparr>))"

text \<open>\<open>Close\<close> closes the buffer's control channel and the channels of the subscribers.\<close>

definition bbClose :: "BroadcastBuffer \<Rightarrow> (unit, unit) outcome \<times> BroadcastBuffer" where
  "bbClose b =
     (if bb_closed b \<or> (\<exists>i \<in> set (bb_subscribers b). ch_closed (bb_chan b i)) then (Panic, b)
      else (Ret (), (fold (\<lambda>i b. bb_set_chan i (close_chan (bb_chan b i)) b) (bb_subscribers b) b)
                      \<lparr>bb_closed := True, bb_subscribers := []\<rparr>))"

subsection \<open>Clients\<close>

text \<open>A client with the channel of its SSE messages; \<open>cl_sent\<close> lists what was written to a web socket.\<close>

record Client =
  cl_ID :: bytes
  cl_ContextIDs :: "bytes list"
  cl_LastActive :: gotime
  cl_isSSE :: bool
  cl_sseChannel :: "bytes chan"
  cl_sent :: "WorkUnit list"

record Notifier =
  nt_MaxIdleTime :: duration
  nt_clients :: "Client gomap"
  nt_buffer :: BroadcastBuffer

record NotifierConfig =
  nc_MaxIdleTime :: duration
  nc_BroadcastBufferSize :: int
  nc_BroadcastFlushInterval :: duration

definition NewNotifier :: "NotifierConfig \<Rightarrow> Notifier" where
  "NewNotifier config =
     \<lparr>nt_MaxIdleTime = (if nc_MaxIdleTime config = 0 then 30 * Second else nc_MaxIdleTime config),
      nt_clients = [],
      nt_buffer = NewBroadcastBuffer
        (if nc_BroadcastBufferSize config = 0 then 200 else nc_BroadcastBufferSize config)
        (if nc_BroadcastFlushInterval config = 0 then 50 * Millisecond else nc_BroadcastFlushInterval config)\<rparr>"

text \<open>The check both client goroutines make on every event.\<close>

definition wants :: "bytes list \<Rightarrow> WorkUnit \<Rightarrow> bool" where
  "wants contextIDs event = (\<exists>c \<in> set contextIDs. c = ''*'' \<or> c = wu_ContextId event)"

definition new_client :: "env \<Rightarrow> bytes \<Rightarrow> bool \<Rightarrow> Client" where
  "new_client E contextID sse =
     \<lparr>cl_ID = env_uuid E, cl_ContextIDs = [contextID], cl_LastActive = env_now E 0, cl_isSSE = sse,
      cl_sseChannel = make_chan 100, cl_sent = []\<rparr>"

text \<open>The registration part of \<open>handleWebSocketClient\<close> and of \<open>createSSEClient\<close>.\<close>

definition register_client :: "env \<Rightarrow> bytes \<Rightarrow> bool \<Rightarrow> Notifier \<Rightarrow> Notifier" where
  "register_client E contextID sse n =
     n\<lparr>nt_buffer := bbSubscribe (env_uuid E) 100 (nt_buffer n),
       nt_clients := AList.update (env_uuid E) (new_client E contextID sse) (nt_clients n)\<rparr>"

text \<open>One round of the web socket goroutine: an event was received; \<open>written\<close> says whether the write
  succeeds. On failure the goroutine closes the events channel and ends.\<close>

definition ws_deliver :: "bool \<Rightarrow> gotime \<Rightarrow> WorkUnit \<Rightarrow> bytes \<Rightarrow> Notifier \<Rightarrow> Notifier" where
  "ws_deliver written now event i n =
     (case map_of (nt_clients n) i of
        None \<Rightarrow> n
      | Some client \<Rightarrow>
          if \<not> wants (cl_ContextIDs client) event then n
          else if written
          then n\<lparr>nt_clients := AList.update i (client\<lparr>cl_sent := cl_sent client @ [event], cl_LastActive := now\<rparr>) (nt_clients n)\<rparr>
          else n\<lparr>nt_buffer := bb_set_chan i (close_chan (bb_chan (nt_buffer n) i)) (nt_buffer n)\<rparr>)"

text \<open>One round of the SSE goroutine; \<open>marshal\<close> is \<open>json.Marshal\<close>.\<close>

definition sse_deliver :: "(WorkUnit \<Rightarrow> bytes option) \<Rightarrow> WorkUnit \<Rightarrow> Client \<Rightarrow> Client option" where
  "sse_deliver marshal event client =
     (if \<not> wants (cl_ContextIDs client) event then Some client
      else case marshal event of
        None \<Rightarrow> Some client
      | Some data \<Rightarrow>
          (case try_send (cl_sseChannel client) data of
             Sent c \<Rightarrow> Some (client\<lparr>cl_sseChannel := c\<rparr>)
           | Full \<Rightarrow> Some client
           | SendPanics \<Rightarrow> None))"

definition removeClient :: "bytes \<Rightarrow> Notifier \<Rightarrow> (unit, unit) outcome \<times> Notifier" where
  "removeClient i n =
     (if map_of (nt_clients n) i = None then (Ret (), n)
      else let n = n\<lparr>nt_clients := AList.delete i (nt_clients n)\<rparr>
           in (case bbUnsubscribe i (nt_buffer n) of (r, b) \<Rightarrow> (r, n\<lparr>nt_buffer := b\<rparr>)))"

definition idle_clients :: "gotime \<Rightarrow> Notifier \<Rightarrow> bytes list" where
  "idle_clients now n =
     map fst (filter (\<lambda>(i, client). now - cl_LastActive client > nt_MaxIdleTime n) (nt_clients n))"

fun remove_clients :: "bytes list \<Rightarrow> Notifier \<Rightarrow> (unit, unit) outcome \<times> Notifier" where
  "remove_clients [] n = (Ret (), n)"
| "remove_clients (i # ids) n =
     (case removeClient i n of
        (Ret _, n) \<Rightarrow> remove_clients ids n
      | (x, n) \<Rightarrow> (x, n))"

definition performClientCleanup :: "gotime \<Rightarrow> Notifier \<Rightarrow> (unit, unit) outcome \<times> Notifier" where
  "performClientCleanup now n = remove_clients (idle_clients now n) n"

definition notifierShutdown :: "Notifier \<Rightarrow> (unit, unit) outcome \<times> Notifier" where
  "notifierShutdown n =
     (case bbClose (nt_buffer n) of
        (Ret _, b) \<Rightarrow> (Ret (), n\<lparr>nt_buffer := b, nt_clients := []\<rparr>)
      | (x, b) \<Rightarrow> (x, n\<lparr>nt_buffer := b\<rparr>))"

text \<open>\<open>processClientMessage\<close>, on the message as \<open>json.Unmarshal\<close> gives it (\<open>None\<close>: an error; the outer
  level is a map).\<close>

datatype client_reply =
    InvalidMessage
  | MissingType
  | HeartbeatAck
  | InvalidContexts
  | InvalidContextID
  | SubscribeAck "bytes list"
  | UnknownType

fun json_strings :: "json list \<Rightarrow> bytes list option" where
  "json_strings [] = Some []"
| "json_strings (JStr s # xs) = map_option (Cons s) (json_strings xs)"
| "json_strings (x # xs) = None"

definition processClientMessage ::
  "gotime \<Rightarrow> (bytes \<times> json) list option \<Rightarrow> Client \<Rightarrow> client_reply \<times> Client" where
  "processClientMessage now message client =
     (let client = client\<lparr>cl_LastActive := now\<rparr>
      in case message of
           None \<Rightarrow> (InvalidMessage, client)
         | Some msg \<Rightarrow>
             (case map_of msg ''type'' of
                Some (JStr t) \<Rightarrow>
                  if t = ''heartbeat'' then (HeartbeatAck, client)
                  else if t = ''subscribe'' then
                    (case map_of msg ''contexts'' of
                       Some (JArr xs) \<Rightarrow>
                         (case json_strings xs of
                            None \<Rightarrow> (InvalidContextID, client)
                          | Some contextIDs \<Rightarrow> (SubscribeAck contextIDs, client\<lparr>cl_ContextIDs := contextIDs\<rparr>))
                     | _ \<Rightarrow> (InvalidContexts, client))
                  else (UnknownType, client)
              | _ \<Rightarrow> (MissingType, client)))"

subsection \<open>Lemmas\<close>

definition bb_inv :: "BroadcastBuffer \<Rightarrow> bool" where
  "bb_inv b \<longleftrightarrow> distinct (bb_subscribers b) \<and> (\<forall>i \<in> set (bb_subscribers b). \<not> ch_closed (bb_chan b i))"

lemma bb_chan_set [simp]: "bb_chan (bb_set_chan i c b) j = (if j = i then c else bb_chan b j)"
  by (simp add: bb_chan_def bb_set_chan_def)

lemma bb_set_chan_simps [simp]:
  "bb_subscribers (bb_set_chan i c b) = bb_subscribers b" "bb_currentBuffer (bb_set_chan i c b) = bb_currentBuffer b"
  "bb_bufferSize (bb_set_chan i c b) = bb_bufferSize b"
  by (simp_all add: bb_set_chan_def)

lemma bb_chan_update [simp]:
  "bb_chan (b\<lparr>bb_currentBuffer := x\<rparr>) i = bb_chan b i" "bb_chan (b\<lparr>bb_subscribers := y\<rparr>) i = bb_chan b i"
  by (simp_all add: bb_chan_def)

lemma bb_close_all [simp]:
  "bb_chan (fold (\<lambda>i b. bb_set_chan i (close_chan (bb_chan b i)) b) ids b) j =
     (if j \<in> set ids then close_chan (bb_chan b j) else bb_chan b j)"
  by (induction ids arbitrary: b) (auto simp: close_chan_def)

lemma send_all_open: "\<not> ch_closed c \<Longrightarrow> send_all ws c = Some (fold push ws c)"
  by (induction ws arbitrary: c) (auto simp: try_send_def push_def split: if_splits)

lemma fold_push_closed [simp]: "ch_closed (fold push ws c) = ch_closed c"
  by (induction ws arbitrary: c) auto

lemma flush_to_effect:
  assumes "distinct ids" and "\<forall>i \<in> set ids. \<not> ch_closed (bb_chan b i)"
  shows "\<exists>b'. flush_to ws ids b = (Ret (), b') \<and> bb_subscribers b' = bb_subscribers b \<and>
    bb_currentBuffer b' = bb_currentBuffer b \<and> bb_bufferSize b' = bb_bufferSize b \<and>
    bb_chan b' = (\<lambda>i. if i \<in> set ids then fold push ws (bb_chan b i) else bb_chan b i)"
  using assms
proof (induction ids arbitrary: b)
  case (Cons i ids)
  let ?b = "bb_set_chan i (fold push ws (bb_chan b i)) b"
  have "flush_to ws (i # ids) b = flush_to ws ids ?b" using Cons.prems by (simp add: send_all_open)
  moreover have "\<forall>j \<in> set ids. \<not> ch_closed (bb_chan ?b j)" using Cons.prems by auto
  then obtain b' where "flush_to ws ids ?b = (Ret (), b')" "bb_subscribers b' = bb_subscribers b"
    "bb_currentBuffer b' = bb_currentBuffer b" "bb_bufferSize b' = bb_bufferSize b"
    "bb_chan b' = (\<lambda>j. if j \<in> set ids then fold push ws (bb_chan ?b j) else bb_chan ?b j)"
    using Cons.IH [of ?b] Cons.prems(1) by auto
  ultimately show ?case using Cons.prems(1) by (auto simp: fun_eq_iff)
qed simp

lemma bbFlush_effect:
  assumes "bb_inv b"
  shows "\<exists>b'. bbFlush b = (Ret (), b') \<and> bb_inv b' \<and> bb_subscribers b' = bb_subscribers b \<and> bb_currentBuffer b' = [] \<and>
    bb_chan b' = (\<lambda>i. if i \<in> set (bb_subscribers b) then fold push (bb_currentBuffer b) (bb_chan b i) else bb_chan b i)"
proof (cases "bb_currentBuffer b = []")
  case True
  then show ?thesis using assms by (simp add: bbFlush_def fun_eq_iff)
next
  case False
  then show ?thesis
    using flush_to_effect [of "bb_subscribers b" "b\<lparr>bb_currentBuffer := []\<rparr>" "bb_currentBuffer b"] assms
    by (auto simp: bbFlush_def bb_inv_def fun_eq_iff)
qed


subsection \<open>Properties\<close>

text \<open>Publications and flushes in any order.\<close>

datatype bb_op = BbPublish WorkUnit | BbFlush

fun bb_run :: "bb_op list \<Rightarrow> BroadcastBuffer \<Rightarrow> BroadcastBuffer" where
  "bb_run [] b = b"
| "bb_run (BbPublish w # ops) b = bb_run ops (snd (Publish w b))"
| "bb_run (BbFlush # ops) b = bb_run ops (snd (bbFlush b))"

fun published :: "bb_op list \<Rightarrow> WorkUnit list" where
  "published [] = []"
| "published (BbPublish w # ops) = w # published ops"
| "published (BbFlush # ops) = published ops"

lemma bb_run_effect:
  assumes "bb_inv b"
  shows "bb_inv (bb_run ops b) \<and> bb_subscribers (bb_run ops b) = bb_subscribers b \<and>
    (\<forall>i \<in> set (bb_subscribers b). fold push (bb_currentBuffer (bb_run ops b)) (bb_chan (bb_run ops b) i) =
       fold push (bb_currentBuffer b @ published ops) (bb_chan b i)) \<and>
    (\<forall>i. i \<notin> set (bb_subscribers b) \<longrightarrow> bb_chan (bb_run ops b) i = bb_chan b i)"
  using assms
proof (induction ops b rule: bb_run.induct)
  case (2 w ops b)
  have "bb_inv (snd (Publish w b))" using "2.prems" by (simp add: bb_inv_def Publish_def Let_def)
  with "2.IH" show ?case by (simp add: Publish_def Let_def)
next
  case (3 ops b)
  obtain b' where "bbFlush b = (Ret (), b')" "bb_inv b'" "bb_subscribers b' = bb_subscribers b" "bb_currentBuffer b' = []"
    "bb_chan b' = (\<lambda>i. if i \<in> set (bb_subscribers b) then fold push (bb_currentBuffer b) (bb_chan b i) else bb_chan b i)"
    using bbFlush_effect [OF "3.prems"] by blast
  with "3.IH" show ?case by simp
qed simp

definition bb0 :: BroadcastBuffer where "bb0 = bbSubscribe ''s'' 2 (NewBroadcastBuffer 10 (50 * Millisecond))"

lemma bb0_inv: "bb_inv bb0"
  by (simp add: bb0_def bb_inv_def bbSubscribe_def NewBroadcastBuffer_def)

text \<open>C15. Batching is transparent. Whenever and however often the buffer is flushed between publications, after a final flush each subscriber's channel
  has received exactly the published events, in the order of their publication, up to its free space; the buffer is empty, and
  the channels of former subscribers are untouched.\<close>

theorem broadcast_delivery:
  assumes "bb_inv b" and "bb_currentBuffer b = []" and "i \<in> set (bb_subscribers b)" and "chan_ok (bb_chan b i)"
  shows "\<exists>b'. bbFlush (bb_run ops b) = (Ret (), b') \<and> bb_currentBuffer b' = [] \<and>
     ch_buf (bb_chan b' i) = ch_buf (bb_chan b i) @ take (ch_cap (bb_chan b i) - length (ch_buf (bb_chan b i))) (published ops) \<and>
     (\<forall>j. j \<notin> set (bb_subscribers b) \<longrightarrow> bb_chan b' j = bb_chan b j)"
proof -
  note run = bb_run_effect [OF assms(1), of ops]
  obtain b' where b': "bbFlush (bb_run ops b) = (Ret (), b')" "bb_currentBuffer b' = []"
    "bb_chan b' = (\<lambda>i. if i \<in> set (bb_subscribers (bb_run ops b))
       then fold push (bb_currentBuffer (bb_run ops b)) (bb_chan (bb_run ops b) i) else bb_chan (bb_run ops b) i)"
    using bbFlush_effect [of "bb_run ops b"] run by blast
  have "bb_chan b' i = fold push (published ops) (bb_chan b i)"
    using run b'(3) assms(2,3) by simp
  then show ?thesis using b' run assms(4) by (simp add: foldl_push)
qed

theorem broadcast_delivery_witness:
  "\<exists>b'. bbFlush (bb_run [BbPublish (ev ''1'' ''c''), BbFlush, BbPublish (ev ''2'' ''d''), BbPublish (ev ''3'' ''c'')] bb0) = (Ret (), b') \<and>
     ch_buf (bb_chan b' ''s'') = [ev ''1'' ''c'', ev ''2'' ''d'']"
proof -
  have "bb_currentBuffer bb0 = []" "''s'' \<in> set (bb_subscribers bb0)" "chan_ok (bb_chan bb0 ''s'')"
    "ch_buf (bb_chan bb0 ''s'') = []" "ch_cap (bb_chan bb0 ''s'') = 2"
    by (simp_all add: bb0_def bbSubscribe_def NewBroadcastBuffer_def)
  with broadcast_delivery [OF bb0_inv, of "''s''" "[BbPublish (ev ''1'' ''c''), BbFlush, BbPublish (ev ''2'' ''d''), BbPublish (ev ''3'' ''c'')]"]
  show ?thesis by auto
qed

fun ws_deliver_all :: "(gotime \<times> WorkUnit) list \<Rightarrow> bytes \<Rightarrow> Notifier \<Rightarrow> Notifier" where
  "ws_deliver_all [] i n = n"
| "ws_deliver_all ((now, e) # es) i n = ws_deliver_all es i (ws_deliver True now e i n)"

text \<open>A web socket client sees its contexts, all of them and nothing else: of the events its channel yields, exactly those whose context is one of
  the client's contexts (or any, for a client of \<open>*\<close>) are written, in order.\<close>

lemma client_receives_its_contexts:
  assumes "map_of (nt_clients n) i = Some client"
  shows "\<exists>client'. map_of (nt_clients (ws_deliver_all es i n)) i = Some client' \<and>
     cl_sent client' = cl_sent client @ filter (\<lambda>e. ''*'' \<in> set (cl_ContextIDs client) \<or> wu_ContextId e \<in> set (cl_ContextIDs client)) (map snd es)"
  using assms
proof (induction es i n arbitrary: client rule: ws_deliver_all.induct)
  case (2 now e es i n)
  have wants: "wants (cl_ContextIDs client) e \<longleftrightarrow> ''*'' \<in> set (cl_ContextIDs client) \<or> wu_ContextId e \<in> set (cl_ContextIDs client)"
    by (auto simp: wants_def)
  let ?n = "ws_deliver True now e i n"
  let ?c = "if wants (cl_ContextIDs client) e then client\<lparr>cl_sent := cl_sent client @ [e], cl_LastActive := now\<rparr> else client"
  have "map_of (nt_clients ?n) i = Some ?c" using "2.prems" by (simp add: ws_deliver_def)
  from "2.IH" [OF this] show ?case by (auto simp: wants split: if_splits)
qed simp

definition n0 :: Notifier where
  "n0 = register_client (rt_env 0 ''s'') ''c'' False (NewNotifier \<lparr>nc_MaxIdleTime = 0, nc_BroadcastBufferSize = 0, nc_BroadcastFlushInterval = 0\<rparr>)"

theorem client_receives_its_contexts_witness:
  "\<exists>client'. map_of (nt_clients (ws_deliver_all [(1, ev ''1'' ''c''), (2, ev ''2'' ''d'')] ''s'' n0)) ''s'' = Some client' \<and>
     cl_sent client' = [ev ''1'' ''c'']"
proof -
  have "map_of (nt_clients n0) ''s'' = Some (new_client (rt_env 0 ''s'') ''c'' False)"
    by (simp add: n0_def register_client_def rt_env_def)
  from client_receives_its_contexts [OF this, of "[(1, ev ''1'' ''c''), (2, ev ''2'' ''d'')]"]
  show ?thesis by (simp add: new_client_def ev_def)
qed

text \<open>A failed write poisons the broadcast. When a write to a web socket fails, the client's goroutine closes its events channel but leaves it
  subscribed: the next flush of a non-empty buffer panics, and so does removing the client, which closes the channel
  again.\<close>

lemma failed_write_panics:
  assumes "bb_inv (nt_buffer n)" and "map_of (nt_clients n) i = Some client" and "i \<in> set (bb_subscribers (nt_buffer n))"
    and "wants (cl_ContextIDs client) e" and "bb_currentBuffer (nt_buffer n) \<noteq> []"
  shows "fst (bbFlush (nt_buffer (ws_deliver False now e i n))) = Panic \<and>
     fst (removeClient i (ws_deliver False now e i n)) = Panic"
proof -
  let ?b = "nt_buffer (ws_deliver False now e i n)"
  have b: "?b = bb_set_chan i (close_chan (bb_chan (nt_buffer n) i)) (nt_buffer n)"
    using assms(2,4) by (simp add: ws_deliver_def)
  obtain w ws where ws: "bb_currentBuffer (nt_buffer n) = w # ws" using assms(5) by (cases "bb_currentBuffer (nt_buffer n)") auto
  have "fst (flush_to (w # ws) ids c) = Panic" if "i \<in> set ids" "distinct ids" "ch_closed (bb_chan c i)"
    "\<forall>j \<in> set ids. j \<noteq> i \<longrightarrow> \<not> ch_closed (bb_chan c j)" for ids c
    using that
  proof (induction ids arbitrary: c)
    case (Cons j ids)
    show ?case
    proof (cases "j = i")
      case True
      then show ?thesis using Cons.prems(3) by (simp add: try_send_def)
    next
      case False
      then have "send_all (w # ws) (bb_chan c j) = Some (fold push (w # ws) (bb_chan c j))"
        using Cons.prems(4) by (intro send_all_open) simp
      then show ?thesis using Cons.IH [of "bb_set_chan j (fold push (w # ws) (bb_chan c j)) c"] Cons.prems False
        by auto
    qed
  qed simp
  then have "fst (bbFlush ?b) = Panic"
    using assms(1,3) ws by (simp add: bbFlush_def b bb_inv_def)
  moreover have "fst (removeClient i (ws_deliver False now e i n)) = Panic"
    using assms(2-4) by (simp add: removeClient_def ws_deliver_def bbUnsubscribe_def Let_def)
  ultimately show ?thesis by simp
qed

theorem failed_write_panics_witness:
  "let n = n0\<lparr>nt_buffer := snd (Publish (ev ''2'' ''c'') (nt_buffer n0))\<rparr>
   in fst (bbFlush (nt_buffer (ws_deliver False 1 (ev ''1'' ''c'') ''s'' n))) = Panic"
proof -
  let ?n = "n0\<lparr>nt_buffer := snd (Publish (ev ''2'' ''c'') (nt_buffer n0))\<rparr>"
  have "bb_inv (nt_buffer ?n)" "map_of (nt_clients ?n) ''s'' = Some (new_client (rt_env 0 ''s'') ''c'' False)"
    "''s'' \<in> set (bb_subscribers (nt_buffer ?n))" "wants (cl_ContextIDs (new_client (rt_env 0 ''s'') ''c'' False)) (ev ''1'' ''c'')"
    "bb_currentBuffer (nt_buffer ?n) \<noteq> []"
    by (simp_all add: n0_def register_client_def rt_env_def NewNotifier_def bb_inv_def bbSubscribe_def
        NewBroadcastBuffer_def Publish_def new_client_def wants_def ev_def)
  from failed_write_panics [OF this] show ?thesis by simp
qed

text \<open>A client message changes the client's contexts only when it is a well-formed subscription, and then to exactly the listed contexts; every message,
  also an invalid one, counts as activity.\<close>

lemma client_message_effect:
  "processClientMessage now message client = (reply, client') \<Longrightarrow>
   client' = client\<lparr>cl_LastActive := now,
     cl_ContextIDs := (case reply of SubscribeAck cs \<Rightarrow> cs | _ \<Rightarrow> cl_ContextIDs client)\<rparr> \<and>
   (reply = SubscribeAck cs \<longleftrightarrow>
      (\<exists>msg. message = Some msg \<and> map_of msg ''type'' = Some (JStr ''subscribe'') \<and>
         map_of msg ''contexts'' = Some (JArr (map JStr cs))))"
proof -
  have strings: "json_strings xs = Some cs \<longleftrightarrow> xs = map JStr cs" for xs cs
    by (induction xs arbitrary: cs rule: json_strings.induct) (auto simp: Cons_eq_map_conv map_eq_Cons_conv)
  assume "processClientMessage now message client = (reply, client')"
  then show ?thesis
    by (auto simp: processClientMessage_def Let_def strings not_Some_eq [symmetric] inj_map_eq_map inj_def
        split: option.splits json.splits if_splits simp del: not_Some_eq)
qed

theorem client_message_effect_witness:
  "cl_ContextIDs (snd (processClientMessage 3 (Some [(''type'', JStr ''subscribe''), (''contexts'', JArr [JStr ''x''])])
     (new_client (rt_env 0 ''s'') ''c'' False))) = [''x'']"
proof -
  obtain reply client' where run: "processClientMessage 3 (Some [(''type'', JStr ''subscribe''), (''contexts'', JArr [JStr ''x''])])
     (new_client (rt_env 0 ''s'') ''c'' False) = (reply, client')"
    by (cases "processClientMessage 3 (Some [(''type'', JStr ''subscribe''), (''contexts'', JArr [JStr ''x''])])
     (new_client (rt_env 0 ''s'') ''c'' False)")
  from client_message_effect [OF run, of "[''x'']"] run show ?thesis by simp
qed

end
