(* ===== verification/Search_Text.thy ===== *)
theory Search_Text
  imports Badger_Kv Proto_Types
begin

text \<open>
  The text functions of \<open>internal/search/search.go\<close> and what they use of Go's \<open>strings\<close> and \<open>fmt\<close>: splitting
  into words, the test for text, the decimal timestamps in index keys, the sort by timestamp.

  \<open>strings.ToLower\<close> folds case for all of Unicode; it is the argument \<open>lower\<close>, about which nothing is assumed.
  The loop over the runes of a string is a loop over its bytes here: a rune outside ASCII separates
  words, and so does each byte of its encoding.
\<close>

section \<open>Strings\<close>

text \<open>\<open>strings.Split(s, sep)\<close> for a separator of one byte.\<close>

fun split_on :: "char \<Rightarrow> bytes \<Rightarrow> bytes list" where
  "split_on c [] = [[]]"
| "split_on c (x # xs) =
     (if x = c then [] # split_on c xs
      else (case split_on c xs of [] \<Rightarrow> [[x]] | w # ws \<Rightarrow> (x # w) # ws))"

lemma split_on_not_Nil [simp]: "split_on c xs \<noteq> []"
  by (induction xs) (auto split: list.splits)

lemma split_on_single: "c \<notin> set xs \<Longrightarrow> split_on c xs = [xs]"
  by (induction xs) auto

lemma split_on_append: "c \<notin> set xs \<Longrightarrow> split_on c (xs @ c # ys) = xs # split_on c ys"
  by (induction xs) auto

lemma length_split_on: "length (split_on c xs) = Suc (count_list xs c)"
  by (induction xs) (auto split: list.splits)

lemma last_split_on: "c \<notin> set ys \<Longrightarrow> last (split_on c (xs @ c # ys)) = ys"
proof (induction xs)
  case (Cons x xs)
  have "length (split_on c (xs @ c # ys)) \<ge> 2" by (simp add: length_split_on)
  then obtain u v ws where "split_on c (xs @ c # ys) = u # v # ws"
    by (cases "split_on c (xs @ c # ys)" rule: list.exhaust [case_names Nil Cons]) (auto simp: Suc_le_length_iff)
  with Cons show ?case by simp
qed (simp add: split_on_single)

section \<open>Words\<close>

definition is_word_char :: "char \<Rightarrow> bool" where
  "is_word_char c \<longleftrightarrow> CHR ''a'' \<le> c \<and> c \<le> CHR ''z'' \<or> CHR ''0'' \<le> c \<and> c \<le> CHR ''9''"

text \<open>The loop of \<open>splitIntoWords\<close>: the word being built and the set of words found.\<close>

definition add_word :: "bytes \<Rightarrow> bytes list \<Rightarrow> bytes list" where
  "add_word currentWord words = (if currentWord \<noteq> [] then List.insert currentWord words else words)"

fun words_loop :: "bytes \<Rightarrow> bytes list \<Rightarrow> bytes \<Rightarrow> bytes list" where
  "words_loop currentWord words [] = add_word currentWord words"
| "words_loop currentWord words (char # text) =
     (if is_word_char char then words_loop (currentWord @ [char]) words text
      else words_loop [] (add_word currentWord words) text)"

text \<open>The order in which the words come out of the map is the iteration order \<open>ord\<close>.\<close>

definition splitIntoWords :: "(bytes \<Rightarrow> bytes) \<Rightarrow> (bytes list \<Rightarrow> bytes list) \<Rightarrow> bytes \<Rightarrow> bytes list" where
  "splitIntoWords lower ord text = ord (words_loop [] [] (lower text))"

definition isTextPayload :: "bytes \<Rightarrow> bool" where
  "isTextPayload data =
     list_all (\<lambda>b. \<not> ((of_char b :: nat) < 32 \<and> of_char b \<noteq> (9 :: nat) \<and> of_char b \<noteq> (10 :: nat) \<and> of_char b \<noteq> (13 :: nat)))
       (take 512 data)"

text \<open>What the loop computes: the maximal runs of word characters.\<close>

definition word_in :: "bytes \<Rightarrow> bytes \<Rightarrow> bool" where
  "word_in w text \<longleftrightarrow> w \<noteq> [] \<and> list_all is_word_char w \<and>
     (\<exists>before after. text = before @ w @ after \<and>
        (before = [] \<or> \<not> is_word_char (last before)) \<and> (after = [] \<or> \<not> is_word_char (hd after)))"

text \<open>A map iteration visits every entry once.\<close>

definition iteration :: "('a list \<Rightarrow> 'a list) \<Rightarrow> bool" where
  "iteration ord \<longleftrightarrow> (\<forall>xs. mset (ord xs) = mset xs)"

lemma iteration_set [simp]: "iteration ord \<Longrightarrow> set (ord xs) = set xs"
  by (metis iteration_def mset_eq_setD)

lemma iteration_distinct [simp]: "iteration ord \<Longrightarrow> distinct (ord xs) = distinct xs"
  by (metis iteration_def mset_eq_imp_distinct_iff)

lemma iteration_length [simp]: "iteration ord \<Longrightarrow> length (ord xs) = length xs"
  by (metis iteration_def mset_eq_length)

lemma iteration_id [simp]: "iteration (\<lambda>xs. xs)"
  by (simp add: iteration_def)


lemma word_in_sep:
  assumes "\<not> is_word_char c"
  shows "word_in w (a @ c # b) \<longleftrightarrow> word_in w a \<or> word_in w b"
proof
  assume "word_in w (a @ c # b)"
  then obtain u v where w: "w \<noteq> []" "list_all is_word_char w" and split: "a @ c # b = u @ w @ v"
    and u: "u = [] \<or> \<not> is_word_char (last u)" and v: "v = [] \<or> \<not> is_word_char (hd v)"
    by (auto simp: word_in_def)
  have c: "c \<notin> set w" using w(2) assms by (auto simp: list_all_iff)
  from iffD1 [OF append_eq_append_conv2 split] consider
      (right) us where "a @ us = u" "c # b = us @ w @ v" | (left) us where "a = u @ us" "us @ c # b = w @ v"
    by blast
  then show "word_in w a \<or> word_in w b"
  proof cases
    case right
    then obtain us' where us: "us = c # us'" "b = us' @ w @ v" using w(1) c by (cases us; cases w) auto
    have "us' = [] \<or> \<not> is_word_char (last us')" using u right(1) us(1) by auto
    with us(2) w v show ?thesis by (auto simp: word_in_def)
  next
    case left
    from iffD1 [OF append_eq_append_conv2 left(2)] obtain vs where
      "us = w @ vs \<and> vs @ c # b = v \<or> us @ vs = w \<and> c # b = vs @ v" by blast
    then have "\<exists>vs. us = w @ vs \<and> v = vs @ c # b" using c by (cases vs) auto
    then obtain vs where vs: "us = w @ vs" "v = vs @ c # b" by blast
    have "vs = [] \<or> \<not> is_word_char (hd vs)" using v vs(2) by (cases vs) auto
    with left(1) vs(1) w u show ?thesis by (auto simp: word_in_def)
  qed
next
  assume "word_in w a \<or> word_in w b"
  then show "word_in w (a @ c # b)"
  proof
    assume "word_in w a"
    then obtain u v where *: "a = u @ w @ v" "u = [] \<or> \<not> is_word_char (last u)" "v = [] \<or> \<not> is_word_char (hd v)"
      and w: "w \<noteq> []" "list_all is_word_char w" by (auto simp: word_in_def)
    have "a @ c # b = u @ w @ (v @ c # b)" "v @ c # b = [] \<or> \<not> is_word_char (hd (v @ c # b))"
      using * assms by (cases v; auto)+
    with * w show ?thesis unfolding word_in_def by blast
  next
    assume "word_in w b"
    then obtain u v where *: "b = u @ w @ v" "u = [] \<or> \<not> is_word_char (last u)" "v = [] \<or> \<not> is_word_char (hd v)"
      and w: "w \<noteq> []" "list_all is_word_char w" by (auto simp: word_in_def)
    have "a @ c # b = (a @ c # u) @ w @ v" "a @ c # u = [] \<or> \<not> is_word_char (last (a @ c # u))"
      using * assms by auto
    with * w show ?thesis unfolding word_in_def by blast
  qed
qed

lemma word_in_run:
  assumes "list_all is_word_char a"
  shows "word_in w a \<longleftrightarrow> w = a \<and> a \<noteq> []"
proof
  assume "word_in w a"
  then obtain u v where *: "a = u @ w @ v" "u = [] \<or> \<not> is_word_char (last u)" "v = [] \<or> \<not> is_word_char (hd v)" "w \<noteq> []"
    by (auto simp: word_in_def)
  have "u = []" using *(1,2) assms by (cases u rule: rev_cases) auto
  moreover have "v = []" using *(1,3) assms by (cases v) auto
  ultimately show "w = a \<and> a \<noteq> []" using * by simp
next
  assume "w = a \<and> a \<noteq> []"
  then show "word_in w a" using assms unfolding word_in_def by (metis append_Nil append_Nil2)
qed

lemma set_words_loop:
  "list_all is_word_char cur \<Longrightarrow> set (words_loop cur words cs) = set words \<union> {w. word_in w (cur @ cs)}"
proof (induction cs arbitrary: cur words)
  case Nil
  then show ?case by (auto simp: add_word_def word_in_run)
next
  case (Cons c cs)
  show ?case
  proof (cases "is_word_char c")
    case True
    then show ?thesis using Cons.IH [of "cur @ [c]"] Cons.prems by simp
  next
    case False
    then show ?thesis
      using Cons.IH [of "[]" "add_word cur words"] Cons.prems
      by (auto simp: word_in_sep word_in_run add_word_def)
  qed
qed

lemma distinct_words_loop: "distinct words \<Longrightarrow> distinct (words_loop cur words cs)"
  by (induction cur words cs rule: words_loop.induct) (auto simp: add_word_def)

lemma set_splitIntoWords:
  "iteration ord \<Longrightarrow> set (splitIntoWords lower ord cs) = {w. word_in w (lower cs)}"
  by (simp add: splitIntoWords_def set_words_loop)


section \<open>Timestamps in keys\<close>

text \<open>\<open>%d\<close> and \<open>%020d\<close>: decimal digits, a sign counts as one of the 20 places.\<close>

fun digits_loop :: "nat \<Rightarrow> nat \<Rightarrow> bytes" where
  "digits_loop 0 n = []"
| "digits_loop (Suc w) n = digits_loop w (n div 10) @ [char_of (48 + n mod 10)]"

text \<open>The number of decimal digits of \<open>n\<close>.\<close>

function digit_count :: "nat \<Rightarrow> nat" where
  "digit_count n = (if n < 10 then 1 else Suc (digit_count (n div 10)))"
  by pat_completeness auto
termination
  by (relation "measure id") auto

declare digit_count.simps [simp del]

definition pad_int :: "nat \<Rightarrow> int \<Rightarrow> bytes" where
  "pad_int width n =
     (if n < 0 then ''-'' @ digits_loop (max (width - 1) (digit_count (nat (- n)))) (nat (- n))
      else digits_loop (max width (digit_count (nat n))) (nat n))"

abbreviation sprintf_d :: "int \<Rightarrow> bytes" where "sprintf_d \<equiv> pad_int 1"
abbreviation sprintf_020d :: "int \<Rightarrow> bytes" where "sprintf_020d \<equiv> pad_int 20"

text \<open>\<open>fmt.Sscanf(tsStr, "%d", &ts)\<close>: blanks, an optional sign, at least one digit; what follows the digits is
  ignored, and a value outside \<open>int64\<close> is an error. A newline among the blanks is an error too. (Blanks outside
  ASCII, which \<open>Sscanf\<close> also skips, are not.)\<close>

definition is_digit :: "char \<Rightarrow> bool" where
  "is_digit c \<longleftrightarrow> CHR ''0'' \<le> c \<and> c \<le> CHR ''9''"

definition is_blank :: "char \<Rightarrow> bool" where
  "is_blank c \<longleftrightarrow> c = CHR '' '' \<or> of_char c \<in> {9, 11, 12, 13 :: nat}"

definition digits_value :: "bytes \<Rightarrow> nat" where
  "digits_value ds = foldl (\<lambda>n d. 10 * n + (of_char d - 48)) 0 ds"

definition parse_digits :: "int \<Rightarrow> bytes \<Rightarrow> int option" where
  "parse_digits sign s =
     (let ds = takeWhile is_digit s; n = sign * int (digits_value ds)
      in if ds = [] \<or> n < - (2 ^ 63) \<or> n \<ge> 2 ^ 63 then None else Some n)"

definition parseTimestampFromKey :: "bytes \<Rightarrow> int option" where
  "parseTimestampFromKey tsStr =
     (case dropWhile is_blank tsStr of
        [] \<Rightarrow> None
      | c # s \<Rightarrow> if c = CHR ''-'' then parse_digits (- 1) s
                 else if c = CHR ''+'' then parse_digits 1 s else parse_digits 1 (c # s))"

lemma digit_char [simp]: "is_digit (char_of (48 + n mod 10))" "of_char (char_of (48 + n mod 10)) = 48 + n mod (10 :: nat)"
proof -
  have m: "(48 + n mod 10) mod 256 = 48 + n mod 10" using mod_less_divisor [of 10 n] by (intro mod_less) simp
  then show "of_char (char_of (48 + n mod 10)) = 48 + n mod (10 :: nat)" by simp
  show "is_digit (char_of (48 + n mod 10))"
    using mod_less_divisor [of 10 n] m by (simp add: is_digit_def less_eq_char_def)
qed

lemma length_digits_loop [simp]: "length (digits_loop w n) = w"
  by (induction w n rule: digits_loop.induct) auto

lemma digits_loop_digits: "d \<in> set (digits_loop w n) \<Longrightarrow> is_digit d"
  by (induction w n rule: digits_loop.induct) auto

lemma digits_value_loop: "digits_value (digits_loop w n) = n mod 10 ^ w"
  by (induction w n rule: digits_loop.induct) (auto simp: digits_value_def mod_mult2_eq)

lemma less_digit_count: "n < 10 ^ digit_count n"
proof (induction n rule: digit_count.induct)
  case (1 n)
  show ?case
  proof (cases "n < 10")
    case False
    then have "n div 10 < 10 ^ digit_count (n div 10)" using 1 by simp
    then have "n < 10 ^ Suc (digit_count (n div 10))" by (simp add: less_mult_imp_div_less div_less_iff_less_mult)
    with False show ?thesis by (subst digit_count.simps) simp
  qed (simp add: digit_count.simps)
qed

lemma digits_value_pad: "digits_value (digits_loop (max w (digit_count n)) n) = n"
proof -
  have "n < 10 ^ max w (digit_count n)"
    by (rule order_less_le_trans [OF less_digit_count power_increasing]) simp_all
  then show ?thesis by (simp add: digits_value_loop)
qed


lemma digit_count_pos [simp]: "digit_count n \<noteq> 0"
  by (simp add: digit_count.simps)

lemma takeWhile_digits [simp]: "takeWhile is_digit (digits_loop w n) = digits_loop w n"
  by (simp add: takeWhile_eq_all_conv digits_loop_digits)

lemma digit_not_special: "is_digit c \<Longrightarrow> c \<noteq> CHR '':'' \<and> c \<noteq> CHR ''-'' \<and> c \<noteq> CHR ''+'' \<and> \<not> is_blank c"
  by (auto simp: is_digit_def is_blank_def less_eq_char_def)

lemma pad_int_no_colon: "CHR '':'' \<notin> set (pad_int w n)"
proof -
  have "CHR '':'' \<notin> set (digits_loop v m)" for v m
    using digits_loop_digits [of "CHR '':''" v m] digit_not_special [of "CHR '':''"] by blast
  then show ?thesis by (simp add: pad_int_def)
qed

text \<open>The timestamp of an index key is read back.\<close>

lemma parse_pad_int:
  assumes "- (2 ^ 63) \<le> n" and "n < 2 ^ 63"
  shows "parseTimestampFromKey (pad_int w n) = Some n"
proof (cases "n < 0")
  case True
  let ?ds = "digits_loop (max (w - 1) (digit_count (nat (- n)))) (nat (- n))"
  have ne: "?ds \<noteq> []" using length_digits_loop by (metis digit_count_pos length_0_conv max.cobounded2 le_zero_eq)
  have "parseTimestampFromKey (pad_int w n) = parse_digits (- 1) ?ds"
    using True by (simp add: parseTimestampFromKey_def pad_int_def is_blank_def)
  then show ?thesis using True assms ne by (simp add: parse_digits_def digits_value_pad)
next
  case False
  let ?ds = "digits_loop (max w (digit_count (nat n))) (nat n)"
  have ne: "?ds \<noteq> []" using length_digits_loop by (metis digit_count_pos length_0_conv max.cobounded2 le_zero_eq)
  then obtain d ds where ds: "?ds = d # ds" by (cases ?ds) auto
  then have "is_digit d" using digits_loop_digits by (metis list.set_intros(1))
  with ds have "parseTimestampFromKey (pad_int w n) = parse_digits 1 ?ds"
    using False digit_not_special [of d] by (simp add: parseTimestampFromKey_def pad_int_def)
  then show ?thesis using False assms ne by (simp add: parse_digits_def digits_value_pad)
qed

section \<open>The sort by timestamp\<close>

text \<open>\<open>sortByTimestampDesc\<close>: the inner loop exchanges the element at \<open>i\<close> with every later one that is greater.\<close>

fun sort_inner :: "('a \<times> int) \<Rightarrow> ('a \<times> int) list \<Rightarrow> ('a \<times> int) \<times> ('a \<times> int) list" where
  "sort_inner x [] = (x, [])"
| "sort_inner x (y # ys) =
     (if snd x < snd y then (let (z, zs) = sort_inner y ys in (z, x # zs))
      else (let (z, zs) = sort_inner x ys in (z, y # zs)))"

lemma length_sort_inner: "sort_inner x ys = (z, zs) \<Longrightarrow> length zs = length ys"
  by (induction x ys arbitrary: z zs rule: sort_inner.induct) (auto split: prod.splits if_splits)

function sortByTimestampDesc :: "('a \<times> int) list \<Rightarrow> ('a \<times> int) list" where
  "sortByTimestampDesc [] = []"
| "sortByTimestampDesc (x # xs) = (let (z, zs) = sort_inner x xs in z # sortByTimestampDesc zs)"
  by pat_completeness auto
termination
  by (relation "measure length") (auto dest!: length_sort_inner [OF sym])

lemma sort_inner_mset: "sort_inner x ys = (z, zs) \<Longrightarrow> add_mset z (mset zs) = add_mset x (mset ys)"
  by (induction x ys arbitrary: z zs rule: sort_inner.induct)
    (auto split: prod.splits if_splits simp: add_mset_commute)

lemma sort_inner_max:
  "sort_inner x ys = (z, zs) \<Longrightarrow> snd x \<le> snd z \<and> (\<forall>y \<in> set ys. snd y \<le> snd z)"
proof (induction x ys arbitrary: z zs rule: sort_inner.induct)
  case (2 x y ys)
  obtain u us where u: "sort_inner y ys = (u, us)" by fastforce
  obtain v vs where v: "sort_inner x ys = (v, vs)" by fastforce
  show ?case
  proof (cases "snd x < snd y")
    case True
    with 2(1) [OF True u] 2(3) u show ?thesis by auto
  next
    case False
    with 2(2) [OF False v] 2(3) v show ?thesis by auto
  qed
qed simp

lemma mset_sortByTimestampDesc [simp]: "mset (sortByTimestampDesc xs) = mset xs"
  by (induction xs rule: sortByTimestampDesc.induct) (auto split: prod.splits dest: sort_inner_mset)

lemma set_sortByTimestampDesc [simp]: "set (sortByTimestampDesc xs) = set xs"
  by (metis mset_eq_setD mset_sortByTimestampDesc)

lemma sorted_sortByTimestampDesc: "sorted_wrt (\<lambda>x y. snd y \<le> snd x) (sortByTimestampDesc xs)"
proof (induction xs rule: sortByTimestampDesc.induct)
  case (2 x xs)
  obtain z zs where run: "sort_inner x xs = (z, zs)" by fastforce
  have "set_mset (add_mset z (mset zs)) = set_mset (add_mset x (mset xs))" using sort_inner_mset [OF run] by simp
  then have "set zs \<subseteq> insert x (set xs)" by auto
  then have "\<forall>y \<in> set zs. snd y \<le> snd z" using sort_inner_max [OF run] by auto
  with 2 [OF run [symmetric] refl] run show ?case by simp
qed simp

end
