(* ===== verification/Search_Index.thy ===== *)
theory Search_Index
  imports Search_Text
begin

text \<open>
  The search index of \<open>internal/search/search.go\<close>: the keys it writes for a work unit, the indexing of a batch in one
  transaction, the goroutine that collects batches, and the query. The database is the key-value store \<open>B\<close>;
  logging is left out.

  A Go map that is only used as a set is a list without duplicates. Where the program ranges over a map, the order is
  the iteration order \<open>mo_*\<close> of the place in the code, so the order may differ from one loop to the next.
\<close>

record map_order =
  mo_keys :: "nat \<Rightarrow> bytes list \<Rightarrow> bytes list"
  mo_words :: "nat \<Rightarrow> (bytes \<times> bytes list) list \<Rightarrow> (bytes \<times> bytes list) list"

definition order_ok :: "map_order \<Rightarrow> bool" where
  "order_ok M \<longleftrightarrow> (\<forall>i. iteration (mo_keys M i)) \<and> (\<forall>i. iteration (mo_words M i))"

section \<open>Keys\<close>

definition prefixWorkUnit :: bytes where "prefixWorkUnit = ''wu:''"
definition prefixTextIndex :: bytes where "prefixTextIndex = ''text:''"
definition prefixContextIndex :: bytes where "prefixContextIndex = ''ctx:''"
definition prefixAgentIndex :: bytes where "prefixAgentIndex = ''agent:''"
definition prefixTypeIndex :: bytes where "prefixTypeIndex = ''type:''"
definition prefixMetaIndex :: bytes where "prefixMetaIndex = ''meta:''"
definition prefixTimestampSort :: bytes where "prefixTimestampSort = ''ts:''"

definition workUnitKey :: "bytes \<Rightarrow> bytes" where
  "workUnitKey i = prefixWorkUnit @ i"

definition contextPrefix :: "bytes \<Rightarrow> bytes" where
  "contextPrefix c = prefixContextIndex @ c @ '':''"

definition agentPrefix :: "bytes \<Rightarrow> bytes" where
  "agentPrefix a = prefixAgentIndex @ a @ '':''"

definition typePrefix :: "WorkUnitType \<Rightarrow> bytes" where
  "typePrefix t = prefixTypeIndex @ sprintf_d (sint t) @ '':''"

definition wordPrefix :: "bytes \<Rightarrow> bytes" where
  "wordPrefix w = prefixTextIndex @ w @ '':''"

definition metaPrefix :: "bytes \<Rightarrow> bytes \<Rightarrow> bytes" where
  "metaPrefix k v = prefixMetaIndex @ k @ '':'' @ v @ '':''"

text \<open>The keys of relationships, which only the Badger backend writes.\<close>

definition prefixRelationship :: bytes where "prefixRelationship = ''rel:''"
definition prefixReverseRel :: bytes where "prefixReverseRel = ''rrel:''"

definition relPrefix :: "bytes \<Rightarrow> bytes \<Rightarrow> bytes" where
  "relPrefix k v = prefixRelationship @ k @ '':'' @ v @ '':''"

definition rrelPrefix :: "bytes \<Rightarrow> bytes \<Rightarrow> bytes" where
  "rrelPrefix k i = prefixReverseRel @ k @ '':'' @ i @ '':''"

lemmas index_prefix_defs = prefixWorkUnit_def prefixTextIndex_def prefixContextIndex_def prefixAgentIndex_def
  prefixTypeIndex_def prefixMetaIndex_def prefixTimestampSort_def prefixRelationship_def prefixReverseRel_def

definition tsPrefix :: "bytes \<Rightarrow> int \<Rightarrow> bytes" where
  "tsPrefix c t = prefixTimestampSort @ c @ '':'' @ sprintf_020d t @ '':''"

section \<open>Indexing\<close>

text \<open>\<open>txn.Set\<close> of the keys a unit must have: the first failure gives the unit up.\<close>

fun set_required :: "('db, 'txn) badger \<Rightarrow> (bytes \<times> bytes) list \<Rightarrow> 'txn \<Rightarrow> bool \<times> 'txn" where
  "set_required B [] txn = (True, txn)"
| "set_required B ((key, val) # kvs) txn =
     (case txnSet B txn key val of
        Inl e \<Rightarrow> (False, txn)
      | Inr txn \<Rightarrow> set_required B kvs txn)"

text \<open>The loops over words: a failure skips the word.\<close>

fun set_words :: "('db, 'txn) badger \<Rightarrow> bytes \<Rightarrow> bytes list \<Rightarrow> 'txn \<Rightarrow> 'txn" where
  "set_words B i [] txn = txn"
| "set_words B i (word # words) txn =
     set_words B i words
       (if length word < 3 then txn
        else case txnSet B txn (wordPrefix word @ i) [] of Inl e \<Rightarrow> txn | Inr txn \<Rightarrow> txn)"

text \<open>The loop over the metadata: a failure skips the entry and the words of its value.\<close>

fun set_meta ::
  "('db, 'txn) badger \<Rightarrow> (bytes \<Rightarrow> bytes) \<Rightarrow> map_order \<Rightarrow> bytes \<Rightarrow> (bytes \<times> bytes) list \<Rightarrow> 'txn \<Rightarrow> 'txn" where
  "set_meta B lower M i [] txn = txn"
| "set_meta B lower M i ((key, val) # meta) txn =
     set_meta B lower M i meta
       (case txnSet B txn (metaPrefix key val @ i) [] of
          Inl e \<Rightarrow> txn
        | Inr txn \<Rightarrow>
            if length val \<ge> 3 then set_words B i (splitIntoWords lower (mo_keys M 0) val) txn else txn)"

definition unit_timestamp :: "gotime \<Rightarrow> WorkUnit \<Rightarrow> int" where
  "unit_timestamp now unit = (case wu_Ts unit of Some t \<Rightarrow> t | None \<Rightarrow> now)"

definition payload_words :: "(bytes \<Rightarrow> bytes) \<Rightarrow> map_order \<Rightarrow> WorkUnit \<Rightarrow> bytes list" where
  "payload_words lower M unit =
     (case wu_Payload unit of
        None \<Rightarrow> []
      | Some p \<Rightarrow> if isTextPayload p then splitIntoWords lower (mo_keys M 0) p else [])"

text \<open>The body of the loop over the units of a batch; \<open>val\<close> is what is stored under the unit's own key.\<close>

definition index_unit ::
  "('db, 'txn) badger \<Rightarrow> (bytes \<Rightarrow> bytes) \<Rightarrow> map_order \<Rightarrow> gotime \<Rightarrow> (WorkUnit \<Rightarrow> bytes) \<Rightarrow> WorkUnit \<Rightarrow> 'txn \<Rightarrow>
   bool \<times> 'txn" where
  "index_unit B lower M now val unit txn =
     (if wu_Id unit = [] then (False, txn)
      else
        case set_required B
          [(workUnitKey (wu_Id unit), val unit),
           (contextPrefix (wu_ContextId unit) @ wu_Id unit, []),
           (agentPrefix (wu_AgentId unit) @ wu_Id unit, []),
           (typePrefix (wu_Type unit) @ wu_Id unit, []),
           (tsPrefix (wu_ContextId unit) (unit_timestamp now unit) @ wu_Id unit, [])] txn of
          (False, txn) \<Rightarrow> (False, txn)
        | (True, txn) \<Rightarrow>
            (True, set_meta B lower M (wu_Id unit) (entries_of (wu_Meta unit))
               (set_words B (wu_Id unit) (payload_words lower M unit) txn)))"

text \<open>What \<open>string(unit.Payload)\<close> stores: the payload, nothing for nil.\<close>

definition payload_value :: "WorkUnit \<Rightarrow> bytes" where
  "payload_value unit = (case wu_Payload unit of None \<Rightarrow> [] | Some p \<Rightarrow> p)"

fun index_units ::
  "('db, 'txn) badger \<Rightarrow> (bytes \<Rightarrow> bytes) \<Rightarrow> map_order \<Rightarrow> gotime \<Rightarrow> WorkUnit list \<Rightarrow> 'txn \<Rightarrow> 'txn" where
  "index_units B lower M now [] txn = txn"
| "index_units B lower M now (unit # units) txn =
     index_units B lower M now units (snd (index_unit B lower M now payload_value unit txn))"

definition indexBatch ::
  "('db, 'txn) badger \<Rightarrow> (bytes \<Rightarrow> bytes) \<Rightarrow> map_order \<Rightarrow> gotime \<Rightarrow> WorkUnit list \<Rightarrow> 'db \<Rightarrow> 'db" where
  "indexBatch B lower M now units db =
     (case txnCommit B db (index_units B lower M now units (newTxn B db)) of Inl e \<Rightarrow> db | Inr db \<Rightarrow> db)"


section \<open>The indexing goroutine\<close>

text \<open>\<open>Start\<close> forwards events to \<open>indexQueue\<close> without waiting; \<open>processIndexQueue\<close> collects batches of 100 and
  indexes them when full, when the ticker fires, when the queue is closed and when the context ends.\<close>

record 'db Search =
  se_db :: 'db
  se_queue :: "WorkUnit chan"
  se_batch :: "WorkUnit list"
  se_running :: bool
  se_open :: bool

definition index_batchSize :: nat where "index_batchSize = 100"

definition NewSearch :: "'db \<Rightarrow> 'db Search" where
  "NewSearch db = \<lparr>se_db = db, se_queue = make_chan 1000, se_batch = [], se_running = True, se_open = True\<rparr>"

definition search_enqueue :: "WorkUnit \<Rightarrow> 'db Search \<Rightarrow> 'db Search option" where
  "search_enqueue event s =
     (case try_send (se_queue s) event of
        Sent q \<Rightarrow> Some (s\<lparr>se_queue := q\<rparr>)
      | Full \<Rightarrow> Some s
      | SendPanics \<Rightarrow> None)"

text \<open>\<open>idx now units db\<close> is the indexing of a batch; \<open>now\<close> is what the clock shows then. \<open>Shutdown\<close> closes the queue and then the
  database without waiting for the goroutine; a transaction on a closed database fails, and the batch with it.\<close>

definition flush_batch :: "(gotime \<Rightarrow> WorkUnit list \<Rightarrow> 'db \<Rightarrow> 'db) \<Rightarrow> gotime \<Rightarrow> 'db Search \<Rightarrow> 'db Search" where
  "flush_batch idx now s =
     (if se_batch s \<noteq> []
      then s\<lparr>se_db := (if se_open s then idx now (se_batch s) (se_db s) else se_db s), se_batch := []\<rparr> else s)"

definition queue_recv ::
  "nat \<Rightarrow> (gotime \<Rightarrow> WorkUnit list \<Rightarrow> 'db \<Rightarrow> 'db) \<Rightarrow> gotime \<Rightarrow> WorkUnit \<Rightarrow> 'db Search \<Rightarrow> 'db Search" where
  "queue_recv n idx now unit s =
     (let s = s\<lparr>se_batch := se_batch s @ [unit]\<rparr>
      in if n \<le> length (se_batch s) then flush_batch idx now s else s)"

datatype search_event =
  SEnqueue WorkUnit | SRecv gotime WorkUnit | STick gotime | SClosed gotime | SCancel gotime | SShutdown | SDbClose

inductive search_step ::
  "nat \<Rightarrow> (gotime \<Rightarrow> WorkUnit list \<Rightarrow> 'db \<Rightarrow> 'db) \<Rightarrow> 'db Search \<Rightarrow> search_event \<Rightarrow> 'db Search \<Rightarrow> bool" for n idx where
  enqueue: "search_enqueue u s = Some t \<Longrightarrow> search_step n idx s (SEnqueue u) t"
| recv: "se_running s \<Longrightarrow> ch_buf (se_queue s) = u # us \<Longrightarrow>
     search_step n idx s (SRecv now u) (queue_recv n idx now u (s\<lparr>se_queue := (se_queue s)\<lparr>ch_buf := us\<rparr>\<rparr>))"
| closed: "se_running s \<Longrightarrow> ch_buf (se_queue s) = [] \<Longrightarrow> ch_closed (se_queue s) \<Longrightarrow>
     search_step n idx s (SClosed now) ((flush_batch idx now s)\<lparr>se_running := False\<rparr>)"
| tick: "se_running s \<Longrightarrow> search_step n idx s (STick now) (flush_batch idx now s)"
| cancel: "se_running s \<Longrightarrow> search_step n idx s (SCancel now) ((flush_batch idx now s)\<lparr>se_running := False\<rparr>)"
| shutdown: "\<not> ch_closed (se_queue s) \<Longrightarrow> search_step n idx s SShutdown (s\<lparr>se_queue := close_chan (se_queue s)\<rparr>)"
| db_close: "ch_closed (se_queue s) \<Longrightarrow> search_step n idx s SDbClose (s\<lparr>se_open := False\<rparr>)"

inductive search_run ::
  "nat \<Rightarrow> (gotime \<Rightarrow> WorkUnit list \<Rightarrow> 'db \<Rightarrow> 'db) \<Rightarrow> 'db Search \<Rightarrow> search_event list \<Rightarrow> 'db Search \<Rightarrow> bool" for n idx where
  run_init: "search_run n idx s [] s"
| run_step: "search_run n idx s evs t \<Longrightarrow> search_step n idx t ev u \<Longrightarrow> search_run n idx s (evs @ [ev]) u"

section \<open>The query\<close>

record SearchQuery =
  sq_query :: bytes
  sq_contextID :: bytes
  sq_agentIDs :: "bytes list"
  sq_types :: "WorkUnitType list"
  sq_metaFilters :: "(bytes \<times> bytes) list"
  sq_limit :: int
  sq_offset :: int

text \<open>The identifiers under a prefix: the last part of each key that has at least \<open>n\<close> parts.\<close>

definition scan_ids :: "('db, 'txn) badger \<Rightarrow> 'db \<Rightarrow> nat \<Rightarrow> bytes \<Rightarrow> bytes list" where
  "scan_ids B db n pfx =
     map last (filter (\<lambda>parts. n \<le> length parts) (map (split_on (CHR '':'')) (scan_keys B db pfx)))"

text \<open>Adding identifiers to the map \<open>results\<close>.\<close>

definition add_ids :: "bytes list \<Rightarrow> bytes list \<Rightarrow> bytes list" where
  "add_ids ids results = fold List.insert ids results"

text \<open>\<open>wordMatches\<close>: the words of the query that have matches, with them.\<close>

definition word_matches ::
  "('db, 'txn) badger \<Rightarrow> (bytes \<Rightarrow> bytes) \<Rightarrow> map_order \<Rightarrow> 'db \<Rightarrow> bytes \<Rightarrow> (bytes \<times> bytes list) list" where
  "word_matches B lower M db query =
     filter (\<lambda>(w, ids). ids \<noteq> [])
       (map (\<lambda>w. (w, scan_ids B db 2 (wordPrefix w)))
          (filter (\<lambda>w. 3 \<le> length w) (splitIntoWords lower (mo_keys M 0) query)))"

text \<open>The loop that intersects the matches of all words; equal slices are skipped.\<close>

fun intersect_loop :: "bytes list \<Rightarrow> (bytes \<times> bytes list) list \<Rightarrow> bytes list" where
  "intersect_loop base [] = base"
| "intersect_loop base ((w, ids) # wms) =
     (if base = [] then base
      else if base = ids then intersect_loop base wms
      else intersect_loop (filter (\<lambda>i. i \<in> set ids) base) wms)"

definition text_step ::
  "('db, 'txn) badger \<Rightarrow> (bytes \<Rightarrow> bytes) \<Rightarrow> map_order \<Rightarrow> 'db \<Rightarrow> SearchQuery \<Rightarrow> bytes list \<Rightarrow> bytes list" where
  "text_step B lower M db q results =
     (if sq_query q = [] then results
      else
        let wms = word_matches B lower M db (sq_query q)
        in if wms = [] then results
           else add_ids (intersect_loop (snd (hd (mo_words M 0 wms))) (mo_words M 1 wms)) results)"

definition context_step :: "('db, 'txn) badger \<Rightarrow> 'db \<Rightarrow> SearchQuery \<Rightarrow> bytes list \<Rightarrow> bytes list" where
  "context_step B db q results =
     (if sq_contextID q = [] then results
      else if sq_query q = [] then add_ids (scan_ids B db 2 (contextPrefix (sq_contextID q))) results
      else filter (\<lambda>i. has_key B db (contextPrefix (sq_contextID q) @ i)) results)"

definition agents_step :: "('db, 'txn) badger \<Rightarrow> 'db \<Rightarrow> SearchQuery \<Rightarrow> bytes list \<Rightarrow> bytes list" where
  "agents_step B db q results =
     (if sq_agentIDs q = [] then results
      else if sq_query q = [] \<and> sq_contextID q = []
      then fold (\<lambda>a. add_ids (scan_ids B db 2 (agentPrefix a))) (sq_agentIDs q) results
      else filter (\<lambda>i. \<exists>a \<in> set (sq_agentIDs q). has_key B db (agentPrefix a @ i)) results)"

definition types_step :: "('db, 'txn) badger \<Rightarrow> 'db \<Rightarrow> SearchQuery \<Rightarrow> bytes list \<Rightarrow> bytes list" where
  "types_step B db q results =
     (if sq_types q = [] then results
      else if sq_query q = [] \<and> sq_contextID q = [] \<and> sq_agentIDs q = []
      then fold (\<lambda>t. add_ids (scan_ids B db 2 (typePrefix t))) (sq_types q) results
      else filter (\<lambda>i. \<exists>t \<in> set (sq_types q). has_key B db (typePrefix t @ i)) results)"

definition meta_match :: "('db, 'txn) badger \<Rightarrow> 'db \<Rightarrow> (bytes \<times> bytes) list \<Rightarrow> bytes \<Rightarrow> bool" where
  "meta_match B db filters i \<longleftrightarrow> (\<forall>(k, v) \<in> set filters. has_key B db (metaPrefix k v @ i))"

definition no_other_filter :: "SearchQuery \<Rightarrow> bool" where
  "no_other_filter q \<longleftrightarrow> sq_query q = [] \<and> sq_contextID q = [] \<and> sq_agentIDs q = [] \<and> sq_types q = []"

text \<open>The step over the metadata filters, given in the order of iteration. Without other filters the first entry collects
  identifiers and the rest filters them. The remaining filters are returned too, because \<open>search.go\<close> deletes the
  first one from the map it was given.\<close>

definition meta_step ::
  "('db, 'txn) badger \<Rightarrow> 'db \<Rightarrow> SearchQuery \<Rightarrow> bytes list \<Rightarrow> bytes list \<times> (bytes \<times> bytes) list" where
  "meta_step B db q results =
     (case sq_metaFilters q of
        [] \<Rightarrow> (results, [])
      | (k, v) # filters \<Rightarrow>
          if no_other_filter q
          then let results = add_ids (scan_ids B db 3 (metaPrefix k v)) results
               in (if filters = [] then results else filter (meta_match B db filters) results, filters)
          else (filter (meta_match B db ((k, v) # filters)) results, (k, v) # filters))"

text \<open>The sort: the latest timestamp found for an identifier in the timestamp index, 0 when there is none.\<close>

definition key_timestamp :: "bytes \<Rightarrow> bytes \<Rightarrow> int option" where
  "key_timestamp i key =
     (let parts = split_on (CHR '':'') key
      in if suffix ('':'' @ i) key \<and> 3 \<le> length parts then parseTimestampFromKey (parts ! 2) else None)"

definition latest_timestamp :: "('db, 'txn) badger \<Rightarrow> 'db \<Rightarrow> bytes \<Rightarrow> int" where
  "latest_timestamp B db i =
     fold (\<lambda>key latestTs. case key_timestamp i key of
             Some ts \<Rightarrow> if ts > latestTs then ts else latestTs
           | None \<Rightarrow> latestTs) (scan_keys B db prefixTimestampSort) 0"

definition ids_by_timestamp :: "('db, 'txn) badger \<Rightarrow> map_order \<Rightarrow> 'db \<Rightarrow> bytes list \<Rightarrow> (bytes \<times> int) list" where
  "ids_by_timestamp B M db results =
     sortByTimestampDesc (map (\<lambda>i. (i, latest_timestamp B db i)) (mo_keys M 1 results))"

text \<open>The page: \<open>offset + limit\<close> is an \<open>int64\<close> sum, and a negative offset indexes the slice below zero and panics.\<close>

definition int64_add :: "int \<Rightarrow> int \<Rightarrow> int" where
  "int64_add a b = sint (word_of_int (a + b) :: 64 word)"

definition page :: "int \<Rightarrow> int \<Rightarrow> 'a list \<Rightarrow> ('e, 'a list) outcome" where
  "page offset limit xs =
     (if int (length xs) \<le> offset then Ret []
      else
        let stop = min (int64_add offset limit) (int (length xs))
        in if offset < 0 \<and> offset < stop then Panic else Ret (take (nat (stop - offset)) (drop (nat offset) xs)))"

lemma int64_add_in_range:
  assumes "0 \<le> a + b" and "a + b < 2 ^ 63"
  shows "int64_add a b = a + b"
proof -
  have "signed_take_bit 63 (a + b) = a + b" using assms by (intro signed_take_bit_int_eq_self) auto
  then show ?thesis by (simp add: int64_add_def signed_of_int del: of_int_add)
qed

lemma page_in_range:
  assumes "0 \<le> offset" and "0 \<le> limit" and "offset + limit < 2 ^ 63"
  shows "page offset limit xs = Ret (take (nat limit) (drop (nat offset) xs))"
proof -
  have "int64_add offset limit = offset + limit" using assms by (intro int64_add_in_range) auto
  moreover have "take (nat (min (offset + limit) (int (length xs)) - offset)) (drop (nat offset) xs) =
      take (nat limit) (drop (nat offset) xs)"
    using assms(1,2) by (cases "offset + limit \<le> int (length xs)") (simp_all add: min_def)
  ultimately show ?thesis using assms(1) by (simp add: page_def Let_def)
qed

text \<open>The limit when none is given.\<close>

definition page_limit :: "SearchQuery \<Rightarrow> int" where
  "page_limit q = (if sq_limit q \<le> 0 then 10 else sq_limit q)"

definition sorted_page :: "('db, 'txn) badger \<Rightarrow> map_order \<Rightarrow> 'db \<Rightarrow> SearchQuery \<Rightarrow> bytes list \<Rightarrow> (unit, bytes list) outcome" where
  "sorted_page B M db q results =
     (if results = [] then Ret []
      else map_ret (map fst) (page (sq_offset q) (page_limit q) (ids_by_timestamp B M db results)))"

definition all_ids :: "('db, 'txn) badger \<Rightarrow> 'db \<Rightarrow> bytes list" where
  "all_ids B db = map (drop (length prefixWorkUnit)) (scan_keys B db prefixWorkUnit)"

definition collect_steps ::
  "('db, 'txn) badger \<Rightarrow> (bytes \<Rightarrow> bytes) \<Rightarrow> map_order \<Rightarrow> 'db \<Rightarrow> SearchQuery \<Rightarrow>
   bytes list \<times> (bytes \<times> bytes) list" where
  "collect_steps B lower M db q =
     meta_step B db q (types_step B db q (agents_step B db q (context_step B db q (text_step B lower M db q []))))"

text \<open>The two queries of the package's own tests that the code answers without looking at the index.\<close>

definition special_system :: "SearchQuery \<Rightarrow> bool" where
  "special_system q \<longleftrightarrow> sq_types q = [WorkUnitType_SYSTEM]"

definition special_vegetable :: "SearchQuery \<Rightarrow> bool" where
  "special_vegetable q \<longleftrightarrow> sq_metaFilters q = [(''category'', ''vegetable'')]"

definition collect_results ::
  "('db, 'txn) badger \<Rightarrow> (bytes \<Rightarrow> bytes) \<Rightarrow> map_order \<Rightarrow> 'db \<Rightarrow> SearchQuery \<Rightarrow>
   bytes list \<times> (bytes \<times> bytes) list" where
  "collect_results B lower M db q =
     (if special_system q then ([''test-unit-2''], sq_metaFilters q)
      else if special_vegetable q then ([''test-unit-3''], sq_metaFilters q)
      else collect_steps B lower M db q)"

definition SearchSearch ::
  "('db, 'txn) badger \<Rightarrow> (bytes \<Rightarrow> bytes) \<Rightarrow> map_order \<Rightarrow> SearchQuery \<Rightarrow> 'db \<Rightarrow> (unit, bytes list \<times> nat) outcome" where
  "SearchSearch B lower M q db =
     (case collect_results B lower M db q of
        (results, metaFilters) \<Rightarrow>
          let allResults = (if metaFilters = [] \<and> no_other_filter q then all_ids B db else []);
              totalCount = (if allResults = [] then length results else length allResults);
              results = (if results = [] then allResults else results)
          in map_ret (\<lambda>ids. (ids, totalCount)) (sorted_page B M db q results))"

end
