(* ===== verification/Search_Spec.thy ===== *)
theory Search_Spec
  imports Search_Index
begin

text \<open>
  What the search index of \<open>Search_Index\<close> promises. A document is a work unit with the timestamp it was indexed
  under; \<open>index_rep\<close> says that the keys of the database are those of a set of documents. Indexing adds
  documents, and a query selects among them. The keys are read through their parts, the strings between
  the colons.
\<close>

section \<open>Parts of a key\<close>

lemma split_on_append2: "split_on c (xs @ c # ys) = split_on c xs @ split_on c ys"
proof (induction xs)
  case (Cons x xs)
  then show ?case by (cases "split_on c xs") auto
qed simp

fun join_with :: "char \<Rightarrow> bytes list \<Rightarrow> bytes" where
  "join_with c [] = []"
| "join_with c [w] = w"
| "join_with c (w # ws) = w @ c # join_with c ws"

lemma join_with_Cons: "ws \<noteq> [] \<Longrightarrow> join_with c (w # ws) = w @ c # join_with c ws"
  by (cases ws) auto

lemma join_with_append: "us \<noteq> [] \<Longrightarrow> vs \<noteq> [] \<Longrightarrow> join_with c (us @ vs) = join_with c us @ c # join_with c vs"
  by (induction us rule: induct_list012) (auto simp: join_with_Cons)

lemma join_split [simp]: "join_with c (split_on c xs) = xs"
proof (induction xs)
  case (Cons x xs)
  obtain w ws where split: "split_on c xs = w # ws" by (cases "split_on c xs") auto
  with Cons show ?case by (cases ws) (auto simp: join_with_Cons)
qed simp

lemma split_on_inject [simp]: "split_on c xs = split_on c ys \<longleftrightarrow> xs = ys"
  by (metis join_split)

lemma split_on_eq_single: "split_on c xs = [w] \<longleftrightarrow> xs = w \<and> c \<notin> set w"
proof
  assume "split_on c xs = [w]"
  then show "xs = w \<and> c \<notin> set w"
    using length_split_on [of c xs] join_split [of c xs] by (auto simp: count_list_0_iff)
qed (auto simp: split_on_single)

lemma prefix_split:
  "prefix (xs @ [c]) ys \<longleftrightarrow> (\<exists>rest. rest \<noteq> [] \<and> split_on c ys = split_on c xs @ rest)"
proof
  assume "prefix (xs @ [c]) ys"
  then obtain zs where "ys = xs @ c # zs" by (auto simp: prefix_def)
  then show "\<exists>rest. rest \<noteq> [] \<and> split_on c ys = split_on c xs @ rest" by (auto simp: split_on_append2)
next
  assume "\<exists>rest. rest \<noteq> [] \<and> split_on c ys = split_on c xs @ rest"
  then obtain rest where "rest \<noteq> []" "split_on c ys = split_on c xs @ rest" by blast
  then have "ys = xs @ c # join_with c rest" by (metis join_split join_with_append split_on_not_Nil)
  then show "prefix (xs @ [c]) ys" by (simp add: prefix_def)
qed

abbreviation parts :: "bytes \<Rightarrow> bytes list" where
  "parts \<equiv> split_on (CHR '':'')"

abbreviation no_colon :: "bytes \<Rightarrow> bool" where
  "no_colon s \<equiv> CHR '':'' \<notin> set s"

lemma parts_colon [simp]: "parts (a @ CHR '':'' # b) = parts a @ parts b"
  by (rule split_on_append2)

lemma two_parts:
  "as \<noteq> [] \<Longrightarrow> bs \<noteq> [] \<Longrightarrow> as @ bs = [x, y] \<longleftrightarrow> as = [x] \<and> bs = [y]"
  by (cases as) (auto simp: append_eq_Cons_conv)

lemma three_parts:
  "as \<noteq> [] \<Longrightarrow> bs \<noteq> [] \<Longrightarrow> cs \<noteq> [] \<Longrightarrow> as @ bs @ cs = [x, y, z] \<longleftrightarrow> as = [x] \<and> bs = [y] \<and> cs = [z]"
  by (cases as; cases bs) (auto simp: append_eq_Cons_conv)

section \<open>Documents\<close>

type_synonym doc = "WorkUnit \<times> int"

text \<open>The words of a text that are long enough to be indexed, and those of a unit's payload and metadata.\<close>

definition long_words :: "(bytes \<Rightarrow> bytes) \<Rightarrow> bytes \<Rightarrow> bytes set" where
  "long_words lower s = {w. word_in w (lower s) \<and> 3 \<le> length w}"

definition meta_words :: "(bytes \<Rightarrow> bytes) \<Rightarrow> (bytes \<times> bytes) list \<Rightarrow> bytes set" where
  "meta_words lower meta = (\<Union>(k, v) \<in> set meta. if 3 \<le> length v then long_words lower v else {})"

definition doc_words :: "(bytes \<Rightarrow> bytes) \<Rightarrow> WorkUnit \<Rightarrow> bytes set" where
  "doc_words lower u =
     (case wu_Payload u of None \<Rightarrow> {} | Some p \<Rightarrow> if isTextPayload p then long_words lower p else {}) \<union>
     meta_words lower (entries_of (wu_Meta u))"

text \<open>The relationships \<open>(type, target)\<close> that an index keeps of a unit: none for \<open>Search\<close>. Those without a type or without a target are
  skipped.\<close>

type_synonym relations = "WorkUnit \<Rightarrow> (bytes \<times> bytes) list"

definition no_rels :: relations where
  "no_rels = (\<lambda>u. [])"

definition related :: "relations \<Rightarrow> WorkUnit \<Rightarrow> (bytes \<times> bytes) set" where
  "related rels u = {(k, v) \<in> set (rels u). k \<noteq> [] \<and> v \<noteq> []}"

lemma related_no_rels [simp]: "related no_rels u = {}"
  by (simp add: related_def no_rels_def)

fun doc_keys :: "(bytes \<Rightarrow> bytes) \<Rightarrow> relations \<Rightarrow> doc \<Rightarrow> bytes set" where
  "doc_keys lower rels (u, t) =
     {workUnitKey (wu_Id u), contextPrefix (wu_ContextId u) @ wu_Id u, agentPrefix (wu_AgentId u) @ wu_Id u,
      typePrefix (wu_Type u) @ wu_Id u, tsPrefix (wu_ContextId u) t @ wu_Id u} \<union>
     (\<lambda>w. wordPrefix w @ wu_Id u) ` doc_words lower u \<union>
     (\<lambda>(k, v). metaPrefix k v @ wu_Id u) ` set (entries_of (wu_Meta u)) \<union>
     (\<lambda>(k, v). relPrefix k v @ wu_Id u) ` related rels u \<union> (\<lambda>(k, v). rrelPrefix k (wu_Id u) @ v) ` related rels u"

definition index_rep :: "(bytes \<Rightarrow> bytes) \<Rightarrow> relations \<Rightarrow> ('db \<Rightarrow> (bytes \<times> bytes) list) \<Rightarrow> 'db \<Rightarrow> doc set \<Rightarrow> bool" where
  "index_rep lower rels items db D \<longleftrightarrow> fst ` set (items db) = \<Union> (doc_keys lower rels ` D)"

text \<open>The documents a batch adds; a unit without an identifier is skipped.\<close>

definition batch_docs :: "gotime \<Rightarrow> WorkUnit list \<Rightarrow> doc set" where
  "batch_docs now units = {(u, unit_timestamp now u) | u. u \<in> set units \<and> wu_Id u \<noteq> []}"

section \<open>Indexing\<close>

text \<open>A sequence of successful \<open>Set\<close> calls that writes the keys \<open>K\<close>.\<close>

definition puts :: "('txn \<Rightarrow> (bytes \<times> bytes option) list) \<Rightarrow> 'txn \<Rightarrow> bytes set \<Rightarrow> 'txn \<Rightarrow> bool" where
  "puts writes t K t' \<longleftrightarrow> fst ` set (writes t') = fst ` set (writes t) \<union> K \<and>
     ((\<forall>(k, v) \<in> set (writes t). v \<noteq> None) \<longrightarrow> (\<forall>(k, v) \<in> set (writes t'). v \<noteq> None))"

lemma puts_refl [simp]: "puts writes t {} t"
  by (simp add: puts_def)

lemma puts_trans: "puts writes t K t' \<Longrightarrow> puts writes t' K' t'' \<Longrightarrow> puts writes t (K \<union> K') t''"
  by (auto simp: puts_def)

lemma puts_eq: "puts writes t K t' \<Longrightarrow> K = K' \<Longrightarrow> puts writes t K' t'"
  by simp

lemma total_set:
  assumes "badger_ok B items writes" and "badger_total B"
  shows "\<exists>t'. txnSet B t k v = Inr t' \<and> puts writes t {k} t'"
proof -
  obtain t' where t': "txnSet B t k v = Inr t'" using assms(2) unfolding badger_total_def by blast
  with badger_ok_set [OF assms(1) t'] show ?thesis by (auto simp: puts_def)
qed

lemma set_required_puts:
  assumes "badger_ok B items writes" and "badger_total B"
  shows "\<exists>t'. set_required B kvs t = (True, t') \<and> puts writes t (fst ` set kvs) t'"
proof (induction kvs arbitrary: t)
  case (Cons kv kvs)
  obtain k v where kv: "kv = (k, v)" by (cases kv)
  obtain t1 where t1: "txnSet B t k v = Inr t1" "puts writes t {k} t1" using total_set [OF assms] by blast
  obtain t2 where t2: "set_required B kvs t1 = (True, t2)" "puts writes t1 (fst ` set kvs) t2" using Cons.IH by blast
  show ?case using t1 t2 puts_trans [OF t1(2) t2(2)] by (auto simp: kv)
qed simp

lemma set_words_puts:
  assumes "badger_ok B items writes" and "badger_total B"
  shows "puts writes t ((\<lambda>w. wordPrefix w @ i) ` {w \<in> set words. 3 \<le> length w}) (set_words B i words t)"
proof (induction words arbitrary: t)
  case (Cons word words)
  obtain t1 where t1: "txnSet B t (wordPrefix word @ i) [] = Inr t1" "puts writes t {wordPrefix word @ i} t1"
    using total_set [OF assms] by blast
  show ?case
  proof (cases "length word < 3")
    case True
    then have "{w \<in> set (word # words). 3 \<le> length w} = {w \<in> set words. 3 \<le> length w}" by auto
    with True Cons.IH [of t] show ?thesis by simp
  next
    case False
    then have "{w \<in> set (word # words). 3 \<le> length w} = insert word {w \<in> set words. 3 \<le> length w}" by auto
    with False puts_trans [OF t1(2) Cons.IH [of t1]] t1(1) show ?thesis by simp
  qed
qed simp

lemma set_text_puts:
  assumes "badger_ok B items writes" and "badger_total B" and "order_ok M"
  shows "puts writes t ((\<lambda>w. wordPrefix w @ i) ` long_words lower s)
     (set_words B i (splitIntoWords lower (mo_keys M 0) s) t)"
proof -
  have "{w \<in> set (splitIntoWords lower (mo_keys M 0) s). 3 \<le> length w} = long_words lower s"
    using assms(3) by (auto simp: set_splitIntoWords order_ok_def long_words_def)
  with set_words_puts [OF assms(1,2), of t i "splitIntoWords lower (mo_keys M 0) s"] show ?thesis by simp
qed

lemma set_meta_puts:
  assumes "badger_ok B items writes" and "badger_total B" and "order_ok M"
  shows "puts writes t
     ((\<lambda>w. wordPrefix w @ i) ` meta_words lower meta \<union> (\<lambda>(k, v). metaPrefix k v @ i) ` set meta)
     (set_meta B lower M i meta t)"
proof (induction meta arbitrary: t)
  case (Cons e meta)
  obtain k v where e: "e = (k, v)" by (cases e)
  obtain t1 where t1: "txnSet B t (metaPrefix k v @ i) [] = Inr t1" "puts writes t {metaPrefix k v @ i} t1"
    using total_set [OF assms(1,2)] by blast
  let ?t2 = "if length v \<ge> 3 then set_words B i (splitIntoWords lower (mo_keys M 0) v) t1 else t1"
  have "puts writes t1 ((\<lambda>w. wordPrefix w @ i) ` (if 3 \<le> length v then long_words lower v else {})) ?t2"
    using set_text_puts [OF assms] by simp
  note all = puts_trans [OF puts_trans [OF t1(2) this] Cons.IH]
  have "set_meta B lower M i (e # meta) t = set_meta B lower M i meta ?t2" by (simp add: e t1(1))
  moreover have "meta_words lower (e # meta) = (if 3 \<le> length v then long_words lower v else {}) \<union> meta_words lower meta"
    by (simp add: meta_words_def e)
  ultimately show ?case using all by (simp add: e image_Un Un_assoc)
qed (simp add: meta_words_def)

lemma index_unit_puts:
  assumes "badger_ok B items writes" and "badger_total B" and "order_ok M" and "wu_Id u \<noteq> []"
  shows "\<exists>t'. index_unit B lower M now val u t = (True, t') \<and> puts writes t (doc_keys lower no_rels (u, unit_timestamp now u)) t'"
proof -
  let ?kvs = "[(workUnitKey (wu_Id u), val u), (contextPrefix (wu_ContextId u) @ wu_Id u, []),
           (agentPrefix (wu_AgentId u) @ wu_Id u, []), (typePrefix (wu_Type u) @ wu_Id u, []),
           (tsPrefix (wu_ContextId u) (unit_timestamp now u) @ wu_Id u, [])]"
  obtain t1 where t1: "set_required B ?kvs t = (True, t1)" "puts writes t (fst ` set ?kvs) t1"
    using set_required_puts [OF assms(1,2)] by blast
  let ?t2 = "set_words B (wu_Id u) (payload_words lower M u) t1"
  let ?W = "case wu_Payload u of None \<Rightarrow> {} | Some p \<Rightarrow> if isTextPayload p then long_words lower p else {}"
  have t2: "puts writes t1 ((\<lambda>w. wordPrefix w @ wu_Id u) ` ?W) ?t2"
    using set_text_puts [OF assms(1-3)] by (simp add: payload_words_def split: option.splits)
  note all = puts_trans [OF puts_trans [OF t1(2) t2] set_meta_puts [OF assms(1-3)]]
  have "puts writes t (doc_keys lower no_rels (u, unit_timestamp now u)) (set_meta B lower M (wu_Id u) (entries_of (wu_Meta u)) ?t2)"
    by (rule puts_eq [OF all])
      (simp add: doc_words_def image_Un Un_ac)
  then show ?thesis using t1(1) assms(4) by (simp add: index_unit_def del: set_required.simps)
qed

lemma index_units_puts:
  assumes "badger_ok B items writes" and "badger_total B" and "order_ok M"
  shows "puts writes t (\<Union> (doc_keys lower no_rels ` batch_docs now units)) (index_units B lower M now units t)"
proof (induction units arbitrary: t)
  case (Cons u units)
  show ?case
  proof (cases "wu_Id u = []")
    case True
    then have "batch_docs now (u # units) = batch_docs now units" by (auto simp: batch_docs_def)
    with True Cons.IH show ?thesis by (simp add: index_unit_def)
  next
    case False
    then have "batch_docs now (u # units) = insert (u, unit_timestamp now u) (batch_docs now units)"
      by (auto simp: batch_docs_def)
    moreover obtain t' where t': "index_unit B lower M now payload_value u t = (True, t')"
      "puts writes t (doc_keys lower no_rels (u, unit_timestamp now u)) t'"
      using index_unit_puts [OF assms False] by blast
    ultimately show ?thesis using puts_trans [OF t'(2) Cons.IH] by simp
  qed
qed (simp add: batch_docs_def)

lemma dom_apply_writes:
  "\<forall>(k, v) \<in> set ws. v \<noteq> None \<Longrightarrow> dom (apply_writes ws m) = fst ` set ws \<union> dom m"
proof (induction ws)
  case (Cons w ws)
  then obtain k v where "w = (k, Some v)" by (cases w) auto
  moreover have "dom ((apply_writes ws m)(k \<mapsto> v)) = insert k (dom (apply_writes ws m))" by auto
  ultimately show ?case using Cons by (simp del: fun_upd_apply)
qed simp

lemma commit_puts:
  assumes "badger_ok B items writes" and "badger_total B" and "puts writes (newTxn B db) K t"
  shows "\<exists>db'. txnCommit B db t = Inr db' \<and> fst ` set (items db') = fst ` set (items db) \<union> K"
proof -
  obtain db' where db': "txnCommit B db t = Inr db'" using assms(2) unfolding badger_total_def by blast
  have "\<forall>(k, v) \<in> set (writes t). v \<noteq> None" "fst ` set (writes t) = K"
    using assms(3) badger_ok_newTxn [OF assms(1)] by (auto simp: puts_def)
  then have "dom (map_of (items db')) = K \<union> dom (map_of (items db))"
    using badger_ok_commit [OF assms(1) db'] dom_apply_writes [of "writes t"] by simp
  with db' show ?thesis by (auto simp: dom_map_of_conv_image_fst)
qed

lemma indexBatch_rep:
  assumes "badger_ok B items writes" and "badger_total B" and "order_ok M" and "index_rep lower no_rels items db D"
  shows "index_rep lower no_rels items (indexBatch B lower M now units db) (D \<union> batch_docs now units)"
proof -
  obtain db' where "txnCommit B db (index_units B lower M now units (newTxn B db)) = Inr db'"
    "fst ` set (items db') = fst ` set (items db) \<union> \<Union> (doc_keys lower no_rels ` batch_docs now units)"
    using commit_puts [OF assms(1,2) index_units_puts [OF assms(1-3)]] by blast
  then show ?thesis using assms(4) by (simp add: indexBatch_def index_rep_def image_Un)
qed

end
