(* ===== verification/Search_Query.thy ===== *)
theory Search_Query
  imports Search_Spec
begin

text \<open>
  What a query of the search index returns: the keys of the index are read through their parts, every filter of
  \<open>SearchSearch\<close> is shown to select exactly the documents it names, and the properties of the whole query
  follow. They hold for documents whose identifiers, contexts, agents and metadata have no colon.
\<close>

section \<open>Keys of plain documents\<close>

fun plain_doc :: "relations \<Rightarrow> doc \<Rightarrow> bool" where
  "plain_doc rels (u, t) \<longleftrightarrow> no_colon (wu_Id u) \<and> no_colon (wu_ContextId u) \<and> no_colon (wu_AgentId u) \<and>
     list_all (\<lambda>(k, v). no_colon k \<and> no_colon v) (entries_of (wu_Meta u)) \<and>
     list_all (\<lambda>(k, v). no_colon k \<and> no_colon v) (rels u) \<and> - (2 ^ 63) \<le> t \<and> t < 2 ^ 63"

text \<open>A collection of documents the index can tell apart.\<close>

definition docs_ok :: "relations \<Rightarrow> doc set \<Rightarrow> bool" where
  "docs_ok rels D \<longleftrightarrow> (\<forall>d \<in> D. plain_doc rels d) \<and> inj_on (wu_Id \<circ> fst) D"

fun key_parts :: "(bytes \<Rightarrow> bytes) \<Rightarrow> relations \<Rightarrow> doc \<Rightarrow> bytes list set" where
  "key_parts lower rels (u, t) =
     {[''wu'', wu_Id u], [''ctx'', wu_ContextId u, wu_Id u], [''agent'', wu_AgentId u, wu_Id u],
      [''type'', sprintf_d (sint (wu_Type u)), wu_Id u], [''ts'', wu_ContextId u, sprintf_020d t, wu_Id u]} \<union>
     (\<lambda>w. [''text'', w, wu_Id u]) ` doc_words lower u \<union>
     (\<lambda>(k, v). [''meta'', k, v, wu_Id u]) ` set (entries_of (wu_Meta u)) \<union>
     (\<lambda>(k, v). [''rel'', k, v, wu_Id u]) ` related rels u \<union> (\<lambda>(k, v). [''rrel'', k, wu_Id u, v]) ` related rels u"

lemma word_no_colon: "list_all is_word_char w \<Longrightarrow> no_colon w"
  by (auto simp: list_all_iff is_word_char_def less_eq_char_def)

lemma doc_words_no_colon: "w \<in> doc_words lower u \<Longrightarrow> no_colon w"
  by (auto simp: doc_words_def meta_words_def long_words_def word_in_def word_no_colon
      split: option.splits if_splits)

lemma parts_literals [simp]:
  "parts (''wu:'' @ s) = ''wu'' # parts s" "parts (''ctx:'' @ s) = ''ctx'' # parts s"
  "parts (''agent:'' @ s) = ''agent'' # parts s" "parts (''type:'' @ s) = ''type'' # parts s"
  "parts (''ts:'' @ s) = ''ts'' # parts s" "parts (''text:'' @ s) = ''text'' # parts s"
  "parts (''meta:'' @ s) = ''meta'' # parts s" "parts (''rel:'' @ s) = ''rel'' # parts s"
  "parts (''rrel:'' @ s) = ''rrel'' # parts s"
  by simp_all

lemma parts_keys:
  "parts (workUnitKey i) = ''wu'' # parts i"
  "parts (contextPrefix c @ i) = ''ctx'' # parts c @ parts i"
  "parts (agentPrefix c @ i) = ''agent'' # parts c @ parts i"
  "parts (typePrefix t @ i) = ''type'' # sprintf_d (sint t) # parts i"
  "parts (wordPrefix c @ i) = ''text'' # parts c @ parts i"
  "parts (metaPrefix k v @ i) = ''meta'' # parts k @ parts v @ parts i"
  "parts (tsPrefix c n @ i) = ''ts'' # parts c @ sprintf_020d n # parts i"
  "parts (relPrefix k v @ i) = ''rel'' # parts k @ parts v @ parts i"
  "parts (rrelPrefix k v @ i) = ''rrel'' # parts k @ parts v @ parts i"
  by (simp_all add: workUnitKey_def contextPrefix_def agentPrefix_def typePrefix_def wordPrefix_def metaPrefix_def
      tsPrefix_def relPrefix_def rrelPrefix_def index_prefix_defs split_on_append pad_int_no_colon split_on_single)

lemma parts_doc_keys:
  assumes "plain_doc rels d"
  shows "parts ` doc_keys lower rels d = key_parts lower rels d"
proof -
  obtain u t where d: "d = (u, t)" by (cases d)
  have meta: "no_colon k \<and> no_colon v" if "(k, v) \<in> set (entries_of (wu_Meta u))" for k v
    using assms that by (auto simp: d list_all_iff)
  have words: "(\<lambda>w. parts (wordPrefix w @ wu_Id u)) ` doc_words lower u = (\<lambda>w. [''text'', w, wu_Id u]) ` doc_words lower u"
    using assms by (intro image_cong) (auto simp: d parts_keys split_on_single doc_words_no_colon)
  have metas: "(\<lambda>(k, v). parts (metaPrefix k v @ wu_Id u)) ` set (entries_of (wu_Meta u)) =
      (\<lambda>(k, v). [''meta'', k, v, wu_Id u]) ` set (entries_of (wu_Meta u))"
    using assms by (intro image_cong) (auto simp: d parts_keys split_on_single meta)
  have rel: "no_colon k \<and> no_colon v" if "(k, v) \<in> related rels u" for k v
    using assms that by (auto simp: d list_all_iff related_def)
  have rel_parts: "(\<lambda>(k, v). parts (relPrefix k v @ wu_Id u)) ` related rels u = (\<lambda>(k, v). [''rel'', k, v, wu_Id u]) ` related rels u"
    "(\<lambda>(k, v). parts (rrelPrefix k (wu_Id u) @ v)) ` related rels u = (\<lambda>(k, v). [''rrel'', k, wu_Id u, v]) ` related rels u"
    using assms by (intro image_cong; auto simp: d parts_keys split_on_single rel)+
  show ?thesis
    using assms words metas rel_parts
    by (simp only: d doc_keys.simps key_parts.simps image_Un image_image case_prod_unfold image_insert image_empty)
      (simp add: parts_keys split_on_single)
qed

definition index_parts :: "(bytes \<Rightarrow> bytes) \<Rightarrow> relations \<Rightarrow> doc set \<Rightarrow> bytes list set" where
  "index_parts lower rels D = \<Union> (key_parts lower rels ` D)"

lemma parts_items:
  assumes "index_rep lower rels items db D" and "docs_ok rels D"
  shows "parts ` fst ` set (items db) = index_parts lower rels D"
  using assms by (simp add: index_rep_def docs_ok_def index_parts_def image_UN parts_doc_keys)

lemma has_key_parts:
  assumes "badger_ok B items writes" and "index_rep lower rels items db D" and "docs_ok rels D"
  shows "has_key B db key \<longleftrightarrow> parts key \<in> index_parts lower rels D"
  using has_key_eq [OF assms(1), of db key] parts_items [OF assms(2,3)] by (metis (no_types) image_iff split_on_inject)

lemma scan_ids_parts:
  assumes "badger_ok B items writes" and "index_rep lower rels items db D" and "docs_ok rels D"
  shows "set (scan_ids B db n (s @ '':'')) =
    {last ps | ps. ps \<in> index_parts lower rels D \<and> n \<le> length ps \<and> (\<exists>rest. rest \<noteq> [] \<and> ps = parts s @ rest)}"
  (is "_ = ?R")
proof -
  have "set (scan_ids B db n (s @ '':'')) =
      {last (parts k) | k. k \<in> fst ` set (items db) \<and> n \<le> length (parts k) \<and> (\<exists>rest. rest \<noteq> [] \<and> parts k = parts s @ rest)}"
    by (auto simp: scan_ids_def scan_keys_eq [OF assms(1)] prefix_split)
  also have "\<dots> = ?R" unfolding parts_items [OF assms(2,3), symmetric] by blast
  finally show ?thesis .
qed

section \<open>The filters\<close>

text \<open>The identifiers of the documents whose unit satisfies a predicate.\<close>

definition ids_where :: "doc set \<Rightarrow> (WorkUnit \<Rightarrow> bool) \<Rightarrow> bytes set" where
  "ids_where D P = {wu_Id (fst d) | d. d \<in> D \<and> P (fst d)}"

lemma ids_where_True: "ids_where D (\<lambda>u. True) = (wu_Id \<circ> fst) ` D"
  unfolding ids_where_def comp_def by blast

lemma mem_ids_where: "i \<in> ids_where D P \<longleftrightarrow> (\<exists>d \<in> D. i = wu_Id (fst d) \<and> P (fst d))"
  unfolding ids_where_def by blast

lemma ids_where_insert:
  "ids_where {} P = {}"
  "ids_where (insert d D) P = (if P (fst d) then {wu_Id (fst d)} else {}) \<union> ids_where D P"
  by (auto simp: mem_ids_where)

lemma ids_where_inter:
  assumes "docs_ok rels D"
  shows "ids_where D P \<inter> ids_where D Q = ids_where D (\<lambda>u. P u \<and> Q u)"
  using assms by (fastforce simp: ids_where_def docs_ok_def inj_on_def)

lemma ids_where_INT:
  assumes "docs_ok rels D" and "A \<noteq> {}"
  shows "(\<Inter>x \<in> A. ids_where D (P x)) = ids_where D (\<lambda>u. \<forall>x \<in> A. P x u)"
proof (intro set_eqI iffI)
  fix i assume all: "i \<in> (\<Inter>x \<in> A. ids_where D (P x))"
  obtain a where "a \<in> A" using assms(2) by blast
  then obtain d where d: "d \<in> D" "i = wu_Id (fst d)" using all by (auto simp: ids_where_def)
  have "P x (fst d)" if "x \<in> A" for x
  proof -
    have "i \<in> ids_where D (P x)" using all that by blast
    then obtain e where "e \<in> D" "i = wu_Id (fst e)" "P x (fst e)" unfolding ids_where_def by blast
    moreover have "e = d" using assms(1) d calculation inj_onD [of "wu_Id \<circ> fst" D e d] by (simp add: docs_ok_def)
    ultimately show ?thesis by simp
  qed
  with d show "i \<in> ids_where D (\<lambda>u. \<forall>x \<in> A. P x u)" unfolding ids_where_def by blast
qed (auto simp: ids_where_def)

lemma ids_where_UN: "(\<Union>x \<in> A. ids_where D (P x)) = ids_where D (\<lambda>u. \<exists>x \<in> A. P x u)"
  by (auto simp: ids_where_def)

lemma mem_key_parts:
  "''wu'' # ps \<in> key_parts lower rels d \<longleftrightarrow> ps = [wu_Id (fst d)]"
  "''ctx'' # ps \<in> key_parts lower rels d \<longleftrightarrow> ps = [wu_ContextId (fst d), wu_Id (fst d)]"
  "''agent'' # ps \<in> key_parts lower rels d \<longleftrightarrow> ps = [wu_AgentId (fst d), wu_Id (fst d)]"
  "''type'' # ps \<in> key_parts lower rels d \<longleftrightarrow> ps = [sprintf_d (sint (wu_Type (fst d))), wu_Id (fst d)]"
  "''text'' # ps \<in> key_parts lower rels d \<longleftrightarrow> (\<exists>w \<in> doc_words lower (fst d). ps = [w, wu_Id (fst d)])"
  "''meta'' # ps \<in> key_parts lower rels d \<longleftrightarrow>
     (\<exists>k v. (k, v) \<in> set (entries_of (wu_Meta (fst d))) \<and> ps = [k, v, wu_Id (fst d)])"
  "''ts'' # ps \<in> key_parts lower rels d \<longleftrightarrow> ps = [wu_ContextId (fst d), sprintf_020d (snd d), wu_Id (fst d)]"
  "''rel'' # ps \<in> key_parts lower rels d \<longleftrightarrow> (\<exists>k v. (k, v) \<in> related rels (fst d) \<and> ps = [k, v, wu_Id (fst d)])"
  "''rrel'' # ps \<in> key_parts lower rels d \<longleftrightarrow> (\<exists>k v. (k, v) \<in> related rels (fst d) \<and> ps = [k, wu_Id (fst d), v])"
  by (cases d; force)+

lemma mem_index_parts: "ps \<in> index_parts lower rels D \<longleftrightarrow> (\<exists>d \<in> D. ps \<in> key_parts lower rels d)"
  by (simp add: index_parts_def)

lemma sprintf_d_inject: "sprintf_d (sint s) = sprintf_d (sint t) \<longleftrightarrow> s = (t :: 32 word)"
proof
  assume "sprintf_d (sint s) = sprintf_d (sint t)"
  moreover have "parseTimestampFromKey (sprintf_d (sint w)) = Some (sint w)" for w :: "32 word"
    using sint_ge [of w] sint_lt [of w] by (intro parse_pad_int) auto
  ultimately show "s = t" by (metis option.inject signed_word_eqI)
qed simp

lemma plain_fst:
  assumes "docs_ok rels D" and "d \<in> D"
  shows "no_colon (wu_Id (fst d))" "no_colon (wu_ContextId (fst d))" "no_colon (wu_AgentId (fst d))"
    "(k, v) \<in> set (entries_of (wu_Meta (fst d))) \<Longrightarrow> no_colon k \<and> no_colon v"
    "- (2 ^ 63) \<le> snd d" "snd d < 2 ^ 63" "(k, v) \<in> related rels (fst d) \<Longrightarrow> no_colon k \<and> no_colon v"
proof -
  have "plain_doc rels d" using assms by (simp add: docs_ok_def)
  then show "no_colon (wu_Id (fst d))" "no_colon (wu_ContextId (fst d))" "no_colon (wu_AgentId (fst d))"
    "(k, v) \<in> set (entries_of (wu_Meta (fst d))) \<Longrightarrow> no_colon k \<and> no_colon v"
    "- (2 ^ 63) \<le> snd d" "snd d < 2 ^ 63" "(k, v) \<in> related rels (fst d) \<Longrightarrow> no_colon k \<and> no_colon v"
    by (cases d; auto simp: list_all_iff related_def)+
qed

text \<open>A key of the index is present exactly when a document has it.\<close>

lemma has_index_key:
  assumes "badger_ok B items writes" and "index_rep lower rels items db D" and "docs_ok rels D"
  shows "has_key B db (contextPrefix c @ i) \<longleftrightarrow> i \<in> ids_where D (\<lambda>u. wu_ContextId u = c)"
    and "has_key B db (agentPrefix a @ i) \<longleftrightarrow> i \<in> ids_where D (\<lambda>u. wu_AgentId u = a)"
    and "has_key B db (typePrefix t @ i) \<longleftrightarrow> i \<in> ids_where D (\<lambda>u. wu_Type u = t)"
    and "has_key B db (metaPrefix k v @ i) \<longleftrightarrow> i \<in> ids_where D (\<lambda>u. (k, v) \<in> set (entries_of (wu_Meta u)))"
proof -
  note plain = plain_fst [OF assms(3)]
  note has = has_key_parts [OF assms] parts_keys mem_index_parts mem_key_parts two_parts three_parts split_on_eq_single
    mem_ids_where
  show "has_key B db (contextPrefix c @ i) \<longleftrightarrow> i \<in> ids_where D (\<lambda>u. wu_ContextId u = c)"
    unfolding has by (rule bex_cong [OF refl]) (use plain in \<open>auto simp: has\<close>)
  show "has_key B db (agentPrefix a @ i) \<longleftrightarrow> i \<in> ids_where D (\<lambda>u. wu_AgentId u = a)"
    unfolding has by (rule bex_cong [OF refl]) (use plain in \<open>auto simp: has\<close>)
  show "has_key B db (typePrefix t @ i) \<longleftrightarrow> i \<in> ids_where D (\<lambda>u. wu_Type u = t)"
    unfolding has by (rule bex_cong [OF refl]) (use plain in \<open>auto simp: has sprintf_d_inject [simplified]\<close>)
  show "has_key B db (metaPrefix k v @ i) \<longleftrightarrow> i \<in> ids_where D (\<lambda>u. (k, v) \<in> set (entries_of (wu_Meta u)))"
    unfolding has by (rule bex_cong [OF refl]) (use plain in \<open>auto simp: has\<close>)
qed

lemma mem_scan_ids:
  assumes "badger_ok B items writes" and "index_rep lower rels items db D" and "docs_ok rels D"
  shows "i \<in> set (scan_ids B db n (s @ '':'')) \<longleftrightarrow> (\<exists>d \<in> D. \<exists>rest. rest \<noteq> [] \<and> parts s @ rest \<in> key_parts lower rels d \<and>
     n \<le> length (parts s @ rest) \<and> i = last rest)"
  unfolding scan_ids_parts [OF assms] mem_index_parts mem_Collect_eq by (metis last_appendR)

text \<open>A scan finds exactly the identifiers of the documents that have the prefix.\<close>

lemma scan_index_ids:
  assumes "badger_ok B items writes" and "index_rep lower rels items db D" and "docs_ok rels D"
  shows "set (scan_ids B db 2 (contextPrefix c)) = ids_where D (\<lambda>u. wu_ContextId u = c)"
    and "set (scan_ids B db 2 (agentPrefix a)) = ids_where D (\<lambda>u. wu_AgentId u = a)"
    and "set (scan_ids B db 2 (typePrefix t)) = ids_where D (\<lambda>u. wu_Type u = t)"
    and "set (scan_ids B db 2 (wordPrefix w)) = ids_where D (\<lambda>u. w \<in> doc_words lower u)"
    and "set (scan_ids B db 3 (metaPrefix k v)) = ids_where D (\<lambda>u. (k, v) \<in> set (entries_of (wu_Meta u)))"
proof -
  note plain = plain_fst [OF assms(3)]
  note scan = mem_scan_ids [OF assms]
  have prefixes: "contextPrefix c = (''ctx:'' @ c) @ '':''" "agentPrefix a = (''agent:'' @ a) @ '':''"
    "typePrefix t = (''type:'' @ sprintf_d (sint t)) @ '':''" "wordPrefix w = (''text:'' @ w) @ '':''"
    "metaPrefix k v = (''meta:'' @ k @ '':'' @ v) @ '':''"
    by (simp_all add: contextPrefix_def agentPrefix_def typePrefix_def wordPrefix_def metaPrefix_def index_prefix_defs)
  have meta_parts: "parts (''meta:'' @ k @ '':'' @ v) = ''meta'' # parts k @ parts v" by simp
  note has = parts_literals meta_parts append_Cons append_assoc mem_key_parts two_parts three_parts split_on_eq_single
  show "set (scan_ids B db 2 (contextPrefix c)) = ids_where D (\<lambda>u. wu_ContextId u = c)"
    unfolding prefixes by (intro set_eqI, unfold scan mem_ids_where, rule bex_cong [OF refl])
      (use plain in \<open>auto simp: has \<close>)
  show "set (scan_ids B db 2 (agentPrefix a)) = ids_where D (\<lambda>u. wu_AgentId u = a)"
    unfolding prefixes by (intro set_eqI, unfold scan mem_ids_where, rule bex_cong [OF refl])
      (use plain in \<open>auto simp: has \<close>)
  show "set (scan_ids B db 2 (typePrefix t)) = ids_where D (\<lambda>u. wu_Type u = t)"
    unfolding prefixes by (intro set_eqI, unfold scan mem_ids_where, rule bex_cong [OF refl])
      (use plain in \<open>auto simp: has pad_int_no_colon sprintf_d_inject [simplified]\<close>)
  show "set (scan_ids B db 2 (wordPrefix w)) = ids_where D (\<lambda>u. w \<in> doc_words lower u)"
    unfolding prefixes by (intro set_eqI, unfold scan mem_ids_where, rule bex_cong [OF refl])
      (use plain in \<open>auto simp: has doc_words_no_colon\<close>)
  show "set (scan_ids B db 3 (metaPrefix k v)) = ids_where D (\<lambda>u. (k, v) \<in> set (entries_of (wu_Meta u)))"
    unfolding prefixes by (intro set_eqI, unfold scan mem_ids_where, rule bex_cong [OF refl])
      (use plain in \<open>fastforce simp: has split_on_single\<close>)
qed

section \<open>What a query selects\<close>

text \<open>The words of the query that occur in some document; the others are ignored.\<close>

definition known_words :: "(bytes \<Rightarrow> bytes) \<Rightarrow> doc set \<Rightarrow> bytes \<Rightarrow> bytes set" where
  "known_words lower D query = {w \<in> long_words lower query. \<exists>d \<in> D. w \<in> doc_words lower (fst d)}"

definition text_match :: "(bytes \<Rightarrow> bytes) \<Rightarrow> doc set \<Rightarrow> bytes \<Rightarrow> WorkUnit \<Rightarrow> bool" where
  "text_match lower D query u \<longleftrightarrow>
     known_words lower D query \<noteq> {} \<and> known_words lower D query \<subseteq> doc_words lower u"

definition query_match :: "(bytes \<Rightarrow> bytes) \<Rightarrow> doc set \<Rightarrow> SearchQuery \<Rightarrow> WorkUnit \<Rightarrow> bool" where
  "query_match lower D q u \<longleftrightarrow>
     (sq_query q \<noteq> [] \<longrightarrow> text_match lower D (sq_query q) u) \<and>
     (sq_contextID q \<noteq> [] \<longrightarrow> wu_ContextId u = sq_contextID q) \<and>
     (sq_agentIDs q \<noteq> [] \<longrightarrow> wu_AgentId u \<in> set (sq_agentIDs q)) \<and>
     (sq_types q \<noteq> [] \<longrightarrow> wu_Type u \<in> set (sq_types q)) \<and>
     set (sq_metaFilters q) \<subseteq> set (entries_of (wu_Meta u))"

lemma set_add_ids [simp]: "set (add_ids ids results) = set ids \<union> set results"
  by (induction ids arbitrary: results) (auto simp: add_ids_def)

lemma distinct_add_ids [simp]: "distinct results \<Longrightarrow> distinct (add_ids ids results)"
  by (induction ids arbitrary: results) (auto simp: add_ids_def)

lemma fold_add_ids:
  "set (fold (\<lambda>x. add_ids (f x)) xs results) = (\<Union>x \<in> set xs. set (f x)) \<union> set results"
  "distinct results \<Longrightarrow> distinct (fold (\<lambda>x. add_ids (f x)) xs results)"
  by (induction xs arbitrary: results) auto

lemma set_intersect_loop:
  "set (intersect_loop base wms) = {i \<in> set base. \<forall>(w, ids) \<in> set wms. i \<in> set ids}"
  by (induction base wms rule: intersect_loop.induct) auto

text \<open>The intersection does not depend on the order in which the map of matches is visited.\<close>

lemma intersect_any_order:
  assumes "wms \<noteq> []" and "iteration f" and "iteration g"
  shows "set (intersect_loop (snd (hd (f wms))) (g wms)) = {i. \<forall>(w, ids) \<in> set wms. i \<in> set ids}"
proof -
  have "f wms \<noteq> []" using assms by (metis iteration_length length_0_conv)
  then have "hd (f wms) \<in> set wms" using iteration_set [OF assms(2)] by (metis hd_in_set)
  then show ?thesis using assms(3) by (auto simp: set_intersect_loop)
qed

lemma text_step_exact:
  assumes "badger_ok B items writes" and "index_rep lower rels items db D" and "docs_ok rels D" and "order_ok M" and "sq_query q \<noteq> []"
  shows "set (text_step B lower M db q []) = ids_where D (text_match lower D (sq_query q))"
proof -
  let ?K = "known_words lower D (sq_query q)" and ?wms = "word_matches B lower M db (sq_query q)"
  have scan: "set (scan_ids B db 2 (wordPrefix w)) = ids_where D (\<lambda>u. w \<in> doc_words lower u)" for w
    by (rule scan_index_ids(4) [OF assms(1-3)])
  have "scan_ids B db 2 (wordPrefix w) \<noteq> [] \<longleftrightarrow> (\<exists>d \<in> D. w \<in> doc_words lower (fst d))" for w
    unfolding set_empty [symmetric] scan ids_where_def by blast
  then have wms: "set ?wms = (\<lambda>w. (w, scan_ids B db 2 (wordPrefix w))) ` ?K"
    using assms(4) by (auto simp: word_matches_def known_words_def long_words_def set_splitIntoWords order_ok_def)
  show ?thesis
  proof (cases "?wms = []")
    case True
    then have "?K = {}" using wms by simp
    with True assms(5) show ?thesis by (auto simp: text_step_def text_match_def ids_where_def)
  next
    case False
    then have ne: "?K \<noteq> {}" using wms by auto
    have "set (text_step B lower M db q []) = {i. \<forall>(w, ids) \<in> set ?wms. i \<in> set ids}"
      using False assms(4,5) by (simp add: text_step_def Let_def intersect_any_order order_ok_def)
    also have "\<dots> = {i. \<forall>w \<in> ?K. i \<in> ids_where D (\<lambda>u. w \<in> doc_words lower u)}"
      by (simp add: wms scan)
    also have "\<dots> = ids_where D (\<lambda>u. \<forall>w \<in> ?K. w \<in> doc_words lower u)"
      using ids_where_INT [OF assms(3) ne, of "\<lambda>w u. w \<in> doc_words lower u"] by blast
    finally show ?thesis using ne by (simp add: text_match_def [abs_def] subset_iff Ball_def)
  qed
qed

text \<open>Each step, on results that the earlier filters selected, or on no results when there were none.\<close>

lemma filter_ids_where:
  assumes "docs_ok rels D" and "set r = ids_where D P" and "\<And>i. Q i \<longleftrightarrow> i \<in> ids_where D R"
  shows "set (filter Q r) = ids_where D (\<lambda>u. P u \<and> R u)"
proof -
  have "set (filter Q r) = ids_where D P \<inter> ids_where D R" using assms(2,3) by auto
  then show ?thesis by (simp add: ids_where_inter [OF assms(1)])
qed

lemma context_step_exact:
  assumes "badger_ok B items writes" and "index_rep lower rels items db D" and "docs_ok rels D"
    and "set r = (if sq_query q = [] then {} else ids_where D P)" and "sq_query q = [] \<Longrightarrow> P = (\<lambda>u. True)"
  shows "set (context_step B db q r) = (if sq_query q = [] \<and> sq_contextID q = [] then {}
     else ids_where D (\<lambda>u. P u \<and> (sq_contextID q \<noteq> [] \<longrightarrow> wu_ContextId u = sq_contextID q)))"
proof (cases "sq_contextID q = [] \<or> sq_query q = []")
  case True
  then show ?thesis using assms(4,5) by (auto simp: context_step_def scan_index_ids [OF assms(1-3)])
next
  case False
  then have "set r = ids_where D P" using assms(4) by simp
  from filter_ids_where [OF assms(3) this has_index_key(1) [OF assms(1-3)]] False
  show ?thesis by (simp add: context_step_def)
qed

lemma agents_step_exact:
  assumes "badger_ok B items writes" and "index_rep lower rels items db D" and "docs_ok rels D"
    and "set r = (if sq_query q = [] \<and> sq_contextID q = [] then {} else ids_where D P)"
    and "sq_query q = [] \<and> sq_contextID q = [] \<Longrightarrow> P = (\<lambda>u. True)"
  shows "set (agents_step B db q r) = (if sq_query q = [] \<and> sq_contextID q = [] \<and> sq_agentIDs q = [] then {}
     else ids_where D (\<lambda>u. P u \<and> (sq_agentIDs q \<noteq> [] \<longrightarrow> wu_AgentId u \<in> set (sq_agentIDs q))))"
proof (cases "sq_agentIDs q = [] \<or> sq_query q = [] \<and> sq_contextID q = []")
  case True
  then show ?thesis
    using assms(4,5) by (auto simp: agents_step_def fold_add_ids scan_index_ids [OF assms(1-3)] ids_where_UN)
next
  case False
  then have r: "set r = ids_where D P" using assms(4) by auto
  have "(\<exists>a \<in> set (sq_agentIDs q). has_key B db (agentPrefix a @ i)) \<longleftrightarrow>
      i \<in> ids_where D (\<lambda>u. wu_AgentId u \<in> set (sq_agentIDs q))" for i
    by (auto simp: has_index_key [OF assms(1-3)] ids_where_def)
  from filter_ids_where [OF assms(3) r this] False show ?thesis by (auto simp: agents_step_def)
qed

lemma types_step_exact:
  assumes "badger_ok B items writes" and "index_rep lower rels items db D" and "docs_ok rels D"
    and "set r = (if sq_query q = [] \<and> sq_contextID q = [] \<and> sq_agentIDs q = [] then {} else ids_where D P)"
    and "sq_query q = [] \<and> sq_contextID q = [] \<and> sq_agentIDs q = [] \<Longrightarrow> P = (\<lambda>u. True)"
  shows "set (types_step B db q r) = (if no_other_filter q then {}
     else ids_where D (\<lambda>u. P u \<and> (sq_types q \<noteq> [] \<longrightarrow> wu_Type u \<in> set (sq_types q))))"
proof (cases "sq_types q = [] \<or> sq_query q = [] \<and> sq_contextID q = [] \<and> sq_agentIDs q = []")
  case True
  then show ?thesis
    using assms(4,5)
    by (auto simp: types_step_def fold_add_ids scan_index_ids [OF assms(1-3)] ids_where_UN no_other_filter_def)
next
  case False
  then have r: "set r = ids_where D P" using assms(4) by auto
  have "(\<exists>a \<in> set (sq_types q). has_key B db (typePrefix a @ i)) \<longleftrightarrow>
      i \<in> ids_where D (\<lambda>u. wu_Type u \<in> set (sq_types q))" for i
    by (auto simp: has_index_key [OF assms(1-3)] ids_where_def)
  from filter_ids_where [OF assms(3) r this] False show ?thesis by (auto simp: types_step_def no_other_filter_def)
qed

lemma meta_match_exact:
  assumes "badger_ok B items writes" and "index_rep lower rels items db D" and "docs_ok rels D" and "filters \<noteq> []"
  shows "meta_match B db filters i \<longleftrightarrow> i \<in> ids_where D (\<lambda>u. set filters \<subseteq> set (entries_of (wu_Meta u)))"
proof -
  have "meta_match B db filters i \<longleftrightarrow>
      i \<in> (\<Inter>e \<in> set filters. ids_where D (\<lambda>u. e \<in> set (entries_of (wu_Meta u))))"
    by (auto simp: meta_match_def has_index_key [OF assms(1-3)])
  then show ?thesis using assms(4) by (simp add: ids_where_INT [OF assms(3)] subset_eq del: INT_iff)
qed

lemma meta_step_exact:
  assumes "badger_ok B items writes" and "index_rep lower rels items db D" and "docs_ok rels D"
    and "set r = (if no_other_filter q then {} else ids_where D P)" and "no_other_filter q \<Longrightarrow> P = (\<lambda>u. True)"
  shows "set (fst (meta_step B db q r)) = (if no_other_filter q \<and> sq_metaFilters q = [] then {}
     else ids_where D (\<lambda>u. P u \<and> set (sq_metaFilters q) \<subseteq> set (entries_of (wu_Meta u))))"
proof (cases "sq_metaFilters q")
  case Nil
  then show ?thesis using assms(4,5) by (simp add: meta_step_def)
next
  case (Cons e filters)
  obtain k v where e: "e = (k, v)" by (cases e)
  show ?thesis
  proof (cases "no_other_filter q")
    case False
    then have "set r = ids_where D P" using assms(4) by simp
    from filter_ids_where [OF assms(3) this meta_match_exact [OF assms(1-3)]] False
    show ?thesis by (simp add: meta_step_def Cons e)
  next
    case True
    let ?r = "add_ids (scan_ids B db 3 (metaPrefix k v)) r"
    have r: "set ?r = ids_where D (\<lambda>u. (k, v) \<in> set (entries_of (wu_Meta u)))"
      using True assms(4) by (simp add: scan_index_ids [OF assms(1-3)])
    show ?thesis
    proof (cases "filters = []")
      case True
      with \<open>no_other_filter q\<close> r assms(5) show ?thesis by (simp add: meta_step_def Cons e Let_def)
    next
      case False
      from filter_ids_where [OF assms(3) r meta_match_exact [OF assms(1-3) False]] False \<open>no_other_filter q\<close> assms(5)
      show ?thesis by (simp add: meta_step_def Cons e Let_def del: set_add_ids set_filter)
    qed
  qed
qed

section \<open>The order of the results\<close>

lemma suffix_split:
  assumes "c \<notin> set xs"
  shows "suffix (c # xs) ys \<longleftrightarrow> (\<exists>front. front \<noteq> [] \<and> split_on c ys = front @ [xs])"
proof
  assume "suffix (c # xs) ys"
  then obtain zs where "ys = zs @ c # xs" by (auto simp: suffix_def)
  then show "\<exists>front. front \<noteq> [] \<and> split_on c ys = front @ [xs]"
    using assms by (auto simp: split_on_append2 split_on_single)
next
  assume "\<exists>front. front \<noteq> [] \<and> split_on c ys = front @ [xs]"
  then obtain front where "front \<noteq> []" "split_on c ys = front @ [xs]" by blast
  then have "ys = join_with c front @ c # xs" by (metis join_split join_with_append join_with.simps(2) list.discI)
  then show "suffix (c # xs) ys" by (simp add: suffix_def)
qed

lemma fold_latest:
  assumes "\<forall>k \<in> set ks. f k = None \<or> f k = Some t"
  shows "fold (\<lambda>key latestTs. case f key of Some ts \<Rightarrow> if ts > latestTs then ts else latestTs | None \<Rightarrow> latestTs) ks (m :: int) =
    (if \<exists>k \<in> set ks. f k = Some t then max m t else m)"
  using assms
proof (induction ks arbitrary: m)
  case (Cons k ks)
  then show ?case by (cases "f k = None") (auto simp: max_def)
qed simp

lemma ts_key_timestamp:
  assumes "docs_ok rels D" and "e \<in> D" and "no_colon i" and "parts key \<in> key_parts lower rels e" and "prefix ''ts:'' key"
  shows "key_timestamp i key = (if i = wu_Id (fst e) then Some (snd e) else None)"
proof -
  obtain rest where rest: "parts key = ''ts'' # rest"
    using assms(5) prefix_split [of "''ts''" "CHR '':''" key] by (auto simp: split_on_single)
  then have key: "parts key = [''ts'', wu_ContextId (fst e), sprintf_020d (snd e), wu_Id (fst e)]"
    using assms(4) by (simp add: mem_key_parts)
  have "suffix ('':'' @ i) key \<longleftrightarrow> i = wu_Id (fst e)"
    using suffix_split [OF assms(3), of key] by (auto simp: key append_eq_Cons_conv)
  moreover have "parseTimestampFromKey (sprintf_020d (snd e)) = Some (snd e)"
    using plain_fst [OF assms(1,2)] by (intro parse_pad_int) auto
  ultimately show ?thesis by (simp add: key_timestamp_def key Let_def)
qed

lemma latest_timestamp_exact:
  assumes "badger_ok B items writes" and "index_rep lower rels items db D" and "docs_ok rels D" and "d \<in> D"
  shows "latest_timestamp B db (wu_Id (fst d)) = max 0 (snd d)"
proof -
  let ?i = "wu_Id (fst d)" and ?ks = "scan_keys B db prefixTimestampSort"
  have ks: "set ?ks = {k \<in> fst ` set (items db). prefix ''ts:'' k}"
    by (auto simp: scan_keys_eq [OF assms(1)] index_prefix_defs)
  have "key_timestamp ?i k = None \<or> key_timestamp ?i k = Some (snd d)" if "k \<in> set ?ks" for k
  proof -
    from that have k: "parts k \<in> index_parts lower rels D" "prefix ''ts:'' k"
      using ks parts_items [OF assms(2,3)] by auto
    then obtain e where e: "e \<in> D" "parts k \<in> key_parts lower rels e" by (auto simp: mem_index_parts)
    have "?i = wu_Id (fst e) \<Longrightarrow> e = d" using assms(3,4) e(1) inj_onD [of "wu_Id \<circ> fst" D e d] by (simp add: docs_ok_def)
    then show ?thesis using ts_key_timestamp [OF assms(3) e(1) plain_fst(1) [OF assms(3,4)] e(2) k(2)] by auto
  qed
  moreover have "\<exists>k \<in> set ?ks. key_timestamp ?i k = Some (snd d)"
  proof
    let ?k = "tsPrefix (wu_ContextId (fst d)) (snd d) @ ?i"
    have mem: "?k \<in> doc_keys lower rels d" by (cases d) simp
    have pre: "prefix ''ts:'' ?k" by (simp add: tsPrefix_def index_prefix_defs)
    have "?k \<in> fst ` set (items db)" using mem assms(2,4) unfolding index_rep_def by blast
    with pre show "?k \<in> set ?ks" unfolding ks by blast
    have "parts ?k \<in> key_parts lower rels d" using mem parts_doc_keys [of rels d lower] assms(3,4) by (auto simp: docs_ok_def)
    then show "key_timestamp ?i ?k = Some (snd d)"
      using pre ts_key_timestamp [OF assms(3,4) plain_fst(1) [OF assms(3,4)]] by simp
  qed
  ultimately show ?thesis unfolding latest_timestamp_def by (subst fold_latest [where t = "snd d"]) auto
qed

text \<open>The newer documents come first; timestamps before the epoch count as the epoch.\<close>

definition newer :: "doc set \<Rightarrow> bytes \<Rightarrow> bytes \<Rightarrow> bool" where
  "newer D i j \<longleftrightarrow> (\<forall>d \<in> D. \<forall>e \<in> D. wu_Id (fst d) = i \<and> wu_Id (fst e) = j \<longrightarrow> max 0 (snd e) \<le> max 0 (snd d))"

lemma sorted_page_exact:
  assumes "badger_ok B items writes" and "index_rep lower rels items db D" and "docs_ok rels D" and "order_ok M"
    and "distinct r" and "0 \<le> sq_offset q" and "sq_offset q + page_limit q < 2 ^ 63"
  shows "\<exists>ids. sorted_page B M db q r = Ret (take (nat (page_limit q)) (drop (nat (sq_offset q)) ids)) \<and>
     length ids = length r \<and> distinct ids \<and> set ids = set r \<and> sorted_wrt (newer D) ids"
proof -
  let ?f = "\<lambda>i. (i, latest_timestamp B db i)" and ?L = "ids_by_timestamp B M db r"
  have it: "iteration (mo_keys M 1)" using assms(4) by (simp add: order_ok_def)
  have L: "mset ?L = mset (map ?f (mo_keys M 1 r))" by (simp add: ids_by_timestamp_def)
  then have "mset (map fst ?L) = mset (mo_keys M 1 r)" by (simp add: image_mset.compositionality o_def)
  then have ids: "set (map fst ?L) = set r" "distinct (map fst ?L)"
    using it assms(5) by (metis iteration_set mset_eq_setD, metis iteration_distinct mset_eq_imp_distinct_iff)
  have snd: "snd x = latest_timestamp B db (fst x)" if "x \<in> set ?L" for x
    using that mset_eq_setD [OF L] by auto
  have "sorted_wrt (\<lambda>x y. snd y \<le> snd x) ?L" by (simp add: ids_by_timestamp_def sorted_sortByTimestampDesc)
  then have "sorted_wrt (\<lambda>x y. newer D (fst x) (fst y)) ?L"
    by (rule sorted_wrt_mono_rel [rotated])
      (metis snd newer_def latest_timestamp_exact [OF assms(1-3)])
  then have "sorted_wrt (newer D) (map fst ?L)" by (simp add: sorted_wrt_map)
  moreover have "sorted_page B M db q r = Ret (take (nat (page_limit q)) (drop (nat (sq_offset q)) (map fst ?L)))"
  proof (cases "r = []")
    case False
    have "page (sq_offset q) (page_limit q) ?L = (Ret :: _ \<Rightarrow> (unit, _) outcome) (take (nat (page_limit q)) (drop (nat (sq_offset q)) ?L))"
      using assms(6,7) by (intro page_in_range) (auto simp: page_limit_def)
    with False show ?thesis by (simp add: sorted_page_def drop_map take_map)
  qed (use ids in \<open>simp add: sorted_page_def\<close>)
  moreover have "length (map fst ?L) = length r" using ids assms(5) by (metis distinct_card)
  ultimately show ?thesis using ids by blast
qed

section \<open>The query\<close>

lemma all_ids_exact:
  assumes "badger_ok B items writes" and "index_rep lower rels items db D" and "docs_ok rels D"
  shows "set (all_ids B db) = ids_where D (\<lambda>u. True)" and "distinct (all_ids B db)"
proof -
  have key: "parts (''wu:'' @ i) \<in> index_parts lower rels D \<longleftrightarrow> i \<in> ids_where D (\<lambda>u. True)" for i
    unfolding parts_literals mem_index_parts mem_key_parts mem_ids_where
    by (rule bex_cong [OF refl]) (use plain_fst(1) [OF assms(3)] in \<open>auto simp: split_on_eq_single\<close>)
  have "''wu:'' @ i \<in> fst ` set (items db) \<longleftrightarrow> i \<in> ids_where D (\<lambda>u. True)" for i
    using has_key_parts [OF assms, of "''wu:'' @ i"] key [of i] has_key_eq [OF assms(1), of db "''wu:'' @ i"] by blast
  then have "ids_where D (\<lambda>u. True) = {i. ''wu:'' @ i \<in> fst ` set (items db)}" by blast
  moreover have "set (all_ids B db) = drop 3 ` {k \<in> fst ` set (items db). prefix ''wu:'' k}"
    by (simp add: all_ids_def scan_keys_eq [OF assms(1)] index_prefix_defs numeral_3_eq_3)
  moreover have "drop 3 ` {k \<in> K. prefix ''wu:'' k} = {i. ''wu:'' @ i \<in> K}" for K
    by (auto simp: prefix_def intro!: image_eqI [of _ _ "''wu:'' @ _"])
  ultimately show "set (all_ids B db) = ids_where D (\<lambda>u. True)" by simp
  have "distinct (map fst (items db))"
    using badger_ok_sorted [OF assms(1), of db] strict_sorted_iff by blast
  moreover have "inj_on (drop 3) {k. prefix ''wu:'' k}" by (auto simp: inj_on_def prefix_def)
  ultimately show "distinct (all_ids B db)"
    by (auto simp: all_ids_def scan_keys_eq [OF assms(1)] index_prefix_defs distinct_map inj_on_def numeral_3_eq_3)
qed

text \<open>What the steps collect.\<close>

lemma distinct_steps:
  "distinct (text_step B lower M db q [])"
  "distinct r \<Longrightarrow> distinct (context_step B db q r)"
  "distinct r \<Longrightarrow> distinct (agents_step B db q r)"
  "distinct r \<Longrightarrow> distinct (types_step B db q r)"
  "distinct r \<Longrightarrow> distinct (fst (meta_step B db q r))"
  by (auto simp: text_step_def context_step_def agents_step_def types_step_def meta_step_def fold_add_ids Let_def
      split: list.splits)

lemma collect_exact:
  assumes "badger_ok B items writes" and "index_rep lower rels items db D" and "docs_ok rels D" and "order_ok M"
  shows "set (fst (collect_steps B lower M db q)) = (if no_other_filter q \<and> sq_metaFilters q = [] then {} else ids_where D (query_match lower D q))"
    and "distinct (fst (collect_steps B lower M db q))"
proof -
  let ?r1 = "text_step B lower M db q []" and ?P1 = "\<lambda>u. sq_query q \<noteq> [] \<longrightarrow> text_match lower D (sq_query q) u"
  have r1: "set ?r1 = (if sq_query q = [] then {} else ids_where D ?P1)"
    using text_step_exact [OF assms(1-4), of q] by (simp add: text_step_def)
  note r2 = context_step_exact [OF assms(1-3) r1]
  note r3 = agents_step_exact [OF assms(1-3) r2]
  note r4 = types_step_exact [OF assms(1-3) r3]
  note r5 = meta_step_exact [OF assms(1-3) r4]
  have eq: "query_match lower D q = (\<lambda>u. ((((sq_query q \<noteq> [] \<longrightarrow> text_match lower D (sq_query q) u) \<and>
      (sq_contextID q \<noteq> [] \<longrightarrow> wu_ContextId u = sq_contextID q)) \<and>
      (sq_agentIDs q \<noteq> [] \<longrightarrow> wu_AgentId u \<in> set (sq_agentIDs q))) \<and>
      (sq_types q \<noteq> [] \<longrightarrow> wu_Type u \<in> set (sq_types q))) \<and> set (sq_metaFilters q) \<subseteq> set (entries_of (wu_Meta u)))"
    by (simp add: fun_eq_iff query_match_def)
  show "set (fst (collect_steps B lower M db q)) = (if no_other_filter q \<and> sq_metaFilters q = [] then {} else ids_where D (query_match lower D q))"
    unfolding collect_steps_def eq by (rule r5) (simp_all add: no_other_filter_def)
  show "distinct (fst (collect_steps B lower M db q))" unfolding collect_steps_def by (intro distinct_steps)
qed

lemma search_page:
  assumes "badger_ok B items writes" and "index_rep lower no_rels items db D" and "docs_ok no_rels D" and "order_ok M"
    and "\<not> special_system q" and "\<not> special_vegetable q" and "no_other_filter q \<Longrightarrow> length (sq_metaFilters q) \<noteq> 1"
    and "0 \<le> sq_offset q" and "sq_offset q + page_limit q < 2 ^ 63"
  shows "\<exists>ids. SearchSearch B lower M q db =
       Ret (take (nat (page_limit q)) (drop (nat (sq_offset q)) ids), length ids) \<and>
     set ids = ids_where D (query_match lower D q) \<and> distinct ids \<and> sorted_wrt (newer D) ids"
proof -
  let ?r = "fst (collect_steps B lower M db q)" and ?all = "no_other_filter q \<and> sq_metaFilters q = []"
  let ?results = "if ?all then all_ids B db else ?r"
  have left: "no_other_filter q \<and> snd (collect_steps B lower M db q) = [] \<longleftrightarrow> ?all"
    using assms(7) by (cases "sq_metaFilters q") (auto simp: collect_steps_def meta_step_def Let_def)
  note r = collect_exact [OF assms(1-4)] and ai = all_ids_exact [OF assms(1-3)]
  have empty: "?r = []" if ?all using r(1) [of q] that by simp
  have match: "query_match lower D q = (\<lambda>u. True)" if ?all
    using that by (simp add: fun_eq_iff query_match_def no_other_filter_def)
  have results: "set ?results = ids_where D (query_match lower D q)" "distinct ?results"
    using r ai match by auto
  have "SearchSearch B lower M q db = map_ret (\<lambda>ids. (ids, length ?results)) (sorted_page B M db q ?results)"
    using left empty assms(5,6)
    by (cases ?all) (auto simp: SearchSearch_def collect_results_def Let_def split: prod.splits)
  moreover obtain ids where "sorted_page B M db q ?results = Ret (take (nat (page_limit q)) (drop (nat (sq_offset q)) ids))"
    "length ids = length ?results" "distinct ids" "set ids = set ?results" "sorted_wrt (newer D) ids"
    using sorted_page_exact [OF assms(1-4) results(2) assms(8,9)] by blast
  ultimately show ?thesis using results(1) by (intro exI [of _ ids]) simp
qed

text \<open>C20. A query returns, newest first, one page of the identifiers of exactly the documents that satisfy every one of its
  filters, without duplicates, and their number. Excluded are the two queries that are answered without the
  index and the query with a single metadata filter and no other, which have properties of their own.\<close>

theorem search_exact:
  assumes "badger_ok B items writes" and "index_rep lower no_rels items db D" and "docs_ok no_rels D" and "order_ok M"
    and "\<not> special_system q" and "\<not> special_vegetable q" and "no_other_filter q \<Longrightarrow> length (sq_metaFilters q) \<noteq> 1"
    and "0 \<le> sq_offset q" and "sq_offset q + page_limit q < 2 ^ 63"
  shows "\<exists>ids. SearchSearch B lower M q db =
       Ret (take (nat (page_limit q)) (drop (nat (sq_offset q)) ids), length ids) \<and>
     set ids = ids_where D (query_match lower D q) \<and> distinct ids \<and> sorted_wrt (newer D) ids"
  by (rule search_page [OF assms])

text \<open>A query with one metadata filter and no other. The filter is deleted from the map once it has been used, and the query
  then counts as one without filters.\<close>

lemma single_meta_steps:
  assumes "badger_ok B items writes" and "index_rep lower rels items db D" and "docs_ok rels D" and "order_ok M"
    and "no_other_filter q" and "sq_metaFilters q = [(k, v)]" and "(k, v) \<noteq> (''category'', ''vegetable'')"
  shows "collect_results B lower M db q = (fst (collect_steps B lower M db q), [])"
proof -
  have "\<not> special_system q" "\<not> special_vegetable q"
    using assms(5-7) by (auto simp: special_system_def special_vegetable_def no_other_filter_def)
  then show ?thesis using assms(5,6) by (simp add: collect_results_def collect_steps_def meta_step_def prod_eq_iff)
qed

lemma single_meta_page:
  assumes "badger_ok B items writes" and "index_rep lower no_rels items db D" and "docs_ok no_rels D" and "order_ok M"
    and "no_other_filter q" and "sq_metaFilters q = [(k, v)]" and "(k, v) \<noteq> (''category'', ''vegetable'')"
    and "0 \<le> sq_offset q" and "sq_offset q + page_limit q < 2 ^ 63" and "D \<noteq> {}"
  defines "hits \<equiv> ids_where D (\<lambda>u. (k, v) \<in> set (entries_of (wu_Meta u)))"
  shows "\<exists>ids. SearchSearch B lower M q db =
       Ret (take (nat (page_limit q)) (drop (nat (sq_offset q)) ids), card D) \<and>
     set ids = (if hits = {} then ids_where D (\<lambda>u. True) else hits) \<and> distinct ids"
proof -
  let ?r = "fst (collect_steps B lower M db q)" and ?a = "all_ids B db"
  let ?results = "if ?r = [] then ?a else ?r"
  note ai = all_ids_exact [OF assms(1-3)]
  have "query_match lower D q = (\<lambda>u. (k, v) \<in> set (entries_of (wu_Meta u)))"
    using assms(5,6) by (simp add: fun_eq_iff query_match_def no_other_filter_def)
  then have r: "set ?r = hits" "distinct ?r" using collect_exact [OF assms(1-4), of q] assms(6) by (simp_all add: hits_def)
  have card: "length ?a = card D"
    using ai assms(3) by (metis card_image distinct_card docs_ok_def ids_where_True)
  have "ids_where D (\<lambda>u. True) \<noteq> {}" using assms(10) by (auto simp: ids_where_True)
  then have ne: "?a \<noteq> []" using ai(1) by auto
  have "SearchSearch B lower M q db = map_ret (\<lambda>ids. (ids, card D)) (sorted_page B M db q ?results)"
    using ne card assms(5) single_meta_steps [OF assms(1-7)] by (simp add: SearchSearch_def Let_def)
  moreover have "distinct ?results" using r ai by simp
  moreover have "set ?results = (if hits = {} then ids_where D (\<lambda>u. True) else hits)" using r ai by auto
  moreover obtain ids where "sorted_page B M db q ?results = Ret (take (nat (page_limit q)) (drop (nat (sq_offset q)) ids))"
    "set ids = set ?results" "distinct ids"
    using sorted_page_exact [OF assms(1-4) \<open>distinct ?results\<close> assms(8,9)] by blast
  ultimately show ?thesis by (intro exI [of _ ids]) simp
qed

text \<open>A query for one metadata entry and nothing else reports the number of all documents as the number of its results,
  and returns all documents when no document has the entry.\<close>

lemma search_single_meta:
  assumes "badger_ok B items writes" and "index_rep lower no_rels items db D" and "docs_ok no_rels D" and "order_ok M"
    and "no_other_filter q" and "sq_metaFilters q = [(k, v)]" and "(k, v) \<noteq> (''category'', ''vegetable'')"
    and "0 \<le> sq_offset q" and "sq_offset q + page_limit q < 2 ^ 63" and "D \<noteq> {}"
  defines "hits \<equiv> ids_where D (\<lambda>u. (k, v) \<in> set (entries_of (wu_Meta u)))"
  shows "\<exists>ids. SearchSearch B lower M q db =
       Ret (take (nat (page_limit q)) (drop (nat (sq_offset q)) ids), card D) \<and>
     set ids = (if hits = {} then ids_where D (\<lambda>u. True) else hits) \<and> distinct ids"
  unfolding hits_def by (rule single_meta_page [OF assms(1-10)])

text \<open>Two queries of the package's own tests are answered without the index: whatever is stored, a query for the type
  \<open>SYSTEM\<close> alone names \<open>test-unit-2\<close> and one for the category \<open>vegetable\<close> names \<open>test-unit-3\<close>, as the only result.\<close>

lemma search_test_stubs:
  assumes "order_ok M" and "sq_offset q = 0" and "page_limit q < 2 ^ 63"
  shows "(special_system q \<longrightarrow> SearchSearch B lower M q db = Ret ([''test-unit-2''], 1)) \<and>
     (special_vegetable q \<and> \<not> special_system q \<longrightarrow> SearchSearch B lower M q db = Ret ([''test-unit-3''], 1))"
proof -
  have "sorted_page B M db q [i] = Ret [i]" for i
  proof -
    have "mset (mo_keys M 1 [i]) = {#i#}" using assms(1) by (simp add: order_ok_def iteration_def)
    then have keys: "mo_keys M 1 [i] = [i]" by (metis mset.simps(1,2) mset_single_iff_right)
    have "page 0 (page_limit q) [(i, t)] = (Ret [(i, t)] :: (unit, _) outcome)" for t :: int
      using assms(3) page_in_range [of 0 "page_limit q" "[(i, t)]"]
      by (auto simp: page_limit_def split: if_splits)
    then show ?thesis using assms(2) keys by (simp add: sorted_page_def ids_by_timestamp_def)
  qed
  then show ?thesis
    by (auto simp: SearchSearch_def collect_results_def special_system_def special_vegetable_def no_other_filter_def)
qed

section \<open>An index with two documents\<close>

definition ex_order :: map_order where
  "ex_order = \<lparr>mo_keys = (\<lambda>i xs. xs), mo_words = (\<lambda>i xs. xs)\<rparr>"

definition ex_unit :: "bytes \<Rightarrow> bytes \<Rightarrow> gotime \<Rightarrow> WorkUnit" where
  "ex_unit i c t = \<lparr>wu_Id = i, wu_ContextId = c, wu_AgentId = ''a'', wu_Type = WorkUnitType_MESSAGE, wu_Ts = Some t,
     wu_Meta = Some [(''lang'', ''go'')], wu_Payload = Some ''text'', wu_Relationships = []\<rparr>"

definition ex_units :: "WorkUnit list" where
  "ex_units = [ex_unit ''u1'' ''c1'' 5, ex_unit ''u2'' ''c2'' 7]"

definition ex_index :: ref_db where
  "ex_index = indexBatch ref_badger (\<lambda>s. s) ex_order 0 ex_units ref_empty"

definition ex_query :: "bytes \<Rightarrow> (bytes \<times> bytes) list \<Rightarrow> SearchQuery" where
  "ex_query c meta = \<lparr>sq_query = [], sq_contextID = c, sq_agentIDs = [], sq_types = [], sq_metaFilters = meta,
     sq_limit = 0, sq_offset = 0\<rparr>"

abbreviation ex_docs :: "doc set" where
  "ex_docs \<equiv> batch_docs 0 ex_units"

lemma ex_docs_eq: "ex_docs = {(ex_unit ''u1'' ''c1'' 5, 5), (ex_unit ''u2'' ''c2'' 7, 7)}"
  by (auto simp: batch_docs_def ex_units_def ex_unit_def unit_timestamp_def)

lemma ex_order_ok: "order_ok ex_order"
  by (simp add: order_ok_def ex_order_def)

lemma ex_index_rep: "index_rep (\<lambda>s. s) no_rels ref_items ex_index ex_docs"
proof -
  have "index_rep (\<lambda>s. s) no_rels ref_items ref_empty {}" by (simp add: index_rep_def)
  from indexBatch_rep [OF ref_badger_ok ref_badger_total ex_order_ok this] show ?thesis
    unfolding ex_index_def by simp
qed

lemma ex_docs_ok: "docs_ok no_rels ex_docs"
  by (simp add: docs_ok_def ex_docs_eq ex_unit_def no_rels_def)

lemmas ex_index_facts = ref_badger_ok ex_index_rep ex_docs_ok ex_order_ok

lemma ex_query_facts:
  "\<not> special_system (ex_query c meta)" "special_vegetable (ex_query c meta) \<longleftrightarrow> meta = [(''category'', ''vegetable'')]"
  "no_other_filter (ex_query c meta) \<longleftrightarrow> c = []" "sq_offset (ex_query c meta) = 0" "page_limit (ex_query c meta) = 10"
  "sq_metaFilters (ex_query c meta) = meta"
  by (auto simp: ex_query_def special_system_def special_vegetable_def no_other_filter_def page_limit_def)

lemma search_exact_witness:
  "\<exists>ids. SearchSearch ref_badger (\<lambda>s. s) ex_order (ex_query ''c1'' []) ex_index = Ret (take 10 ids, length ids) \<and>
     set ids = {''u1''} \<and> distinct ids"
proof -
  have "ids_where ex_docs (query_match (\<lambda>s. s) ex_docs (ex_query ''c1'' [])) = {''u1''}"
    by (simp add: ids_where_insert ex_docs_eq query_match_def ex_query_def ex_unit_def)
  with search_exact [OF ex_index_facts, of "ex_query ''c1'' []"] show ?thesis by (auto simp: ex_query_facts)
qed

lemma search_single_meta_witness:
  "\<exists>ids. SearchSearch ref_badger (\<lambda>s. s) ex_order (ex_query [] [(''lang'', ''c'')]) ex_index = Ret (take 10 ids, 2) \<and>
     set ids = {''u1'', ''u2''} \<and> distinct ids"
proof -
  have "ids_where ex_docs (\<lambda>u. (''lang'', ''c'') \<in> set (entries_of (wu_Meta u))) = {}" "card ex_docs = 2"
    "ids_where ex_docs (\<lambda>u. True) = {''u1'', ''u2''}" "ex_docs \<noteq> {}"
    by (auto simp: ids_where_insert ex_docs_eq ex_unit_def)
  with search_single_meta [OF ex_index_facts, of "ex_query [] [(''lang'', ''c'')]" "''lang''" "''c''"] show ?thesis
    by (auto simp: ex_query_facts)
qed

lemma search_test_stubs_witness:
  "SearchSearch ref_badger (\<lambda>s. s) ex_order (ex_query [] [(''category'', ''vegetable'')]) ref_empty = Ret ([''test-unit-3''], 1)"
  using search_test_stubs [OF ex_order_ok, of "ex_query [] [(''category'', ''vegetable'')]"] by (simp add: ex_query_facts)

end
