(* ===== verification/Search_Indexer.thy ===== *)
theory Search_Indexer
  imports Search_Query
begin

text \<open>
  The goroutine that collects batches for the index, for any index that represents a set of documents: what has been
  received is indexed but for a pending batch, and everything is indexed when the goroutine has ended.
\<close>

section \<open>An index of documents\<close>

fun received :: "search_event list \<Rightarrow> WorkUnit list" where
  "received [] = []"
| "received (SRecv now u # evs) = u # received evs"
| "received (ev # evs) = received evs"

fun enqueued :: "search_event list \<Rightarrow> WorkUnit list" where
  "enqueued [] = []"
| "enqueued (SEnqueue u # evs) = u # enqueued evs"
| "enqueued (ev # evs) = enqueued evs"

lemma received_append [simp]: "received (evs @ evs') = received evs @ received evs'"
  by (induction evs rule: received.induct) auto

lemma enqueued_append [simp]: "enqueued (evs @ evs') = enqueued evs @ enqueued evs'"
  by (induction evs rule: enqueued.induct) auto

definition stamped :: "WorkUnit list \<Rightarrow> bool" where
  "stamped us \<longleftrightarrow> (\<forall>u \<in> set us. wu_Ts u \<noteq> None)"

lemma batch_docs_stamped: "stamped us \<Longrightarrow> batch_docs now us = batch_docs 0 us"
  by (fastforce simp: batch_docs_def stamped_def unit_timestamp_def)

lemma batch_docs_append: "batch_docs now (us @ vs) = batch_docs now us \<union> batch_docs now vs"
  by (auto simp: batch_docs_def)

locale document_index =
  fixes idx :: "gotime \<Rightarrow> WorkUnit list \<Rightarrow> 'db \<Rightarrow> 'db"
    and rep :: "'db \<Rightarrow> doc set \<Rightarrow> bool"
  assumes rep_idx: "rep db D \<Longrightarrow> rep (idx now units db) (D \<union> batch_docs now units)"
begin

definition progress :: "nat \<Rightarrow> doc set \<Rightarrow> WorkUnit list \<Rightarrow> 'db Search \<Rightarrow> bool" where
  "progress n D us s \<longleftrightarrow> length (se_batch s) < n \<and> se_open s \<and> (\<not> se_running s \<longrightarrow> se_batch s = []) \<and>
     (\<exists>indexed. us = indexed @ se_batch s \<and> rep (se_db s) (D \<union> batch_docs 0 indexed))"

lemma progress_flush:
  assumes "us = indexed @ se_batch s" and "rep (se_db s) (D \<union> batch_docs 0 indexed)" and "stamped us" and "0 < n"
    and "se_open s"
  shows "progress n D us ((flush_batch idx now s)\<lparr>se_running := r\<rparr>)"
proof (cases "se_batch s = []")
  case True
  then show ?thesis using assms by (simp add: progress_def flush_batch_def)
next
  case False
  have "stamped (se_batch s)" using assms(1,3) by (auto simp: stamped_def)
  then have "batch_docs now (se_batch s) = batch_docs 0 (se_batch s)" by (rule batch_docs_stamped)
  then have "rep (idx now (se_batch s) (se_db s)) (D \<union> batch_docs 0 us)"
    using rep_idx [OF assms(2), of now "se_batch s"] by (simp add: assms(1) batch_docs_append Un_assoc)
  with False assms(4,5) show ?thesis by (simp add: progress_def flush_batch_def)
qed

lemma progress_step:
  assumes "search_step n idx s ev t" and "progress n D us s" and "stamped (us @ received [ev])" and "0 < n" and "se_open t"
  shows "progress n D (us @ received [ev]) t"
  using assms(1)
proof cases
  case (enqueue u)
  then show ?thesis using assms(2)
    by (auto simp: progress_def search_enqueue_def split: send_result.splits)
next
  case (recv u us' now)
  obtain indexed where i: "us = indexed @ se_batch s" "rep (se_db s) (D \<union> batch_docs 0 indexed)" "se_open s"
    using assms(2) by (auto simp: progress_def)
  let ?s = "s\<lparr>se_queue := (se_queue s)\<lparr>ch_buf := us'\<rparr>, se_batch := se_batch s @ [u]\<rparr>"
  have "progress n D (us @ [u]) ((flush_batch idx now ?s)\<lparr>se_running := se_running s\<rparr>)"
    using i assms(3,4) recv by (intro progress_flush [of _ indexed]) auto
  moreover have "(flush_batch idx now ?s)\<lparr>se_running := se_running s\<rparr> = flush_batch idx now ?s"
    by (simp add: flush_batch_def)
  moreover have "progress n D (us @ [u]) ?s" if "\<not> n \<le> length (se_batch s @ [u])"
    using that i recv by (auto simp: progress_def)
  ultimately show ?thesis using recv by (simp add: queue_recv_def Let_def)
next
  case (closed now)
  then show ?thesis using assms(2-4) by (auto simp: progress_def [of n D us s] intro: progress_flush)
next
  case (tick now)
  have "flush_batch idx now s = (flush_batch idx now s)\<lparr>se_running := se_running s\<rparr>" by (simp add: flush_batch_def)
  then show ?thesis using tick assms(2-4) progress_flush [where s = s and us = us and D = D and n = n and now = now and r = "se_running s"]
    by (auto simp: progress_def [of n D us s])
next
  case (cancel now)
  then show ?thesis using assms(2-4) by (auto simp: progress_def [of n D us s] intro: progress_flush)
next
  case shutdown
  then show ?thesis using assms(2) by (simp add: progress_def)
next
  case db_close
  then show ?thesis using assms(5) by simp
qed

lemma run_progress:
  assumes "search_run n idx (NewSearch db) evs s" and "rep db D" and "stamped (received evs)" and "0 < n"
    and "se_open s"
  shows "progress n D (received evs) s"
  using assms(1,3,5)
proof (induction "NewSearch db" evs s rule: search_run.induct)
  case run_init
  then show ?case using assms(2,4) by (simp add: progress_def NewSearch_def batch_docs_def)
next
  case (run_step evs t ev u)
  have "se_open t" using run_step(3,5) by cases (auto simp: flush_batch_def queue_recv_def Let_def search_enqueue_def
        split: send_result.splits if_splits)
  then show ?case using run_step progress_step [OF run_step(3)] assms(4) by (auto simp: stamped_def)
qed

end

text \<open>What is received was sent, in order; a full queue drops units.\<close>

lemma run_subseq:
  "search_run n idx s evs t \<Longrightarrow> s = NewSearch db \<Longrightarrow> subseq (received evs @ ch_buf (se_queue t)) (enqueued evs)"
proof (induction rule: search_run.induct)
  case (run_init s)
  then show ?case by (simp add: NewSearch_def)
next
  case (run_step s evs t ev u)
  have "subseq (received evs @ ch_buf (se_queue t)) (enqueued evs)" using run_step by simp
  with run_step(2) show ?case
  proof (cases rule: search_step.cases)
    case (enqueue v)
    with \<open>subseq _ _\<close> show ?thesis
      by (auto simp: search_enqueue_def try_send_def split: if_splits simp flip: append_assoc intro: subseq_rev_drop_many)
  qed (auto simp: flush_batch_def queue_recv_def Let_def)
qed

section \<open>The search index\<close>

text \<open>A working database whose keys are those of a set of documents.\<close>

definition search_rep ::
  "('db, 'txn) badger \<Rightarrow> ('db \<Rightarrow> (bytes \<times> bytes) list) \<Rightarrow> ('txn \<Rightarrow> (bytes \<times> bytes option) list) \<Rightarrow> (bytes \<Rightarrow> bytes) \<Rightarrow>
   map_order \<Rightarrow> relations \<Rightarrow> 'db \<Rightarrow> doc set \<Rightarrow> bool" where
  "search_rep B items writes lower M rels db D \<longleftrightarrow>
     badger_ok B items writes \<and> badger_total B \<and> order_ok M \<and> index_rep lower rels items db D"

interpretation si: document_index "indexBatch B lower M" "search_rep B items writes lower M no_rels"
  by unfold_locales (auto simp: search_rep_def intro: indexBatch_rep)

text \<open>C21. While its database is open, the indexing goroutine has indexed everything it has received except for less than one
  batch, and everything once it has ended; what it receives are the units sent to it, in order, less those dropped
  because the queue was full.\<close>

theorem indexer_complete:
  assumes "search_run index_batchSize (indexBatch B lower M) (NewSearch db) evs s" and "se_open s"
    and "search_rep B items writes lower M no_rels db D" and "stamped (received evs)"
  shows "\<exists>indexed pending. received evs = indexed @ pending \<and> length pending < index_batchSize \<and>
     (\<not> se_running s \<longrightarrow> pending = []) \<and> search_rep B items writes lower M no_rels (se_db s) (D \<union> batch_docs 0 indexed) \<and>
     subseq (received evs @ ch_buf (se_queue s)) (enqueued evs)"
  using si.run_progress [OF assms(1,3,4) _ assms(2)] run_subseq [OF assms(1) refl]
  by (auto simp: si.progress_def index_batchSize_def)

text \<open>\<open>Shutdown\<close> may lose the pending batch: it closes the database without waiting for the goroutine, whose last
  transaction then fails.\<close>

lemma shutdown_loses_batch:
  assumes "se_running s" and "ch_buf (se_queue s) = []" and "\<not> ch_closed (se_queue s)" and "se_batch s \<noteq> []"
  shows "\<exists>t. search_run n idx s [SShutdown, SDbClose, SClosed now] t \<and> \<not> se_running t \<and> se_batch t = [] \<and> se_db t = se_db s"
proof -
  let ?s1 = "s\<lparr>se_queue := close_chan (se_queue s)\<rparr>"
  let ?s2 = "?s1\<lparr>se_open := False\<rparr>"
  have 1: "search_step n idx s SShutdown ?s1" by (rule shutdown [OF assms(3)])
  have 2: "search_step n idx ?s1 SDbClose ?s2" by (rule db_close) simp
  have 3: "search_step n idx ?s2 (SClosed now) ((flush_batch idx now ?s2)\<lparr>se_running := False\<rparr>)"
    using assms by (intro closed) simp_all
  from run_step [OF run_step [OF run_step [OF run_init 1] 2] 3] show ?thesis
    using assms(4) by (auto simp: flush_batch_def)
qed

text \<open>A run that indexes the two units of the example.\<close>

lemma ex_search_rep: "search_rep ref_badger ref_items (\<lambda>t. t) (\<lambda>s. s) ex_order no_rels ref_empty {}"
  by (simp add: search_rep_def ref_badger_ok ex_order_ok index_rep_def)

lemma ex_run:
  "search_run n idx (NewSearch db) [SEnqueue u] (NewSearch db\<lparr>se_queue := (make_chan 1000)\<lparr>ch_buf := [u]\<rparr>\<rparr>)"
proof -
  have "search_step n idx (NewSearch db) (SEnqueue u) (NewSearch db\<lparr>se_queue := (make_chan 1000)\<lparr>ch_buf := [u]\<rparr>\<rparr>)"
    by (rule enqueue) (simp add: search_enqueue_def try_send_def NewSearch_def)
  from run_step [OF run_init this] show ?thesis by simp
qed

lemma ex_run_recv:
  "search_run 100 idx (NewSearch db) [SEnqueue u, SRecv 0 u] (NewSearch db\<lparr>se_queue := (make_chan 1000)\<lparr>ch_buf := []\<rparr>, se_batch := [u]\<rparr>)"
proof -
  let ?s = "NewSearch db\<lparr>se_queue := (make_chan 1000)\<lparr>ch_buf := [u]\<rparr>\<rparr>"
  have "search_step 100 idx ?s (SRecv 0 u) (queue_recv 100 idx 0 u (?s\<lparr>se_queue := (se_queue ?s)\<lparr>ch_buf := []\<rparr>\<rparr>))"
    by (rule recv) (simp_all add: NewSearch_def)
  from run_step [OF ex_run this] show ?thesis by (simp add: queue_recv_def Let_def NewSearch_def)
qed

lemma indexer_complete_witness:
  "\<exists>s. search_run index_batchSize (indexBatch ref_badger (\<lambda>s. s) ex_order) (NewSearch ref_empty)
       [SEnqueue (ex_unit ''u1'' ''c1'' 5), SRecv 0 (ex_unit ''u1'' ''c1'' 5), SCancel 1] s \<and>
     search_rep ref_badger ref_items (\<lambda>t. t) (\<lambda>s. s) ex_order no_rels (se_db s) (batch_docs 0 [ex_unit ''u1'' ''c1'' 5])"
proof -
  let ?u = "ex_unit ''u1'' ''c1'' 5" and ?idx = "indexBatch ref_badger (\<lambda>s. s) ex_order"
  let ?s = "NewSearch ref_empty\<lparr>se_queue := (make_chan 1000)\<lparr>ch_buf := []\<rparr>, se_batch := [?u]\<rparr>"
  let ?t = "(flush_batch ?idx 1 ?s)\<lparr>se_running := False\<rparr>"
  have "search_step 100 ?idx ?s (SCancel 1) ?t" by (rule cancel) (simp add: NewSearch_def)
  from run_step [OF ex_run_recv this]
  have run: "search_run index_batchSize ?idx (NewSearch ref_empty) [SEnqueue ?u, SRecv 0 ?u, SCancel 1] ?t"
    by (simp add: index_batchSize_def)
  have "se_open ?t" "\<not> se_running ?t" by (simp_all add: flush_batch_def NewSearch_def)
  moreover have "stamped (received [SEnqueue ?u, SRecv 0 ?u, SCancel 1])" by (simp add: stamped_def ex_unit_def)
  ultimately show ?thesis using run indexer_complete [OF run _ ex_search_rep] by auto
qed

lemma shutdown_loses_batch_witness:
  "\<exists>t. search_run 100 (indexBatch ref_badger (\<lambda>s. s) ex_order) (NewSearch ref_empty\<lparr>se_batch := [ex_unit ''u1'' ''c1'' 5]\<rparr>)
       [SShutdown, SDbClose, SClosed 9] t \<and> \<not> se_running t \<and> se_batch t = [] \<and> se_db t = ref_empty"
  using shutdown_loses_batch [of "NewSearch ref_empty\<lparr>se_batch := [ex_unit ''u1'' ''c1'' 5]\<rparr>"] by (simp add: NewSearch_def)

end
