(* ===== verification/Search_Backend.thy ===== *)
theory Search_Backend
  imports Search_Indexer Go_Json
begin

text \<open>
  The search backends and the engine in front of them: the backend of \<open>internal/search/factory.go\<close>, which wraps
  \<open>Search\<close>, the backend of \<open>internal/search/badger_backend.go\<close> with its own index of relationships, and
  the coordinator of \<open>internal/search/engine.go\<close>. Both files declare the type \<open>BadgerBackend\<close>; the names here
  start with \<open>fb\<close> and \<open>bb\<close>. The similarity scores, which no Badger backend computes, are left out.
\<close>

section \<open>Options and results\<close>

record SearchOptions = SearchQuery +
  so_IncludeFull :: bool

record SearchResults =
  sr_IDs :: "bytes list"
  sr_WorkUnits :: "WorkUnit list"
  sr_TotalCount :: nat

section \<open>The backend of the factory\<close>

definition fb_IndexBatch ::
  "('db, 'txn) badger \<Rightarrow> (bytes \<Rightarrow> bytes) \<Rightarrow> map_order \<Rightarrow> gotime \<Rightarrow> WorkUnit list \<Rightarrow> 'db \<Rightarrow> 'db" where
  "fb_IndexBatch B lower M now units db = indexBatch B lower M now units db"

definition fb_Index ::
  "('db, 'txn) badger \<Rightarrow> (bytes \<Rightarrow> bytes) \<Rightarrow> map_order \<Rightarrow> gotime \<Rightarrow> WorkUnit \<Rightarrow> 'db \<Rightarrow> 'db" where
  "fb_Index B lower M now unit db = indexBatch B lower M now [unit] db"

definition fb_Search ::
  "('db, 'txn) badger \<Rightarrow> (bytes \<Rightarrow> bytes) \<Rightarrow> map_order \<Rightarrow> SearchOptions \<Rightarrow> 'db \<Rightarrow> (unit, SearchResults) outcome" where
  "fb_Search B lower M options db =
     map_ret (\<lambda>(ids, total). \<lparr>sr_IDs = ids, sr_WorkUnits = [], sr_TotalCount = total\<rparr>)
       (SearchSearch B lower M (SearchQuery.truncate options) db)"

text \<open>Relationships as metadata: the filter is added to the map of the options; \<open>ord\<close> is the order in which the
  map is then visited.\<close>

definition fb_FindByRelationship ::
  "('db, 'txn) badger \<Rightarrow> (bytes \<Rightarrow> bytes) \<Rightarrow> map_order \<Rightarrow> ((bytes \<times> bytes) list \<Rightarrow> (bytes \<times> bytes) list) \<Rightarrow> bytes \<Rightarrow> bytes \<Rightarrow>
   SearchOptions \<Rightarrow> 'db \<Rightarrow> (unit, SearchResults) outcome" where
  "fb_FindByRelationship B lower M ord relType targetID options db =
     fb_Search B lower M
       (options\<lparr>sq_metaFilters := ord (AList.update (''rel_'' @ relType) targetID (sq_metaFilters options))\<rparr>) db"

section \<open>The Badger backend\<close>

record BadgerBackendConfig =
  bb_BatchSize :: int
  bb_MaxWaitTime :: duration

definition DefaultBadgerConfig :: BadgerBackendConfig where
  "DefaultBadgerConfig = \<lparr>bb_BatchSize = 100, bb_MaxWaitTime = 200 * Millisecond\<rparr>"

definition bb_defaults :: "BadgerBackendConfig \<Rightarrow> BadgerBackendConfig" where
  "bb_defaults config =
     \<lparr>bb_BatchSize = (if bb_BatchSize config = 0 then bb_BatchSize DefaultBadgerConfig else bb_BatchSize config),
      bb_MaxWaitTime = (if bb_MaxWaitTime config = 0 then bb_MaxWaitTime DefaultBadgerConfig else bb_MaxWaitTime config)\<rparr>"

text \<open>The relationships of a unit are read through the fields \<open>Type\<close> and \<open>Target\<close> as strings, which the structs of
  \<open>pkg/proto\<close> do not have: \<open>rels\<close> is what these fields would be.\<close>

fun set_rels :: "('db, 'txn) badger \<Rightarrow> bytes \<Rightarrow> (bytes \<times> bytes) list \<Rightarrow> 'txn \<Rightarrow> 'txn" where
  "set_rels B i [] txn = txn"
| "set_rels B i ((ty, target) # rs) txn =
     set_rels B i rs
       (if ty = [] \<or> target = [] then txn
        else case txnSet B txn (relPrefix ty target @ i) [] of
               Inl e \<Rightarrow> txn
             | Inr txn \<Rightarrow> (case txnSet B txn (rrelPrefix ty i @ target) [] of Inl e \<Rightarrow> txn | Inr txn \<Rightarrow> txn))"

definition bb_MarshalWorkUnit :: "json_codec \<Rightarrow> WorkUnit \<Rightarrow> bytes" where
  "bb_MarshalWorkUnit J unit = (case MarshalWorkUnit J unit of None \<Rightarrow> [] | Some d \<Rightarrow> d)"

definition bb_index_unit ::
  "('db, 'txn) badger \<Rightarrow> (bytes \<Rightarrow> bytes) \<Rightarrow> map_order \<Rightarrow> json_codec \<Rightarrow> relations \<Rightarrow> gotime \<Rightarrow> WorkUnit \<Rightarrow> 'txn \<Rightarrow> 'txn" where
  "bb_index_unit B lower M J rels now unit txn =
     (case index_unit B lower M now (bb_MarshalWorkUnit J) unit txn of
        (False, txn) \<Rightarrow> txn
      | (True, txn) \<Rightarrow> set_rels B (wu_Id unit) (rels unit) txn)"

definition bb_IndexBatch ::
  "('db, 'txn) badger \<Rightarrow> (bytes \<Rightarrow> bytes) \<Rightarrow> map_order \<Rightarrow> json_codec \<Rightarrow> relations \<Rightarrow> gotime \<Rightarrow> WorkUnit list \<Rightarrow> 'db \<Rightarrow>
   badger_error option \<times> 'db" where
  "bb_IndexBatch B lower M J rels now units db =
     (if units = [] then (None, db)
      else case txnCommit B db (fold (bb_index_unit B lower M J rels now) units (newTxn B db)) of
             Inl e \<Rightarrow> (Some e, db)
           | Inr db \<Rightarrow> (None, db))"

text \<open>\<open>Index\<close> queues the unit, indexes it at once when the queue is full, and gives up when the context has ended. When the
  queue has room and the context has ended, \<open>pick\<close> is the choice of the \<open>select\<close>.\<close>

datatype bb_error = CtxErr | IndexErr badger_error

definition bb_Index ::
  "(WorkUnit list \<Rightarrow> 'db \<Rightarrow> badger_error option \<times> 'db) \<Rightarrow> bool \<Rightarrow> bool \<Rightarrow> WorkUnit \<Rightarrow> 'db Search \<Rightarrow>
   (bb_error, unit) outcome \<times> 'db Search" where
  "bb_Index idx ctx_done pick unit s =
     (if ctx_done \<and> (try_send (se_queue s) unit = Full \<or> \<not> pick) then (Err CtxErr, s)
      else case try_send (se_queue s) unit of
             Sent q \<Rightarrow> (Ret (), s\<lparr>se_queue := q\<rparr>)
           | SendPanics \<Rightarrow> (Panic, s)
           | Full \<Rightarrow> (case idx [unit] (se_db s) of
                 (None, db) \<Rightarrow> (Ret (), s\<lparr>se_db := db\<rparr>)
               | (Some e, db) \<Rightarrow> (Err (IndexErr e), s\<lparr>se_db := db\<rparr>)))"

text \<open>\<open>processIndexQueue\<close> is the loop of \<open>Search\<close> with the configured batch size.\<close>

definition bb_step ::
  "('db, 'txn) badger \<Rightarrow> (bytes \<Rightarrow> bytes) \<Rightarrow> map_order \<Rightarrow> json_codec \<Rightarrow> relations \<Rightarrow> BadgerBackendConfig \<Rightarrow>
   'db Search \<Rightarrow> search_event \<Rightarrow> 'db Search \<Rightarrow> bool" where
  "bb_step B lower M J rels config =
     search_step (nat (bb_BatchSize (bb_defaults config))) (\<lambda>now units db. snd (bb_IndexBatch B lower M J rels now units db))"

definition bb_run ::
  "('db, 'txn) badger \<Rightarrow> (bytes \<Rightarrow> bytes) \<Rightarrow> map_order \<Rightarrow> json_codec \<Rightarrow> relations \<Rightarrow> BadgerBackendConfig \<Rightarrow>
   'db Search \<Rightarrow> search_event list \<Rightarrow> 'db Search \<Rightarrow> bool" where
  "bb_run B lower M J rels config =
     search_run (nat (bb_BatchSize (bb_defaults config))) (\<lambda>now units db. snd (bb_IndexBatch B lower M J rels now units db))"

text \<open>The full units of a page: a unit that is missing or does not decode is skipped.\<close>

definition full_units :: "('db, 'txn) badger \<Rightarrow> json_codec \<Rightarrow> 'db \<Rightarrow> bytes list \<Rightarrow> WorkUnit list" where
  "full_units B J db ids =
     List.map_filter (\<lambda>i. case viewGet B db (workUnitKey i) of Inl e \<Rightarrow> None | Inr val \<Rightarrow> UnmarshalWorkUnit J val) ids"

definition page_results ::
  "('db, 'txn) badger \<Rightarrow> map_order \<Rightarrow> json_codec \<Rightarrow> SearchOptions \<Rightarrow> nat \<Rightarrow> bytes list \<Rightarrow> 'db \<Rightarrow> (unit, SearchResults) outcome" where
  "page_results B M J options totalCount matchedIDs db =
     map_ret
       (\<lambda>ids. \<lparr>sr_IDs = ids, sr_WorkUnits = (if so_IncludeFull options then full_units B J db ids else []), sr_TotalCount = totalCount\<rparr>)
       (sorted_page B M db (SearchQuery.truncate options) matchedIDs)"

text \<open>The filters of \<open>Search\<close>, in the order of the code: the text, then context, agents and types, then the metadata, where
  the first filter is left out of a copy of the map instead of being deleted from it.\<close>

definition bb_text_ids :: "('db, 'txn) badger \<Rightarrow> (bytes \<Rightarrow> bytes) \<Rightarrow> map_order \<Rightarrow> 'db \<Rightarrow> SearchQuery \<Rightarrow> bytes list" where
  "bb_text_ids B lower M db q = text_step B lower M db q []"

definition bb_filtered_ids :: "('db, 'txn) badger \<Rightarrow> 'db \<Rightarrow> SearchQuery \<Rightarrow> bytes list \<Rightarrow> bytes list" where
  "bb_filtered_ids B db q ids = types_step B db q (agents_step B db q (context_step B db q ids))"

definition bb_meta_ids :: "('db, 'txn) badger \<Rightarrow> 'db \<Rightarrow> SearchQuery \<Rightarrow> bytes list \<Rightarrow> bytes list" where
  "bb_meta_ids B db q ids =
     (case sq_metaFilters q of
        [] \<Rightarrow> ids
      | (k, v) # remainingFilters \<Rightarrow>
          if no_other_filter q
          then let ids = add_ids (scan_ids B db 3 (metaPrefix k v)) ids
               in if remainingFilters = [] then ids else filter (meta_match B db remainingFilters) ids
          else filter (meta_match B db ((k, v) # remainingFilters)) ids)"

definition bb_collect :: "('db, 'txn) badger \<Rightarrow> (bytes \<Rightarrow> bytes) \<Rightarrow> map_order \<Rightarrow> 'db \<Rightarrow> SearchQuery \<Rightarrow> bytes list" where
  "bb_collect B lower M db q = bb_meta_ids B db q (bb_filtered_ids B db q (bb_text_ids B lower M db q))"

lemma bb_collect_eq: "bb_collect B lower M db q = fst (collect_steps B lower M db q)"
  by (auto simp: bb_collect_def bb_meta_ids_def bb_filtered_ids_def bb_text_ids_def collect_steps_def meta_step_def Let_def
      split: list.splits)

definition bb_Search ::
  "('db, 'txn) badger \<Rightarrow> (bytes \<Rightarrow> bytes) \<Rightarrow> map_order \<Rightarrow> json_codec \<Rightarrow> SearchOptions \<Rightarrow> 'db \<Rightarrow> (unit, SearchResults) outcome" where
  "bb_Search B lower M J options db =
     (let q = SearchQuery.truncate options;
          matchedIDs = bb_collect B lower M db q;
          allCount = (if no_other_filter q \<and> sq_metaFilters q = [] then length (scan_keys B db prefixWorkUnit) else 0)
      in page_results B M J options (if allCount > 0 then allCount else length matchedIDs)
           (if allCount > 0 \<and> matchedIDs = [] then all_ids B db else matchedIDs) db)"

text \<open>Relationships in both directions: the units that refer to the target, and what the target refers to.\<close>

definition related_ids :: "('db, 'txn) badger \<Rightarrow> bytes \<Rightarrow> bytes \<Rightarrow> 'db \<Rightarrow> bytes list" where
  "related_ids B relType targetID db =
     (if targetID \<noteq> []
      then add_ids (scan_ids B db 3 (rrelPrefix relType targetID)) (add_ids (scan_ids B db 3 (relPrefix relType targetID)) [])
      else add_ids (scan_ids B db 3 (prefixRelationship @ relType @ '':'')) [])"

definition filter_ids :: "('db, 'txn) badger \<Rightarrow> SearchQuery \<Rightarrow> 'db \<Rightarrow> bytes list \<Rightarrow> bytes list" where
  "filter_ids B q db ids =
     filter (\<lambda>i. (sq_contextID q \<noteq> [] \<longrightarrow> has_key B db (contextPrefix (sq_contextID q) @ i)) \<and>
       (sq_agentIDs q \<noteq> [] \<longrightarrow> (\<exists>a \<in> set (sq_agentIDs q). has_key B db (agentPrefix a @ i))) \<and>
       (sq_types q \<noteq> [] \<longrightarrow> (\<exists>t \<in> set (sq_types q). has_key B db (typePrefix t @ i))) \<and>
       meta_match B db (sq_metaFilters q) i) ids"

definition bb_FindByRelationship ::
  "('db, 'txn) badger \<Rightarrow> map_order \<Rightarrow> json_codec \<Rightarrow> bytes \<Rightarrow> bytes \<Rightarrow> SearchOptions \<Rightarrow> 'db \<Rightarrow> (unit, SearchResults) outcome" where
  "bb_FindByRelationship B M J relType targetID options db =
     (let matchedIDs = filter_ids B (SearchQuery.truncate options) db (related_ids B relType targetID db)
      in page_results B M J options (length matchedIDs) matchedIDs db)"

section \<open>The engine\<close>

datatype EngineType = BadgerEngine | VectorEngine | WeaviateEngine | OtherEngine bytes

datatype engine_error = NotEnabled | Unsupported EngineType

text \<open>\<open>CreateEngine\<close> returns the backend it makes, here its kind; \<open>NewEngine\<close> chooses by the vector configuration.\<close>

definition CreateEngine :: "bool \<Rightarrow> EngineType \<Rightarrow> engine_error + EngineType" where
  "CreateEngine enabled engineType =
     (case engineType of
        BadgerEngine \<Rightarrow> Inr BadgerEngine
      | WeaviateEngine \<Rightarrow> if enabled then Inr WeaviateEngine else Inl NotEnabled
      | _ \<Rightarrow> Inl (Unsupported engineType))"

definition NewEngine :: "bool \<Rightarrow> engine_error + EngineType" where
  "NewEngine enabled = CreateEngine enabled (if enabled then WeaviateEngine else BadgerEngine)"

definition engine_options :: "SearchQuery \<Rightarrow> SearchOptions" where
  "engine_options q = SearchQuery.extend q \<lparr>so_IncludeFull = False\<rparr>"

definition EngineSearch ::
  "(SearchOptions \<Rightarrow> 'db \<Rightarrow> (unit, SearchResults) outcome) \<Rightarrow> SearchQuery \<Rightarrow> 'db \<Rightarrow> (unit, bytes list \<times> nat) outcome" where
  "EngineSearch search q db = map_ret (\<lambda>r. (sr_IDs r, sr_TotalCount r)) (search (engine_options q) db)"

definition empty_query :: "int \<Rightarrow> SearchQuery" where
  "empty_query limit = \<lparr>sq_query = [], sq_contextID = [], sq_agentIDs = [], sq_types = [], sq_metaFilters = [],
     sq_limit = limit, sq_offset = 0\<rparr>"

definition EngineFindByRelationship ::
  "(bytes \<Rightarrow> bytes \<Rightarrow> SearchOptions \<Rightarrow> 'db \<Rightarrow> (unit, SearchResults) outcome) \<Rightarrow> bytes \<Rightarrow> bytes \<Rightarrow> int \<Rightarrow> 'db \<Rightarrow>
   (unit, bytes list) outcome" where
  "EngineFindByRelationship backend relType targetID limit db =
     map_ret sr_IDs (backend relType targetID (engine_options (empty_query limit)) db)"

text \<open>The goroutine of \<open>Start\<close>: every event is indexed at the time it arrives; an error is only logged.\<close>

definition engine_consume :: "(gotime \<Rightarrow> WorkUnit \<Rightarrow> 'db \<Rightarrow> 'db) \<Rightarrow> (gotime \<times> WorkUnit) list \<Rightarrow> 'db \<Rightarrow> 'db" where
  "engine_consume index events db = fold (\<lambda>(now, event). index now event) events db"

section \<open>What the backends promise\<close>

lemma SearchQuery_truncate [simp]:
  "sq_query (SearchQuery.truncate options) = sq_query options" "sq_contextID (SearchQuery.truncate options) = sq_contextID options"
  "sq_agentIDs (SearchQuery.truncate options) = sq_agentIDs options" "sq_types (SearchQuery.truncate options) = sq_types options"
  "sq_metaFilters (SearchQuery.truncate options) = sq_metaFilters options" "sq_limit (SearchQuery.truncate options) = sq_limit options"
  "sq_offset (SearchQuery.truncate options) = sq_offset options"
  by (simp_all add: SearchQuery.truncate_def)

lemma truncate_engine_options [simp]: "SearchQuery.truncate (engine_options q) = q"
  by (simp add: engine_options_def SearchQuery.truncate_def SearchQuery.extend_def)

text \<open>The exact answer to a query: a page of the matching documents, newest first, and their number.\<close>

definition page_ok :: "SearchQuery \<Rightarrow> bool" where
  "page_ok q \<longleftrightarrow> 0 \<le> sq_offset q \<and> sq_offset q + page_limit q < 2 ^ 63"

definition exact_answer :: "doc set \<Rightarrow> SearchQuery \<Rightarrow> bytes set \<Rightarrow> bytes list \<Rightarrow> nat \<Rightarrow> bool" where
  "exact_answer D q S xs total_count \<longleftrightarrow>
     (\<exists>ids. xs = take (nat (page_limit q)) (drop (nat (sq_offset q)) ids) \<and> total_count = length ids \<and>
        set ids = S \<and> distinct ids \<and> sorted_wrt (newer D) ids)"

lemma page_results_exact:
  assumes "badger_ok B items writes" and "index_rep lower rels items db D" and "docs_ok rels D" and "order_ok M"
    and "page_ok (SearchQuery.truncate options)" and "distinct ids"
  shows "\<exists>r. page_results B M J options (length ids) ids db = Ret r \<and>
     exact_answer D (SearchQuery.truncate options) (set ids) (sr_IDs r) (sr_TotalCount r)"
proof -
  obtain xs where "sorted_page B M db (SearchQuery.truncate options) ids =
      Ret (take (nat (page_limit (SearchQuery.truncate options))) (drop (nat (sq_offset (SearchQuery.truncate options))) xs))"
    "length xs = length ids" "distinct xs" "set xs = set ids" "sorted_wrt (newer D) xs"
    using sorted_page_exact [OF assms(1-4,6)] assms(5) unfolding page_ok_def by blast
  then show ?thesis unfolding page_results_def exact_answer_def by (intro exI conjI) (simp, auto)
qed

lemma bb_search_exact:
  assumes "badger_ok B items writes" and "index_rep lower rels items db D" and "docs_ok rels D" and "order_ok M"
    and "page_ok (SearchQuery.truncate options)"
  shows "\<exists>r. bb_Search B lower M J options db = Ret r \<and>
     exact_answer D (SearchQuery.truncate options) (ids_where D (query_match lower D (SearchQuery.truncate options)))
       (sr_IDs r) (sr_TotalCount r)"
proof -
  let ?q = "SearchQuery.truncate options"
  let ?all = "no_other_filter ?q \<and> sq_metaFilters ?q = []" and ?r = "fst (collect_steps B lower M db ?q)"
  let ?ids = "if ?all then all_ids B db else ?r"
  note r = collect_exact [OF assms(1-4), of ?q] and ai = all_ids_exact [OF assms(1-3)]
  have "?r = []" if ?all using r(1) that by simp
  moreover have "length (scan_keys B db prefixWorkUnit) = length (all_ids B db)" by (simp add: all_ids_def)
  ultimately have "bb_Search B lower M J options db = page_results B M J options (length ?ids) ?ids db"
    by (auto simp: bb_Search_def bb_collect_eq Let_def)
  moreover have "query_match lower D ?q = (\<lambda>u. True)" if ?all
    using that by (simp add: fun_eq_iff query_match_def no_other_filter_def)
  then have "set ?ids = ids_where D (query_match lower D ?q)" "distinct ?ids" using r ai by auto
  ultimately show ?thesis using page_results_exact [OF assms, of ?ids J] by simp
qed

text \<open>The index of relationships.\<close>

lemma set_rels_puts:
  assumes "badger_ok B items writes" and "badger_total B"
  shows "puts writes t ((\<lambda>(k, v). relPrefix k v @ i) ` {(k, v) \<in> set rs. k \<noteq> [] \<and> v \<noteq> []} \<union>
     (\<lambda>(k, v). rrelPrefix k i @ v) ` {(k, v) \<in> set rs. k \<noteq> [] \<and> v \<noteq> []}) (set_rels B i rs t)"
proof (induction rs arbitrary: t)
  case (Cons e rs)
  obtain k v where e: "e = (k, v)" by (cases e)
  show ?case
  proof (cases "k = [] \<or> v = []")
    case True
    then have "{(k, v) \<in> set (e # rs). k \<noteq> [] \<and> v \<noteq> []} = {(k, v) \<in> set rs. k \<noteq> [] \<and> v \<noteq> []}" by (auto simp: e)
    then show ?thesis using Cons.IH [of t] True by (simp add: e)
  next
    case False
    obtain t1 where t1: "txnSet B t (relPrefix k v @ i) [] = Inr t1" "puts writes t {relPrefix k v @ i} t1"
      using total_set [OF assms] by blast
    obtain t2 where t2: "txnSet B t1 (rrelPrefix k i @ v) [] = Inr t2" "puts writes t1 {rrelPrefix k i @ v} t2"
      using total_set [OF assms] by blast
    have "{(k, v) \<in> set (e # rs). k \<noteq> [] \<and> v \<noteq> []} = insert (k, v) {(k, v) \<in> set rs. k \<noteq> [] \<and> v \<noteq> []}"
      using False by (auto simp: e)
    moreover have "set_rels B i (e # rs) t = set_rels B i rs t2" using False t1(1) t2(1) by (simp add: e)
    ultimately show ?thesis
      using puts_eq [OF puts_trans [OF puts_trans [OF t1(2) t2(2)] Cons.IH]] by auto
  qed
qed simp

lemma bb_index_unit_puts:
  assumes "badger_ok B items writes" and "badger_total B" and "order_ok M" and "wu_Id u \<noteq> []"
  shows "puts writes t (doc_keys lower rels (u, unit_timestamp now u)) (bb_index_unit B lower M J rels now u t)"
proof -
  obtain t1 where t1: "index_unit B lower M now (bb_MarshalWorkUnit J) u t = (True, t1)"
    "puts writes t (doc_keys lower no_rels (u, unit_timestamp now u)) t1"
    using index_unit_puts [OF assms] by blast
  from puts_trans [OF this(2) set_rels_puts [OF assms(1,2)]]
  have "puts writes t (doc_keys lower no_rels (u, unit_timestamp now u) \<union> ((\<lambda>(k, v). relPrefix k v @ wu_Id u) ` related rels u \<union>
      (\<lambda>(k, v). rrelPrefix k (wu_Id u) @ v) ` related rels u)) (bb_index_unit B lower M J rels now u t)"
    using t1 by (simp add: bb_index_unit_def related_def)
  then show ?thesis by (rule puts_eq) (simp add: Un_assoc)
qed

lemma bb_index_units_puts:
  assumes "badger_ok B items writes" and "badger_total B" and "order_ok M"
  shows "puts writes t (\<Union> (doc_keys lower rels ` batch_docs now units)) (fold (bb_index_unit B lower M J rels now) units t)"
proof (induction units arbitrary: t)
  case (Cons u units)
  show ?case
  proof (cases "wu_Id u = []")
    case True
    then have "batch_docs now (u # units) = batch_docs now units" by (auto simp: batch_docs_def)
    with True Cons.IH show ?thesis by (simp add: bb_index_unit_def index_unit_def)
  next
    case False
    then have "batch_docs now (u # units) = insert (u, unit_timestamp now u) (batch_docs now units)"
      by (auto simp: batch_docs_def)
    with puts_trans [OF bb_index_unit_puts [OF assms False] Cons.IH] show ?thesis by simp
  qed
qed (simp add: batch_docs_def)

lemma bb_IndexBatch_rep:
  assumes "badger_ok B items writes" and "badger_total B" and "order_ok M" and "index_rep lower rels items db D"
  shows "index_rep lower rels items (snd (bb_IndexBatch B lower M J rels now units db)) (D \<union> batch_docs now units)"
proof (cases "units = []")
  case False
  obtain db' where "txnCommit B db (fold (bb_index_unit B lower M J rels now) units (newTxn B db)) = Inr db'"
    "fst ` set (items db') = fst ` set (items db) \<union> \<Union> (doc_keys lower rels ` batch_docs now units)"
    using commit_puts [OF assms(1,2) bb_index_units_puts [OF assms(1-3)]] by blast
  then show ?thesis using assms(4) False by (simp add: bb_IndexBatch_def index_rep_def image_Un)
qed (use assms(4) in \<open>simp add: bb_IndexBatch_def batch_docs_def\<close>)

lemma scan_relations:
  assumes "badger_ok B items writes" and "index_rep lower rels items db D" and "docs_ok rels D"
  shows "set (scan_ids B db 3 (relPrefix k v)) = ids_where D (\<lambda>u. (k, v) \<in> related rels u)"
    and "set (scan_ids B db 3 (rrelPrefix k i)) = {v. \<exists>d \<in> D. i = wu_Id (fst d) \<and> (k, v) \<in> related rels (fst d)}"
    and "no_colon k \<Longrightarrow> set (scan_ids B db 3 (prefixRelationship @ k @ '':'')) = ids_where D (\<lambda>u. \<exists>v. (k, v) \<in> related rels u)"
proof -
  note plain = plain_fst [OF assms(3)]
  have prefixes: "relPrefix k v = (''rel:'' @ k @ '':'' @ v) @ '':''" "rrelPrefix k i = (''rrel:'' @ k @ '':'' @ i) @ '':''"
    "prefixRelationship @ k @ '':'' = (''rel:'' @ k) @ '':''"
    by (simp_all add: relPrefix_def rrelPrefix_def index_prefix_defs)
  have parts2: "parts (k @ '':'' @ v) = parts k @ parts v" for k v by simp
  note has = parts_literals parts2 append_Cons append_assoc mem_key_parts three_parts split_on_eq_single
  show "set (scan_ids B db 3 (relPrefix k v)) = ids_where D (\<lambda>u. (k, v) \<in> related rels u)"
    unfolding prefixes by (intro set_eqI, unfold mem_scan_ids [OF assms] mem_ids_where, rule bex_cong [OF refl])
      (use plain in \<open>fastforce simp: has split_on_single\<close>)
  show "set (scan_ids B db 3 (rrelPrefix k i)) = {v. \<exists>d \<in> D. i = wu_Id (fst d) \<and> (k, v) \<in> related rels (fst d)}"
    unfolding prefixes by (intro set_eqI, unfold mem_scan_ids [OF assms] mem_Collect_eq, rule bex_cong [OF refl])
      (use plain in \<open>fastforce simp: has split_on_single\<close>)
  show "set (scan_ids B db 3 (prefixRelationship @ k @ '':'')) = ids_where D (\<lambda>u. \<exists>v. (k, v) \<in> related rels u)" if "no_colon k"
    unfolding prefixes by (intro set_eqI, unfold mem_scan_ids [OF assms] mem_ids_where, rule bex_cong [OF refl])
      (use plain that in \<open>fastforce simp: has split_on_single\<close>)
qed

text \<open>What a query for relationships selects.\<close>

definition relation_match :: "relations \<Rightarrow> doc set \<Rightarrow> bytes \<Rightarrow> bytes \<Rightarrow> bytes set" where
  "relation_match rels D ty target =
     (if target = [] then ids_where D (\<lambda>u. \<exists>v. (ty, v) \<in> related rels u)
      else ids_where D (\<lambda>u. (ty, target) \<in> related rels u) \<union>
           {v. \<exists>d \<in> D. target = wu_Id (fst d) \<and> (ty, v) \<in> related rels (fst d)})"

definition filters_match :: "doc set \<Rightarrow> SearchQuery \<Rightarrow> bytes \<Rightarrow> bool" where
  "filters_match D q i \<longleftrightarrow>
     (sq_contextID q \<noteq> [] \<longrightarrow> i \<in> ids_where D (\<lambda>u. wu_ContextId u = sq_contextID q)) \<and>
     (sq_agentIDs q \<noteq> [] \<longrightarrow> i \<in> ids_where D (\<lambda>u. wu_AgentId u \<in> set (sq_agentIDs q))) \<and>
     (sq_types q \<noteq> [] \<longrightarrow> i \<in> ids_where D (\<lambda>u. wu_Type u \<in> set (sq_types q))) \<and>
     (\<forall>e \<in> set (sq_metaFilters q). i \<in> ids_where D (\<lambda>u. e \<in> set (entries_of (wu_Meta u))))"

lemma related_ids_exact:
  assumes "badger_ok B items writes" and "index_rep lower rels items db D" and "docs_ok rels D" and "no_colon relType"
  shows "set (related_ids B relType targetID db) = relation_match rels D relType targetID"
    and "distinct (related_ids B relType targetID db)"
  using scan_relations [OF assms(1-3)] assms(4) by (auto simp: related_ids_def relation_match_def)

lemma filter_ids_exact:
  assumes "badger_ok B items writes" and "index_rep lower rels items db D" and "docs_ok rels D"
  shows "filter_ids B q db ids = filter (filters_match D q) ids"
proof -
  note has = has_index_key [OF assms]
  have "(\<exists>a \<in> A. has_key B db (agentPrefix a @ i)) \<longleftrightarrow> i \<in> ids_where D (\<lambda>u. wu_AgentId u \<in> A)"
    "(\<exists>t \<in> T. has_key B db (typePrefix t @ i)) \<longleftrightarrow> i \<in> ids_where D (\<lambda>u. wu_Type u \<in> T)" for A T i
    unfolding has mem_ids_where by blast+
  then show ?thesis unfolding filter_ids_def filters_match_def meta_match_def has
    by (simp add: has case_prod_unfold)
qed

section \<open>The engine over a backend\<close>

text \<open>The documents that a sequence of events leaves.\<close>

definition event_docs :: "(gotime \<times> WorkUnit) list \<Rightarrow> doc set" where
  "event_docs events = {(u, unit_timestamp now u) | now u. (now, u) \<in> set events \<and> wu_Id u \<noteq> []}"

locale search_provider = document_index idx rep
  for idx :: "gotime \<Rightarrow> WorkUnit list \<Rightarrow> 'db \<Rightarrow> 'db" and rep :: "'db \<Rightarrow> doc set \<Rightarrow> bool" +
  fixes search :: "SearchOptions \<Rightarrow> 'db \<Rightarrow> (unit, SearchResults) outcome"
    and lower :: "bytes \<Rightarrow> bytes"
    and readable_docs :: "doc set \<Rightarrow> bool"
    and covered :: "SearchOptions \<Rightarrow> bool"
  assumes search_spec: "rep db D \<Longrightarrow> readable_docs D \<Longrightarrow> covered options \<Longrightarrow> \<exists>r. search options db = Ret r \<and>
     exact_answer D (SearchQuery.truncate options) (ids_where D (query_match lower D (SearchQuery.truncate options)))
       (sr_IDs r) (sr_TotalCount r)"
begin

lemma consume_rep:
  assumes "rep db D"
  shows "rep (engine_consume (\<lambda>now u. idx now [u]) events db) (D \<union> event_docs events)"
  using assms
proof (induction events arbitrary: db D)
  case (Cons e events)
  obtain now u where e: "e = (now, u)" by (cases e)
  have "event_docs (e # events) = batch_docs now [u] \<union> event_docs events"
    by (auto simp: e event_docs_def batch_docs_def)
  then show ?case using Cons.IH [OF rep_idx [OF Cons.prems, of now "[u]"]]
    by (simp add: e engine_consume_def Un_assoc)
qed (simp add: engine_consume_def event_docs_def)

lemma engine_exact:
  assumes "rep db D" and "readable_docs (D \<union> event_docs events)" and "covered (engine_options q)"
  shows "\<exists>page total_count. EngineSearch search q (engine_consume (\<lambda>now u. idx now [u]) events db) = Ret (page, total_count) \<and>
     exact_answer (D \<union> event_docs events) q (ids_where (D \<union> event_docs events) (query_match lower (D \<union> event_docs events) q))
       page total_count"
  using search_spec [OF consume_rep [OF assms(1)] assms(2,3)] by (auto simp: EngineSearch_def)

end

text \<open>The queries that \<open>Search\<close> answers from the index.\<close>

definition plain_query :: "SearchQuery \<Rightarrow> bool" where
  "plain_query q \<longleftrightarrow> \<not> special_system q \<and> \<not> special_vegetable q \<and> (no_other_filter q \<longrightarrow> length (sq_metaFilters q) \<noteq> 1)"

interpretation fb: search_provider "fb_IndexBatch B lower M" "search_rep B items writes lower M no_rels"
  "fb_Search B lower M" lower "docs_ok no_rels" "\<lambda>options. plain_query (SearchQuery.truncate options) \<and> page_ok (SearchQuery.truncate options)"
proof unfold_locales
  fix db D now units
  show "search_rep B items writes lower M no_rels (fb_IndexBatch B lower M now units db) (D \<union> batch_docs now units)"
    if "search_rep B items writes lower M no_rels db D"
    using that by (simp add: fb_IndexBatch_def si.rep_idx)
next
  fix db D and options :: SearchOptions
  let ?q = "SearchQuery.truncate options"
  assume "search_rep B items writes lower M no_rels db D" "docs_ok no_rels D" "plain_query ?q \<and> page_ok ?q"
  then show "\<exists>r. fb_Search B lower M options db = Ret r \<and>
      exact_answer D ?q (ids_where D (query_match lower D ?q)) (sr_IDs r) (sr_TotalCount r)"
    using search_page [of B items writes lower db D M ?q]
    by (force simp: search_rep_def plain_query_def page_ok_def fb_Search_def exact_answer_def)
qed

interpretation bb: search_provider "\<lambda>now units db. snd (bb_IndexBatch B lower M J rels now units db)"
  "search_rep B items writes lower M rels" "bb_Search B lower M J" lower "docs_ok rels"
  "\<lambda>options. page_ok (SearchQuery.truncate options)"
  by unfold_locales (auto simp: search_rep_def intro: bb_IndexBatch_rep bb_search_exact)

lemma fb_Index_batch: "fb_Index B lower M = (\<lambda>now u. fb_IndexBatch B lower M now [u])"
  by (simp add: fun_eq_iff fb_Index_def fb_IndexBatch_def)



text \<open>A query of the Badger backend for relationships returns a page of exactly the units that refer to the target by the
  relationship and of the units the target refers to, as far as they pass the other filters, and their number.\<close>

lemma find_relationship_exact:
  assumes "search_rep B items writes lower M rels db D" and "docs_ok rels D" and "no_colon relType"
    and "page_ok (SearchQuery.truncate options)"
  shows "\<exists>r. bb_FindByRelationship B M J relType targetID options db = Ret r \<and>
     exact_answer D (SearchQuery.truncate options)
       {i \<in> relation_match rels D relType targetID. filters_match D (SearchQuery.truncate options) i}
       (sr_IDs r) (sr_TotalCount r)"
proof -
  let ?ids = "filter (filters_match D (SearchQuery.truncate options)) (related_ids B relType targetID db)"
  have ok: "badger_ok B items writes" "index_rep lower rels items db D" "order_ok M" using assms(1) by (auto simp: search_rep_def)
  have "distinct ?ids" "set ?ids = {i \<in> relation_match rels D relType targetID. filters_match D (SearchQuery.truncate options) i}"
    using related_ids_exact [OF ok(1,2) assms(2,3)] by auto
  with page_results_exact [OF ok(1,2) assms(2) ok(3) assms(4), of ?ids J] show ?thesis
    by (simp add: bb_FindByRelationship_def filter_ids_exact [OF ok(1,2) assms(2)] Let_def)
qed

text \<open>The engine over the backend of the factory looks a relationship up as a metadata filter and nothing else: when no unit
  carries it as metadata, it returns every unit.\<close>

lemma engine_relationship_all:
  assumes "search_rep B items writes lower M no_rels db D" and "docs_ok no_rels D" and "iteration ord"
    and "ids_where D (\<lambda>u. (''rel_'' @ relType, targetID) \<in> set (entries_of (wu_Meta u))) = {}" and "limit < 2 ^ 63" and "D \<noteq> {}"
  shows "\<exists>ids. EngineFindByRelationship (fb_FindByRelationship B lower M ord) relType targetID limit db =
       Ret (take (nat (page_limit (empty_query limit))) ids) \<and> set ids = (wu_Id \<circ> fst) ` D \<and> distinct ids"
proof -
  let ?e = "(''rel_'' @ relType, targetID)" and ?q = "empty_query limit"
  have ok: "badger_ok B items writes" "index_rep lower no_rels items db D" "order_ok M" using assms(1) by (auto simp: search_rep_def)
  have "mset (ord [?e]) = {#?e#}" using assms(3) by (simp add: iteration_def)
  then have ord: "ord [?e] = [?e]" by (metis mset.simps(1,2) mset_single_iff_right)
  have "EngineFindByRelationship (fb_FindByRelationship B lower M ord) relType targetID limit db =
      map_ret fst (SearchSearch B lower M (?q\<lparr>sq_metaFilters := [?e]\<rparr>) db)"
    using ord by (simp add: EngineFindByRelationship_def fb_FindByRelationship_def fb_Search_def case_prod_unfold SearchQuery.truncate_def engine_options_def SearchQuery.extend_def empty_query_def)
  moreover have q: "no_other_filter (?q\<lparr>sq_metaFilters := [?e]\<rparr>)" "sq_offset (?q\<lparr>sq_metaFilters := [?e]\<rparr>) = 0"
    "page_limit (?q\<lparr>sq_metaFilters := [?e]\<rparr>) = page_limit ?q" "page_limit ?q < 2 ^ 63"
    using assms(5) by (auto simp: no_other_filter_def empty_query_def page_limit_def)
  moreover obtain ids where "SearchSearch B lower M (?q\<lparr>sq_metaFilters := [?e]\<rparr>) db = Ret (take (nat (page_limit ?q)) ids, card D)"
    "set ids = ids_where D (\<lambda>u. True)" "distinct ids"
    using single_meta_page [OF ok(1,2) assms(2) ok(3) q(1), of "''rel_'' @ relType" targetID] q(2-4) assms(4,6) by auto
  ultimately show ?thesis by (intro exI [of _ ids]) (simp add: ids_where_True)
qed

text \<open>The example index under the engine.\<close>

lemma ex_rep_docs: "search_rep ref_badger ref_items (\<lambda>t. t) (\<lambda>s. s) ex_order no_rels ex_index ex_docs"
  by (simp add: search_rep_def ref_badger_ok ex_order_ok ex_index_rep)



lemma engine_relationship_all_witness:
  "\<exists>ids. EngineFindByRelationship (fb_FindByRelationship ref_badger (\<lambda>s. s) ex_order (\<lambda>xs. xs)) ''parent'' ''u9'' 5 ex_index =
       Ret (take 5 ids) \<and> set ids = {''u1'', ''u2''} \<and> distinct ids"
proof -
  have "ids_where ex_docs (\<lambda>u. (''rel_'' @ ''parent'', ''u9'') \<in> set (entries_of (wu_Meta u))) = {}" "ex_docs \<noteq> {}"
    by (simp_all add: ids_where_insert ex_docs_eq ex_unit_def)
  moreover have "(wu_Id \<circ> fst) ` ex_docs = {''u1'', ''u2''}" "page_limit (empty_query 5) = 5"
    by (simp_all add: ex_docs_eq ex_unit_def page_limit_def empty_query_def)
  ultimately show ?thesis
    using engine_relationship_all [OF ex_rep_docs ex_docs_ok iteration_id, of "''parent''" "''u9''" 5] by simp
qed

text \<open>An index with a relationship: the second unit refers to the first.\<close>

definition ex_rels :: relations where
  "ex_rels u = (if wu_Id u = ''u2'' then [(''parent'', ''u1'')] else [])"

definition ex_rel_index :: ref_db where
  "ex_rel_index = snd (bb_IndexBatch ref_badger (\<lambda>s. s) ex_order ref_codec ex_rels 0 ex_units ref_empty)"

lemma ex_rel_index_rep: "search_rep ref_badger ref_items (\<lambda>t. t) (\<lambda>s. s) ex_order ex_rels ex_rel_index ex_docs"
proof -
  have "index_rep (\<lambda>s. s) ex_rels ref_items ref_empty {}" by (simp add: index_rep_def)
  from bb_IndexBatch_rep [OF ref_badger_ok ref_badger_total ex_order_ok this] show ?thesis
    by (simp add: search_rep_def ref_badger_ok ex_order_ok ex_rel_index_def)
qed

lemma find_relationship_exact_witness:
  "\<exists>r. bb_FindByRelationship ref_badger ex_order ref_codec ''parent'' ''u1'' (engine_options (empty_query 5)) ex_rel_index = Ret r \<and>
     exact_answer ex_docs (empty_query 5) {''u2''} (sr_IDs r) (sr_TotalCount r)"
proof -
  have "docs_ok ex_rels ex_docs" by (simp add: docs_ok_def ex_docs_eq ex_unit_def ex_rels_def)
  moreover have "{i \<in> relation_match ex_rels ex_docs ''parent'' ''u1''. filters_match ex_docs (empty_query 5) i} = {''u2''}"
    by (auto simp: relation_match_def filters_match_def empty_query_def ids_where_insert ex_docs_eq ex_unit_def related_def ex_rels_def)
  moreover have "page_ok (empty_query 5)" by (simp add: page_ok_def page_limit_def empty_query_def)
  ultimately show ?thesis
    using find_relationship_exact [OF ex_rel_index_rep, of "''parent''" "engine_options (empty_query 5)" ref_codec "''u1''"] by simp
qed

end
