(* ===== verification/Mcp_Store.thy ===== *)
theory Mcp_Store
  imports Search_Text
begin

text \<open>
  The conversation store of the MCP server: the messages of \<open>apps/mcp/internal/storage.go\<close>, the interface
  \<open>StorageClient\<close> with the contract its users rely on, and the client of
  \<open>apps/mcp/internal/memory_storage.go\<close>. A store represents the history of the messages stored in it.
\<close>

section \<open>Messages\<close>

type_synonym json_map = "(bytes \<times> json) list option"

record Annotation =
  an_Type :: bytes
  an_Content :: bytes
  an_Data :: json_map

record ConversationMessage =
  cm_ID :: bytes
  cm_ContextID :: bytes
  cm_AgentID :: bytes
  cm_Type :: bytes
  cm_Content :: bytes
  cm_Metadata :: json_map
  cm_Timestamp :: int
  cm_ParentID :: bytes
  cm_Annotations :: "Annotation list"

record McpQuery =
  mq_ContextID :: bytes
  mq_Query :: bytes
  mq_Types :: "bytes list"
  mq_Limit :: int
  mq_Offset :: int

definition MessageTypeMemory :: bytes where "MessageTypeMemory = ''memory''"

definition NewConversationMessage :: "bytes \<Rightarrow> gotime \<Rightarrow> bytes \<Rightarrow> bytes \<Rightarrow> bytes \<Rightarrow> bytes \<Rightarrow> ConversationMessage" where
  "NewConversationMessage uuid now contextID agentID msgType content =
     \<lparr>cm_ID = uuid, cm_ContextID = contextID, cm_AgentID = agentID, cm_Type = msgType, cm_Content = content,
      cm_Metadata = Some [], cm_Timestamp = now div Second, cm_ParentID = [], cm_Annotations = []\<rparr>"

section \<open>The interface\<close>

datatype mcp_error = MessageNotFound bytes | ContextRequired | MarshalFailed | UnmarshalFailed | DbFailed badger_error

record 's StorageClient =
  StoreMessage :: "ConversationMessage \<Rightarrow> 's \<Rightarrow> (mcp_error, unit) outcome \<times> 's"
  GetRecentMessages :: "bytes \<Rightarrow> int \<Rightarrow> 's \<Rightarrow> (mcp_error, ConversationMessage list) outcome"
  SearchMessages :: "McpQuery \<Rightarrow> 's \<Rightarrow> (mcp_error, ConversationMessage list) outcome"
  GetMessage :: "bytes \<Rightarrow> 's \<Rightarrow> (mcp_error, ConversationMessage) outcome"

text \<open>Both clients replace a limit that is not positive by 10, an empty context by the last one stored to, and cut the matches
  to the limit before they apply the offset.\<close>

definition mcp_limit :: "int \<Rightarrow> nat" where
  "mcp_limit limit = (if limit \<le> 0 then 10 else nat limit)"

definition apply_offset :: "int \<Rightarrow> 'a list \<Rightarrow> 'a list" where
  "apply_offset offset matches = (if 0 < offset \<and> offset < int (length matches) then drop (nat offset) matches else matches)"

definition containsIgnoreCase :: "(bytes \<Rightarrow> bytes) \<Rightarrow> bytes \<Rightarrow> bytes \<Rightarrow> bool" where
  "containsIgnoreCase lower s substr = sublist (lower substr) (lower s)"

definition content_match :: "(bytes \<Rightarrow> bytes) \<Rightarrow> bytes \<Rightarrow> ConversationMessage \<Rightarrow> bool" where
  "content_match lower query msg \<longleftrightarrow> (query \<noteq> [] \<longrightarrow> containsIgnoreCase lower (cm_Content msg) query)"

text \<open>The loop that collects messages until the limit is reached: \<open>find\<close> is the lookup, a failure skips the candidate.\<close>

fun collect_loop :: "('k \<Rightarrow> 'm option) \<Rightarrow> ('m \<Rightarrow> bool) \<Rightarrow> nat \<Rightarrow> 'm list \<Rightarrow> 'k list \<Rightarrow> 'm list" where
  "collect_loop lookup keep limit matches [] = matches"
| "collect_loop lookup keep limit matches (k # ks) =
     (if limit \<le> length matches then matches
      else case lookup k of
             None \<Rightarrow> collect_loop lookup keep limit matches ks
           | Some m \<Rightarrow> collect_loop lookup keep limit (if keep m then matches @ [m] else matches) ks)"

lemma collect_loop_eq:
  assumes "length matches \<le> limit"
  shows "collect_loop lookup keep limit matches ks = take limit (matches @ filter keep (List.map_filter lookup ks))"
  using assms
proof (induction lookup keep limit matches ks rule: collect_loop.induct)
  case (2 lookup keep limit matches k ks)
  show ?case
  proof (cases "limit \<le> length matches")
    case True
    then show ?thesis using 2(3) by simp
  next
    case False
    then show ?thesis using 2(1,2) [OF False] by (cases "lookup k") (auto simp: map_filter_simps take_Cons')
  qed
qed (simp add: map_filter_simps)

text \<open>The contract. \<open>holds s H\<close>: the store represents the history \<open>H\<close>. A message may come back normalised by \<open>norm\<close> (what its
  encoding keeps of it). Recent messages of a context come newest first; a message is found by its
  identifier in the context stored to last.\<close>

definition newer_msg :: "ConversationMessage \<Rightarrow> ConversationMessage \<Rightarrow> bool" where
  "newer_msg m m' \<longleftrightarrow> cm_Timestamp m' \<le> cm_Timestamp m"

definition in_context :: "bytes \<Rightarrow> ConversationMessage list \<Rightarrow> ConversationMessage list" where
  "in_context c H = filter (\<lambda>m. cm_ContextID m = c) H"

locale conversation_store =
  fixes C :: "'s StorageClient"
    and holds :: "'s \<Rightarrow> ConversationMessage list \<Rightarrow> bool"
    and admissible :: "ConversationMessage list \<Rightarrow> bool"
    and ctx_ok :: "bytes \<Rightarrow> bool"
    and norm :: "ConversationMessage \<Rightarrow> ConversationMessage"
    and lower :: "bytes \<Rightarrow> bytes"
  assumes store_holds: "holds s H \<Longrightarrow> admissible (H @ [m]) \<Longrightarrow> \<exists>s'. StoreMessage C m s = (Ret (), s') \<and> holds s' (H @ [m])"
    and recent_holds: "holds s H \<Longrightarrow> admissible H \<Longrightarrow> ctx_ok c \<Longrightarrow>
      \<exists>ms. GetRecentMessages C c n s = Ret (take (mcp_limit n) ms) \<and> mset ms = mset (map norm (in_context c H)) \<and>
        sorted_wrt newer_msg ms"
    and search_holds: "holds s H \<Longrightarrow> admissible H \<Longrightarrow> ctx_ok (mq_ContextID q) \<Longrightarrow> mq_Types q = [] \<Longrightarrow>
      \<exists>ms. SearchMessages C q s =
          Ret (apply_offset (mq_Offset q) (take (mcp_limit (mq_Limit q)) (filter (content_match lower (mq_Query q)) ms))) \<and>
        mset ms = mset (map norm (in_context (mq_ContextID q) H)) \<and> sorted_wrt newer_msg ms"
    and admissible_prefix: "admissible (H @ H') \<Longrightarrow> admissible H"
    and get_holds: "holds s H \<Longrightarrow> admissible H \<Longrightarrow> m \<in> set H \<Longrightarrow> cm_ContextID m = cm_ContextID (last H) \<Longrightarrow>
      GetMessage C (cm_ID m) s = Ret (norm m)"
    and get_missing: "holds s H \<Longrightarrow> admissible H \<Longrightarrow> \<forall>m \<in> set H. cm_ID m \<noteq> i \<Longrightarrow> \<exists>e. GetMessage C i s = Err e"
    and norm_keeps: "cm_ID (norm m) = cm_ID m" "cm_ContextID (norm m) = cm_ContextID m" "cm_Type (norm m) = cm_Type m"
      "cm_Content (norm m) = cm_Content m" "cm_Timestamp (norm m) = cm_Timestamp m"

section \<open>The memory client\<close>

record MemoryStorageClient =
  mem_messages :: "ConversationMessage gomap"
  mem_timeIndex :: "bytes list gomap"
  mem_typeIndex :: "bytes list gomap gomap"
  mem_contextID :: bytes

definition NewMemoryStorageClient :: MemoryStorageClient where
  "NewMemoryStorageClient = \<lparr>mem_messages = [], mem_timeIndex = [], mem_typeIndex = [], mem_contextID = []\<rparr>"

definition get_default :: "'v \<Rightarrow> 'v gomap \<Rightarrow> bytes \<Rightarrow> 'v" where
  "get_default d m k = (case map_of m k of None \<Rightarrow> d | Some v \<Rightarrow> v)"

text \<open>The stable sort compares the timestamps of the messages under two identifiers; a missing message is a nil pointer.\<close>

definition mem_timestamp :: "ConversationMessage gomap \<Rightarrow> bytes \<Rightarrow> int" where
  "mem_timestamp msgs i = (case map_of msgs i of None \<Rightarrow> 0 | Some m \<Rightarrow> cm_Timestamp m)"

definition memStoreMessage :: "ConversationMessage \<Rightarrow> MemoryStorageClient \<Rightarrow> (mcp_error, unit) outcome \<times> MemoryStorageClient" where
  "memStoreMessage msg c =
     (let msgs = AList.update (cm_ID msg) msg (mem_messages c);
          ids = get_default [] (mem_timeIndex c) (cm_ContextID msg) @ [cm_ID msg];
          c = c\<lparr>mem_contextID := cm_ContextID msg, mem_messages := msgs,
                mem_timeIndex := AList.update (cm_ContextID msg) ids (mem_timeIndex c)\<rparr>
      in if \<not> list_all (\<lambda>i. map_of msgs i \<noteq> None) ids then (Panic, c)
         else
           let typeKey = cm_ContextID msg @ '':'' @ cm_Type msg;
               byId = get_default [] (mem_typeIndex c) typeKey
           in (Ret (), c\<lparr>mem_timeIndex :=
                   AList.update (cm_ContextID msg) (sort_key (\<lambda>i. - mem_timestamp msgs i) ids) (mem_timeIndex c),
                 mem_typeIndex :=
                   AList.update typeKey
                     (AList.update (cm_ID msg) (get_default [] byId (cm_ID msg) @ [cm_ID msg]) byId) (mem_typeIndex c)\<rparr>))"

definition mem_context :: "MemoryStorageClient \<Rightarrow> bytes \<Rightarrow> bytes" where
  "mem_context c contextID = (if contextID = [] \<and> mem_contextID c \<noteq> [] then mem_contextID c else contextID)"

definition memGetRecentMessages ::
  "bytes \<Rightarrow> int \<Rightarrow> MemoryStorageClient \<Rightarrow> (mcp_error, ConversationMessage list) outcome" where
  "memGetRecentMessages contextID limit c =
     Ret (List.map_filter (map_of (mem_messages c))
       (take (mcp_limit limit) (get_default [] (mem_timeIndex c) (mem_context c contextID))))"

text \<open>With a filter on types the identifiers come out of maps, in their iteration order \<open>ord\<close>.\<close>

definition memSearchMessages ::
  "(bytes \<Rightarrow> bytes) \<Rightarrow> (bytes list \<Rightarrow> bytes list) \<Rightarrow> McpQuery \<Rightarrow> MemoryStorageClient \<Rightarrow>
   (mcp_error, ConversationMessage list) outcome" where
  "memSearchMessages lower ord query c =
     (let contextID = mem_context c (mq_ContextID query);
          ids = (if mq_Types query \<noteq> []
                 then concat (map (\<lambda>msgType. ord (map fst (get_default [] (mem_typeIndex c) (contextID @ '':'' @ msgType)))) (mq_Types query))
                 else get_default [] (mem_timeIndex c) contextID)
      in Ret (apply_offset (mq_Offset query)
           (collect_loop (map_of (mem_messages c)) (content_match lower (mq_Query query)) (mcp_limit (mq_Limit query)) [] ids)))"

definition memGetMessage :: "bytes \<Rightarrow> MemoryStorageClient \<Rightarrow> (mcp_error, ConversationMessage) outcome" where
  "memGetMessage i c = (case map_of (mem_messages c) i of None \<Rightarrow> Err (MessageNotFound i) | Some m \<Rightarrow> Ret m)"

definition memory_client :: "(bytes \<Rightarrow> bytes) \<Rightarrow> (bytes list \<Rightarrow> bytes list) \<Rightarrow> MemoryStorageClient StorageClient" where
  "memory_client lower ord =
     \<lparr>StoreMessage = memStoreMessage, GetRecentMessages = memGetRecentMessages,
      SearchMessages = memSearchMessages lower ord, GetMessage = memGetMessage\<rparr>"

text \<open>The memory client keeps the contract for messages with different identifiers.\<close>

definition distinct_ids :: "ConversationMessage list \<Rightarrow> bool" where
  "distinct_ids H \<longleftrightarrow> distinct (map cm_ID H)"

definition mem_holds :: "MemoryStorageClient \<Rightarrow> ConversationMessage list \<Rightarrow> bool" where
  "mem_holds c H \<longleftrightarrow>
     (\<forall>m \<in> set H. map_of (mem_messages c) (cm_ID m) = Some m) \<and>
     (\<forall>i. map_of (mem_messages c) i \<noteq> None \<longrightarrow> i \<in> cm_ID ` set H) \<and>
     (\<forall>ctx. mset (get_default [] (mem_timeIndex c) ctx) = mset (map cm_ID (in_context ctx H)) \<and>
        sorted_wrt (\<lambda>i j. mem_timestamp (mem_messages c) j \<le> mem_timestamp (mem_messages c) i) (get_default [] (mem_timeIndex c) ctx))"

lemma get_default_update [simp]: "get_default d (AList.update k v m) k' = (if k = k' then v else get_default d m k')"
  by (simp add: get_default_def)

lemma mem_timestamp_update: "mem_timestamp (AList.update i m msgs) j = (if i = j then cm_Timestamp m else mem_timestamp msgs j)"
  by (simp add: mem_timestamp_def)

lemma mem_index_ids:
  assumes "mem_holds c H" and "i \<in> set (get_default [] (mem_timeIndex c) ctx)"
  shows "\<exists>m \<in> set H. cm_ID m = i \<and> cm_ContextID m = ctx \<and> map_of (mem_messages c) i = Some m"
proof -
  have "mset (get_default [] (mem_timeIndex c) ctx) = mset (map cm_ID (in_context ctx H))" using assms(1) by (simp add: mem_holds_def)
  then have "i \<in> cm_ID ` set (in_context ctx H)" using assms(2) by (metis mset_eq_setD set_map)
  then show ?thesis using assms(1) by (auto simp: in_context_def mem_holds_def)
qed

lemma memStoreMessage_holds:
  assumes "mem_holds c H" and "distinct_ids (H @ [msg])"
  shows "\<exists>c'. memStoreMessage msg c = (Ret (), c') \<and> mem_holds c' (H @ [msg])"
proof -
  let ?msgs = "AList.update (cm_ID msg) msg (mem_messages c)"
  let ?ids = "get_default [] (mem_timeIndex c) (cm_ContextID msg) @ [cm_ID msg]"
  obtain c' where c': "memStoreMessage msg c = (Ret (), c')" "mem_messages c' = ?msgs"
    "\<And>ctx. get_default [] (mem_timeIndex c') ctx =
       (if cm_ContextID msg = ctx then sort_key (\<lambda>i. - mem_timestamp ?msgs i) ?ids else get_default [] (mem_timeIndex c) ctx)"
  proof -
    have "list_all (\<lambda>i. map_of ?msgs i \<noteq> None) ?ids"
      using mem_index_ids [OF assms(1)] by (fastforce simp: list_all_iff)
    then show ?thesis by (intro that) (auto simp: memStoreMessage_def Let_def)
  qed
  have new: "cm_ID m \<noteq> cm_ID msg" if "m \<in> set H" for m 
  proof -
    have "cm_ID msg \<notin> cm_ID ` set H" using assms(2) by (simp add: distinct_ids_def)
    then show ?thesis using that by (metis imageI)
  qed
  have ts: "mem_timestamp ?msgs i = mem_timestamp (mem_messages c) i" if "i \<in> set (get_default [] (mem_timeIndex c) ctx)" for i ctx
    using mem_index_ids [OF assms(1) that] new by (metis mem_timestamp_update)
  have "mset (get_default [] (mem_timeIndex c') ctx) = mset (map cm_ID (in_context ctx (H @ [msg])))" for ctx
    using assms(1) by (simp add: c'(3) mem_holds_def in_context_def)
  moreover have "sorted_wrt (\<lambda>i j. mem_timestamp ?msgs j \<le> mem_timestamp ?msgs i) (get_default [] (mem_timeIndex c') ctx)" for ctx
  proof (cases "cm_ContextID msg = ctx")
    case True
    have "sorted (map (\<lambda>i. - mem_timestamp ?msgs i) (sort_key (\<lambda>i. - mem_timestamp ?msgs i) ?ids))" by (rule sorted_sort_key)
    then show ?thesis using True by (simp add: c'(3) sorted_map)
  next
    case False
    have "sorted_wrt (\<lambda>i j. mem_timestamp (mem_messages c) j \<le> mem_timestamp (mem_messages c) i) (get_default [] (mem_timeIndex c) ctx)"
      using assms(1) by (simp add: mem_holds_def)
    then have "sorted_wrt (\<lambda>i j. mem_timestamp ?msgs j \<le> mem_timestamp ?msgs i) (get_default [] (mem_timeIndex c) ctx)"
      by (rule sorted_wrt_mono_rel [rotated]) (simp add: ts)
    with False show ?thesis by (simp add: c'(3))
  qed
  ultimately have "mem_holds c' (H @ [msg])" using assms(1) new unfolding mem_holds_def by (auto simp: c'(2) split: if_splits)
  with c'(1) show ?thesis by blast
qed

lemma map_filter_all: "(\<And>x. x \<in> set xs \<Longrightarrow> f x = Some (g x)) \<Longrightarrow> List.map_filter f xs = map g xs"
  by (induction xs) (simp_all add: map_filter_simps)

lemma mem_recent_list:
  fixes ctx :: bytes
  assumes "mem_holds c H"
  defines "ids \<equiv> get_default [] (mem_timeIndex c) ctx"
  shows "\<exists>g. (\<forall>i \<in> set ids. map_of (mem_messages c) i = Some (g i)) \<and> mset (map g ids) = mset (in_context ctx H) \<and>
     sorted_wrt newer_msg (map g ids)"
proof -
  let ?g = "\<lambda>i. the (map_of (mem_messages c) i)"
  have some: "map_of (mem_messages c) i = Some (?g i)" if "i \<in> set ids" for i
    using mem_index_ids [OF assms(1)] that unfolding ids_def by fastforce
  have ts: "mem_timestamp (mem_messages c) i = cm_Timestamp (?g i)" if "i \<in> set ids" for i
    using mem_index_ids [OF assms(1)] that unfolding ids_def by (fastforce simp: mem_timestamp_def)
  have ids: "mset ids = mset (map cm_ID (in_context ctx H))"
    "sorted_wrt (\<lambda>i j. mem_timestamp (mem_messages c) j \<le> mem_timestamp (mem_messages c) i) ids"
    using assms(1) by (simp_all add: mem_holds_def ids_def)
  have "map ?g (map cm_ID (in_context ctx H)) = in_context ctx H"
    using assms(1) by (auto simp: mem_holds_def in_context_def intro!: map_idI)
  then have "mset (map ?g ids) = mset (in_context ctx H)" using ids(1) by (metis mset_map)
  moreover have "sorted_wrt (\<lambda>i j. newer_msg (?g i) (?g j)) ids"
    by (rule sorted_wrt_mono_rel [OF _ ids(2)]) (simp add: newer_msg_def ts)
  then have "sorted_wrt newer_msg (map ?g ids)" by (simp add: sorted_wrt_map)
  moreover have "\<forall>i \<in> set ids. map_of (mem_messages c) i = Some (?g i)" using some by (rule ballI)
  ultimately show ?thesis by (intro exI [of _ ?g] conjI)
qed

lemma memGetRecent_holds:
  assumes "mem_holds c H" and "ctx \<noteq> []"
  shows "\<exists>ms. memGetRecentMessages ctx n c = Ret (take (mcp_limit n) ms) \<and> mset ms = mset (in_context ctx H) \<and> sorted_wrt newer_msg ms"
proof -
  let ?ids = "get_default [] (mem_timeIndex c) ctx"
  obtain g where g: "\<forall>i \<in> set ?ids. map_of (mem_messages c) i = Some (g i)" "mset (map g ?ids) = mset (in_context ctx H)"
    "sorted_wrt newer_msg (map g ?ids)"
    using mem_recent_list [OF assms(1)] by blast
  have "List.map_filter (map_of (mem_messages c)) (take (mcp_limit n) ?ids) = map g (take (mcp_limit n) ?ids)"
    using g(1) by (intro map_filter_all) (auto dest: in_set_takeD)
  then have "memGetRecentMessages ctx n c = Ret (take (mcp_limit n) (map g ?ids))"
    using assms(2) by (simp add: memGetRecentMessages_def mem_context_def take_map)
  with g show ?thesis by blast
qed

lemma memSearch_holds:
  assumes "mem_holds c H" and "mq_ContextID q \<noteq> []" and "mq_Types q = []"
  shows "\<exists>ms. memSearchMessages lower ord q c =
       Ret (apply_offset (mq_Offset q) (take (mcp_limit (mq_Limit q)) (filter (content_match lower (mq_Query q)) ms))) \<and>
     mset ms = mset (in_context (mq_ContextID q) H) \<and> sorted_wrt newer_msg ms"
proof -
  let ?ids = "get_default [] (mem_timeIndex c) (mq_ContextID q)"
  obtain g where g: "\<forall>i \<in> set ?ids. map_of (mem_messages c) i = Some (g i)" "mset (map g ?ids) = mset (in_context (mq_ContextID q) H)"
    "sorted_wrt newer_msg (map g ?ids)"
    using mem_recent_list [OF assms(1)] by blast
  have "List.map_filter (map_of (mem_messages c)) ?ids = map g ?ids" using g(1) by (intro map_filter_all) auto
  then have "memSearchMessages lower ord q c =
      Ret (apply_offset (mq_Offset q) (take (mcp_limit (mq_Limit q)) (filter (content_match lower (mq_Query q)) (map g ?ids))))"
    using assms(2,3) by (simp add: memSearchMessages_def mem_context_def collect_loop_eq)
  with g show ?thesis by blast
qed

interpretation mem: conversation_store "memory_client lower ord" mem_holds distinct_ids "\<lambda>c. c \<noteq> []" "\<lambda>m. m" lower
proof unfold_locales
  fix s H H' m c n i and q :: McpQuery
  show "\<exists>s'. StoreMessage (memory_client lower ord) m s = (Ret (), s') \<and> mem_holds s' (H @ [m])"
    if "mem_holds s H" "distinct_ids (H @ [m])" using memStoreMessage_holds [OF that] by (simp add: memory_client_def)
  show "\<exists>ms. GetRecentMessages (memory_client lower ord) c n s = Ret (take (mcp_limit n) ms) \<and>
      mset ms = mset (map (\<lambda>m. m) (in_context c H)) \<and> sorted_wrt newer_msg ms" if "mem_holds s H" "c \<noteq> []"
    using memGetRecent_holds [OF that] by (simp add: memory_client_def)
  show "\<exists>ms. SearchMessages (memory_client lower ord) q s =
        Ret (apply_offset (mq_Offset q) (take (mcp_limit (mq_Limit q)) (filter (content_match lower (mq_Query q)) ms))) \<and>
      mset ms = mset (map (\<lambda>m. m) (in_context (mq_ContextID q) H)) \<and> sorted_wrt newer_msg ms"
    if "mem_holds s H" "mq_ContextID q \<noteq> []" "mq_Types q = []"
    using memSearch_holds [OF that] by (simp add: memory_client_def)
  show "distinct_ids H" if "distinct_ids (H @ H')" using that by (simp add: distinct_ids_def)
  show "GetMessage (memory_client lower ord) (cm_ID m) s = Ret m" if "mem_holds s H" "m \<in> set H"
    using that by (auto simp: memory_client_def memGetMessage_def mem_holds_def)
  show "\<exists>e. GetMessage (memory_client lower ord) i s = Err e" if "mem_holds s H" "\<forall>m \<in> set H. cm_ID m \<noteq> i"
  proof -
    have "map_of (mem_messages s) i = None" using that by (fastforce simp: mem_holds_def)
    then show ?thesis by (simp add: memory_client_def memGetMessage_def)
  qed
qed simp_all

end
