(* ===== verification/Mcp_Badger.thy ===== *)
theory Mcp_Badger
  imports Mcp_Store Search_Spec
begin

text \<open>
  The persistent client of \<open>apps/mcp/internal/badger_storage.go\<close>: its keys, its operations over the key-value store \<open>B\<close>,
  and the proof that it keeps the contract of \<open>Mcp_Store\<close>. The JSON encoding of a message is a parameter; what it keeps
  of a message is fixed by the struct tags (empty annotation data is omitted).
\<close>

section \<open>Keys\<close>

definition makeMessageKey :: "bytes \<Rightarrow> bytes \<Rightarrow> bytes" where
  "makeMessageKey contextID messageID = ''msg:'' @ contextID @ '':'' @ messageID"

definition makeTimeIndexPrefix :: "bytes \<Rightarrow> bytes" where
  "makeTimeIndexPrefix contextID = ''t:'' @ contextID @ '':''"

definition makeTimeIndexKey :: "bytes \<Rightarrow> int \<Rightarrow> bytes \<Rightarrow> bytes" where
  "makeTimeIndexKey contextID timestamp messageID = ''t:'' @ contextID @ '':'' @ sprintf_020d timestamp @ '':'' @ messageID"

definition makeTypeIndexPrefix :: "bytes \<Rightarrow> bytes \<Rightarrow> bytes" where
  "makeTypeIndexPrefix contextID msgType = ''type:'' @ contextID @ '':'' @ msgType @ '':''"

definition makeTypeIndexKey :: "bytes \<Rightarrow> bytes \<Rightarrow> int \<Rightarrow> bytes \<Rightarrow> bytes" where
  "makeTypeIndexKey contextID msgType timestamp messageID =
     ''type:'' @ contextID @ '':'' @ msgType @ '':'' @ sprintf_020d timestamp @ '':'' @ messageID"

definition extractMessageIDFromTimeKey :: "bytes \<Rightarrow> bytes" where
  "extractMessageIDFromTimeKey key = (let ps = parts key in if 4 \<le> length ps then ps ! 3 else [])"

definition extractMessageIDFromTypeKey :: "bytes \<Rightarrow> bytes" where
  "extractMessageIDFromTypeKey key = (let ps = parts key in if 5 \<le> length ps then ps ! 4 else [])"

section \<open>Operations\<close>

record message_codec =
  ToJSON :: "ConversationMessage \<Rightarrow> bytes option"
  FromJSON :: "bytes \<Rightarrow> ConversationMessage option"

record 'db BadgerStorageClient =
  bc_db :: 'db
  bc_contextID :: bytes

definition bcStoreMessage ::
  "('db, 'txn) badger \<Rightarrow> message_codec \<Rightarrow> ConversationMessage \<Rightarrow> 'db BadgerStorageClient \<Rightarrow>
   (mcp_error, unit) outcome \<times> 'db BadgerStorageClient" where
  "bcStoreMessage B J msg c =
     (let c = c\<lparr>bc_contextID := cm_ContextID msg\<rparr>
      in case ToJSON J msg of
           None \<Rightarrow> (Err MarshalFailed, c)
         | Some data \<Rightarrow>
             (case txnSet B (newTxn B (bc_db c)) (makeMessageKey (cm_ContextID msg) (cm_ID msg)) data of
                Inl e \<Rightarrow> (Err (DbFailed e), c)
              | Inr txn \<Rightarrow>
                  (case txnSet B txn (makeTimeIndexKey (cm_ContextID msg) (cm_Timestamp msg) (cm_ID msg)) [CHR 0x01] of
                     Inl e \<Rightarrow> (Err (DbFailed e), c)
                   | Inr txn \<Rightarrow>
                       (case txnSet B txn (makeTypeIndexKey (cm_ContextID msg) (cm_Type msg) (cm_Timestamp msg) (cm_ID msg)) [CHR 0x01] of
                          Inl e \<Rightarrow> (Err (DbFailed e), c)
                        | Inr txn \<Rightarrow>
                            (case txnCommit B (bc_db c) txn of
                               Inl e \<Rightarrow> (Err (DbFailed e), c)
                             | Inr db \<Rightarrow> (Ret (), c\<lparr>bc_db := db\<rparr>))))))"

text \<open>The loop from the newest key of a prefix down: \<open>it.Seek(append(prefix, 0xFF, ...)); it.ValidForPrefix(prefix)\<close>.\<close>

definition scan_rev :: "('db, 'txn) badger \<Rightarrow> 'db \<Rightarrow> bytes \<Rightarrow> bytes list" where
  "scan_rev B db pfx = takeWhile (prefix pfx) (map fst (viewSeek B db True (pfx @ replicate 8 (CHR 0xFF))))"

definition fetch_message ::
  "('db, 'txn) badger \<Rightarrow> message_codec \<Rightarrow> 'db \<Rightarrow> bytes \<Rightarrow> bytes \<Rightarrow> ConversationMessage option" where
  "fetch_message B J db contextID msgID =
     (case viewGet B db (makeMessageKey contextID msgID) of Inl e \<Rightarrow> None | Inr msgData \<Rightarrow> FromJSON J msgData)"

definition bc_context :: "'db BadgerStorageClient \<Rightarrow> bytes \<Rightarrow> bytes" where
  "bc_context c contextID = (if contextID = [] \<and> bc_contextID c \<noteq> [] then bc_contextID c else contextID)"

definition bcGetRecentMessages ::
  "('db, 'txn) badger \<Rightarrow> message_codec \<Rightarrow> bytes \<Rightarrow> int \<Rightarrow> 'db BadgerStorageClient \<Rightarrow>
   (mcp_error, ConversationMessage list) outcome" where
  "bcGetRecentMessages B J contextID limit c =
     (let contextID = bc_context c contextID
      in Ret (collect_loop (\<lambda>key. fetch_message B J (bc_db c) contextID (extractMessageIDFromTimeKey key)) (\<lambda>m. True)
           (mcp_limit limit) [] (scan_rev B (bc_db c) (makeTimeIndexPrefix contextID))))"

definition bcSearchMessages ::
  "('db, 'txn) badger \<Rightarrow> message_codec \<Rightarrow> (bytes \<Rightarrow> bytes) \<Rightarrow> McpQuery \<Rightarrow> 'db BadgerStorageClient \<Rightarrow>
   (mcp_error, ConversationMessage list) outcome" where
  "bcSearchMessages B J lower query c =
     (let contextID = bc_context c (mq_ContextID query);
          limit = mcp_limit (mq_Limit query);
          keep = content_match lower (mq_Query query)
      in Ret (apply_offset (mq_Offset query)
           (if mq_Types query \<noteq> []
            then fold (\<lambda>msgType matches.
                   collect_loop (\<lambda>key. fetch_message B J (bc_db c) contextID (extractMessageIDFromTypeKey key)) keep limit matches
                     (scan_rev B (bc_db c) (makeTypeIndexPrefix contextID msgType))) (mq_Types query) []
            else collect_loop (\<lambda>key. fetch_message B J (bc_db c) contextID (extractMessageIDFromTimeKey key)) keep limit []
                   (scan_rev B (bc_db c) (makeTimeIndexPrefix contextID)))))"

definition bcGetMessage ::
  "('db, 'txn) badger \<Rightarrow> message_codec \<Rightarrow> bytes \<Rightarrow> 'db BadgerStorageClient \<Rightarrow> (mcp_error, ConversationMessage) outcome" where
  "bcGetMessage B J i c =
     (if bc_contextID c = [] then Err ContextRequired
      else case viewGet B (bc_db c) (makeMessageKey (bc_contextID c) i) of
             Inl e \<Rightarrow> Err (DbFailed e)
           | Inr msgData \<Rightarrow> (case FromJSON J msgData of None \<Rightarrow> Err UnmarshalFailed | Some msg \<Rightarrow> Ret msg))"

definition badger_client ::
  "('db, 'txn) badger \<Rightarrow> message_codec \<Rightarrow> (bytes \<Rightarrow> bytes) \<Rightarrow> 'db BadgerStorageClient StorageClient" where
  "badger_client B J lower =
     \<lparr>StoreMessage = bcStoreMessage B J, GetRecentMessages = bcGetRecentMessages B J,
      SearchMessages = bcSearchMessages B J lower, GetMessage = bcGetMessage B J\<rparr>"

section \<open>The order of time index keys\<close>

lemma append_less_same_length:
  "length xs = length ys \<Longrightarrow> xs < ys \<Longrightarrow> xs @ as < ys @ (bs :: bytes)"
  by (induction xs ys rule: list_induct2) auto

lemma digits_loop_less:
  "n < m \<Longrightarrow> m < 10 ^ w \<Longrightarrow> digits_loop w n < digits_loop w m"
proof (induction w n arbitrary: m rule: digits_loop.induct)
  case (2 w n)
  show ?case
  proof (cases "n div 10 < m div 10")
    case True
    then show ?thesis using 2 by (simp add: append_less_same_length div_less_iff_less_mult)
  next
    case False
    then have "n div 10 = m div 10" "n mod 10 < m mod 10"
      using 2(2) by (metis div_le_mono less_or_eq_imp_le order_le_less, metis False div_le_mono div_mult_mod_eq less_or_eq_imp_le linorder_not_less nat_add_left_cancel_less order_le_less)
    then have "char_of (48 + n mod 10) < (char_of (48 + m mod 10) :: char)" by (simp add: less_char_def del: of_char_of)
    with \<open>n div 10 = m div 10\<close> show ?thesis by simp
  qed
qed simp

lemma digit_count_le: "n < 10 ^ k \<Longrightarrow> 0 < k \<Longrightarrow> digit_count n \<le> k"
proof (induction n arbitrary: k rule: digit_count.induct)
  case (1 n)
  show ?case
  proof (cases "n < 10")
    case False
    then have "k \<noteq> 1" using 1(2) by auto
    then obtain j where j: "k = Suc j" "0 < j" using 1(3) by (cases k) auto
    then have "n div 10 < 10 ^ j" using 1(2) by (simp add: div_less_iff_less_mult)
    then show ?thesis using 1(1) [OF False _ j(2)] False j by (subst digit_count.simps) simp
  qed (use 1(3) in \<open>simp add: digit_count.simps\<close>)
qed

lemma sprintf_020d_nat: "0 \<le> t \<Longrightarrow> t < 2 ^ 63 \<Longrightarrow> sprintf_020d t = digits_loop 20 (nat t)"
proof -
  assume "0 \<le> t" "t < 2 ^ 63"
  then have "digit_count (nat t) \<le> 20" by (intro digit_count_le) auto
  with \<open>0 \<le> t\<close> show ?thesis by (simp add: pad_int_def max_absorb1)
qed

lemma sprintf_020d_less:
  assumes "0 \<le> t" and "t < u" and "u < 2 ^ 63"
  shows "sprintf_020d t @ xs < sprintf_020d u @ ys"
proof -
  have "digits_loop 20 (nat t) < digits_loop 20 (nat u)" using assms by (intro digits_loop_less) auto
  then show ?thesis using assms by (simp add: sprintf_020d_nat append_less_same_length)
qed

lemma sprintf_020d_bound:
  assumes "0 \<le> t" and "t < 2 ^ 63"
  shows "sprintf_020d t @ xs \<le> replicate 8 (CHR 0xFF)"
proof -
  obtain d ds where ds: "sprintf_020d t = d # ds"
    using assms by (cases "sprintf_020d t") (auto simp: sprintf_020d_nat simp flip: length_0_conv)
  then have "is_digit d" using digits_loop_digits [of d 20 "nat t"] assms by (simp add: sprintf_020d_nat)
  then have "d < CHR 0xFF" by (auto simp: is_digit_def less_char_def less_eq_char_def)
  moreover have "replicate 8 (CHR 0xFF) = CHR 0xFF # replicate 7 (CHR 0xFF)" by (simp add: numeral_eq_Suc)
  ultimately show ?thesis by (simp only: ds append_Cons Cons_le_Cons simp_thms)
qed

text \<open>The loop visits exactly the keys of the prefix, from the greatest down.\<close>

lemma scan_rev_eq:
  assumes "badger_ok B items writes" and "\<And>k. k \<in> fst ` set (items db) \<Longrightarrow> prefix pfx k \<Longrightarrow> k \<le> pfx @ replicate 8 (CHR 0xFF)"
  shows "scan_rev B db pfx = rev (filter (prefix pfx) (map fst (items db)))"
proof -
  let ?s = "pfx @ replicate 8 (CHR 0xFF)"
  let ?ks = "rev (filter (\<lambda>k. k \<le> ?s) (map fst (items db)))"
  have "map fst (viewSeek B db True ?s) = ?ks"
    by (simp add: badger_ok_seek [OF assms(1)] readable_def rev_map [symmetric] filter_map o_def split_def)
  moreover have "sorted_wrt (\<lambda>x y. prefix pfx y \<longrightarrow> prefix pfx x) ?ks"
    unfolding sorted_wrt_rev
  proof (rule sorted_wrt_mono_rel [OF _ sorted_wrt_filter [OF badger_ok_sorted [OF assms(1)]]])
    fix x y assume "y \<in> set (filter (\<lambda>k. k \<le> ?s) (map fst (items db)))" "x < y"
    then show "prefix pfx x \<longrightarrow> prefix pfx y"
      using prefix_between [of pfx y "replicate 8 (CHR 0xFF)"] prefix_le [of pfx x] by auto
  qed
  moreover have "filter (prefix pfx) ?ks = rev (filter (prefix pfx) (map fst (items db)))"
    using assms(2) by (auto simp: rev_filter [symmetric] intro!: filter_cong)
  ultimately show ?thesis by (simp add: scan_rev_def takeWhile_leading)
qed

section \<open>The contract\<close>

definition json_norm_msg :: "ConversationMessage \<Rightarrow> ConversationMessage" where
  "json_norm_msg m = m\<lparr>cm_Annotations := map (\<lambda>a. a\<lparr>an_Data := (if an_Data a = Some [] then None else an_Data a)\<rparr>) (cm_Annotations m)\<rparr>"

definition plain_msg :: "message_codec \<Rightarrow> ConversationMessage \<Rightarrow> bool" where
  "plain_msg J m \<longleftrightarrow> no_colon (cm_ID m) \<and> no_colon (cm_ContextID m) \<and> cm_ContextID m \<noteq> [] \<and> no_colon (cm_Type m) \<and>
     0 \<le> cm_Timestamp m \<and> cm_Timestamp m < 2 ^ 63 \<and>
     map_option (FromJSON J) (ToJSON J m) = Some (Some (json_norm_msg m))"

definition plain_history :: "message_codec \<Rightarrow> ConversationMessage list \<Rightarrow> bool" where
  "plain_history J H \<longleftrightarrow> distinct_ids H \<and> (\<forall>m \<in> set H. plain_msg J m)"

abbreviation msg_key :: "ConversationMessage \<Rightarrow> bytes" where
  "msg_key m \<equiv> makeMessageKey (cm_ContextID m) (cm_ID m)"

abbreviation time_key :: "ConversationMessage \<Rightarrow> bytes" where
  "time_key m \<equiv> makeTimeIndexKey (cm_ContextID m) (cm_Timestamp m) (cm_ID m)"

abbreviation type_key :: "ConversationMessage \<Rightarrow> bytes" where
  "type_key m \<equiv> makeTypeIndexKey (cm_ContextID m) (cm_Type m) (cm_Timestamp m) (cm_ID m)"

definition bc_holds ::
  "('db, 'txn) badger \<Rightarrow> ('db \<Rightarrow> (bytes \<times> bytes) list) \<Rightarrow> ('txn \<Rightarrow> (bytes \<times> bytes option) list) \<Rightarrow> message_codec \<Rightarrow>
   'db BadgerStorageClient \<Rightarrow> ConversationMessage list \<Rightarrow> bool" where
  "bc_holds B items writes J c H \<longleftrightarrow> badger_ok B items writes \<and> badger_total B \<and>
     bc_contextID c = (if H = [] then [] else cm_ContextID (last H)) \<and>
     dom (map_of (items (bc_db c))) = (\<Union>m \<in> set H. {msg_key m, time_key m, type_key m}) \<and>
     (\<forall>m \<in> set H. map_of (items (bc_db c)) (msg_key m) = ToJSON J m)"

lemma parts_msg_keys:
  "parts (makeMessageKey c i) = ''msg'' # parts c @ parts i"
  "parts (makeTimeIndexKey c t i) = ''t'' # parts c @ sprintf_020d t # parts i"
  "parts (makeTypeIndexKey c ty t i) = ''type'' # parts c @ parts ty @ sprintf_020d t # parts i"
  by (simp_all add: makeMessageKey_def makeTimeIndexKey_def makeTypeIndexKey_def split_on_append split_on_single pad_int_no_colon)

lemma msg_key_neq:
  assumes "plain_msg J m" and "plain_msg J m'" and "cm_ID m \<noteq> cm_ID m'"
  shows "msg_key m \<noteq> msg_key m'"
proof
  assume "msg_key m = msg_key m'"
  then have "parts (msg_key m) = parts (msg_key m')" by simp
  then show False using assms by (simp add: parts_msg_keys plain_msg_def split_on_single)
qed

lemma key_kinds [simp]:
  "makeMessageKey c i \<noteq> makeTimeIndexKey c' t i'" "makeMessageKey c i \<noteq> makeTypeIndexKey c' ty t i'"
  by (simp_all add: makeMessageKey_def makeTimeIndexKey_def makeTypeIndexKey_def)

lemma bcStoreMessage_items:
  assumes ok: "badger_ok B items writes" "badger_total B" and data: "ToJSON J msg = Some data"
  shows "\<exists>db. bcStoreMessage B J msg c = (Ret (), c\<lparr>bc_contextID := cm_ContextID msg, bc_db := db\<rparr>) \<and>
     map_of (items db) = (map_of (items (bc_db c)))(msg_key msg \<mapsto> data, time_key msg \<mapsto> [CHR 0x01], type_key msg \<mapsto> [CHR 0x01])"
proof -
  obtain t1 where t1: "txnSet B (newTxn B (bc_db c)) (msg_key msg) data = Inr t1" using ok(2) unfolding badger_total_def by blast
  obtain t2 where t2: "txnSet B t1 (time_key msg) [CHR 0x01] = Inr t2" using ok(2) unfolding badger_total_def by blast
  obtain t3 where t3: "txnSet B t2 (type_key msg) [CHR 0x01] = Inr t3" using ok(2) unfolding badger_total_def by blast
  obtain db where db: "txnCommit B (bc_db c) t3 = Inr db" using ok(2) unfolding badger_total_def by blast
  have "map_of (items db) = (map_of (items (bc_db c)))(msg_key msg \<mapsto> data, time_key msg \<mapsto> [CHR 0x01], type_key msg \<mapsto> [CHR 0x01])"
    using badger_ok_commit [OF ok(1) db] badger_ok_set [OF ok(1) t1] badger_ok_set [OF ok(1) t2] badger_ok_set [OF ok(1) t3]
      badger_ok_newTxn [OF ok(1)] by simp
  moreover have "bcStoreMessage B J msg c = (Ret (), c\<lparr>bc_contextID := cm_ContextID msg, bc_db := db\<rparr>)"
    using data t1 t2 t3 db by (simp add: bcStoreMessage_def)
  ultimately show ?thesis by blast
qed

lemma bcStoreMessage_holds:
  assumes "bc_holds B items writes J c H" and "plain_history J (H @ [msg])"
  shows "\<exists>c'. bcStoreMessage B J msg c = (Ret (), c') \<and> bc_holds B items writes J c' (H @ [msg])"
proof -
  have ok: "badger_ok B items writes" "badger_total B" using assms(1) by (auto simp: bc_holds_def)
  obtain data where data: "ToJSON J msg = Some data" using assms(2) by (auto simp: plain_history_def plain_msg_def)
  obtain db where db: "bcStoreMessage B J msg c = (Ret (), c\<lparr>bc_contextID := cm_ContextID msg, bc_db := db\<rparr>)" and
    items: "map_of (items db) = (map_of (items (bc_db c)))(msg_key msg \<mapsto> data, time_key msg \<mapsto> [CHR 0x01], type_key msg \<mapsto> [CHR 0x01])"
    using bcStoreMessage_items [OF ok data] by blast
  have new: "msg_key m \<noteq> msg_key msg" if "m \<in> set H" for m
  proof (rule msg_key_neq [of J])
    show "plain_msg J m" "plain_msg J msg" using assms(2) that by (auto simp: plain_history_def)
    have "cm_ID msg \<notin> cm_ID ` set H" using assms(2) by (simp add: plain_history_def distinct_ids_def)
    then show "cm_ID m \<noteq> cm_ID msg" using that by (metis imageI)
  qed
  have "bc_holds B items writes J (c\<lparr>bc_contextID := cm_ContextID msg, bc_db := db\<rparr>) (H @ [msg])"
    using assms(1) new data by (auto simp: bc_holds_def items dom_fun_upd)
  with db show ?thesis by blast
qed

lemma fetch_message_holds:
  assumes "bc_holds B items writes J c H" and "plain_history J H" and "m \<in> set H"
  shows "fetch_message B J (bc_db c) (cm_ContextID m) (cm_ID m) = Some (json_norm_msg m)"
proof -
  have "map_of (items (bc_db c)) (msg_key m) = ToJSON J m" "badger_ok B items writes" using assms(1,3) by (auto simp: bc_holds_def)
  moreover have "map_option (FromJSON J) (ToJSON J m) = Some (Some (json_norm_msg m))"
    using assms(2,3) by (simp add: plain_history_def plain_msg_def)
  ultimately show ?thesis by (auto simp: fetch_message_def badger_ok_get split: option.splits)
qed

text \<open>The keys of a context in the time index are those of its messages, and their order is that of the timestamps.\<close>

lemma time_keys_of_context:
  assumes "bc_holds B items writes J c H" and "plain_history J H" and "no_colon ctx"
  shows "{k \<in> fst ` set (items (bc_db c)). prefix (makeTimeIndexPrefix ctx) k} = time_key ` set (in_context ctx H)"
proof -
  have pfx: "prefix (makeTimeIndexPrefix ctx) k \<longleftrightarrow> (\<exists>rest. rest \<noteq> [] \<and> parts k = ''t'' # ctx # rest)" for k
  proof -
    have eq: "makeTimeIndexPrefix ctx = (''t:'' @ ctx) @ [CHR '':'']" by (simp add: makeTimeIndexPrefix_def)
    show ?thesis unfolding eq prefix_split using assms(3) by (simp add: split_on_single)
  qed
  have plain: "plain_msg J m" if "m \<in> set H" for m using assms(2) that by (simp add: plain_history_def)
  have "fst ` set (items (bc_db c)) = (\<Union>m \<in> set H. {msg_key m, time_key m, type_key m})"
    using assms(1) by (simp add: bc_holds_def dom_map_of_conv_image_fst)
  moreover have "prefix (makeTimeIndexPrefix ctx) (time_key m) \<longleftrightarrow> cm_ContextID m = ctx"
    "\<not> prefix (makeTimeIndexPrefix ctx) (msg_key m)" "\<not> prefix (makeTimeIndexPrefix ctx) (type_key m)" if "m \<in> set H" for m
    using plain [OF that] by (auto simp: pfx parts_msg_keys plain_msg_def split_on_single)
  ultimately show ?thesis by (auto simp: in_context_def)
qed

lemma extract_time_key: "plain_msg J m \<Longrightarrow> extractMessageIDFromTimeKey (time_key m) = cm_ID m"
  by (simp add: extractMessageIDFromTimeKey_def parts_msg_keys plain_msg_def split_on_single numeral_eq_Suc)

lemma time_key_order:
  assumes "plain_msg J m" and "plain_msg J m'" and "cm_ContextID m = cm_ContextID m'" and "time_key m < time_key m'"
  shows "cm_Timestamp m \<le> cm_Timestamp m'"
proof (rule ccontr)
  assume "\<not> ?thesis"
  then have "sprintf_020d (cm_Timestamp m') @ '':'' @ cm_ID m' < sprintf_020d (cm_Timestamp m) @ '':'' @ cm_ID m"
    using assms(1,2) by (intro sprintf_020d_less) (auto simp: plain_msg_def)
  then have "time_key m' < time_key m" using assms(3) by (simp add: makeTimeIndexKey_def)
  with assms(4) show False by simp
qed

lemma inj_on_time_key:
  assumes "plain_history J H"
  shows "inj_on time_key (set H)"
proof (rule inj_onI)
  fix m m' assume m: "m \<in> set H" "m' \<in> set H" "time_key m = time_key m'"
  then have "cm_ID m = cm_ID m'" using assms extract_time_key [of J m] extract_time_key [of J m'] by (simp add: plain_history_def)
  with m assms show "m = m'" by (auto simp: plain_history_def distinct_ids_def distinct_map dest: inj_onD)
qed

lemma scan_time_index:
  assumes "bc_holds B items writes J c H" and "plain_history J H" and "no_colon ctx"
  defines "ks \<equiv> scan_rev B (bc_db c) (makeTimeIndexPrefix ctx)"
  shows "mset ks = mset (map time_key (in_context ctx H))" and "sorted_wrt (\<lambda>x y. y < x) ks"
proof -
  have ok: "badger_ok B items writes" using assms(1) by (simp add: bc_holds_def)
  have plain: "plain_msg J m" if "m \<in> set H" for m using assms(2) that by (simp add: plain_history_def)
  let ?ks = "filter (prefix (makeTimeIndexPrefix ctx)) (map fst (items (bc_db c)))"
  have bound: "k \<le> makeTimeIndexPrefix ctx @ replicate 8 (CHR 0xFF)"
    if k: "k \<in> fst ` set (items (bc_db c))" "prefix (makeTimeIndexPrefix ctx) k" for k
  proof -
    obtain m where m: "m \<in> set (in_context ctx H)" "k = time_key m"
      using time_keys_of_context [OF assms(1-3)] k by blast
    then have "plain_msg J m" "cm_ContextID m = ctx" using plain by (auto simp: in_context_def)
    then show ?thesis using sprintf_020d_bound [of "cm_Timestamp m" "'':'' @ cm_ID m"] m(2)
      by (simp add: plain_msg_def makeTimeIndexKey_def makeTimeIndexPrefix_def del: replicate.simps)
  qed
  have ks: "ks = rev ?ks" unfolding ks_def by (rule scan_rev_eq [OF ok bound])
  have sorted: "sorted_wrt (<) ?ks" by (rule sorted_wrt_filter [OF badger_ok_sorted [OF ok]])
  then show "sorted_wrt (\<lambda>x y. y < x) ks" by (simp add: ks sorted_wrt_rev)
  have "set ?ks = set (map time_key (in_context ctx H))" using time_keys_of_context [OF assms(1-3)] by auto
  moreover have "distinct ?ks" using sorted strict_sorted_iff by blast
  moreover have "distinct (map time_key (in_context ctx H))"
  proof -
    have "distinct H" using assms(2) by (simp add: plain_history_def distinct_ids_def distinct_map)
    then show ?thesis using inj_on_time_key [OF assms(2)] by (auto simp: distinct_map in_context_def inj_on_def)
  qed
  ultimately show "mset ks = mset (map time_key (in_context ctx H))" using set_eq_iff_mset_eq_distinct by (metis ks mset_rev)
qed

lemma bc_recent_list:
  assumes "bc_holds B items writes J c H" and "plain_history J H" and "no_colon ctx"
  shows "\<exists>ms. List.map_filter (\<lambda>key. fetch_message B J (bc_db c) ctx (extractMessageIDFromTimeKey key))
       (scan_rev B (bc_db c) (makeTimeIndexPrefix ctx)) = ms \<and>
     mset ms = mset (map json_norm_msg (in_context ctx H)) \<and> sorted_wrt newer_msg ms"
proof -
  let ?ks = "scan_rev B (bc_db c) (makeTimeIndexPrefix ctx)"
  let ?f = "\<lambda>key. fetch_message B J (bc_db c) ctx (extractMessageIDFromTimeKey key)"
  note scan = scan_time_index [OF assms(1,2,3)]
  have plain: "plain_msg J m" if "m \<in> set H" for m using assms(2) that by (simp add: plain_history_def)
  have fetch: "?f (time_key m) = Some (json_norm_msg m)" if "m \<in> set (in_context ctx H)" for m
    using fetch_message_holds [OF assms(1,2), of m] extract_time_key [of J m] plain that by (auto simp: in_context_def)
  have key: "\<exists>m \<in> set (in_context ctx H). k = time_key m" if "k \<in> set ?ks" for k
    using mset_eq_setD [OF scan(1)] that by auto
  let ?ms = "map (\<lambda>k. the (?f k)) ?ks"
  have "?f k = Some (the (?f k))" if "k \<in> set ?ks" for k using key [OF that] fetch by auto
  then have "List.map_filter ?f ?ks = ?ms" by (rule map_filter_all)
  moreover have "mset ?ms = mset (map json_norm_msg (in_context ctx H))"
  proof -
    have "mset ?ms = mset (map (\<lambda>k. the (?f k)) (map time_key (in_context ctx H)))"
      using scan(1) by (simp only: mset_map)
    also have "map (\<lambda>k. the (?f k)) (map time_key (in_context ctx H)) = map json_norm_msg (in_context ctx H)" using fetch by simp
    finally show ?thesis .
  qed
  moreover have "sorted_wrt newer_msg ?ms"
    unfolding sorted_wrt_map
  proof (rule sorted_wrt_mono_rel [OF _ scan(2)])
    fix x y assume "x \<in> set ?ks" "y \<in> set ?ks" "y < x"
    moreover obtain m m' where "m \<in> set (in_context ctx H)" "x = time_key m" "m' \<in> set (in_context ctx H)" "y = time_key m'"
      using key calculation(1,2) by blast
    ultimately show "newer_msg (the (?f x)) (the (?f y))"
      using fetch time_key_order [of J m' m] plain by (auto simp: newer_msg_def in_context_def json_norm_msg_def)
  qed
  ultimately show ?thesis by blast
qed

lemma bcGetRecent_holds:
  assumes "bc_holds B items writes J c H" and "plain_history J H" and "ctx \<noteq> []" and "no_colon ctx"
  shows "\<exists>ms. bcGetRecentMessages B J ctx n c = Ret (take (mcp_limit n) ms) \<and>
     mset ms = mset (map json_norm_msg (in_context ctx H)) \<and> sorted_wrt newer_msg ms"
  using bc_recent_list [OF assms(1,2,4)] assms(3)
  by (auto simp: bcGetRecentMessages_def bc_context_def collect_loop_eq Let_def)

lemma bcSearch_holds:
  assumes "bc_holds B items writes J c H" and "plain_history J H" and "mq_ContextID q \<noteq> []" and "no_colon (mq_ContextID q)"
    and "mq_Types q = []"
  shows "\<exists>ms. bcSearchMessages B J lower q c =
       Ret (apply_offset (mq_Offset q) (take (mcp_limit (mq_Limit q)) (filter (content_match lower (mq_Query q)) ms))) \<and>
     mset ms = mset (map json_norm_msg (in_context (mq_ContextID q) H)) \<and> sorted_wrt newer_msg ms"
  using bc_recent_list [OF assms(1,2,4)] assms(3,5)
  by (auto simp: bcSearchMessages_def bc_context_def collect_loop_eq Let_def)

lemma bcGet_holds:
  assumes "bc_holds B items writes J c H" and "plain_history J H"
  shows "m \<in> set H \<Longrightarrow> cm_ContextID m = cm_ContextID (last H) \<Longrightarrow> bcGetMessage B J (cm_ID m) c = Ret (json_norm_msg m)"
    and "\<forall>m \<in> set H. cm_ID m \<noteq> i \<Longrightarrow> \<exists>e. bcGetMessage B J i c = Err e"
proof -
  have ok: "badger_ok B items writes" using assms(1) by (simp add: bc_holds_def)
  have plain: "plain_msg J m" if "m \<in> set H" for m using assms(2) that by (simp add: plain_history_def)
  show "bcGetMessage B J (cm_ID m) c = Ret (json_norm_msg m)" if m: "m \<in> set H" "cm_ContextID m = cm_ContextID (last H)"
  proof -
    have "bc_contextID c = cm_ContextID m" using assms(1) m by (auto simp: bc_holds_def)
    moreover have "cm_ContextID m \<noteq> []" using plain [OF m(1)] by (simp add: plain_msg_def)
    ultimately show ?thesis using fetch_message_holds [OF assms m(1)]
      by (auto simp: bcGetMessage_def fetch_message_def split: sum.splits option.splits)
  qed
  show "\<exists>e. bcGetMessage B J i c = Err e" if none: "\<forall>m \<in> set H. cm_ID m \<noteq> i"
  proof (cases "bc_contextID c = []")
    case False
    then have ne: "H \<noteq> []" "bc_contextID c = cm_ContextID (last H)" using assms(1) by (auto simp: bc_holds_def split: if_splits)
    have "makeMessageKey (bc_contextID c) i \<noteq> msg_key m" if "m \<in> set H" for m
    proof
      assume "makeMessageKey (bc_contextID c) i = msg_key m"
      then have "parts (makeMessageKey (bc_contextID c) i) = parts (msg_key m)" by simp
      then show False using plain [OF that] plain [of "last H"] none that ne by (auto simp: parts_msg_keys plain_msg_def split_on_single split_on_eq_single)
    qed
    then have "makeMessageKey (bc_contextID c) i \<notin> dom (map_of (items (bc_db c)))" using assms(1) by (auto simp: bc_holds_def)
    then have "map_of (items (bc_db c)) (makeMessageKey (bc_contextID c) i) = None" by auto
    then show ?thesis using False by (simp add: bcGetMessage_def badger_ok_get [OF ok])
  qed (simp add: bcGetMessage_def)
qed

interpretation bc: conversation_store "badger_client B J lower" "bc_holds B items writes J" "plain_history J"
  "\<lambda>c. c \<noteq> [] \<and> no_colon c" json_norm_msg lower
proof unfold_locales
  fix H H' show "plain_history J H" if "plain_history J (H @ H')" using that by (simp add: plain_history_def distinct_ids_def)
next
  fix s H m c n i and q :: McpQuery
  assume holds: "bc_holds B items writes J s H"
  show "\<exists>s'. StoreMessage (badger_client B J lower) m s = (Ret (), s') \<and> bc_holds B items writes J s' (H @ [m])"
    if "plain_history J (H @ [m])" using bcStoreMessage_holds [OF holds that] by (simp add: badger_client_def)
  show "\<exists>ms. GetRecentMessages (badger_client B J lower) c n s = Ret (take (mcp_limit n) ms) \<and>
      mset ms = mset (map json_norm_msg (in_context c H)) \<and> sorted_wrt newer_msg ms" if "plain_history J H" "c \<noteq> [] \<and> no_colon c"
    using bcGetRecent_holds [OF holds] that by (simp add: badger_client_def)
  show "\<exists>ms. SearchMessages (badger_client B J lower) q s =
        Ret (apply_offset (mq_Offset q) (take (mcp_limit (mq_Limit q)) (filter (content_match lower (mq_Query q)) ms))) \<and>
      mset ms = mset (map json_norm_msg (in_context (mq_ContextID q) H)) \<and> sorted_wrt newer_msg ms"
    if "plain_history J H" "mq_ContextID q \<noteq> [] \<and> no_colon (mq_ContextID q)" "mq_Types q = []"
    using bcSearch_holds [OF holds] that by (simp add: badger_client_def)
  show "GetMessage (badger_client B J lower) (cm_ID m) s = Ret (json_norm_msg m)"
    if "plain_history J H" "m \<in> set H" "cm_ContextID m = cm_ContextID (last H)"
    using bcGet_holds(1) [OF holds that] by (simp add: badger_client_def)
  show "\<exists>e. GetMessage (badger_client B J lower) i s = Err e" if "plain_history J H" "\<forall>m \<in> set H. cm_ID m \<noteq> i"
    using bcGet_holds(2) [OF holds that] by (simp add: badger_client_def)
qed (simp_all add: json_norm_msg_def)

end
