(* ===== verification/Mcp_Tools.thy ===== *)
theory Mcp_Tools
  imports Mcp_Badger
begin

text \<open>
  The tools of the MCP server, \<open>apps/mcp/internal/tools.go\<close>, over any client of the interface \<open>StorageClient\<close>; their
  properties follow from the contract of \<open>conversation_store\<close> and hold for both clients. A tool call takes its parameters
  as JSON. An error is its kind instead of its text.
\<close>

section \<open>Tool definitions\<close>

record ToolDefinition =
  td_Name :: bytes
  td_Description :: bytes
  td_InputSchema :: json

definition ToolSearchConversation :: bytes where "ToolSearchConversation = ''search_conversation''"
definition ToolStoreMemory :: bytes where "ToolStoreMemory = ''store_memory''"
definition ToolRetrieveMemory :: bytes where "ToolRetrieveMemory = ''retrieve_memory''"
definition ToolListRecentMessages :: bytes where "ToolListRecentMessages = ''list_recent_messages''"

lemmas tool_name_defs = ToolSearchConversation_def ToolStoreMemory_def ToolRetrieveMemory_def ToolListRecentMessages_def

definition schema_property :: "bytes \<Rightarrow> bytes \<Rightarrow> json" where
  "schema_property ty desc = JObj [(''type'', JStr ty), (''description'', JStr desc)]"

definition types_property :: json where
  "types_property =
     JObj [(''type'', JStr ''array''), (''items'', JObj [(''type'', JStr ''string'')]),
       (''description'', JStr ''Optional filter by message types (e.g., user, assistant, memory)'')]"

definition GetToolDefinitions :: "ToolDefinition list" where
  "GetToolDefinitions =
     [\<lparr>td_Name = ToolSearchConversation, td_Description = ''Search for content within the conversation history'',
       td_InputSchema = JObj [(''type'', JStr ''object''),
         (''properties'', JObj
           [(''query'', schema_property ''string'' ''The search query text''),
            (''types'', types_property),
            (''limit'', schema_property ''integer'' ''Maximum number of results to return (default 10)''),
            (''offset'', schema_property ''integer'' ''Results to skip (default 0)'')]),
         (''required'', JArr [JStr ''query''])]\<rparr>,
      \<lparr>td_Name = ToolStoreMemory, td_Description = ''Store a memory or note for future reference'',
       td_InputSchema = JObj [(''type'', JStr ''object''),
         (''properties'', JObj
           [(''content'', schema_property ''string'' ''The content to store''),
            (''metadata'', schema_property ''object'' ''Optional metadata to associate with the memory'')]),
         (''required'', JArr [JStr ''content''])]\<rparr>,
      \<lparr>td_Name = ToolRetrieveMemory, td_Description = ''Retrieve a specific memory by ID'',
       td_InputSchema = JObj [(''type'', JStr ''object''),
         (''properties'', JObj [(''id'', schema_property ''string'' ''The ID of the memory to retrieve'')]),
         (''required'', JArr [JStr ''id''])]\<rparr>,
      \<lparr>td_Name = ToolListRecentMessages, td_Description = ''List recent messages in the conversation'',
       td_InputSchema = JObj [(''type'', JStr ''object''),
         (''properties'', JObj
           [(''limit'', schema_property ''integer'' ''Maximum number of messages to return (default 10)''),
            (''types'', types_property)])]\<rparr>]"

section \<open>Tool calls\<close>

datatype tool_error =
    UnknownTool bytes
  | QueryRequired
  | ContentRequired
  | IdRequired
  | SearchFailed mcp_error
  | StoreFailed mcp_error
  | RetrieveFailed mcp_error

datatype tool_data = Messages "ConversationMessage list" | Stored bytes int | OneMessage ConversationMessage

datatype ToolResult = ToolError tool_error | ToolOk tool_data

type_synonym params = "(bytes \<times> json) list"

text \<open>The type assertions \<open>params[k].(string)\<close>, \<open>params[k].(float64)\<close>, and the filter on strings.\<close>

definition string_param :: "params \<Rightarrow> bytes \<Rightarrow> bytes" where
  "string_param params k = (case map_of params k of Some (JStr s) \<Rightarrow> s | _ \<Rightarrow> [])"

definition int_param :: "int \<Rightarrow> params \<Rightarrow> bytes \<Rightarrow> int" where
  "int_param d params k = (case map_of params k of Some (JNum n) \<Rightarrow> n | _ \<Rightarrow> d)"

definition types_param :: "params \<Rightarrow> bytes list" where
  "types_param params =
     (case map_of params ''types'' of
        Some (JArr ts) \<Rightarrow> List.map_filter (\<lambda>t. case t of JStr s \<Rightarrow> Some s | _ \<Rightarrow> None) ts
      | _ \<Rightarrow> [])"

definition handleSearchConversation :: "'s StorageClient \<Rightarrow> bytes \<Rightarrow> params \<Rightarrow> 's \<Rightarrow> (unit, ToolResult) outcome" where
  "handleSearchConversation C contextID params s =
     (if string_param params ''query'' = [] then Ret (ToolError QueryRequired)
      else case SearchMessages C
          \<lparr>mq_ContextID = contextID, mq_Query = string_param params ''query'', mq_Types = types_param params,
           mq_Limit = int_param 10 params ''limit'', mq_Offset = int_param 0 params ''offset''\<rparr> s of
        Ret results \<Rightarrow> Ret (ToolOk (Messages results))
      | Err e \<Rightarrow> Ret (ToolError (SearchFailed e))
      | Panic \<Rightarrow> Panic)"

definition handleStoreMemory ::
  "'s StorageClient \<Rightarrow> bytes \<Rightarrow> gotime \<Rightarrow> bytes \<Rightarrow> bytes \<Rightarrow> params \<Rightarrow> 's \<Rightarrow> (unit, ToolResult) outcome \<times> 's" where
  "handleStoreMemory C uuid now contextID agentID params s =
     (if string_param params ''content'' = [] then (Ret (ToolError ContentRequired), s)
      else
        let metadata = (case map_of params ''metadata'' of Some (JObj es) \<Rightarrow> Some es | _ \<Rightarrow> Some []);
            memory = (NewConversationMessage uuid now contextID agentID MessageTypeMemory (string_param params ''content''))
                       \<lparr>cm_Metadata := metadata\<rparr>
        in case StoreMessage C memory s of
             (Ret _, s) \<Rightarrow> (Ret (ToolOk (Stored (cm_ID memory) (cm_Timestamp memory))), s)
           | (Err e, s) \<Rightarrow> (Ret (ToolError (StoreFailed e)), s)
           | (Panic, s) \<Rightarrow> (Panic, s))"

definition handleRetrieveMemory :: "'s StorageClient \<Rightarrow> params \<Rightarrow> 's \<Rightarrow> (unit, ToolResult) outcome" where
  "handleRetrieveMemory C params s =
     (if string_param params ''id'' = [] then Ret (ToolError IdRequired)
      else case GetMessage C (string_param params ''id'') s of
             Ret memory \<Rightarrow> Ret (ToolOk (OneMessage memory))
           | Err e \<Rightarrow> Ret (ToolError (RetrieveFailed e))
           | Panic \<Rightarrow> Panic)"

definition handleListRecentMessages :: "'s StorageClient \<Rightarrow> bytes \<Rightarrow> params \<Rightarrow> 's \<Rightarrow> (unit, ToolResult) outcome" where
  "handleListRecentMessages C contextID params s =
     (let types = types_param params
      in case GetRecentMessages C contextID (int_param 10 params ''limit'') s of
           Ret messages \<Rightarrow>
             Ret (ToolOk (Messages (if types \<noteq> [] then filter (\<lambda>msg. cm_Type msg \<in> set types) messages else messages)))
         | Err e \<Rightarrow> Ret (ToolError (RetrieveFailed e))
         | Panic \<Rightarrow> Panic)"

definition HandleToolCall ::
  "'s StorageClient \<Rightarrow> bytes \<Rightarrow> gotime \<Rightarrow> bytes \<Rightarrow> bytes \<Rightarrow> bytes \<Rightarrow> params \<Rightarrow> 's \<Rightarrow> (unit, ToolResult) outcome \<times> 's" where
  "HandleToolCall C uuid now toolName contextID agentID params s =
     (if toolName = ToolSearchConversation then (handleSearchConversation C contextID params s, s)
      else if toolName = ToolStoreMemory then handleStoreMemory C uuid now contextID agentID params s
      else if toolName = ToolRetrieveMemory then (handleRetrieveMemory C params s, s)
      else if toolName = ToolListRecentMessages then (handleListRecentMessages C contextID params s, s)
      else (Ret (ToolError (UnknownTool toolName)), s))"

section \<open>Tools over a conversation store\<close>

text \<open>What a tool demands of its input, as its schema says: a missing required parameter is refused, and no other call is.\<close>

definition required_params :: "ToolDefinition \<Rightarrow> bytes list" where
  "required_params td =
     (case td_InputSchema td of
        JObj es \<Rightarrow> (case map_of es ''required'' of
          Some (JArr ns) \<Rightarrow> List.map_filter (\<lambda>n. case n of JStr s \<Rightarrow> Some s | _ \<Rightarrow> None) ns
        | _ \<Rightarrow> [])
      | _ \<Rightarrow> [])"

lemma required_params_tools:
  "map (\<lambda>td. (td_Name td, required_params td)) GetToolDefinitions =
     [(ToolSearchConversation, [''query'']), (ToolStoreMemory, [''content'']), (ToolRetrieveMemory, [''id'']), (ToolListRecentMessages, [])]"
  by (simp add: GetToolDefinitions_def required_params_def List.map_filter_def)

definition refused :: "(unit, ToolResult) outcome \<Rightarrow> bool" where
  "refused r \<longleftrightarrow> (\<exists>e. r = Ret (ToolError e) \<and> (e \<in> {QueryRequired, ContentRequired, IdRequired} \<or> (\<exists>n. e = UnknownTool n)))"

text \<open>The message a call of \<open>store_memory\<close> stores.\<close>

definition memory_of :: "bytes \<Rightarrow> gotime \<Rightarrow> bytes \<Rightarrow> bytes \<Rightarrow> params \<Rightarrow> ConversationMessage" where
  "memory_of uuid now contextID agentID params =
     (NewConversationMessage uuid now contextID agentID MessageTypeMemory (string_param params ''content''))
       \<lparr>cm_Metadata := (case map_of params ''metadata'' of Some (JObj es) \<Rightarrow> Some es | _ \<Rightarrow> Some [])\<rparr>"

lemma memory_of_simps [simp]:
  "cm_ID (memory_of uuid now ctx agent params) = uuid" "cm_ContextID (memory_of uuid now ctx agent params) = ctx"
  "cm_Timestamp (memory_of uuid now ctx agent params) = now div Second"
  by (simp_all add: memory_of_def NewConversationMessage_def)

context conversation_store
begin

lemma store_memory:
  assumes "holds s H" and "admissible (H @ [memory_of uuid now ctx agent params])" and "string_param params ''content'' \<noteq> []"
  shows "\<exists>s'. HandleToolCall C uuid now ''store_memory'' ctx agent params s = (Ret (ToolOk (Stored uuid (now div Second))), s') \<and>
     holds s' (H @ [memory_of uuid now ctx agent params])"
  using store_holds [OF assms(1,2)] assms(3)
  by (auto simp: HandleToolCall_def tool_name_defs handleStoreMemory_def memory_of_def NewConversationMessage_def)

lemma retrieve_memory:
  assumes "holds s H" and "admissible H" and "m \<in> set H" and "cm_ContextID m = cm_ContextID (last H)" and "cm_ID m \<noteq> []"
  shows "HandleToolCall C uuid now ''retrieve_memory'' ctx agent [(''id'', JStr (cm_ID m))] s = (Ret (ToolOk (OneMessage (norm m))), s)"
  using get_holds [OF assms(1-4)] assms(5) by (simp add: HandleToolCall_def tool_name_defs handleRetrieveMemory_def string_param_def)

lemma store_then_retrieve:
  assumes "holds s H" and "admissible (H @ [memory_of uuid now ctx agent params])" and "string_param params ''content'' \<noteq> []"
    and "uuid \<noteq> []"
  shows "\<exists>s'. HandleToolCall C uuid now ''store_memory'' ctx agent params s = (Ret (ToolOk (Stored uuid (now div Second))), s') \<and>
     HandleToolCall C uuid' now' ''retrieve_memory'' ctx' agent' [(''id'', JStr uuid)] s' =
       (Ret (ToolOk (OneMessage (norm (memory_of uuid now ctx agent params)))), s')"
  using store_memory [OF assms(1-3)] assms(2,4) retrieve_memory [of _ "H @ [memory_of uuid now ctx agent params]" "memory_of uuid now ctx agent params"]
  by fastforce

lemma retrieve_unknown:
  assumes "holds s H" and "admissible H" and "\<forall>m \<in> set H. cm_ID m \<noteq> i" and "i \<noteq> []"
  shows "\<exists>e. HandleToolCall C uuid now ''retrieve_memory'' ctx agent [(''id'', JStr i)] s = (Ret (ToolError (RetrieveFailed e)), s)"
  using get_missing [OF assms(1-3)] assms(4) by (auto simp: HandleToolCall_def tool_name_defs handleRetrieveMemory_def string_param_def)

lemma list_recent:
  assumes "holds s H" and "admissible H" and "ctx_ok ctx"
  shows "\<exists>ms. HandleToolCall C uuid now ''list_recent_messages'' ctx agent params s =
       (Ret (ToolOk (Messages (filter (\<lambda>m. types_param params \<noteq> [] \<longrightarrow> cm_Type m \<in> set (types_param params))
          (take (mcp_limit (int_param 10 params ''limit'')) ms)))), s) \<and>
     mset ms = mset (map norm (in_context ctx H)) \<and> sorted_wrt newer_msg ms"
proof -
  obtain ms where "GetRecentMessages C ctx (int_param 10 params ''limit'') s = Ret (take (mcp_limit (int_param 10 params ''limit'')) ms)"
    "mset ms = mset (map norm (in_context ctx H))" "sorted_wrt newer_msg ms"
    using recent_holds [OF assms] by blast
  then show ?thesis by (intro exI [of _ ms]) (simp add: HandleToolCall_def tool_name_defs handleListRecentMessages_def Let_def)
qed

lemma search_conversation:
  assumes "holds s H" and "admissible H" and "ctx_ok ctx" and "string_param params ''query'' \<noteq> []" and "types_param params = []"
  shows "\<exists>ms. HandleToolCall C uuid now ''search_conversation'' ctx agent params s =
       (Ret (ToolOk (Messages (apply_offset (int_param 0 params ''offset'') (take (mcp_limit (int_param 10 params ''limit''))
          (filter (content_match lower (string_param params ''query'')) ms))))), s) \<and>
     mset ms = mset (map norm (in_context ctx H)) \<and> sorted_wrt newer_msg ms"
proof -
  let ?q = "\<lparr>mq_ContextID = ctx, mq_Query = string_param params ''query'', mq_Types = types_param params,
           mq_Limit = int_param 10 params ''limit'', mq_Offset = int_param 0 params ''offset''\<rparr>"
  obtain ms where "SearchMessages C ?q s = Ret (apply_offset (mq_Offset ?q) (take (mcp_limit (mq_Limit ?q)) (filter (content_match lower (mq_Query ?q)) ms)))"
    "mset ms = mset (map norm (in_context ctx H))" "sorted_wrt newer_msg ms"
    using search_holds [OF assms(1,2), of ?q] assms(3,5) by auto
  then show ?thesis using assms(4) by (intro exI [of _ ms]) (simp add: HandleToolCall_def tool_name_defs handleSearchConversation_def)
qed

end

text \<open>The calls of \<open>store_memory\<close> of a session, each with the identifier and the time the call draws.\<close>

fun store_calls ::
  "'s StorageClient \<Rightarrow> bytes \<Rightarrow> bytes \<Rightarrow> (bytes \<times> gotime \<times> params) list \<Rightarrow> 's \<Rightarrow> 's" where
  "store_calls C ctx agent [] s = s"
| "store_calls C ctx agent ((uuid, now, params) # calls) s =
     store_calls C ctx agent calls (snd (HandleToolCall C uuid now ''store_memory'' ctx agent params s))"

definition calls_history :: "bytes \<Rightarrow> bytes \<Rightarrow> (bytes \<times> gotime \<times> params) list \<Rightarrow> ConversationMessage list" where
  "calls_history ctx agent calls = map (\<lambda>(uuid, now, params). memory_of uuid now ctx agent params) calls"

definition calls_ok :: "(bytes \<times> gotime \<times> params) list \<Rightarrow> bool" where
  "calls_ok calls \<longleftrightarrow> (\<forall>(uuid, now, params) \<in> set calls. string_param params ''content'' \<noteq> [])"

context conversation_store
begin

lemma store_calls_holds:
  assumes "holds s H" and "admissible (H @ calls_history ctx agent calls)" and "calls_ok calls"
  shows "holds (store_calls C ctx agent calls s) (H @ calls_history ctx agent calls)"
  using assms
proof (induction calls arbitrary: s H)
  case (Cons call calls)
  obtain uuid now params where call: "call = (uuid, now, params)" by (cases call)
  let ?m = "memory_of uuid now ctx agent params"
  have "admissible (H @ [?m])" using Cons.prems(2) admissible_prefix [of "H @ [?m]"] by (simp add: calls_history_def call)
  moreover have "string_param params ''content'' \<noteq> []" using Cons.prems(3) by (simp add: calls_ok_def call)
  ultimately obtain s' where "HandleToolCall C uuid now ''store_memory'' ctx agent params s =
      (Ret (ToolOk (Stored uuid (now div Second))), s')" "holds s' (H @ [?m])"
    using store_memory [OF Cons.prems(1)] by blast
  then show ?case using Cons.IH [of s' "H @ [?m]"] Cons.prems by (simp add: calls_history_def calls_ok_def call)
qed (simp add: calls_history_def)

lemma in_context_calls: "in_context ctx (calls_history ctx agent calls) = calls_history ctx agent calls"
  by (auto simp: in_context_def calls_history_def intro!: filter_True)

lemma search_after_calls:
  assumes "holds s []" and "admissible (calls_history ctx agent calls)" and "calls_ok calls" and "ctx_ok ctx"
    and "string_param params ''query'' \<noteq> []" and "types_param params = []" and "int_param 0 params ''offset'' = 0"
  defines "s' \<equiv> store_calls C ctx agent calls s"
  shows "\<exists>ms. HandleToolCall C uuid now ''search_conversation'' ctx agent params s' =
       (Ret (ToolOk (Messages (take (mcp_limit (int_param 10 params ''limit'')) (filter (content_match lower (string_param params ''query'')) ms)))), s') \<and>
     mset ms = mset (map norm (calls_history ctx agent calls)) \<and> sorted_wrt newer_msg ms"
proof -
  have "holds s' (calls_history ctx agent calls)" using store_calls_holds [OF assms(1)] assms(2,3) unfolding s'_def by simp
  from search_conversation [OF this assms(2,4,5,6)] assms(7) show ?thesis by (simp add: in_context_calls apply_offset_def)
qed

lemma list_after_calls:
  assumes "holds s []" and "admissible (calls_history ctx agent calls)" and "calls_ok calls" and "ctx_ok ctx" and "types_param params = []"
  defines "s' \<equiv> store_calls C ctx agent calls s"
  shows "\<exists>ms. HandleToolCall C uuid now ''list_recent_messages'' ctx agent params s' =
       (Ret (ToolOk (Messages (take (mcp_limit (int_param 10 params ''limit'')) ms))), s') \<and>
     mset ms = mset (map norm (calls_history ctx agent calls)) \<and> sorted_wrt newer_msg ms"
proof -
  have "holds s' (calls_history ctx agent calls)" using store_calls_holds [OF assms(1)] assms(2,3) unfolding s'_def by simp
  from list_recent [OF this assms(2,4), of uuid now agent params] assms(5) show ?thesis by (simp add: in_context_calls)
qed

end

section \<open>Properties of the tools\<close>

text \<open>A memory stored through the tools of the persistent server is read back by its identifier, with everything its
  encoding keeps of it.\<close>

lemma mcp_store_retrieve:
  assumes "bc_holds B items writes J s H" and "plain_history J (H @ [memory_of uuid now ctx agent params])"
    and "string_param params ''content'' \<noteq> []" and "uuid \<noteq> []"
  shows "\<exists>s'. HandleToolCall (badger_client B J lower) uuid now ''store_memory'' ctx agent params s =
       (Ret (ToolOk (Stored uuid (now div Second))), s') \<and>
     HandleToolCall (badger_client B J lower) uuid' now' ''retrieve_memory'' ctx' agent' [(''id'', JStr uuid)] s' =
       (Ret (ToolOk (OneMessage (json_norm_msg (memory_of uuid now ctx agent params)))), s')"
  by (rule bc.store_then_retrieve [OF assms])


text \<open>The memory client: after any sequence of memories stored through the tools, the list of recent messages has them
  newest first, up to the limit.\<close>

lemma mcp_recent_history:
  fixes lower :: "bytes \<Rightarrow> bytes" and ord :: "bytes list \<Rightarrow> bytes list"
  assumes "distinct_ids (calls_history ctx agent calls)" and "calls_ok calls" and "ctx \<noteq> []" and "types_param params = []"
  defines "s' \<equiv> store_calls (memory_client lower ord) ctx agent calls NewMemoryStorageClient"
  shows "\<exists>ms. HandleToolCall (memory_client lower ord) uuid now ''list_recent_messages'' ctx agent params s' =
       (Ret (ToolOk (Messages (take (mcp_limit (int_param 10 params ''limit'')) ms))), s') \<and>
     mset ms = mset (calls_history ctx agent calls) \<and> sorted_wrt newer_msg ms"
proof -
  have "mem_holds NewMemoryStorageClient []"
    by (simp add: mem_holds_def NewMemoryStorageClient_def get_default_def in_context_def)
  from mem.list_after_calls [OF this assms(1-4), of lower ord uuid now] show ?thesis unfolding s'_def by simp
qed

lemma apply_offset_short: "length ms \<le> n \<Longrightarrow> int n \<le> offset \<Longrightarrow> apply_offset offset ms = apply_offset 0 ms"
  by (simp add: apply_offset_def)

lemma collect_loop_length: "length acc \<le> n \<Longrightarrow> length (collect_loop f keep n acc ks) \<le> n"
  by (simp add: collect_loop_eq)

lemma fold_collect_length:
  "length acc \<le> n \<Longrightarrow> length (fold (\<lambda>t acc. collect_loop (f t) keep n acc (ks t)) ts acc) \<le> n"
  by (induction ts arbitrary: acc) (simp_all add: collect_loop_length)

text \<open>Pages cannot be followed: both clients cut the matches to the limit before they skip the offset, so an offset of at
  least the limit has no effect and the first page is returned again.\<close>

lemma mcp_second_page:
  assumes "int (mcp_limit (mq_Limit q)) \<le> mq_Offset q"
  shows "SearchMessages (memory_client lower ord) q s = SearchMessages (memory_client lower ord) (q\<lparr>mq_Offset := 0\<rparr>) s \<and>
     SearchMessages (badger_client B J lower) q t = SearchMessages (badger_client B J lower) (q\<lparr>mq_Offset := 0\<rparr>) t"
proof -
  have loop: "apply_offset (mq_Offset q) (collect_loop f keep (mcp_limit (mq_Limit q)) [] ks) =
      apply_offset 0 (collect_loop f keep (mcp_limit (mq_Limit q)) [] ks)"
    for f :: "'k \<Rightarrow> 'm option" and keep ks by (rule apply_offset_short [OF collect_loop_length assms]) simp
  have fold: "apply_offset (mq_Offset q) (fold (\<lambda>t acc. collect_loop f keep (mcp_limit (mq_Limit q)) acc (ks t)) ts []) =
      apply_offset 0 (fold (\<lambda>t acc. collect_loop f keep (mcp_limit (mq_Limit q)) acc (ks t)) ts [])"
    for f :: "'k \<Rightarrow> 'm option" and keep ks ts by (rule apply_offset_short [OF fold_collect_length assms]) simp
  show ?thesis
    by (simp add: memory_client_def memSearchMessages_def badger_client_def bcSearchMessages_def Let_def loop fold)
qed

text \<open>A context whose identifier has a colon: a message the persistent client has stored for it is never listed, because the
  identifier is taken from a fixed part of the index key.\<close>

lemma mcp_colon_context:
  assumes "badger_ok B items writes" and "badger_total B" and "items (bc_db c) = []" and "ToJSON J msg \<noteq> None"
    and "cm_ContextID msg = a @ '':'' @ b" and "no_colon a" and "no_colon b" and "cm_ID msg \<noteq> sprintf_020d (cm_Timestamp msg)"
  shows "\<exists>c'. bcStoreMessage B J msg c = (Ret (), c') \<and> bcGetRecentMessages B J (cm_ContextID msg) n c' = Ret []"
proof -
  obtain data where data: "ToJSON J msg = Some data" using assms(4) by auto
  let ?ts = "sprintf_020d (cm_Timestamp msg)" and ?ctx = "cm_ContextID msg"
  obtain db where store: "bcStoreMessage B J msg c = (Ret (), c\<lparr>bc_contextID := ?ctx, bc_db := db\<rparr>)" and
    items: "map_of (items db) = (map_of (items (bc_db c)))(msg_key msg \<mapsto> data, time_key msg \<mapsto> [CHR 0x01], type_key msg \<mapsto> [CHR 0x01])"
    using bcStoreMessage_items [OF assms(1,2) data] by blast
  let ?f = "\<lambda>key. fetch_message B J db ?ctx (extractMessageIDFromTimeKey key)"
  have parts_ctx: "parts ?ctx = [a, b]" using assms(5-7) by (simp add: split_on_append split_on_single)
  have id: "extractMessageIDFromTimeKey (time_key msg) = ?ts"
    by (simp add: extractMessageIDFromTimeKey_def parts_msg_keys parts_ctx numeral_eq_Suc)
  have "makeMessageKey ?ctx ?ts \<noteq> msg_key msg" using assms(8) by (simp add: makeMessageKey_def)
  then have "map_of (items db) (makeMessageKey ?ctx ?ts) = None" using assms(3) by (simp add: items)
  then have none: "?f (time_key msg) = None" by (simp add: id fetch_message_def badger_ok_get [OF assms(1)])
  have "k = time_key msg" if "k \<in> set (scan_rev B db (makeTimeIndexPrefix ?ctx))" for k
  proof -
    have "prefix (makeTimeIndexPrefix ?ctx) k" and "k \<in> fst ` set (viewSeek B db True (makeTimeIndexPrefix ?ctx @ replicate 8 (CHR 0xFF)))"
      using that by (auto simp: scan_rev_def dest: set_takeWhileD)
    moreover from this have "k \<in> fst ` set (items db)" by (force simp: badger_ok_seek [OF assms(1)] readable_def)
    then have "k \<in> {msg_key msg, time_key msg, type_key msg}"
      using items assms(3) by (auto simp: dom_map_of_conv_image_fst [symmetric] split: if_splits)
    ultimately show ?thesis by (auto simp: makeTimeIndexPrefix_def makeMessageKey_def makeTypeIndexKey_def)
  qed
  then have "List.map_filter ?f (scan_rev B db (makeTimeIndexPrefix ?ctx)) = []"
    using none by (auto simp: List.map_filter_def filter_empty_conv)
  then have "bcGetRecentMessages B J ?ctx n (c\<lparr>bc_contextID := ?ctx, bc_db := db\<rparr>) = Ret []"
    using assms(5) by (simp add: bcGetRecentMessages_def bc_context_def collect_loop_eq Let_def)
  with store show ?thesis by blast
qed


section \<open>Examples\<close>

definition ex_params :: "bytes \<Rightarrow> params" where
  "ex_params v = [(''content'', JStr v), (''query'', JStr v), (''limit'', JNum 5)]"

definition ex_calls :: "(bytes \<times> gotime \<times> params) list" where
  "ex_calls = [(''i1'', 5 * Second, ex_params ''hello''), (''i2'', 7 * Second, ex_params ''world'')]"

definition ex_memories :: "ConversationMessage list" where
  "ex_memories = calls_history ''ctx'' ''agent'' ex_calls"

text \<open>A codec for the messages of the example: the identifier stands for the message.\<close>

definition ex_codec :: message_codec where
  "ex_codec = \<lparr>ToJSON = (\<lambda>m. Some (cm_ID m)), FromJSON = (\<lambda>d. find (\<lambda>m. cm_ID m = d) ex_memories)\<rparr>"

lemma ex_history: "plain_history ex_codec ex_memories"
  by (simp add: plain_history_def ex_memories_def calls_history_def ex_calls_def distinct_ids_def plain_msg_def ex_codec_def
      json_norm_msg_def memory_of_def NewConversationMessage_def MessageTypeMemory_def ex_params_def string_param_def)

lemma ex_bc_holds: "bc_holds ref_badger ref_items (\<lambda>t. t) J \<lparr>bc_db = ref_empty, bc_contextID = []\<rparr> []"
  by (simp add: bc_holds_def ref_badger_ok)

lemma ex_calls_ok: "calls_ok ex_calls"
  by (simp add: calls_ok_def ex_calls_def ex_params_def string_param_def)

lemma mcp_store_retrieve_witness:
  "\<exists>s'. HandleToolCall (badger_client ref_badger ex_codec (\<lambda>s. s)) ''i1'' (5 * Second) ''store_memory'' ''ctx'' ''agent'' (ex_params ''hello'')
       \<lparr>bc_db = ref_empty, bc_contextID = []\<rparr> = (Ret (ToolOk (Stored ''i1'' 5)), s') \<and>
     HandleToolCall (badger_client ref_badger ex_codec (\<lambda>s. s)) [] 0 ''retrieve_memory'' [] [] [(''id'', JStr ''i1'')] s' =
       (Ret (ToolOk (OneMessage (json_norm_msg (memory_of ''i1'' (5 * Second) ''ctx'' ''agent'' (ex_params ''hello''))))), s')"
proof -
  have "plain_history ex_codec [memory_of ''i1'' (5 * Second) ''ctx'' ''agent'' (ex_params ''hello'')]"
    using ex_history by (simp add: plain_history_def ex_memories_def calls_history_def ex_calls_def distinct_ids_def)
  from mcp_store_retrieve [OF ex_bc_holds, of ex_codec "''i1''" "5 * Second" "''ctx''" "''agent''" "ex_params ''hello''"] this
  show ?thesis by (simp add: ex_params_def string_param_def)
qed


lemma mcp_recent_history_witness:
  "\<exists>ms. fst (HandleToolCall (memory_client (\<lambda>s. s) (\<lambda>xs. xs)) [] 0 ''list_recent_messages'' ''ctx'' ''agent'' (ex_params ''hello'')
       (store_calls (memory_client (\<lambda>s. s) (\<lambda>xs. xs)) ''ctx'' ''agent'' ex_calls NewMemoryStorageClient)) =
       Ret (ToolOk (Messages (take 5 ms))) \<and> mset ms = mset ex_memories \<and> sorted_wrt newer_msg ms"
  using mcp_recent_history [of "''ctx''" "''agent''" ex_calls "ex_params ''hello''" "\<lambda>s. s" "\<lambda>xs. xs" "[]" 0] ex_history ex_calls_ok
  by (force simp: plain_history_def ex_memories_def ex_params_def types_param_def int_param_def mcp_limit_def)

lemma mcp_second_page_witness:
  "SearchMessages (memory_client (\<lambda>s. s) (\<lambda>xs. xs))
      \<lparr>mq_ContextID = ''ctx'', mq_Query = ''o'', mq_Types = [], mq_Limit = 1, mq_Offset = 1\<rparr>
      (store_calls (memory_client (\<lambda>s. s) (\<lambda>xs. xs)) ''ctx'' ''agent'' ex_calls NewMemoryStorageClient) =
   SearchMessages (memory_client (\<lambda>s. s) (\<lambda>xs. xs))
      \<lparr>mq_ContextID = ''ctx'', mq_Query = ''o'', mq_Types = [], mq_Limit = 1, mq_Offset = 0\<rparr>
      (store_calls (memory_client (\<lambda>s. s) (\<lambda>xs. xs)) ''ctx'' ''agent'' ex_calls NewMemoryStorageClient)"
  using mcp_second_page [of "\<lparr>mq_ContextID = ''ctx'', mq_Query = ''o'', mq_Types = [], mq_Limit = 1, mq_Offset = 1\<rparr>"
      "\<lambda>s. s" "\<lambda>xs. xs" "store_calls (memory_client (\<lambda>s. s) (\<lambda>xs. xs)) ''ctx'' ''agent'' ex_calls NewMemoryStorageClient"
      ref_badger ex_codec "\<lparr>bc_db = ref_empty, bc_contextID = []\<rparr>"]
  by (simp add: mcp_limit_def)

lemma mcp_colon_context_witness:
  "\<exists>c'. bcStoreMessage ref_badger ex_codec (memory_of ''i1'' 0 ''a:b'' ''agent'' []) \<lparr>bc_db = ref_empty, bc_contextID = []\<rparr> = (Ret (), c') \<and>
     bcGetRecentMessages ref_badger ex_codec ''a:b'' 5 c' = Ret []"
proof -
  have "length ''i1'' \<noteq> length (sprintf_020d 0)" by (simp add: pad_int_def)
  then have "''i1'' \<noteq> sprintf_020d 0" by metis
  then show ?thesis
    using mcp_colon_context [OF ref_badger_ok ref_badger_total, of "\<lparr>bc_db = ref_empty, bc_contextID = []\<rparr>" ex_codec
        "memory_of ''i1'' 0 ''a:b'' ''agent'' []" "''a''" "''b''" 5]
    by (simp add: ex_codec_def)
qed


end
