(* ===== verification/Mcp_Server.thy ===== *)
theory Mcp_Server
  imports Mcp_Tools
begin

text \<open>
  The server loop of \<open>apps/mcp/main.go\<close>: JSON-RPC messages from standard input, one at a time, answered on standard output,
  with the initialisation timeout and the signals. The text of the messages is left out: a line is
  the message \<open>json.Unmarshal\<close> makes of it, an answer is a value. What \<open>json.Unmarshal\<close> does with the parameters of a request is
  written out, with the names of fields compared without regard to ASCII case.
\<close>

section \<open>Messages\<close>

record Message =
  rpc_ID :: json
  rpc_Method :: bytes
  rpc_Params :: json

datatype rpc_result = InitResult bytes | ToolList "ToolDefinition list" | CallResult ToolResult | NullResult

datatype rpc_out = Response json rpc_result | RpcError json int | ToolsChanged "ToolDefinition list"

text \<open>Decoding an object into a struct: the entries in key order, each assigned to the field of its name; null leaves a field as it
  is, a value of another type is an error.\<close>

definition ascii_lower :: "bytes \<Rightarrow> bytes" where
  "ascii_lower = map (\<lambda>c. if CHR ''A'' \<le> c \<and> c \<le> CHR ''Z'' then char_of (of_char c + 32 :: nat) else c)"

definition field_values :: "bytes \<Rightarrow> (bytes \<times> json) list \<Rightarrow> json list" where
  "field_values name es =
     map snd (filter (\<lambda>(k, v). ascii_lower k = ascii_lower name \<and> v \<noteq> JNull) (sort_key fst es))"

definition string_field :: "bytes \<Rightarrow> (bytes \<times> json) list \<Rightarrow> bytes option" where
  "string_field name es =
     fold (\<lambda>v acc. case (acc, v) of (Some _, JStr s) \<Rightarrow> Some s | _ \<Rightarrow> None) (field_values name es) (Some [])"

definition map_field :: "bytes \<Rightarrow> (bytes \<times> json) list \<Rightarrow> (bytes \<times> json) list option option" where
  "map_field name es =
     fold (\<lambda>v acc. case (acc, v) of
             (Some old, JObj m) \<Rightarrow> Some (Some (fold (\<lambda>(k, x). AList.update k x) m (case old of None \<Rightarrow> [] | Some m0 \<Rightarrow> m0)))
           | _ \<Rightarrow> None) (field_values name es) (Some None)"

definition struct_entries :: "json \<Rightarrow> (bytes \<times> json) list option" where
  "struct_entries params = (case params of JObj es \<Rightarrow> Some es | JNull \<Rightarrow> Some [] | _ \<Rightarrow> None)"

record init_params =
  ip_ProtocolVersion :: bytes
  ip_ClientName :: bytes
  ip_ContextID :: bytes
  ip_AgentID :: bytes

text \<open>\<open>parseParams\<close> for the struct of \<open>initialize\<close> and for that of \<open>tools/call\<close>.\<close>

definition parse_initialize :: "json \<Rightarrow> init_params option" where
  "parse_initialize params =
     Option.bind (struct_entries params) (\<lambda>es.
     Option.bind (string_field ''protocolVersion'' es) (\<lambda>version.
     Option.bind (map_field ''clientInfo'' es) (\<lambda>info.
     Option.bind (string_field ''name'' (case info of None \<Rightarrow> [] | Some m \<Rightarrow> m)) (\<lambda>client.
     Option.bind (string_field ''version'' (case info of None \<Rightarrow> [] | Some m \<Rightarrow> m)) (\<lambda>_.
     Option.bind (map_field ''capabilities'' es) (\<lambda>_.
     Option.bind (string_field ''contextId'' es) (\<lambda>ctx.
     Option.bind (string_field ''agentId'' es) (\<lambda>agent.
       Some \<lparr>ip_ProtocolVersion = version, ip_ClientName = client, ip_ContextID = ctx, ip_AgentID = agent\<rparr>))))))))"

definition parse_call :: "json \<Rightarrow> (bytes \<times> params) option" where
  "parse_call params =
     Option.bind (struct_entries params) (\<lambda>es.
     Option.bind (string_field ''name'' es) (\<lambda>name.
     Option.bind (map_field ''parameters'' es) (\<lambda>ps.
     Option.bind (map_field ''arguments'' es) (\<lambda>args.
       Some (name, case ps of Some m \<Rightarrow> m | None \<Rightarrow> (case args of Some m \<Rightarrow> m | None \<Rightarrow> []))))))"

section \<open>The server\<close>

datatype server_status = Serving | Ended | Blocked | Crashed

record 's MCPServer =
  sv_storage :: 's
  sv_contextID :: bytes
  sv_agentID :: bytes
  sv_initialized :: bool
  sv_compatMode :: bool
  sv_timer :: bool
  sv_status :: server_status
  sv_out :: "rpc_out list"

text \<open>\<open>sv_timer\<close>: the initialisation timer has not been stopped and its time has not been received. \<open>Stop\<close> of any other timer
  reports false, and the receive that follows it in the loop waits for ever.\<close>

definition send :: "rpc_out \<Rightarrow> 's MCPServer \<Rightarrow> 's MCPServer" where
  "send x s = s\<lparr>sv_out := sv_out s @ [x]\<rparr>"

definition handleInitialize :: "bytes \<Rightarrow> Message \<Rightarrow> 's MCPServer \<Rightarrow> 's MCPServer" where
  "handleInitialize uuid msg s =
     (case parse_initialize (rpc_Params msg) of
        None \<Rightarrow> send (RpcError (rpc_ID msg) (- 32602)) s
      | Some params \<Rightarrow>
          send (Response (rpc_ID msg) (InitResult (ip_ProtocolVersion params)))
            (s\<lparr>sv_contextID := (if ip_ContextID params \<noteq> [] then ip_ContextID params else uuid),
               sv_agentID := (if ip_AgentID params \<noteq> [] then ip_AgentID params else ip_ClientName params)\<rparr>))"

definition handleInitialized :: "'s MCPServer \<Rightarrow> 's MCPServer" where
  "handleInitialized s =
     (let s = s\<lparr>sv_initialized := True\<rparr> in if sv_compatMode s then send (ToolsChanged GetToolDefinitions) s else s)"

definition handleToolsCall :: "'s StorageClient \<Rightarrow> bytes \<Rightarrow> gotime \<Rightarrow> Message \<Rightarrow> 's MCPServer \<Rightarrow> 's MCPServer" where
  "handleToolsCall C uuid now msg s =
     (case parse_call (rpc_Params msg) of
        None \<Rightarrow> send (RpcError (rpc_ID msg) (- 32602)) s
      | Some (name, argMap) \<Rightarrow>
          if name = [] then send (RpcError (rpc_ID msg) (- 32602)) s
          else
            (case HandleToolCall C uuid now name (sv_contextID s) (sv_agentID s) argMap (sv_storage s) of
               (Ret result, st) \<Rightarrow> send (Response (rpc_ID msg) (CallResult result)) (s\<lparr>sv_storage := st\<rparr>)
             | (_, st) \<Rightarrow> s\<lparr>sv_storage := st, sv_status := Crashed\<rparr>))"

definition handleShutdown :: "Message \<Rightarrow> 's MCPServer \<Rightarrow> 's MCPServer" where
  "handleShutdown msg s = (if rpc_ID msg \<noteq> JNull then send (Response (rpc_ID msg) NullResult) s else s)"

abbreviation is_initialized :: "bytes \<Rightarrow> bool" where
  "is_initialized m \<equiv> m = ''initialized'' \<or> m = ''notifications/initialized''"

definition handleMessage :: "'s StorageClient \<Rightarrow> bytes \<Rightarrow> gotime \<Rightarrow> Message \<Rightarrow> 's MCPServer \<Rightarrow> 's MCPServer" where
  "handleMessage C uuid now msg s =
     (if rpc_Method msg = ''initialize'' then handleInitialize uuid msg s
      else if is_initialized (rpc_Method msg) then handleInitialized s
      else if rpc_Method msg = ''tools/list'' then send (Response (rpc_ID msg) (ToolList GetToolDefinitions)) s
      else if rpc_Method msg = ''tools/call'' then handleToolsCall C uuid now msg s
      else if rpc_Method msg = ''shutdown'' then handleShutdown msg s
      else send (RpcError (rpc_ID msg) (- 32601)) s)"

text \<open>What the loop does after a message: the second answer to \<open>shutdown\<close> and the end, the timer.\<close>

definition after_message :: "Message \<Rightarrow> 's MCPServer \<Rightarrow> 's MCPServer" where
  "after_message msg s =
     (if sv_status s = Crashed then s
      else if rpc_Method msg = ''shutdown'' then (handleShutdown msg s)\<lparr>sv_status := Ended\<rparr>
      else if rpc_Method msg = ''initialize'' then s\<lparr>sv_timer := True\<rparr>
      else if is_initialized (rpc_Method msg)
      then s\<lparr>sv_initialized := True, sv_timer := False, sv_status := (if sv_timer s then sv_status s else Blocked)\<rparr>
      else s)"

datatype server_event = Signal | ReadError | Line bytes gotime "Message option" | InitTimeout | Heartbeat

definition server_step :: "'s StorageClient \<Rightarrow> server_event \<Rightarrow> 's MCPServer \<Rightarrow> 's MCPServer" where
  "server_step C ev s =
     (if sv_status s \<noteq> Serving then s
      else case ev of
        Signal \<Rightarrow> if sv_compatMode s \<and> \<not> sv_initialized s then s else s\<lparr>sv_status := Ended\<rparr>
      | ReadError \<Rightarrow> if sv_compatMode s \<and> \<not> sv_initialized s then s else s\<lparr>sv_status := Ended\<rparr>
      | Line uuid now None \<Rightarrow> send (RpcError JNull (- 32700)) s
      | Line uuid now (Some msg) \<Rightarrow> after_message msg (handleMessage C uuid now msg s)
      | InitTimeout \<Rightarrow>
          if \<not> sv_timer s then s
          else
            let t = s\<lparr>sv_timer := False\<rparr>
            in if sv_initialized s then t
               else if sv_compatMode s then send (ToolsChanged GetToolDefinitions) (t\<lparr>sv_initialized := True\<rparr>)
               else t\<lparr>sv_initialized := True\<rparr>
      | Heartbeat \<Rightarrow> s)"

definition server_run :: "'s StorageClient \<Rightarrow> server_event list \<Rightarrow> 's MCPServer \<Rightarrow> 's MCPServer" where
  "server_run C evs s = fold (server_step C) evs s"

definition new_server :: "bool \<Rightarrow> 's \<Rightarrow> 's MCPServer" where
  "new_server compatMode st =
     \<lparr>sv_storage = st, sv_contextID = [], sv_agentID = [], sv_initialized = False, sv_compatMode = compatMode,
      sv_timer = True, sv_status = Serving, sv_out = []\<rparr>"

section \<open>Properties\<close>

definition rpc_out_id :: "rpc_out \<Rightarrow> json" where
  "rpc_out_id x = (case x of Response i _ \<Rightarrow> i | RpcError i _ \<Rightarrow> i | ToolsChanged _ \<Rightarrow> JNull)"

lemma send_simps [simp]:
  "sv_out (send x s) = sv_out s @ [x]" "sv_status (send x s) = sv_status s" "sv_storage (send x s) = sv_storage s"
  "sv_contextID (send x s) = sv_contextID s" "sv_agentID (send x s) = sv_agentID s" "sv_timer (send x s) = sv_timer s"
  by (simp_all add: send_def)

lemma stopped_step: "sv_status s \<noteq> Serving \<Longrightarrow> server_step C ev s = s"
  by (simp add: server_step_def)

lemma stopped_run: "sv_status s \<noteq> Serving \<Longrightarrow> server_run C evs s = s"
  by (induction evs) (simp_all add: server_run_def stopped_step)


text \<open>A \<open>tools/call\<close> request.\<close>

definition call_message :: "json \<Rightarrow> bytes \<Rightarrow> params \<Rightarrow> Message" where
  "call_message i name args =
     \<lparr>rpc_ID = i, rpc_Method = ''tools/call'', rpc_Params = JObj [(''name'', JStr name), (''arguments'', JObj args)]\<rparr>"

lemma fold_update_distinct:
  "distinct (map fst (acc @ m)) \<Longrightarrow> fold (\<lambda>(k, x). AList.update k x) m acc = acc @ m"
proof (induction m arbitrary: acc)
  case (Cons e m)
  obtain k x where e: "e = (k, x)" by (cases e)
  have "k \<notin> fst ` set acc" using Cons.prems by (auto simp: e)
  then have "AList.update k x acc = acc @ [(k, x)]" by (induction acc) auto
  then show ?case using Cons by (simp add: e)
qed simp

lemma parse_call_message: "distinct (map fst args) \<Longrightarrow> parse_call (rpc_Params (call_message i name args)) = Some (name, args)"
  by (simp add: parse_call_def call_message_def struct_entries_def string_field_def map_field_def field_values_def
      ascii_lower_def fold_update_distinct [of "[]"])

lemma server_tool_call:
  assumes "sv_status s = Serving" and "name \<noteq> []" and "distinct (map fst args)"
    and "HandleToolCall C uuid now name (sv_contextID s) (sv_agentID s) args (sv_storage s) = (Ret r, st)"
  shows "server_step C (Line uuid now (Some (call_message i name args))) s =
     s\<lparr>sv_storage := st, sv_out := sv_out s @ [Response i (CallResult r)]\<rparr>"
  using assms parse_call_message [of args i name]
  by (simp add: server_step_def handleMessage_def handleToolsCall_def after_message_def call_message_def send_def)

text \<open>C24. A session with the persistent server: a memory stored by one request is returned by the next, in the context and under the
  agent of the session.\<close>

theorem mcp_session_roundtrip:
  assumes "bc_holds B items writes J (sv_storage s) H" and "sv_status s = Serving"
    and "plain_history J (H @ [memory_of uuid now (sv_contextID s) (sv_agentID s) args])"
    and "string_param args ''content'' \<noteq> []" and "uuid \<noteq> []" and "distinct (map fst args)"
  shows "sv_out (server_run (badger_client B J lower)
       [Line uuid now (Some (call_message i ''store_memory'' args)),
        Line uuid' now' (Some (call_message j ''retrieve_memory'' [(''id'', JStr uuid)]))] s) =
     sv_out s @ [Response i (CallResult (ToolOk (Stored uuid (now div Second)))),
       Response j (CallResult (ToolOk (OneMessage (json_norm_msg (memory_of uuid now (sv_contextID s) (sv_agentID s) args)))))]"
proof -
  obtain st where st: "HandleToolCall (badger_client B J lower) uuid now ''store_memory'' (sv_contextID s) (sv_agentID s) args (sv_storage s) =
       (Ret (ToolOk (Stored uuid (now div Second))), st)"
    "HandleToolCall (badger_client B J lower) uuid' now' ''retrieve_memory'' (sv_contextID s) (sv_agentID s) [(''id'', JStr uuid)] st =
       (Ret (ToolOk (OneMessage (json_norm_msg (memory_of uuid now (sv_contextID s) (sv_agentID s) args)))), st)"
    using bc.store_then_retrieve [OF assms(1,3,4,5)] by blast
  let ?s1 = "s\<lparr>sv_storage := st, sv_out := sv_out s @ [Response i (CallResult (ToolOk (Stored uuid (now div Second))))]\<rparr>"
  have 1: "server_step (badger_client B J lower) (Line uuid now (Some (call_message i ''store_memory'' args))) s = ?s1"
    using assms(2,6) st(1) by (intro server_tool_call) auto
  have 2: "server_step (badger_client B J lower) (Line uuid' now' (Some (call_message j ''retrieve_memory'' [(''id'', JStr uuid)]))) ?s1 =
      ?s1\<lparr>sv_storage := st, sv_out := sv_out ?s1 @
        [Response j (CallResult (ToolOk (OneMessage (json_norm_msg (memory_of uuid now (sv_contextID s) (sv_agentID s) args)))))]\<rparr>"
    using assms(2) st(2) by (intro server_tool_call) auto
  show ?thesis by (simp add: server_run_def 1 2)
qed

text \<open>An \<open>initialized\<close> notification that comes after the timeout, or a second one, blocks the server for good: the timer has
  nothing to deliver and the loop waits for it. No later event has an effect.\<close>

lemma mcp_initialized_blocks:
  assumes "is_initialized (rpc_Method msg)"
  shows "sv_status (server_run C ([InitTimeout, Line uuid now (Some msg)] @ evs) (new_server compatMode st)) = Blocked \<and>
     sv_status (server_run C ([Line uuid now (Some msg), Line uuid now (Some msg)] @ evs) (new_server compatMode st)) = Blocked"
proof -
  have blocks: "sv_status (server_run C (Line uuid now (Some msg) # evs) s) = Blocked" if "\<not> sv_timer s" "sv_status s = Serving" for s
  proof -
    have "sv_status (server_step C (Line uuid now (Some msg)) s) = Blocked"
      using that assms by (auto simp: server_step_def handleMessage_def handleInitialized_def after_message_def Let_def)
    then show ?thesis using stopped_run [of "server_step C (Line uuid now (Some msg)) s" C evs] by (simp add: server_run_def)
  qed
  have "\<not> sv_timer (server_step C InitTimeout (new_server compatMode st))" "sv_status (server_step C InitTimeout (new_server compatMode st)) = Serving"
    by (simp_all add: server_step_def new_server_def Let_def)
  moreover have "\<not> sv_timer (server_step C (Line uuid now (Some msg)) (new_server compatMode st))"
    "sv_status (server_step C (Line uuid now (Some msg)) (new_server compatMode st)) = Serving"
    using assms by (auto simp: server_step_def new_server_def handleMessage_def handleInitialized_def after_message_def Let_def)
  ultimately show ?thesis using blocks by (simp add: server_run_def)
qed

text \<open>A \<open>shutdown\<close> request is answered twice.\<close>

lemma mcp_shutdown_two_responses:
  assumes "sv_status s = Serving" and "rpc_Method msg = ''shutdown''" and "rpc_ID msg \<noteq> JNull"
  shows "sv_out (server_step C (Line uuid now (Some msg)) s) = sv_out s @ [Response (rpc_ID msg) NullResult, Response (rpc_ID msg) NullResult]"
  using assms by (simp add: server_step_def handleMessage_def handleShutdown_def after_message_def)

text \<open>Concrete sessions.\<close>

definition ex_server :: "ref_db BadgerStorageClient MCPServer" where
  "ex_server = (new_server False \<lparr>bc_db = ref_empty, bc_contextID = []\<rparr>)\<lparr>sv_contextID := ''ctx'', sv_agentID := ''agent''\<rparr>"


lemma mcp_session_roundtrip_witness:
  "sv_out (server_run (badger_client ref_badger ex_codec (\<lambda>s. s))
       [Line ''i1'' (5 * Second) (Some (call_message (JNum 1) ''store_memory'' (ex_params ''hello''))),
        Line [] 0 (Some (call_message (JNum 2) ''retrieve_memory'' [(''id'', JStr ''i1'')]))] ex_server) =
     [Response (JNum 1) (CallResult (ToolOk (Stored ''i1'' 5))),
      Response (JNum 2) (CallResult (ToolOk (OneMessage (json_norm_msg (memory_of ''i1'' (5 * Second) ''ctx'' ''agent'' (ex_params ''hello''))))))]"
proof -
  have "plain_history ex_codec ([] @ [memory_of ''i1'' (5 * Second) ''ctx'' ''agent'' (ex_params ''hello'')])"
    using ex_history by (simp add: plain_history_def ex_memories_def calls_history_def ex_calls_def distinct_ids_def)
  then show ?thesis
    using mcp_session_roundtrip [of ref_badger ref_items "\<lambda>t. t" ex_codec ex_server "[]" "''i1''" "5 * Second" "ex_params ''hello''"
        "\<lambda>s. s" "JNum 1" "[]" 0 "JNum 2"] ex_bc_holds [of ex_codec]
    by (simp add: ex_server_def new_server_def ex_params_def string_param_def)
qed

lemma mcp_initialized_blocks_witness:
  "sv_status (server_run (memory_client (\<lambda>s. s) (\<lambda>xs. xs))
     [InitTimeout, Line [] 0 (Some \<lparr>rpc_ID = JNull, rpc_Method = ''initialized'', rpc_Params = JNull\<rparr>), Signal] (new_server False NewMemoryStorageClient)) = Blocked"
  using mcp_initialized_blocks [of "\<lparr>rpc_ID = JNull, rpc_Method = ''initialized'', rpc_Params = JNull\<rparr>"
      "memory_client (\<lambda>s. s) (\<lambda>xs. xs)" "[]" 0 "[Signal]" False NewMemoryStorageClient] by simp

lemma mcp_shutdown_two_responses_witness:
  "length (sv_out (server_step (memory_client (\<lambda>s. s) (\<lambda>xs. xs))
     (Line [] 0 (Some \<lparr>rpc_ID = JNum 7, rpc_Method = ''shutdown'', rpc_Params = JNull\<rparr>)) (new_server False NewMemoryStorageClient))) = 2"
  using mcp_shutdown_two_responses [of "new_server False NewMemoryStorageClient" "\<lparr>rpc_ID = JNum 7, rpc_Method = ''shutdown'', rpc_Params = JNull\<rparr>"]
  by (simp add: new_server_def)

end
