(* ===== verification/Api_Models.thy ===== *)
theory Api_Models
  imports Search_Text
begin

text \<open>
  The data of the HTTP interface: the errors of \<open>internal/api/errors/errors.go\<close>, the requests with their
  validation (\<open>models/requests.go\<close>, \<open>validation/validation.go\<close>), the responses (\<open>models/responses.go\<close>) and the envelope
  they are sent in (\<open>response/response.go\<close>).

  Decoding a JSON body into a struct is an input: either the struct or the text of the decoder's error.
  \<open>models/requests.go\<close> and \<open>models/responses.go\<close> assign a \<open>string\<close> payload to the \<open>[]byte\<close> of the protocol type and
  read the fields \<open>Type\<close> and \<open>Target\<close> of a relationship as strings, which its declaration does not have; the payload
  is carried over as the same bytes, and the two fields are a parameter \<open>rel_fields\<close>.
\<close>

section \<open>Library functions\<close>

text \<open>\<open>strconv.Atoi\<close>: an optional sign and decimal digits only, with a value of \<open>int64\<close>; \<open>None\<close> is an error.\<close>

definition unsigned_part :: "bytes \<Rightarrow> bytes" where
  "unsigned_part s =
     (case s of [] \<Rightarrow> [] | c # cs \<Rightarrow> if c = CHR ''-'' \<or> c = CHR ''+'' then cs else s)"

definition Atoi :: "bytes \<Rightarrow> int option" where
  "Atoi s =
     (let ds = unsigned_part s;
          n = (if take 1 s = ''-'' then - int (digits_value ds) else int (digits_value ds))
      in if ds = [] \<or> \<not> list_all is_digit ds \<or> n < - (2 ^ 63) \<or> n \<ge> 2 ^ 63 then None else Some n)"

text \<open>\<open>strings.Contains\<close>.\<close>

fun str_contains :: "bytes \<Rightarrow> bytes \<Rightarrow> bool" where
  "str_contains [] sub \<longleftrightarrow> sub = []"
| "str_contains (c # s) sub \<longleftrightarrow> prefix sub (c # s) \<or> str_contains s sub"

text \<open>\<open>string(r)\<close> of a \<open>rune\<close> is the UTF-8 encoding of the code point; what is not a code point becomes U+FFFD.\<close>

definition utf8 :: "nat \<Rightarrow> bytes" where
  "utf8 n =
     (if n < 128 then [char_of n]
      else if n < 2048 then [char_of (192 + n div 64), char_of (128 + n mod 64)]
      else if n < 65536 then [char_of (224 + n div 4096), char_of (128 + n div 64 mod 64), char_of (128 + n mod 64)]
      else [char_of (240 + n div 262144), char_of (128 + n div 4096 mod 64), char_of (128 + n div 64 mod 64),
            char_of (128 + n mod 64)])"

definition string_of_rune :: "32 word \<Rightarrow> bytes" where
  "string_of_rune r =
     (if sint r < 0 \<or> sint r > 1114111 \<or> (55296 \<le> sint r \<and> sint r \<le> 57343) then utf8 65533
      else utf8 (nat (sint r)))"

text \<open>\<open>t.Format("2006-01-02T15:04:05Z07:00")\<close> of a time in UTC: the date in the Gregorian calendar, counted in
  eras of 400 years that begin on the first of March, and the time of day.\<close>

definition civil_date :: "int \<Rightarrow> int \<times> int \<times> int" where
  "civil_date days =
     (let z = days + 719468; era = z div 146097; doe = z mod 146097;
          yoe = (doe - doe div 1460 + doe div 36524 - doe div 146096) div 365;
          doy = doe - (365 * yoe + yoe div 4 - yoe div 100);
          mp = (5 * doy + 2) div 153;
          m = (if mp < 10 then mp + 3 else mp - 9)
      in (yoe + era * 400 + (if m \<le> 2 then 1 else 0), m, doy - (153 * mp + 2) div 5 + 1))"

definition format_time :: "gotime \<Rightarrow> bytes" where
  "format_time t =
     (let secs = t div Second; (y, m, d) = civil_date (secs div 86400); tod = secs mod 86400;
          year = (if y < 0 then ''-'' @ pad_int 4 (- y) else pad_int 4 y)
      in year @ ''-'' @ pad_int 2 m @ ''-'' @ pad_int 2 d @ ''T'' @ pad_int 2 (tod div 3600) @ '':'' @
         pad_int 2 (tod div 60 mod 60) @ '':'' @ pad_int 2 (tod mod 60) @ ''Z'')"

section \<open>Errors\<close>

datatype ErrorType =
    ErrorTypeValidation | ErrorTypeNotFound | ErrorTypeConflict | ErrorTypeInternal
  | ErrorTypeUnauthorized | ErrorTypeForbidden | ErrorTypeTimeout

fun error_type_text :: "ErrorType \<Rightarrow> bytes" where
  "error_type_text ErrorTypeValidation = ''validation''"
| "error_type_text ErrorTypeNotFound = ''not_found''"
| "error_type_text ErrorTypeConflict = ''conflict''"
| "error_type_text ErrorTypeInternal = ''internal''"
| "error_type_text ErrorTypeUnauthorized = ''unauthorized''"
| "error_type_text ErrorTypeForbidden = ''forbidden''"
| "error_type_text ErrorTypeTimeout = ''timeout''"

record APIError =
  ae_Type :: ErrorType
  ae_Code :: bytes
  ae_Message :: bytes
  ae_Details :: "json option"
  ae_RequestID :: bytes
  ae_HTTPCode :: nat

definition apiErrorText :: "APIError \<Rightarrow> bytes" where
  "apiErrorText e = ''['' @ error_type_text (ae_Type e) @ ''] '' @ ae_Code e @ '': '' @ ae_Message e"

definition WithDetails :: "json \<Rightarrow> APIError \<Rightarrow> APIError" where
  "WithDetails details e = e\<lparr>ae_Details := Some details\<rparr>"

definition WithRequestID :: "bytes \<Rightarrow> APIError \<Rightarrow> APIError" where
  "WithRequestID requestID e = e\<lparr>ae_RequestID := requestID\<rparr>"

definition ValidationError :: "bytes \<Rightarrow> bytes \<Rightarrow> APIError" where
  "ValidationError code message = \<lparr>ae_Type = ErrorTypeValidation, ae_Code = code, ae_Message = message,
     ae_Details = None, ae_RequestID = [], ae_HTTPCode = 400\<rparr>"

definition NotFoundError :: "bytes \<Rightarrow> bytes \<Rightarrow> APIError" where
  "NotFoundError code message = \<lparr>ae_Type = ErrorTypeNotFound, ae_Code = code, ae_Message = message,
     ae_Details = None, ae_RequestID = [], ae_HTTPCode = 404\<rparr>"

definition ConflictError :: "bytes \<Rightarrow> bytes \<Rightarrow> APIError" where
  "ConflictError code message = \<lparr>ae_Type = ErrorTypeConflict, ae_Code = code, ae_Message = message,
     ae_Details = None, ae_RequestID = [], ae_HTTPCode = 409\<rparr>"

definition InternalError :: "bytes \<Rightarrow> bytes \<Rightarrow> APIError" where
  "InternalError code message = \<lparr>ae_Type = ErrorTypeInternal, ae_Code = code, ae_Message = message,
     ae_Details = None, ae_RequestID = [], ae_HTTPCode = 500\<rparr>"

definition UnauthorizedError :: "bytes \<Rightarrow> bytes \<Rightarrow> APIError" where
  "UnauthorizedError code message = \<lparr>ae_Type = ErrorTypeUnauthorized, ae_Code = code, ae_Message = message,
     ae_Details = None, ae_RequestID = [], ae_HTTPCode = 401\<rparr>"

definition ForbiddenError :: "bytes \<Rightarrow> bytes \<Rightarrow> APIError" where
  "ForbiddenError code message = \<lparr>ae_Type = ErrorTypeForbidden, ae_Code = code, ae_Message = message,
     ae_Details = None, ae_RequestID = [], ae_HTTPCode = 403\<rparr>"

definition TimeoutError :: "bytes \<Rightarrow> bytes \<Rightarrow> APIError" where
  "TimeoutError code message = \<lparr>ae_Type = ErrorTypeTimeout, ae_Code = code, ae_Message = message,
     ae_Details = None, ae_RequestID = [], ae_HTTPCode = 504\<rparr>"

text \<open>A Go \<open>error\<close>: an API error or any other, of which only the text is seen.\<close>

datatype go_error = ApiErr APIError | OtherErr bytes

fun api_error :: "go_error \<Rightarrow> APIError" where
  "api_error (ApiErr e) = e"
| "api_error (OtherErr text) = InternalError ''internal_error'' text"

definition FromError :: "go_error option \<Rightarrow> APIError option" where
  "FromError err = map_option api_error err"

section \<open>Requests\<close>

record RestCreateWorkUnit =
  rcw_ContextID :: bytes
  rcw_AgentID :: bytes
  rcw_Type :: WorkUnitType
  rcw_Payload :: bytes
  rcw_Meta :: nilmap
  rcw_Relationships :: "Relationship list"

definition validate_create :: "RestCreateWorkUnit \<Rightarrow> APIError + RestCreateWorkUnit" where
  "validate_create r =
     (if rcw_ContextID r = [] then Inl (ValidationError ''missing_context_id'' ''Context ID is required'')
      else if rcw_AgentID r = [] then Inl (ValidationError ''missing_agent_id'' ''Agent ID is required'')
      else if rcw_Type r \<noteq> WorkUnitType_MESSAGE \<and> rcw_Type r \<noteq> WorkUnitType_SYSTEM
      then Inl (ValidationError ''invalid_type'' ''Type must be MESSAGE or SYSTEM'')
      else Inr r)"

definition create_to_proto :: "RestCreateWorkUnit \<Rightarrow> CreateWorkUnitRequest" where
  "create_to_proto r = \<lparr>cwr_ContextId = rcw_ContextID r, cwr_AgentId = rcw_AgentID r, cwr_Type = rcw_Type r,
     cwr_Meta = rcw_Meta r, cwr_Payload = Some (rcw_Payload r), cwr_Relationships = rcw_Relationships r\<rparr>"

record RestUpdateContext =
  ruc_ID :: bytes
  ruc_DisplayName :: bytes
  ruc_AddAgents :: "bytes list"
  ruc_RemoveAgents :: "bytes list"
  ruc_PinUnits :: "bytes list"
  ruc_UnpinUnits :: "bytes list"
  ruc_Meta :: nilmap

definition validate_update :: "RestUpdateContext \<Rightarrow> APIError + RestUpdateContext" where
  "validate_update r = (if ruc_ID r = [] then Inl (ValidationError ''missing_id'' ''ID is required'') else Inr r)"

definition update_to_proto :: "RestUpdateContext \<Rightarrow> UpdateContextRequest" where
  "update_to_proto r = \<lparr>ucr_Id = ruc_ID r, ucr_DisplayName = ruc_DisplayName r, ucr_AddAgents = ruc_AddAgents r,
     ucr_RemoveAgents = ruc_RemoveAgents r, ucr_PinUnits = ruc_PinUnits r, ucr_UnpinUnits = ruc_UnpinUnits r,
     ucr_Meta = ruc_Meta r\<rparr>"

text \<open>\<open>TTLSeconds\<close> is an \<open>int\<close> of 64 bits; the conversion to the protocol's \<open>int32\<close> keeps its low 32 bits.\<close>

record RestAcquireLock =
  ral_ResourcePath :: bytes
  ral_AgentID :: bytes
  ral_TTLSeconds :: int

definition default_ttl :: "RestAcquireLock \<Rightarrow> RestAcquireLock" where
  "default_ttl r = (if ral_TTLSeconds r \<le> 0 then r\<lparr>ral_TTLSeconds := 60\<rparr> else r)"

definition validate_acquire :: "RestAcquireLock \<Rightarrow> APIError + RestAcquireLock" where
  "validate_acquire r =
     (if ral_ResourcePath r = [] then Inl (ValidationError ''missing_resource_path'' ''Resource path is required'')
      else if ral_AgentID r = [] then Inl (ValidationError ''missing_agent_id'' ''Agent ID is required'')
      else Inr (default_ttl r))"

definition acquire_to_proto :: "RestAcquireLock \<Rightarrow> AcquireLockRequest" where
  "acquire_to_proto r = \<lparr>alr_ResourcePath = ral_ResourcePath r, alr_AgentId = ral_AgentID r,
     alr_TtlSeconds = word_of_int (ral_TTLSeconds r)\<rparr>"

record RestReleaseLock =
  rrl_ResourcePath :: bytes
  rrl_AgentID :: bytes
  rrl_LockID :: bytes

definition validate_release :: "RestReleaseLock \<Rightarrow> APIError + RestReleaseLock" where
  "validate_release r =
     (if rrl_ResourcePath r = [] then Inl (ValidationError ''missing_resource_path'' ''Resource path is required'')
      else if rrl_AgentID r = [] then Inl (ValidationError ''missing_agent_id'' ''Agent ID is required'')
      else if rrl_LockID r = [] then Inl (ValidationError ''missing_lock_id'' ''Lock ID is required'')
      else Inr r)"

definition release_to_proto :: "RestReleaseLock \<Rightarrow> ReleaseLockRequest" where
  "release_to_proto r =
     \<lparr>rlr_ResourcePath = rrl_ResourcePath r, rlr_AgentId = rrl_AgentID r, rlr_LockId = rrl_LockID r\<rparr>"

record RestSearch =
  rsr_Query :: bytes
  rsr_ContextID :: bytes
  rsr_AgentIDs :: "bytes list"
  rsr_Types :: "bytes list"
  rsr_MetaFilters :: "bytes gomap"
  rsr_Limit :: int
  rsr_Offset :: int

definition search_limit :: "RestSearch \<Rightarrow> RestSearch" where
  "search_limit r = (if rsr_Limit r \<le> 0 \<or> rsr_Limit r > 1000 then r\<lparr>rsr_Limit := 100\<rparr> else r)"

definition validate_search :: "RestSearch \<Rightarrow> APIError + RestSearch" where
  "validate_search r =
     (let r = search_limit r in Inr (if rsr_Offset r < 0 then r\<lparr>rsr_Offset := 0\<rparr> else r))"

subsection \<open>Parsing and checks\<close>

datatype 'r decoded = Decoded 'r | DecodeError bytes

definition ParseAndValidate :: "('r \<Rightarrow> APIError + 'r) \<Rightarrow> 'r decoded \<Rightarrow> APIError + 'r" where
  "ParseAndValidate validate body =
     (case body of
        DecodeError text \<Rightarrow>
          if str_contains text ''EOF'' then Inl (ValidationError ''empty_request_body'' ''Request body is empty'')
          else Inl (ValidationError ''invalid_json'' (''Invalid JSON format: '' @ text))
      | Decoded r \<Rightarrow> validate r)"

text \<open>The checks of a single field; \<open>None\<close> is no error. The bounds appear in the messages as \<open>string(rune(n))\<close>.\<close>

definition MaxLength :: "bytes \<Rightarrow> bytes \<Rightarrow> int \<Rightarrow> APIError option" where
  "MaxLength field val maxLen =
     (if int (length val) > maxLen then
        Some (ValidationError ''max_length_exceeded''
          (field @ '' must be at most '' @ string_of_rune (word_of_int maxLen) @ '' characters''))
      else None)"

definition MinLength :: "bytes \<Rightarrow> bytes \<Rightarrow> int \<Rightarrow> APIError option" where
  "MinLength field val minLen =
     (if int (length val) < minLen then
        Some (ValidationError ''min_length_not_met''
          (field @ '' must be at least '' @ string_of_rune (word_of_int minLen) @ '' characters''))
      else None)"

definition Required :: "bytes \<Rightarrow> bytes \<Rightarrow> APIError option" where
  "Required field val =
     (if val = [] then Some (ValidationError ''required_field_missing'' (field @ '' is required'')) else None)"

definition Max_check :: "bytes \<Rightarrow> int \<Rightarrow> int \<Rightarrow> APIError option" where
  "Max_check field val hi =
     (if val > hi then
        Some (ValidationError ''max_value_exceeded'' (field @ '' must be at most '' @ string_of_rune (word_of_int hi)))
      else None)"

definition Min_check :: "bytes \<Rightarrow> int \<Rightarrow> int \<Rightarrow> APIError option" where
  "Min_check field val lo =
     (if val < lo then
        Some (ValidationError ''min_value_not_met'' (field @ '' must be at least '' @ string_of_rune (word_of_int lo)))
      else None)"

section \<open>Responses\<close>

record RelationshipResponse =
  rr_Type :: bytes
  rr_Target :: bytes

record WorkUnitResponse =
  wr_ID :: bytes
  wr_ContextID :: bytes
  wr_AgentID :: bytes
  wr_Type :: bytes
  wr_Timestamp :: bytes
  wr_Payload :: bytes
  wr_Meta :: nilmap
  wr_Relationships :: "RelationshipResponse list"

definition format_stamp :: "timestamp \<Rightarrow> bytes" where
  "format_stamp ts = (case ts of None \<Rightarrow> [] | Some t \<Rightarrow> format_time t)"

definition type_name :: "WorkUnitType \<Rightarrow> bytes" where
  "type_name t =
     (if t = WorkUnitType_MESSAGE then ''MESSAGE'' else if t = WorkUnitType_SYSTEM then ''SYSTEM'' else ''UNKNOWN'')"

definition WorkUnitFromProto :: "(Relationship \<Rightarrow> bytes \<times> bytes) \<Rightarrow> WorkUnit \<Rightarrow> WorkUnitResponse" where
  "WorkUnitFromProto rel_fields w = \<lparr>wr_ID = wu_Id w, wr_ContextID = wu_ContextId w, wr_AgentID = wu_AgentId w,
     wr_Type = type_name (wu_Type w), wr_Timestamp = format_stamp (wu_Ts w),
     wr_Payload = (case wu_Payload w of None \<Rightarrow> [] | Some p \<Rightarrow> p), wr_Meta = wu_Meta w,
     wr_Relationships =
       map (\<lambda>rel. \<lparr>rr_Type = fst (rel_fields rel), rr_Target = snd (rel_fields rel)\<rparr>) (wu_Relationships w)\<rparr>"

record ContextResponse =
  cr_ID :: bytes
  cr_DisplayName :: bytes
  cr_AgentIDs :: "bytes list"
  cr_PinnedUnits :: "bytes list"
  cr_Meta :: nilmap
  cr_CreatedAt :: bytes
  cr_UpdatedAt :: bytes

definition ContextFromProto :: "Context \<Rightarrow> ContextResponse" where
  "ContextFromProto c = \<lparr>cr_ID = ctx_Id c, cr_DisplayName = ctx_DisplayName c, cr_AgentIDs = ctx_AgentIds c,
     cr_PinnedUnits = ctx_PinnedUnits c, cr_Meta = ctx_Meta c, cr_CreatedAt = format_stamp (ctx_CreatedAt c),
     cr_UpdatedAt = format_stamp (ctx_UpdatedAt c)\<rparr>"

record LockResponse =
  lr_ResourcePath :: bytes
  lr_HolderAgent :: bytes
  lr_LockID :: bytes
  lr_ExpiresAt :: bytes

definition LockFromProto :: "LockHandle \<Rightarrow> LockResponse" where
  "LockFromProto l = \<lparr>lr_ResourcePath = lk_ResourcePath l, lr_HolderAgent = lk_HolderAgent l,
     lr_LockID = lk_LockId l, lr_ExpiresAt = format_stamp (lk_ExpiresAt l)\<rparr>"

record PaginationMeta =
  pm_TotalCount :: int
  pm_Limit :: int
  pm_Offset :: int
  pm_NextCursor :: bytes

text \<open>The envelope: what the three functions of \<open>response.go\<close> send, as a status and a body. The callers of \<open>Error\<close>
  never pass the nil error.\<close>

datatype rest_data = UnitData WorkUnitResponse | UnitsData "WorkUnitResponse list" | LockData LockResponse

record Response =
  rs_Success :: bool
  rs_RequestID :: bytes
  rs_Data :: "rest_data option"
  rs_Error :: "APIError option"
  rs_Meta :: "PaginationMeta option"

definition response_JSON :: "bytes \<Rightarrow> nat \<Rightarrow> rest_data \<Rightarrow> nat \<times> Response" where
  "response_JSON requestID statusCode data =
     (statusCode, \<lparr>rs_Success = (200 \<le> statusCode \<and> statusCode < 300), rs_RequestID = requestID,
        rs_Data = Some data, rs_Error = None, rs_Meta = None\<rparr>)"

definition response_Error :: "bytes \<Rightarrow> go_error \<Rightarrow> nat \<times> Response" where
  "response_Error requestID err =
     (let apiErr = api_error err
      in (ae_HTTPCode apiErr, \<lparr>rs_Success = False, rs_RequestID = requestID, rs_Data = None,
            rs_Error = Some (WithRequestID requestID apiErr), rs_Meta = None\<rparr>))"

definition response_WithMeta :: "bytes \<Rightarrow> nat \<Rightarrow> rest_data \<Rightarrow> PaginationMeta \<Rightarrow> nat \<times> Response" where
  "response_WithMeta requestID statusCode data meta =
     (statusCode, \<lparr>rs_Success = (200 \<le> statusCode \<and> statusCode < 300), rs_RequestID = requestID,
        rs_Data = Some data, rs_Error = None, rs_Meta = Some meta\<rparr>)"

end
