(* ===== verification/Api_Handlers.thy ===== *)
theory Api_Handlers
  imports Api_Models Storage_Listing Lock_Manager Search_Index
begin

text \<open>
  The handlers of the two HTTP servers: \<open>internal/api/api.go\<close> (Fiber), whose locks are those of the lock
  manager, and \<open>internal/api/chi/api.go\<close> (Chi), whose locks are those of the storage and whose requests are
  validated. The web frameworks and their middleware are third-party code: a request is given with the parameters the
  router extracted and the outcome of decoding its body, and a handler that panics (which the recovery middleware
  of both servers catches) answers \<open>Crashed\<close>. An absent query parameter or header is the empty string.
\<close>

section \<open>Requests and answers\<close>

datatype 'c http_request =
    GetHealthz
  | GetReadyz
  | PostWorkUnit "'c decoded"
  | GetUnit bytes
  | GetUnits bytes bytes bytes bytes
  | PatchContext bytes "UpdateContextRequest decoded"
  | GetContextById bytes
  | PostLock "RestAcquireLock decoded"
  | DeleteLock bytes bytes bytes bytes
  | GetLockByPath bytes
  | PostSearch "RestSearch decoded"

datatype api_body =
    ErrorBody bytes
  | TextBody bytes
  | WorkUnitBody WorkUnit
  | WorkUnitsBody "WorkUnit list" bytes
  | ContextBody Context
  | LockBody LockHandle
  | ReleasedBody bool
  | SearchBody "bytes list" nat int int

datatype 'b answer = Answer nat 'b | Crashed

text \<open>The components a server was given, and the code it was built with: the two key-value stores, the JSON codec, the
  lower-case conversion, the texts of error values, and the two relationship fields.\<close>

record ('db, 'sdb) Api =
  api_storage :: "'db Storage"
  api_lockManager :: LockManager
  api_search :: "'sdb Search"

record ('db, 'txn, 'sdb, 'stxn) libs =
  lib_B :: "('db, 'txn) badger"
  lib_J :: json_codec
  lib_SB :: "('sdb, 'stxn) badger"
  lib_lower :: "bytes \<Rightarrow> bytes"
  lib_lm_text :: "lm_error \<Rightarrow> bytes"
  lib_st_text :: "storage_error \<Rightarrow> bytes"
  lib_rel_fields :: "Relationship \<Rightarrow> bytes \<times> bytes"

text \<open>What one request brings along: clock, identifiers and eviction choices, the iteration orders of a search, and
  the request identifier of the middleware.\<close>

record http_input =
  hi_env :: env
  hi_order :: map_order
  hi_requestID :: bytes

definition on_storage :: "('db Storage \<Rightarrow> 'r \<times> 'db Storage) \<Rightarrow> ('db, 'sdb) Api \<Rightarrow> 'r \<times> ('db, 'sdb) Api" where
  "on_storage f a = (case f (api_storage a) of (r, s) \<Rightarrow> (r, a\<lparr>api_storage := s\<rparr>))"

definition on_locks :: "(LockManager \<Rightarrow> 'r \<times> LockManager) \<Rightarrow> ('db, 'sdb) Api \<Rightarrow> 'r \<times> ('db, 'sdb) Api" where
  "on_locks f a = (case f (api_lockManager a) of (r, m) \<Rightarrow> (r, a\<lparr>api_lockManager := m\<rparr>))"

text \<open>The answer for each outcome of a call.\<close>

fun reply :: "('x \<Rightarrow> 'b answer) \<Rightarrow> ('e \<Rightarrow> 'b answer) \<Rightarrow> ('e, 'x) outcome \<times> 'a \<Rightarrow> 'b answer \<times> 'a" where
  "reply success failure (Ret x, a) = (success x, a)"
| "reply success failure (Err e, a) = (failure e, a)"
| "reply success failure (Panic, a) = (Crashed, a)"

subsection \<open>The search both servers run\<close>

text \<open>The loop over the type names: names other than the two are dropped.\<close>

fun search_types :: "bytes list \<Rightarrow> WorkUnitType list" where
  "search_types [] = []"
| "search_types (typeStr # ts) =
     (if typeStr = ''MESSAGE'' then WorkUnitType_MESSAGE # search_types ts
      else if typeStr = ''SYSTEM'' then WorkUnitType_SYSTEM # search_types ts
      else search_types ts)"

definition search_query :: "RestSearch \<Rightarrow> SearchQuery" where
  "search_query r = \<lparr>sq_query = rsr_Query r, sq_contextID = rsr_ContextID r, sq_agentIDs = rsr_AgentIDs r,
     sq_types = search_types (rsr_Types r), sq_metaFilters = rsr_MetaFilters r, sq_limit = rsr_Limit r,
     sq_offset = rsr_Offset r\<rparr>"

text \<open>A query of a closed index is an error.\<close>

definition run_search ::
  "('db, 'txn, 'sdb, 'stxn) libs \<Rightarrow> map_order \<Rightarrow> RestSearch \<Rightarrow> 'sdb Search \<Rightarrow> (unit, bytes list \<times> nat) outcome" where
  "run_search L M r se =
     (if se_open se then SearchSearch (lib_SB L) (lib_lower L) M (search_query r) (se_db se) else Err ())"

section \<open>The Fiber server\<close>

definition fiber_handleCreateWorkUnit ::
  "('db, 'txn, 'sdb, 'stxn) libs \<Rightarrow> env \<Rightarrow> CreateWorkUnitRequest decoded \<Rightarrow> ('db, 'sdb) Api \<Rightarrow>
   api_body answer \<times> ('db, 'sdb) Api" where
  "fiber_handleCreateWorkUnit L E body a =
     (case body of
        DecodeError _ \<Rightarrow> (Answer 400 (ErrorBody ''Invalid request body''), a)
      | Decoded req \<Rightarrow>
          reply (\<lambda>workUnit. Answer 201 (WorkUnitBody workUnit))
            (\<lambda>_. Answer 500 (ErrorBody ''Failed to create work unit''))
            (on_storage (CreateWorkUnit (lib_B L) (lib_J L) E req) a))"

definition fiber_handleGetWorkUnit ::
  "('db, 'txn, 'sdb, 'stxn) libs \<Rightarrow> env \<Rightarrow> bytes \<Rightarrow> ('db, 'sdb) Api \<Rightarrow> api_body answer \<times> ('db, 'sdb) Api" where
  "fiber_handleGetWorkUnit L E ident a =
     (if ident = [] then (Answer 400 (ErrorBody ''Work unit ID is required''), a)
      else reply (\<lambda>workUnit. Answer 200 (WorkUnitBody workUnit))
             (\<lambda>_. Answer 404 (ErrorBody ''Work unit not found''))
             (on_storage (GetWorkUnit (lib_B L) (lib_J L) (env_pick E 0) ident) a))"

text \<open>\<open>c.Query(key, def)\<close> is \<open>def\<close> for an absent or empty parameter.\<close>

definition query_or :: "bytes \<Rightarrow> bytes \<Rightarrow> bytes" where
  "query_or val def = (if val = [] then def else val)"

definition fiber_limit :: "bytes \<Rightarrow> int" where
  "fiber_limit limitStr =
     (case Atoi (query_or limitStr ''100'') of
        None \<Rightarrow> 100
      | Some limit \<Rightarrow> if limit \<le> 0 \<or> limit > 1000 then 100 else limit)"

definition fiber_handleListWorkUnits ::
  "('db, 'txn, 'sdb, 'stxn) libs \<Rightarrow> env \<Rightarrow> bytes \<Rightarrow> bytes \<Rightarrow> bytes \<Rightarrow> bytes \<Rightarrow> ('db, 'sdb) Api \<Rightarrow>
   api_body answer \<times> ('db, 'sdb) Api" where
  "fiber_handleListWorkUnits L E contextID limitStr cursor reverseStr a =
     (if contextID = [] then (Answer 400 (ErrorBody ''Context ID is required''), a)
      else reply (\<lambda>(workUnits, nextCursor). Answer 200 (WorkUnitsBody workUnits nextCursor))
             (\<lambda>_. Answer 500 (ErrorBody ''Failed to list work units''))
             (on_storage (ListWorkUnits (lib_B L) (lib_J L) (env_pick E) contextID (fiber_limit limitStr)
                (query_or cursor []) (query_or reverseStr ''false'' = ''true'')) a))"

definition fiber_handleUpdateContext ::
  "('db, 'txn, 'sdb, 'stxn) libs \<Rightarrow> env \<Rightarrow> bytes \<Rightarrow> UpdateContextRequest decoded \<Rightarrow> ('db, 'sdb) Api \<Rightarrow>
   api_body answer \<times> ('db, 'sdb) Api" where
  "fiber_handleUpdateContext L E ident body a =
     (if ident = [] then (Answer 400 (ErrorBody ''Context ID is required''), a)
      else case body of
        DecodeError _ \<Rightarrow> (Answer 400 (ErrorBody ''Invalid request body''), a)
      | Decoded req \<Rightarrow>
          reply (\<lambda>context. Answer 200 (ContextBody context))
            (\<lambda>_. Answer 500 (ErrorBody ''Failed to update context''))
            (on_storage (UpdateContext (lib_B L) (lib_J L) E (req\<lparr>ucr_Id := ident\<rparr>)) a))"

definition fiber_handleGetContext ::
  "('db, 'txn, 'sdb, 'stxn) libs \<Rightarrow> env \<Rightarrow> bytes \<Rightarrow> ('db, 'sdb) Api \<Rightarrow> api_body answer \<times> ('db, 'sdb) Api" where
  "fiber_handleGetContext L E ident a =
     (if ident = [] then (Answer 400 (ErrorBody ''Context ID is required''), a)
      else reply (\<lambda>context. Answer 200 (ContextBody context))
             (\<lambda>_. Answer 404 (ErrorBody ''Context not found''))
             (on_storage (GetContext (lib_B L) (lib_J L) (env_pick E 0) ident) a))"

text \<open>\<open>time.Duration(req.TTLSeconds) * time.Second\<close> is a product of \<open>int64\<close> numbers.\<close>

definition ttl_product :: "int \<Rightarrow> duration" where
  "ttl_product secs = sint (word_of_int (secs * Second) :: 64 word)"

definition fiber_handleAcquireLock ::
  "('db, 'txn, 'sdb, 'stxn) libs \<Rightarrow> env \<Rightarrow> RestAcquireLock decoded \<Rightarrow> ('db, 'sdb) Api \<Rightarrow>
   api_body answer \<times> ('db, 'sdb) Api" where
  "fiber_handleAcquireLock L E body a =
     (case body of
        DecodeError _ \<Rightarrow> (Answer 400 (ErrorBody ''Invalid request body''), a)
      | Decoded req \<Rightarrow>
          let req = default_ttl req
          in reply (\<lambda>lock. Answer 200 (LockBody lock)) (\<lambda>e. Answer 409 (ErrorBody (lib_lm_text L e)))
               (on_locks (lmAcquireLock E (ral_ResourcePath req) (ral_AgentID req) (ttl_product (ral_TTLSeconds req))) a))"

definition fiber_handleReleaseLock ::
  "('db, 'txn, 'sdb, 'stxn) libs \<Rightarrow> env \<Rightarrow> bytes \<Rightarrow> bytes \<Rightarrow> bytes \<Rightarrow> bytes \<Rightarrow> ('db, 'sdb) Api \<Rightarrow>
   api_body answer \<times> ('db, 'sdb) Api" where
  "fiber_handleReleaseLock L E resourcePath header agentQuery lockID a =
     (if resourcePath = [] then (Answer 400 (ErrorBody ''Resource path is required''), a)
      else reply
             (\<lambda>released. if released then Answer 200 (ReleasedBody True)
                         else Answer 404 (ErrorBody ''Lock not found or already released''))
             (\<lambda>e. Answer 400 (ErrorBody (lib_lm_text L e)))
             (on_locks (lmReleaseLock E resourcePath (query_or header agentQuery) lockID) a))"

definition fiber_handleGetLock ::
  "('db, 'txn, 'sdb, 'stxn) libs \<Rightarrow> env \<Rightarrow> bytes \<Rightarrow> ('db, 'sdb) Api \<Rightarrow> api_body answer \<times> ('db, 'sdb) Api" where
  "fiber_handleGetLock L E resourcePath a =
     (if resourcePath = [] then (Answer 400 (ErrorBody ''Resource path is required''), a)
      else reply (\<lambda>lock. Answer 200 (LockBody lock)) (\<lambda>_. Answer 404 (ErrorBody ''Lock not found or expired''))
             (lmGetLock (env_now E 0) resourcePath (api_lockManager a), a))"

definition fiber_handleSearch ::
  "('db, 'txn, 'sdb, 'stxn) libs \<Rightarrow> map_order \<Rightarrow> RestSearch decoded \<Rightarrow> ('db, 'sdb) Api \<Rightarrow>
   api_body answer \<times> ('db, 'sdb) Api" where
  "fiber_handleSearch L M body a =
     (case body of
        DecodeError _ \<Rightarrow> (Answer 400 (ErrorBody ''Invalid request body''), a)
      | Decoded req \<Rightarrow>
          let req = search_limit req
          in reply (\<lambda>(results, totalCount). Answer 200 (SearchBody results totalCount (rsr_Limit req) (rsr_Offset req)))
               (\<lambda>_. Answer 500 (ErrorBody ''Search failed'')) (run_search L M req (api_search a), a))"

text \<open>The routes.\<close>

fun fiber_serve ::
  "('db, 'txn, 'sdb, 'stxn) libs \<Rightarrow> http_input \<Rightarrow> CreateWorkUnitRequest http_request \<Rightarrow> ('db, 'sdb) Api \<Rightarrow>
   api_body answer \<times> ('db, 'sdb) Api" where
  "fiber_serve L i GetHealthz a = (Answer 200 (TextBody ''OK''), a)"
| "fiber_serve L i GetReadyz a = (Answer 200 (TextBody ''OK''), a)"
| "fiber_serve L i (PostWorkUnit body) a = fiber_handleCreateWorkUnit L (hi_env i) body a"
| "fiber_serve L i (GetUnit ident) a = fiber_handleGetWorkUnit L (hi_env i) ident a"
| "fiber_serve L i (GetUnits contextID limit cursor reverse) a =
     fiber_handleListWorkUnits L (hi_env i) contextID limit cursor reverse a"
| "fiber_serve L i (PatchContext ident body) a = fiber_handleUpdateContext L (hi_env i) ident body a"
| "fiber_serve L i (GetContextById ident) a = fiber_handleGetContext L (hi_env i) ident a"
| "fiber_serve L i (PostLock body) a = fiber_handleAcquireLock L (hi_env i) body a"
| "fiber_serve L i (DeleteLock resource header agent lockID) a =
     fiber_handleReleaseLock L (hi_env i) resource header agent lockID a"
| "fiber_serve L i (GetLockByPath resource) a = fiber_handleGetLock L (hi_env i) resource a"
| "fiber_serve L i (PostSearch body) a = fiber_handleSearch L (hi_order i) body a"

section \<open>The Chi server\<close>

text \<open>Some handlers of this server answer with the envelope of \<open>response.go\<close>, others with a plain JSON object like those of
  the Fiber server.\<close>

datatype chi_body = Envelope Response | Plain api_body

fun enveloped :: "nat \<times> Response \<Rightarrow> chi_body answer" where
  "enveloped (status, r) = Answer status (Envelope r)"

definition chi_sendJSON :: "nat \<Rightarrow> api_body \<Rightarrow> chi_body answer" where
  "chi_sendJSON status data = Answer status (Plain data)"

definition chi_sendError :: "nat \<Rightarrow> bytes \<Rightarrow> chi_body answer" where
  "chi_sendError status errMsg = chi_sendJSON status (ErrorBody errMsg)"

definition api_fail :: "bytes \<Rightarrow> APIError \<Rightarrow> chi_body answer" where
  "api_fail rid e = enveloped (response_Error rid (ApiErr e))"

definition chi_handleCreateWorkUnit ::
  "('db, 'txn, 'sdb, 'stxn) libs \<Rightarrow> http_input \<Rightarrow> RestCreateWorkUnit decoded \<Rightarrow> ('db, 'sdb) Api \<Rightarrow>
   chi_body answer \<times> ('db, 'sdb) Api" where
  "chi_handleCreateWorkUnit L i body a =
     (case ParseAndValidate validate_create body of
        Inl e \<Rightarrow> (api_fail (hi_requestID i) e, a)
      | Inr req \<Rightarrow>
          reply
            (\<lambda>w. enveloped (response_JSON (hi_requestID i) 201 (UnitData (WorkUnitFromProto (lib_rel_fields L) w))))
            (\<lambda>_. api_fail (hi_requestID i) (InternalError ''create_work_unit_failed'' ''Failed to create work unit''))
            (on_storage (CreateWorkUnit (lib_B L) (lib_J L) (hi_env i) (create_to_proto req)) a))"

definition chi_handleGetWorkUnit ::
  "('db, 'txn, 'sdb, 'stxn) libs \<Rightarrow> http_input \<Rightarrow> bytes \<Rightarrow> ('db, 'sdb) Api \<Rightarrow> chi_body answer \<times> ('db, 'sdb) Api" where
  "chi_handleGetWorkUnit L i ident a =
     (if ident = [] then (api_fail (hi_requestID i) (ValidationError ''missing_id'' ''Work unit ID is required''), a)
      else
        reply
          (\<lambda>w. enveloped (response_JSON (hi_requestID i) 200 (UnitData (WorkUnitFromProto (lib_rel_fields L) w))))
          (\<lambda>_. api_fail (hi_requestID i) (NotFoundError ''work_unit_not_found'' ''Work unit not found''))
          (on_storage (GetWorkUnit (lib_B L) (lib_J L) (env_pick (hi_env i) 0) ident) a))"

definition chi_limit :: "bytes \<Rightarrow> int" where
  "chi_limit limitStr =
     (if limitStr = [] then 100
      else case Atoi limitStr of
        Some val \<Rightarrow> if 0 < val \<and> val \<le> 1000 then val else 100
      | None \<Rightarrow> 100)"

definition chi_handleListWorkUnits ::
  "('db, 'txn, 'sdb, 'stxn) libs \<Rightarrow> http_input \<Rightarrow> bytes \<Rightarrow> bytes \<Rightarrow> bytes \<Rightarrow> bytes \<Rightarrow> ('db, 'sdb) Api \<Rightarrow>
   chi_body answer \<times> ('db, 'sdb) Api" where
  "chi_handleListWorkUnits L i contextID limitStr cursor reverseStr a =
     (if contextID = []
      then (api_fail (hi_requestID i) (ValidationError ''missing_context_id'' ''Context ID is required''), a)
      else
        let limit = chi_limit limitStr
        in reply
             (\<lambda>(workUnits, nextCursor). enveloped (response_WithMeta (hi_requestID i) 200
                (UnitsData (map (WorkUnitFromProto (lib_rel_fields L)) workUnits))
                \<lparr>pm_TotalCount = 0, pm_Limit = limit, pm_Offset = 0, pm_NextCursor = nextCursor\<rparr>))
             (\<lambda>_. api_fail (hi_requestID i) (InternalError ''list_work_units_failed'' ''Failed to list work units''))
             (on_storage (ListWorkUnits (lib_B L) (lib_J L) (env_pick (hi_env i)) contextID limit cursor
                (reverseStr = ''true'')) a))"

definition chi_handleUpdateContext ::
  "('db, 'txn, 'sdb, 'stxn) libs \<Rightarrow> http_input \<Rightarrow> bytes \<Rightarrow> UpdateContextRequest decoded \<Rightarrow> ('db, 'sdb) Api \<Rightarrow>
   chi_body answer \<times> ('db, 'sdb) Api" where
  "chi_handleUpdateContext L i ident body a =
     (if ident = [] then (chi_sendError 400 ''Context ID is required'', a)
      else case body of
        DecodeError _ \<Rightarrow> (chi_sendError 400 ''Invalid request body'', a)
      | Decoded req \<Rightarrow>
          reply (\<lambda>context. chi_sendJSON 200 (ContextBody context)) (\<lambda>_. chi_sendError 500 ''Failed to update context'')
            (on_storage (UpdateContext (lib_B L) (lib_J L) (hi_env i) (req\<lparr>ucr_Id := ident\<rparr>)) a))"

definition chi_handleGetContext ::
  "('db, 'txn, 'sdb, 'stxn) libs \<Rightarrow> http_input \<Rightarrow> bytes \<Rightarrow> ('db, 'sdb) Api \<Rightarrow> chi_body answer \<times> ('db, 'sdb) Api" where
  "chi_handleGetContext L i ident a =
     (if ident = [] then (chi_sendError 400 ''Context ID is required'', a)
      else reply (\<lambda>context. chi_sendJSON 200 (ContextBody context)) (\<lambda>_. chi_sendError 404 ''Context not found'')
             (on_storage (GetContext (lib_B L) (lib_J L) (env_pick (hi_env i) 0) ident) a))"

definition chi_handleAcquireLock ::
  "('db, 'txn, 'sdb, 'stxn) libs \<Rightarrow> http_input \<Rightarrow> RestAcquireLock decoded \<Rightarrow> ('db, 'sdb) Api \<Rightarrow>
   chi_body answer \<times> ('db, 'sdb) Api" where
  "chi_handleAcquireLock L i body a =
     (case ParseAndValidate validate_acquire body of
        Inl e \<Rightarrow> (api_fail (hi_requestID i) e, a)
      | Inr req \<Rightarrow>
          reply (\<lambda>lock. enveloped (response_JSON (hi_requestID i) 200 (LockData (LockFromProto lock))))
            (\<lambda>e. api_fail (hi_requestID i) (ConflictError ''lock_acquisition_failed'' (lib_st_text L e)))
            (on_storage (AcquireLock (lib_B L) (lib_J L) (hi_env i) (acquire_to_proto req)) a))"

definition chi_handleReleaseLock ::
  "('db, 'txn, 'sdb, 'stxn) libs \<Rightarrow> http_input \<Rightarrow> bytes \<Rightarrow> bytes \<Rightarrow> bytes \<Rightarrow> bytes \<Rightarrow> ('db, 'sdb) Api \<Rightarrow>
   chi_body answer \<times> ('db, 'sdb) Api" where
  "chi_handleReleaseLock L i resourcePath header agentQuery lockID a =
     (if resourcePath = [] then (chi_sendError 400 ''Resource path is required'', a)
      else
        let agentID = (if header = [] then agentQuery else header)
        in reply
             (\<lambda>released. if released then chi_sendJSON 200 (ReleasedBody True)
                         else chi_sendError 404 ''Lock not found or already released'')
             (\<lambda>e. chi_sendError 400 (lib_st_text L e))
             (on_storage (ReleaseLock (lib_B L) (lib_J L) (hi_env i)
                \<lparr>rlr_ResourcePath = resourcePath, rlr_AgentId = agentID, rlr_LockId = lockID\<rparr>) a))"

definition chi_handleGetLock ::
  "('db, 'txn, 'sdb, 'stxn) libs \<Rightarrow> http_input \<Rightarrow> bytes \<Rightarrow> ('db, 'sdb) Api \<Rightarrow> chi_body answer \<times> ('db, 'sdb) Api" where
  "chi_handleGetLock L i resourcePath a =
     (if resourcePath = [] then (chi_sendError 400 ''Resource path is required'', a)
      else reply (\<lambda>lock. chi_sendJSON 200 (LockBody lock)) (\<lambda>_. chi_sendError 404 ''Lock not found or expired'')
             (on_storage (GetLock (lib_B L) (lib_J L) (env_pick (hi_env i) 0) resourcePath) a))"

definition chi_handleSearch ::
  "('db, 'txn, 'sdb, 'stxn) libs \<Rightarrow> http_input \<Rightarrow> RestSearch decoded \<Rightarrow> ('db, 'sdb) Api \<Rightarrow>
   chi_body answer \<times> ('db, 'sdb) Api" where
  "chi_handleSearch L i body a =
     (case body of
        DecodeError _ \<Rightarrow> (chi_sendError 400 ''Invalid request body'', a)
      | Decoded req \<Rightarrow>
          let req = search_limit req
          in reply
               (\<lambda>(results, totalCount). chi_sendJSON 200 (SearchBody results totalCount (rsr_Limit req) (rsr_Offset req)))
               (\<lambda>_. chi_sendError 500 ''Search failed'') (run_search L (hi_order i) req (api_search a), a))"

fun chi_serve ::
  "('db, 'txn, 'sdb, 'stxn) libs \<Rightarrow> http_input \<Rightarrow> RestCreateWorkUnit http_request \<Rightarrow> ('db, 'sdb) Api \<Rightarrow>
   chi_body answer \<times> ('db, 'sdb) Api" where
  "chi_serve L i GetHealthz a = (Answer 200 (Plain (TextBody ''OK'')), a)"
| "chi_serve L i GetReadyz a = (Answer 200 (Plain (TextBody ''OK'')), a)"
| "chi_serve L i (PostWorkUnit body) a = chi_handleCreateWorkUnit L i body a"
| "chi_serve L i (GetUnit ident) a = chi_handleGetWorkUnit L i ident a"
| "chi_serve L i (GetUnits contextID limit cursor reverse) a =
     chi_handleListWorkUnits L i contextID limit cursor reverse a"
| "chi_serve L i (PatchContext ident body) a = chi_handleUpdateContext L i ident body a"
| "chi_serve L i (GetContextById ident) a = chi_handleGetContext L i ident a"
| "chi_serve L i (PostLock body) a = chi_handleAcquireLock L i body a"
| "chi_serve L i (DeleteLock resource header agent lockID) a =
     chi_handleReleaseLock L i resource header agent lockID a"
| "chi_serve L i (GetLockByPath resource) a = chi_handleGetLock L i resource a"
| "chi_serve L i (PostSearch body) a = chi_handleSearch L i body a"

lemmas chi_handler_defs = chi_handleCreateWorkUnit_def chi_handleGetWorkUnit_def chi_handleListWorkUnits_def
  chi_handleUpdateContext_def chi_handleGetContext_def chi_handleAcquireLock_def chi_handleReleaseLock_def
  chi_handleGetLock_def chi_handleSearch_def

lemmas fiber_handler_defs = fiber_handleCreateWorkUnit_def fiber_handleGetWorkUnit_def fiber_handleListWorkUnits_def
  fiber_handleUpdateContext_def fiber_handleGetContext_def fiber_handleAcquireLock_def fiber_handleReleaseLock_def
  fiber_handleGetLock_def fiber_handleSearch_def

lemma on_storage_snd [simp]:
  "snd (on_storage f a) = a\<lparr>api_storage := snd (f (api_storage a))\<rparr>" "fst (on_storage f a) = fst (f (api_storage a))"
  by (simp_all add: on_storage_def split: prod.splits)

lemma on_locks_snd [simp]:
  "snd (on_locks f a) = a\<lparr>api_lockManager := snd (f (api_lockManager a))\<rparr>"
  "fst (on_locks f a) = fst (f (api_lockManager a))"
  by (simp_all add: on_locks_def split: prod.splits)

lemma reply_snd [simp]: "snd (reply f g x) = snd x"
  by (cases "(f, g, x)" rule: reply.cases) auto

lemma reply_fst: "fst (reply f g x) = (case fst x of Ret y \<Rightarrow> f y | Err e \<Rightarrow> g e | Panic \<Rightarrow> Crashed)"
  by (cases "(f, g, x)" rule: reply.cases) auto

end
