(* ===== verification/Api_Locks.thy ===== *)
theory Api_Locks
  imports Api_Handlers
begin

text \<open>
  The locks of the two HTTP servers. An endpoint for locks is an extension of the contract of a lock service: which
  requests are calls of the service, and how the service's results appear as status codes; all other
  requests leave the table of locks as it is. Exclusion between HTTP clients is proved once from this contract. The
  Chi server implements it over the storage, the Fiber server over the lock manager.
\<close>

section \<open>Endpoints for locks\<close>

locale lock_endpoint = lock_service tbl ok adm acq rel
  for tbl :: "'s \<Rightarrow> bytes \<Rightarrow> LockHandle option" and ok :: "'s \<Rightarrow> bytes \<Rightarrow> bool" and adm :: "bytes \<Rightarrow> bool"
    and acq :: "env \<Rightarrow> bytes \<Rightarrow> bytes \<Rightarrow> 't \<Rightarrow> 's \<Rightarrow> ('e, LockHandle) outcome \<times> 's"
    and rel :: "env \<Rightarrow> bytes \<Rightarrow> bytes \<Rightarrow> bytes \<Rightarrow> 's \<Rightarrow> ('e, bool) outcome \<times> 's" +
  fixes view :: "'a \<Rightarrow> 's"
    and serve :: "'i \<Rightarrow> 'q \<Rightarrow> 'a \<Rightarrow> 'b answer \<times> 'a"
    and as_call :: "'i \<Rightarrow> 'q \<Rightarrow> 't lock_call option"
  assumes serve_call: "as_call i q = Some c \<Longrightarrow> view (snd (serve i q a)) = run_call acq rel c (view a)"
    and serve_rest: "\<lbrakk>as_call i q = None; ok (view a) p\<rbrakk> \<Longrightarrow>
      ok (view (snd (serve i q a))) p \<and> tbl (view (snd (serve i q a))) p = tbl (view a) p"
    and serve_acquired: "\<lbrakk>as_call i q = Some (CallAcquire E p x ttl); acq E p x ttl (view a) = (Ret l, s)\<rbrakk> \<Longrightarrow>
      \<exists>b. fst (serve i q a) = Answer 200 b"
    and serve_refused: "\<lbrakk>as_call i q = Some (CallAcquire E p x ttl); acq E p x ttl (view a) = (Err e, s)\<rbrakk> \<Longrightarrow>
      \<exists>b. fst (serve i q a) = Answer 409 b"
    and serve_panic: "\<lbrakk>as_call i q = Some (CallAcquire E p x ttl); acq E p x ttl (view a) = (Panic, s)\<rbrakk> \<Longrightarrow>
      fst (serve i q a) = Crashed"
begin

abbreviation traffic :: "('i \<times> 'q) list \<Rightarrow> 'a \<Rightarrow> 'a" where
  "traffic rs a \<equiv> fold (\<lambda>(i, q) a. snd (serve i q a)) rs a"

lemma answered_acquired:
  assumes "as_call i q = Some (CallAcquire E p x ttl)" and "fst (serve i q a) = Answer 200 b"
  obtains l s where "acq E p x ttl (view a) = (Ret l, s)"
proof -
  obtain r s where run: "acq E p x ttl (view a) = (r, s)" by (cases "acq E p x ttl (view a)")
  with serve_refused [OF assms(1)] serve_panic [OF assms(1)] assms(2) that show ?thesis
    by (cases r) fastforce+
qed

lemma held_through_traffic:
  assumes "ok (view a) p" and "tbl (view a) p = Some l"
    and "\<And>i q c. (i, q) \<in> set rs \<Longrightarrow> as_call i q = Some c \<Longrightarrow>
      caller c \<noteq> lk_HolderAgent l \<and> live (call_time c) l \<and> (\<forall>x \<in> call_strings c. adm x)"
  shows "ok (view (traffic rs a)) p \<and> tbl (view (traffic rs a)) p = Some l"
  using assms
proof (induction rs arbitrary: a)
  case (Cons r rs)
  obtain i q where r: "r = (i, q)" by (cases r)
  have "ok (view (snd (serve i q a))) p \<and> tbl (view (snd (serve i q a))) p = Some l"
  proof (cases "as_call i q")
    case None
    with serve_rest Cons.prems(1,2) show ?thesis by metis
  next
    case (Some c)
    with Cons.prems(3) [of i q c] r call_by_other [OF Cons.prems(1,2), of c] show ?thesis
      by (simp add: serve_call)
  qed
  then show ?case using Cons.IH [of "snd (serve i q a)"] Cons.prems(3) r by auto
qed simp

lemma http_exclusion:
  assumes "ok (view a) p" and "as_call i q = Some (CallAcquire E p x ttl)" and "serve i q a = (Answer 200 b, a')"
    and "adm p" "adm x" "adm (env_uuid E)" and "tbl (view a') p = Some l"
    and "\<And>j r c. (j, r) \<in> set rs \<Longrightarrow> as_call j r = Some c \<Longrightarrow>
      caller c \<noteq> x \<and> live (call_time c) l \<and> (\<forall>y \<in> call_strings c. adm y)"
    and "as_call j r = Some (CallAcquire E' p y ttl')" and "y \<noteq> x" and "live (env_now E' 0) l"
  shows "\<exists>b'. fst (serve j r (traffic rs a')) = Answer 409 b'" and "tbl (view (snd (serve j r (traffic rs a')))) p = Some l"
proof -
  obtain l' s where run: "acq E p x ttl (view a) = (Ret l', s)"
    using answered_acquired [OF assms(2), of a b] assms(3) by auto
  have "view a' = s" using serve_call [OF assms(2), of a] assms(3) run by simp
  then have l: "ok (view a') p" "lk_HolderAgent l = x" using acq_gives [OF assms(1,4-6) run] assms(7) by auto
  have held: "ok (view (traffic rs a')) p" "tbl (view (traffic rs a')) p = Some l"
    using held_through_traffic [OF l(1) assms(7), of rs] assms(8) l(2) by blast+
  obtain e s' where "acq E' p y ttl' (view (traffic rs a')) = (Err e, s')" "tbl s' p = Some l"
    using acq_blocked [OF held, of y E' ttl'] l(2) assms(10,11) held(2) by auto
  with serve_refused [OF assms(9)] serve_call [OF assms(9)]
  show "\<exists>b'. fst (serve j r (traffic rs a')) = Answer 409 b'" "tbl (view (snd (serve j r (traffic rs a')))) p = Some l"
    by auto
qed

end

section \<open>The Chi server over the storage\<close>

text \<open>Operations that leave the table of locks and the cached locks alone.\<close>

definition same_locks :: "json_codec \<Rightarrow> ('db \<Rightarrow> (bytes \<times> bytes) list) \<Rightarrow> 'db Storage \<Rightarrow> 'db Storage \<Rightarrow> bool" where
  "same_locks J items s s' \<longleftrightarrow> db_lock J items s' = db_lock J items s \<and> cached_lock s' = cached_lock s"

lemma same_locks_refl [simp]: "same_locks J items s s"
  by (simp add: same_locks_def)

lemma same_locks_trans: "same_locks J items s t \<Longrightarrow> same_locks J items t u \<Longrightarrow> same_locks J items s u"
  by (simp add: same_locks_def)

lemma same_locks_ok: "same_locks J items s s' \<Longrightarrow> lock_ok B J V items writes s p \<Longrightarrow> lock_ok B J V items writes s' p"
  by (simp add: same_locks_def lock_ok_def lock_inv_def lock_coherent_def)

lemma same_locks_store_unit:
  assumes "badger_ok B items writes"
  shows "same_locks J items s (snd (storeWorkUnitInternal B J now pick w logToWAL s))"
proof -
  obtain r s' where run: "storeWorkUnitInternal B J now pick w logToWAL s = (r, s')" by fastforce
  then show ?thesis
  proof (cases rule: storeWorkUnitInternal_cases)
    case (stored data t t' db s1)
    have "st_db s' = db" using stored(6) by (cases "try_send (st_events s) w") simp_all
    moreover have "cached_lock s' = cached_lock s"
      using stored(2,6) by (cases "try_send (st_events s) w") simp_all
    ultimately show ?thesis
      using run db_views_put_wu(3) [OF assms stored(3-5), of s' J] by (simp add: same_locks_def)
  qed (use run in \<open>auto simp: same_locks_def\<close>)
qed

lemma same_locks_store_context:
  assumes "badger_ok B items writes"
  shows "same_locks J items s (snd (storeContextInternal B J now pick x logToWAL s))"
proof -
  obtain r s' where run: "storeContextInternal B J now pick x logToWAL s = (r, s')" by fastforce
  then show ?thesis
  proof (cases rule: storeContextInternal_cases)
    case (stored data t db)
    then show ?thesis
      using run db_views_put_ctx(3) [OF assms stored(2,3), of s' J] by (simp add: same_locks_def)
  qed (use run in \<open>auto simp: same_locks_def\<close>)
qed

lemma same_locks_on_cache:
  "same_locks J items s (on_cache (SetWorkUnit k w) s)" "same_locks J items s (on_cache (SetContext k x) s)"
  "same_locks J items s (on_cache (share_context x) s)"
  by (simp_all add: same_locks_def)

lemma same_locks_get_unit: "same_locks J items s (snd (GetWorkUnit B J pick i s))"
  by (auto simp: GetWorkUnit_def same_locks_on_cache split: option.splits sum.splits badger_error.splits)

lemma same_locks_get_context: "same_locks J items s (snd (GetContext B J pick i s))"
  by (auto simp: GetContext_def same_locks_on_cache split: option.splits sum.splits badger_error.splits)

lemma same_locks_create_unit:
  "badger_ok B items writes \<Longrightarrow> same_locks J items s (snd (CreateWorkUnit B J E req s))"
  using same_locks_store_unit [of B items writes J s "env_now E 1" "env_pick E 0" "new_work_unit E req" True]
  by (auto simp: CreateWorkUnit_def Let_def split: prod.splits outcome.splits)

lemma same_locks_update_context:
  assumes "badger_ok B items writes"
  shows "same_locks J items s (snd (UpdateContext B J E req s))"
proof -
  obtain r s1 where get: "GetContext B J (env_pick E 0) (ucr_Id req) s = (r, s1)" by fastforce
  have s1: "same_locks J items s s1" using same_locks_get_context [of J items s B] get by (metis snd_conv)
  have store: "same_locks J items s s3" if "same_locks J items s s2"
    "storeContextInternal B J t k x True s2 = (r', s3)" for s2 s3 t k x r'
    using same_locks_trans [OF that(1)] same_locks_store_context [OF assms, of J s2 t k x True] that(2) by simp
  have edited: "same_locks J items s (on_cache (share_context x) s1)" for x
    using same_locks_trans [OF s1 same_locks_on_cache(3)] .
  show ?thesis
  proof (cases r)
    case (Ret x)
    then show ?thesis
      using get edited store [OF edited] by (auto simp: UpdateContext_def Let_def split: outcome.split option.split prod.split)
  qed (use get store [OF s1] in \<open>auto simp: UpdateContext_def Let_def split: outcome.split prod.split\<close>)
qed

lemma same_locks_list_loop:
  "same_locks J items s (snd (snd (list_loop B J picks pfx reverse limit i units it s)))"
proof (induction it arbitrary: i units s)
  case (Cons x it)
  obtain key val where x: "x = (key, val)" by (cases x)
  have "same_locks J items s (snd (snd (list_loop B J picks pfx reverse limit (Suc i) us it s1)))"
    if "GetWorkUnit B J (picks i) unitID s = (r, s1)" for r s1 us unitID
    using same_locks_trans [OF same_locks_get_unit [of J items s B "picks i" unitID]] that Cons.IH [of s1] by simp
  then show ?case
    using Cons.IH [of s] by (auto simp: x split: sum.split prod.split outcome.split)
qed simp

lemma same_locks_list_units: "same_locks J items s (snd (ListWorkUnits B J picks c limit cursor reverse s))"
  using same_locks_list_loop [of J items s B picks "index_prefix c" reverse limit 0 "[]"]
  by (auto simp: ListWorkUnits_def Let_def split: prod.splits) (metis snd_conv)

text \<open>Which requests are calls of the storage's lock operations.\<close>

fun chi_lock_call :: "http_input \<Rightarrow> RestCreateWorkUnit http_request \<Rightarrow> 32 word lock_call option" where
  "chi_lock_call i (PostLock body) =
     (case ParseAndValidate validate_acquire body of
        Inl _ \<Rightarrow> None
      | Inr r \<Rightarrow> Some (CallAcquire (hi_env i) (ral_ResourcePath r) (ral_AgentID r) (word_of_int (ral_TTLSeconds r))))"
| "chi_lock_call i (DeleteLock resource header agent lockID) =
     (if resource = [] then None
      else Some (CallRelease (hi_env i) resource (if header = [] then agent else header) lockID))"
| "chi_lock_call i _ = None"

lemmas api_answer_defs = api_fail_def response_Error_def response_JSON_def ConflictError_def chi_sendJSON_def
  chi_sendError_def Let_def

lemma chi_acquire_answer:
  assumes "chi_lock_call i q = Some (CallAcquire E p x ttl)"
  shows "chi_serve L i q a =
    reply (\<lambda>lock. enveloped (response_JSON (hi_requestID i) 200 (LockData (LockFromProto lock))))
      (\<lambda>e. api_fail (hi_requestID i) (ConflictError ''lock_acquisition_failed'' (lib_st_text L e)))
      (on_storage (storage_acquire (lib_B L) (lib_J L) E p x ttl) a)"
  using assms
  by (cases "(i, q)" rule: chi_lock_call.cases)
    (auto simp: chi_handleAcquireLock_def storage_acquire_def acquire_to_proto_def split: sum.splits if_splits)

lemma GetLock_same:
  assumes "lock_ok B J V items writes s p"
  shows "lock_ok B J V items writes (snd (GetLock B J pick q s)) p \<and>
    db_lock J items (snd (GetLock B J pick q s)) p = db_lock J items s p"
proof -
  obtain r s' where get: "GetLock B J pick q s = (r, s')" by fastforce
  from assms have inv: "lock_inv B J V items writes s" "lock_coherent J items s p" by (simp_all add: lock_ok_def)
  show ?thesis using GetLock_effect(1,2) [OF inv(1) get] GetLock_effect(3) [OF inv(1) get, of p] get inv(2)
    by (simp add: lock_ok_def)
qed

lemma chi_rest_locks:
  assumes "chi_lock_call i q = None" and ok: "lock_ok (lib_B L) (lib_J L) V items writes (api_storage a) p"
  shows "lock_ok (lib_B L) (lib_J L) V items writes (api_storage (snd (chi_serve L i q a))) p \<and>
    db_lock (lib_J L) items (api_storage (snd (chi_serve L i q a))) p = db_lock (lib_J L) items (api_storage a) p"
proof -
  have B: "badger_ok (lib_B L) items writes" using ok by (simp add: lock_ok_def lock_inv_def)
  note same = same_locks_create_unit [OF B] same_locks_get_unit same_locks_list_units same_locks_update_context [OF B]
    same_locks_get_context
  have keep: "lock_ok (lib_B L) (lib_J L) V items writes s p \<and> db_lock (lib_J L) items s p = db_lock (lib_J L) items (api_storage a) p"
    if "same_locks (lib_J L) items (api_storage a) s" for s
    using same_locks_ok [OF that ok] that by (simp add: same_locks_def)
  show ?thesis
    using assms(1) ok
    by (cases "(L, i, q, a)" rule: chi_serve.cases)
      (auto simp: chi_handler_defs GetLock_same Let_def split: sum.splits decoded.splits if_splits intro!: keep same)
qed

interpretation chi_locks:
  lock_endpoint "db_lock (lib_J L) items" "lock_ok (lib_B L) (lib_J L) V items writes" V
    "storage_acquire (lib_B L) (lib_J L)" "storage_release (lib_B L) (lib_J L)" api_storage "chi_serve L" chi_lock_call
  for L :: "('db, 'txn, 'sdb, 'stxn) libs" and V items writes
proof
  fix i q c and a :: "('db, 'sdb) Api"
  assume "chi_lock_call i q = Some c"
  then show "api_storage (snd (chi_serve L i q a)) =
      run_call (storage_acquire (lib_B L) (lib_J L)) (storage_release (lib_B L) (lib_J L)) c (api_storage a)"
    by (cases "(i, q)" rule: chi_lock_call.cases)
      (auto simp: chi_handleAcquireLock_def chi_handleReleaseLock_def storage_acquire_def storage_release_def
        acquire_to_proto_def Let_def split: sum.splits if_splits)
next
  fix i q p and a :: "('db, 'sdb) Api"
  assume "chi_lock_call i q = None" "lock_ok (lib_B L) (lib_J L) V items writes (api_storage a) p"
  then show "lock_ok (lib_B L) (lib_J L) V items writes (api_storage (snd (chi_serve L i q a))) p \<and>
      db_lock (lib_J L) items (api_storage (snd (chi_serve L i q a))) p = db_lock (lib_J L) items (api_storage a) p"
    by (rule chi_rest_locks)
qed (auto simp: chi_acquire_answer reply_fst api_answer_defs)

definition chi_run ::
  "('db, 'txn, 'sdb, 'stxn) libs \<Rightarrow> (http_input \<times> RestCreateWorkUnit http_request) list \<Rightarrow> ('db, 'sdb) Api \<Rightarrow>
   ('db, 'sdb) Api" where
  "chi_run L rs a = fold (\<lambda>(i, q) a. snd (chi_serve L i q a)) rs a"

section \<open>The Fiber server over the lock manager\<close>

fun fiber_lock_call :: "http_input \<Rightarrow> CreateWorkUnitRequest http_request \<Rightarrow> duration lock_call option" where
  "fiber_lock_call i (PostLock (Decoded r)) =
     (let r = default_ttl r
      in Some (CallAcquire (hi_env i) (ral_ResourcePath r) (ral_AgentID r) (ttl_product (ral_TTLSeconds r))))"
| "fiber_lock_call i (DeleteLock resource header agent lockID) =
     (if resource = [] then None else Some (CallRelease (hi_env i) resource (query_or header agent) lockID))"
| "fiber_lock_call i _ = None"

lemma fiber_acquire_answer:
  assumes "fiber_lock_call i q = Some (CallAcquire E p x ttl)"
  shows "fiber_serve L i q a = reply (\<lambda>lock. Answer 200 (LockBody lock)) (\<lambda>e. Answer 409 (ErrorBody (lib_lm_text L e)))
      (on_locks (lmAcquireLock E p x ttl) a)"
  using assms
  by (cases "(i, q)" rule: fiber_lock_call.cases) (auto simp: fiber_handleAcquireLock_def Let_def split: if_splits)

interpretation fiber_locks:
  lock_endpoint "\<lambda>m. map_of (lm_locks m)" "\<lambda>m p. lm_inv m" "\<lambda>_. True" lmAcquireLock lmReleaseLock
    api_lockManager "fiber_serve L" fiber_lock_call
  for L :: "('db, 'txn, 'sdb, 'stxn) libs"
proof
  fix i q c and a :: "('db, 'sdb) Api"
  assume "fiber_lock_call i q = Some c"
  then show "api_lockManager (snd (fiber_serve L i q a)) = run_call lmAcquireLock lmReleaseLock c (api_lockManager a)"
    by (cases "(i, q)" rule: fiber_lock_call.cases)
      (auto simp: fiber_handleAcquireLock_def fiber_handleReleaseLock_def Let_def split: if_splits)
next
  fix i q p and a :: "('db, 'sdb) Api"
  assume "fiber_lock_call i q = None" "lm_inv (api_lockManager a)"
  moreover from this(1) have "api_lockManager (snd (fiber_serve L i q a)) = api_lockManager a"
    by (cases "(L, i, q, a)" rule: fiber_serve.cases)
      (auto simp: fiber_handler_defs Let_def split: decoded.splits if_splits)
  ultimately show "lm_inv (api_lockManager (snd (fiber_serve L i q a))) \<and>
      map_of (lm_locks (api_lockManager (snd (fiber_serve L i q a)))) p = map_of (lm_locks (api_lockManager a)) p"
    by simp
qed (auto simp: fiber_acquire_answer reply_fst)

section \<open>Granted locks\<close>

text \<open>The lifetime the Chi server passes to the storage.\<close>

definition chi_ttl :: "RestAcquireLock \<Rightarrow> duration" where
  "chi_ttl r = ttl_duration (alr_TtlSeconds (acquire_to_proto (default_ttl r)))"

lemma default_ttl_simps [simp]:
  "ral_ResourcePath (default_ttl r) = ral_ResourcePath r" "ral_AgentID (default_ttl r) = ral_AgentID r"
  "ral_TTLSeconds (default_ttl r) = (if ral_TTLSeconds r \<le> 0 then 60 else ral_TTLSeconds r)"
  by (simp_all add: default_ttl_def)

lemma chi_lock_call_post:
  "chi_lock_call i (PostLock (Decoded r)) =
     (if ral_ResourcePath r = [] \<or> ral_AgentID r = [] then None
      else Some (CallAcquire (hi_env i) (ral_ResourcePath r) (ral_AgentID r)
        (word_of_int (if ral_TTLSeconds r \<le> 0 then 60 else ral_TTLSeconds r))))"
  by (simp add: ParseAndValidate_def validate_acquire_def)

declare chi_lock_call.simps(1) [simp del] chi_lock_call_post [simp]

lemma chi_post_refused:
  "chi_lock_call i (PostLock (Decoded r)) = None \<Longrightarrow> \<exists>b. fst (chi_serve L i (PostLock (Decoded r)) a) = Answer 400 b"
  by (auto simp: chi_handleAcquireLock_def ParseAndValidate_def validate_acquire_def api_answer_defs ValidationError_def
      split: if_splits)

lemma chi_lock_granted:
  assumes "lock_ok (lib_B L) (lib_J L) V items writes (api_storage a) (ral_ResourcePath r)"
    and "V (ral_ResourcePath r)" "V (ral_AgentID r)" "V (env_uuid (hi_env i))"
    and "chi_serve L i (PostLock (Decoded r)) a = (Answer 200 b, a')"
  obtains l where "chi_lock_call i (PostLock (Decoded r)) = Some (CallAcquire (hi_env i) (ral_ResourcePath r) (ral_AgentID r)
        (word_of_int (if ral_TTLSeconds r \<le> 0 then 60 else ral_TTLSeconds r)))"
    and "db_lock (lib_J L) items (api_storage a') (ral_ResourcePath r) = Some l" "lk_HolderAgent l = ral_AgentID r"
    and "expiry l = env_now (hi_env i) 1 + chi_ttl r"
proof -
  let ?q = "PostLock (Decoded r)" and ?w = "word_of_int (if ral_TTLSeconds r \<le> 0 then 60 else ral_TTLSeconds r) :: 32 word"
  let ?c = "CallAcquire (hi_env i) (ral_ResourcePath r) (ral_AgentID r) ?w"
  have call: "chi_lock_call i ?q = Some ?c"
    using chi_post_refused [of i r L a] assms(5) by (auto simp: chi_lock_call_post split: if_splits)
  obtain l s where run: "storage_acquire (lib_B L) (lib_J L) (hi_env i) (ral_ResourcePath r) (ral_AgentID r) ?w (api_storage a) = (Ret l, s)"
    using chi_locks.answered_acquired [OF call, of L a b] assms(5) by auto
  have "api_storage a' = s" using chi_locks.serve_call [OF call, of L a] assms(5) run by simp
  moreover have inv: "lock_inv (lib_B L) (lib_J L) V items writes (api_storage a)" using assms(1) by (simp add: lock_ok_def)
  note e = AcquireLock_effect(4) [OF inv _ _ _ _ run [unfolded storage_acquire_def], of "ral_ResourcePath r"]
  ultimately show ?thesis
    using that [OF call] e assms(2-4) by (simp add: chi_ttl_def acquire_to_proto_def)
qed

text \<open>Exclusion between HTTP clients of the Fiber server, whose locks are those of the lock manager.\<close>

lemma fiber_lock_exclusion:
  assumes "lm_inv (api_lockManager a)" and "fiber_serve L i (PostLock (Decoded r)) a = (Answer 200 (LockBody l), a')"
    and "\<And>k q c. (k, q) \<in> set rs \<Longrightarrow> fiber_lock_call k q = Some c \<Longrightarrow> caller c \<noteq> ral_AgentID r \<and> live (call_time c) l"
    and "ral_ResourcePath r' = ral_ResourcePath r" and "ral_AgentID r' \<noteq> ral_AgentID r" and "live (env_now (hi_env j) 0) l"
  shows "\<exists>b'. fst (fiber_serve L j (PostLock (Decoded r')) (fold (\<lambda>(i, q) a. snd (fiber_serve L i q a)) rs a')) = Answer 409 b'"
proof -
  obtain ttl where call: "fiber_lock_call i (PostLock (Decoded r)) = Some (CallAcquire (hi_env i) (ral_ResourcePath r) (ral_AgentID r) ttl)"
    by (simp add: Let_def)
  have "fst (lmAcquireLock (hi_env i) (ral_ResourcePath r) (ral_AgentID r) ttl (api_lockManager a)) = Ret l"
    using assms(2) fiber_acquire_answer [OF call, of L a]
    by (auto simp: on_locks_def dest!: arg_cong [of _ _ fst] split: prod.splits outcome.splits simp: reply_fst)
  then have "map_of (lm_locks (api_lockManager a')) (ral_ResourcePath r) = Some l"
    using manager_locks.acq_gives [OF assms(1)] fiber_locks.serve_call [OF call, of L a] assms(2)
    by (cases "lmAcquireLock (hi_env i) (ral_ResourcePath r) (ral_AgentID r) ttl (api_lockManager a)") auto
  then show ?thesis
    using fiber_locks.http_exclusion(1) [OF assms(1) call assms(2) TrueI TrueI TrueI, of l rs j "PostLock (Decoded r')"
        "hi_env j" "ral_AgentID r'"] assms(3-6)
    by (simp add: Let_def)
qed

end
