(* ===== verification/Api_Properties.thy ===== *)
theory Api_Properties
  imports Api_Locks Search_Query
begin

text \<open>
  What the two HTTP servers promise their clients: the lifetimes of locks, the round trip of work units, the
  listings and searches of both servers.
\<close>

section \<open>Exclusion, and a server for the examples\<close>

definition ref_libs :: "(ref_db, (bytes \<times> bytes option) list, ref_db, (bytes \<times> bytes option) list) libs" where
  "ref_libs = \<lparr>lib_B = ref_badger, lib_J = ref_codec, lib_SB = ref_badger, lib_lower = (\<lambda>s. s), lib_lm_text = (\<lambda>_. []),
     lib_st_text = (\<lambda>_. []), lib_rel_fields = (\<lambda>_. ([], []))\<rparr>"

definition ref_api :: "(ref_db, ref_db) Api" where
  "ref_api = \<lparr>api_storage = ref_storage, api_lockManager = lm0, api_search = NewSearch ex_index\<rparr>"

definition at_time :: "gotime \<Rightarrow> bytes \<Rightarrow> http_input" where
  "at_time t u = \<lparr>hi_env = env_at t u, hi_order = ex_order, hi_requestID = ''r''\<rparr>"

definition ask_lock :: "bytes \<Rightarrow> bytes \<Rightarrow> int \<Rightarrow> RestAcquireLock" where
  "ask_lock p x n = \<lparr>ral_ResourcePath = p, ral_AgentID = x, ral_TTLSeconds = n\<rparr>"

lemmas ref_simps [simp] = ref_libs_def ref_api_def at_time_def ask_lock_def

lemma ref_api_post:
  assumes "p \<noteq> []" and "x \<noteq> []"
  shows "\<exists>b a'. chi_serve ref_libs (at_time t u) (PostLock (Decoded (ask_lock p x n))) ref_api = (Answer 200 b, a')"
proof -
  let ?q = "PostLock (Decoded (ask_lock p x n))"
  obtain ttl where call: "chi_lock_call (at_time t u) ?q = Some (CallAcquire (env_at t u) p x ttl)" using assms by simp
  obtain l s where "storage_acquire ref_badger ref_codec (env_at t u) p x ttl ref_storage = (Ret l, s)"
    using ref_storage_acquire by metis
  with chi_locks.serve_acquired [OF call, of ref_libs ref_api l s] show ?thesis
    by (metis fst_conv surj_pair Api.select_convs(1) libs.select_convs(1,2) ref_api_def ref_libs_def)
qed

text \<open>C28. Exclusion between HTTP clients of the Chi server. After a request for a lock was answered with 200, every
  valid request for the same resource by another agent is answered with 409 until the lifetime of the lock has
  passed, whatever requests of any kind (units, contexts, listings, searches, locks) the server has answered in
  between, as long as the lock requests among them are not those of the holder.\<close>

theorem chi_lock_exclusion:
  assumes "lock_ok (lib_B L) (lib_J L) V items writes (api_storage a) p"
    and "chi_serve L i (PostLock (Decoded r)) a = (Answer 200 b, a')" and "ral_ResourcePath r = p"
    and "V p" "V (ral_AgentID r)" "V (env_uuid (hi_env i))" and "T = env_now (hi_env i) 1 + chi_ttl r"
    and "\<And>k q c. (k, q) \<in> set rs \<Longrightarrow> chi_lock_call k q = Some c \<Longrightarrow>
      caller c \<noteq> ral_AgentID r \<and> call_time c < T \<and> (\<forall>x \<in> call_strings c. V x)"
    and "ral_ResourcePath r' = p" and "ral_AgentID r' \<noteq> ral_AgentID r" and "ral_AgentID r' \<noteq> []"
    and "env_now (hi_env j) 0 < T"
  shows "\<exists>b'. fst (chi_serve L j (PostLock (Decoded r')) (chi_run L rs a')) = Answer 409 b'"
proof -
  have ok: "lock_ok (lib_B L) (lib_J L) V items writes (api_storage a) (ral_ResourcePath r)" "V (ral_ResourcePath r)"
    using assms(1,3,4) by simp_all
  from chi_lock_granted [OF ok assms(5,6,2)] obtain l where
    l: "chi_lock_call i (PostLock (Decoded r)) = Some (CallAcquire (hi_env i) (ral_ResourcePath r) (ral_AgentID r)
        (word_of_int (if ral_TTLSeconds r \<le> 0 then 60 else ral_TTLSeconds r)))"
    "db_lock (lib_J L) items (api_storage a') (ral_ResourcePath r) = Some l" "expiry l = T"
    using assms(7) by metis
  have "ral_ResourcePath r \<noteq> []" using l(1) by (auto simp: chi_lock_call_post split: if_splits)
  then have "\<exists>ttl. chi_lock_call j (PostLock (Decoded r')) = Some (CallAcquire (hi_env j) (ral_ResourcePath r) (ral_AgentID r') ttl)"
    using assms(3,9,11) by (simp add: chi_lock_call_post)
  then show ?thesis
    using chi_locks.http_exclusion(1) [OF ok(1) l(1) assms(2) ok(2) assms(5,6) l(2)] assms(8,10,12) l(3)
    unfolding chi_run_def by metis
qed

theorem chi_lock_exclusion_witness:
  "\<exists>b a' b'. chi_serve ref_libs (at_time 0 ''u'') (PostLock (Decoded (ask_lock ''p'' ''a'' 30))) ref_api = (Answer 200 b, a') \<and>
     fst (chi_serve ref_libs (at_time Second ''w'') (PostLock (Decoded (ask_lock ''p'' ''b'' 5)))
       (chi_run ref_libs [(at_time 9 ''v'', DeleteLock ''p'' [] ''b'' ''u''), (at_time 9 ''v'', GetUnit ''x'')] a')) = Answer 409 b'"
proof -
  let ?i = "at_time 0 ''u''" and ?r = "ask_lock ''p'' ''a'' 30"
  let ?rs = "[(at_time 9 ''v'', DeleteLock ''p'' [] ''b'' ''u''), (at_time 9 ''v'', GetUnit ''x'')]"
  obtain b a' where run: "chi_serve ref_libs ?i (PostLock (Decoded ?r)) ref_api = (Answer 200 b, a')"
    using ref_api_post [of "''p''" "''a''" 0 "''u''" 30] by auto
  have ok: "lock_ok (lib_B ref_libs) (lib_J ref_libs) (\<lambda>_. True) ref_items (\<lambda>t. t) (api_storage ref_api) ''p''"
    using ref_storage_ok by simp
  have "\<exists>b'. fst (chi_serve ref_libs (at_time Second ''w'') (PostLock (Decoded (ask_lock ''p'' ''b'' 5)))
       (chi_run ref_libs ?rs a')) = Answer 409 b'"
    by (rule chi_lock_exclusion [OF ok run _ _ _ _ refl])
      (auto simp: chi_ttl_def acquire_to_proto_def ttl_duration_def default_ttl_def split: if_splits)
  with run show ?thesis by blast
qed

section \<open>The lifetime of a lock\<close>

lemma chi_ttl_exact:
  assumes "ral_TTLSeconds r < 2 ^ 31"
  shows "chi_ttl r = (if ral_TTLSeconds r \<le> 0 then 60 else ral_TTLSeconds r) * Second"
proof -
  have "sint (word_of_int n :: 32 word) = n" if "0 < n" "n < 2 ^ 31" for n
    using that by (simp add: sint_sbintrunc' signed_take_bit_int_eq_self)
  then show ?thesis using assms by (simp add: chi_ttl_def acquire_to_proto_def ttl_duration_def)
qed

lemma chi_post_outcome:
  assumes "lock_ok (lib_B L) (lib_J L) V items writes (api_storage a) p" and "badger_total (lib_B L)"
    and "ral_ResourcePath r = p" and "p \<noteq> []" "ral_AgentID r \<noteq> []" and "V p" "V (ral_AgentID r)" "V (env_uuid (hi_env i))"
    and "\<And>l. db_lock (lib_J L) items (api_storage a) p = Some l \<Longrightarrow> \<not> live (env_now (hi_env i) 0) l"
  shows "\<exists>b a' l. chi_serve L i (PostLock (Decoded r)) a = (Answer 200 b, a') \<and>
    lock_ok (lib_B L) (lib_J L) V items writes (api_storage a') p \<and>
    db_lock (lib_J L) items (api_storage a') p = Some l \<and> expiry l = env_now (hi_env i) 1 + chi_ttl r"
proof -
  let ?q = "PostLock (Decoded r)" and ?req = "acquire_to_proto (default_ttl r)"
  have call: "chi_lock_call i ?q = Some (CallAcquire (hi_env i) p (ral_AgentID r) (alr_TtlSeconds ?req))"
    using assms(3-5) by (simp add: acquire_to_proto_def)
  obtain o1 s1 where run: "AcquireLock (lib_B L) (lib_J L) (hi_env i) ?req (api_storage a) = (o1, s1)" by fastforce
  have req: "alr_ResourcePath ?req = p" "alr_AgentId ?req = ral_AgentID r" using assms(3) by (simp_all add: acquire_to_proto_def)
  obtain l where l: "acquire_spec (hi_env i) ?req (db_lock (lib_J L) items (api_storage a) p) = Some l"
    "expiry l = env_now (hi_env i) 1 + chi_ttl r"
    using assms(9) by (cases "db_lock (lib_J L) items (api_storage a) p") (simp_all add: acquire_spec_def chi_ttl_def Let_def)
  note ref = AcquireLock_refines [OF assms(1,2) req(1) assms(6) _ assms(8) run]
  have res: "o1 = Ret l" "db_lock (lib_J L) items s1 = (db_lock (lib_J L) items (api_storage a))(p \<mapsto> l)"
    "lock_ok (lib_B L) (lib_J L) V items writes s1 p"
    using ref assms(7) req l(1) by simp_all
  have "storage_acquire (lib_B L) (lib_J L) (hi_env i) p (ral_AgentID r) (alr_TtlSeconds ?req) (api_storage a) = (Ret l, s1)"
    using run res(1) req by (simp add: storage_acquire_def acquire_to_proto_def assms(3))
  from chi_locks.serve_acquired [OF call this] chi_locks.serve_call [OF call, of L a] this
  show ?thesis using res l(2) by (metis prod.collapse run_call.simps(1) snd_conv fun_upd_same)
qed

text \<open>A lifetime that does not fit 32 bits. \<open>TTLSeconds\<close> is checked to be positive as a 64-bit number and then cut to
  its low 32 bits; when those are zero or negative, the server answers 200 with a lock that has already expired:
  a second agent that asks for the same resource afterwards is answered 200 as well.\<close>

lemma chi_ttl_wraps:
  assumes "lock_ok (lib_B L) (lib_J L) V items writes (api_storage a) p" and "badger_total (lib_B L)"
    and "db_lock (lib_J L) items (api_storage a) p = None" and "p \<noteq> []" "x \<noteq> []" "y \<noteq> []"
    and "V p" "V x" "V y" "V (env_uuid (hi_env i))" "V (env_uuid (hi_env j))"
    and "0 < n" and "sint (word_of_int n :: 32 word) \<le> 0" and "env_now (hi_env i) 1 \<le> env_now (hi_env j) 0"
  shows "\<exists>b a' b' a''.
    chi_serve L i (PostLock (Decoded \<lparr>ral_ResourcePath = p, ral_AgentID = x, ral_TTLSeconds = n\<rparr>)) a = (Answer 200 b, a') \<and>
    chi_serve L j (PostLock (Decoded \<lparr>ral_ResourcePath = p, ral_AgentID = y, ral_TTLSeconds = m\<rparr>)) a' = (Answer 200 b', a'')"
proof -
  let ?r = "\<lparr>ral_ResourcePath = p, ral_AgentID = x, ral_TTLSeconds = n\<rparr>"
  have ttl: "chi_ttl ?r \<le> 0"
    using assms(12,13) by (simp add: chi_ttl_def acquire_to_proto_def ttl_duration_def mult_nonpos_nonneg)
  obtain b a' l where first: "chi_serve L i (PostLock (Decoded ?r)) a = (Answer 200 b, a')"
    "lock_ok (lib_B L) (lib_J L) V items writes (api_storage a') p"
    "db_lock (lib_J L) items (api_storage a') p = Some l" "expiry l = env_now (hi_env i) 1 + chi_ttl ?r"
    using chi_post_outcome [OF assms(1,2), of ?r i] assms(3-10) by auto
  have "\<not> live (env_now (hi_env j) 0) l" using first(4) ttl assms(14) by simp
  then show ?thesis
    using chi_post_outcome [OF first(2) assms(2), of "\<lparr>ral_ResourcePath = p, ral_AgentID = y, ral_TTLSeconds = m\<rparr>" j]
      first(1,3) assms(4,6,7,9,11) by auto
qed

theorem chi_ttl_wraps_witness:
  "\<exists>b a' b' a''.
    chi_serve ref_libs (at_time 0 ''u'') (PostLock (Decoded (ask_lock ''p'' ''a'' 4294967296))) ref_api = (Answer 200 b, a') \<and>
    chi_serve ref_libs (at_time 1 ''w'') (PostLock (Decoded (ask_lock ''p'' ''b'' 5))) a' = (Answer 200 b', a'')"
proof -
  have ok: "lock_ok (lib_B ref_libs) (lib_J ref_libs) (\<lambda>_. True) ref_items (\<lambda>t. t) (api_storage ref_api) ''p''"
    using ref_storage_ok by simp
  have "(word_of_int 4294967296 :: 32 word) = 0" by simp
  then show ?thesis
    using chi_ttl_wraps [OF ok, where x = "''a''" and y = "''b''" and i = "at_time 0 ''u''" and j = "at_time 1 ''w''" and
        n = 4294967296 and m = 5] ref_badger_total by simp
qed

text \<open>Asking for a lock that has expired. The Chi server answers with the stored lock and 200 at any time; the
  Fiber server, whose answer for a missing lock has the same text, answers 404 once the lock has expired.\<close>

lemma get_lock_expired:
  assumes "lock_ok (lib_B L) (lib_J L) V items writes (api_storage a) p" and "p \<noteq> []"
    and "db_lock (lib_J L) items (api_storage a) p = Some l" and "map_of (lm_locks (api_lockManager a)) p = Some l"
    and "expiry l < env_now (hi_env i) 0"
  shows "fst (chi_serve L i (GetLockByPath p) a) = Answer 200 (Plain (LockBody l)) \<and>
    fst (fiber_serve L i (GetLockByPath p) a) = Answer 404 (ErrorBody ''Lock not found or expired'')"
proof -
  obtain r s where get: "GetLock (lib_B L) (lib_J L) (env_pick (hi_env i) 0) p (api_storage a) = (r, s)" by fastforce
  have inv: "lock_inv (lib_B L) (lib_J L) V items writes (api_storage a)" "lock_coherent (lib_J L) items (api_storage a) p"
    using assms(1) by (simp_all add: lock_ok_def)
  have "r = Ret l"
    using GetLock_effect(5) [OF inv(1) get inv(2)] assms(3) by (auto simp: found_lock_def split: outcome.splits)
  then show ?thesis
    using get assms(2,4,5) by (simp add: chi_handleGetLock_def fiber_handleGetLock_def reply_fst chi_sendJSON_def lmGetLock_def)
qed

lemma get_lock_expired_witness:
  "\<exists>l a. fst (chi_serve ref_libs (at_time Minute ''v'') (GetLockByPath ''p'') a) = Answer 200 (Plain (LockBody l)) \<and>
     fst (fiber_serve ref_libs (at_time Minute ''v'') (GetLockByPath ''p'') a) = Answer 404 (ErrorBody ''Lock not found or expired'') \<and>
     expiry l = Second"
proof -
  obtain l s where run: "storage_acquire ref_badger ref_codec (env_at 0 ''u'') ''p'' ''a'' 1 ref_storage = (Ret l, s)"
    and l: "expiry l = Second"
    using ref_storage_acquire [of "env_at 0 ''u''" "''p''" "''a''" 1] by (auto simp: ttl_duration_def)
  let ?a = "ref_api\<lparr>api_storage := s, api_lockManager := lm0\<lparr>lm_locks := [(''p'', l)]\<rparr>\<rparr>"
  have ok: "lock_ok (lib_B ref_libs) (lib_J ref_libs) (\<lambda>_. True) ref_items (\<lambda>t. t) (api_storage ?a) ''p''"
    "db_lock (lib_J ref_libs) ref_items (api_storage ?a) ''p'' = Some l"
    using storage_locks.acq_gives [OF ref_storage_ok _ _ _ run] by simp_all
  from get_lock_expired [OF ok(1) _ ok(2), of "at_time Minute ''v''"] l show ?thesis by auto
qed

section \<open>Work units over HTTP\<close>

lemma CreateWorkUnit_caches:
  assumes "badger_total B" and "\<not> ch_closed (st_events s)" and "MarshalWorkUnit J (new_work_unit E req) \<noteq> None"
  shows "\<exists>s'. CreateWorkUnit B J E req s =
      (Ret (new_work_unit E req), on_cache (SetWorkUnit (env_pick E 0) (new_work_unit E req)) s') \<and>
    active_cache s' = active_cache s"
  using assms try_send_open [of "st_events s" "new_work_unit E req"]
  by (auto simp: CreateWorkUnit_def storeWorkUnitInternal_def Let_def log_entry_def active_cache_def
      split: option.splits sum.splits send_result.splits if_splits)

lemma cached_with_room:
  assumes "active_cache s = Some c" and "int (length (c_workUnits c)) < c_workUnitSize c"
  shows "cached_wu (on_cache (SetWorkUnit pick w) s) (wu_Id w) = Some w"
  using assms length_update_le [of "wu_Id w" w "c_workUnits c"]
  by (simp add: cached_wu_def SetWorkUnit_def bounded_put_def cacheGetWorkUnit_def Let_def)

text \<open>C29. A unit created over HTTP can be read over HTTP. When the cache has room, a valid request to create a unit is
  answered with 201 and a unit that carries the request's context, agent, type and payload, and reading that
  unit's identifier is answered with 200 and the same data, by the Chi server; the Fiber server's answers hold the stored
  unit itself.\<close>

theorem unit_http_roundtrip:
  assumes "badger_total (lib_B L)" and "\<not> ch_closed (st_events (api_storage a))"
    and "MarshalWorkUnit (lib_J L) (new_work_unit (hi_env i) (create_to_proto r)) \<noteq> None"
    and "active_cache (api_storage a) = Some c" and "int (length (c_workUnits c)) < c_workUnitSize c"
    and "rcw_ContextID r \<noteq> []" "rcw_AgentID r \<noteq> []" "rcw_Type r \<in> {WorkUnitType_MESSAGE, WorkUnitType_SYSTEM}"
    and "env_uuid (hi_env i) \<noteq> []"
  shows "\<exists>d a' b'. chi_serve L i (PostWorkUnit (Decoded r)) a =
      (enveloped (response_JSON (hi_requestID i) 201 (UnitData d)), a') \<and>
     fst (chi_serve L j (GetUnit (wr_ID d)) a') = enveloped (response_JSON (hi_requestID j) 200 (UnitData d)) \<and>
     wr_ContextID d = rcw_ContextID r \<and> wr_AgentID d = rcw_AgentID r \<and> wr_Payload d = rcw_Payload r \<and>
     wr_Type d = type_name (rcw_Type r) \<and> wr_Timestamp d = format_time (env_now (hi_env i) 0) \<and>
     fst (fiber_serve L k (GetUnit (wr_ID d)) a') = Answer 200 (WorkUnitBody b') \<and>
     WorkUnitFromProto (lib_rel_fields L) b' = d"
proof -
  define w where "w = new_work_unit (hi_env i) (create_to_proto r)"
  let ?d = "WorkUnitFromProto (lib_rel_fields L) w"
  obtain s where s: "CreateWorkUnit (lib_B L) (lib_J L) (hi_env i) (create_to_proto r) (api_storage a) =
      (Ret w, on_cache (SetWorkUnit (env_pick (hi_env i) 0) w) s)" "active_cache s = Some c"
    using CreateWorkUnit_caches [OF assms(1-3)] assms(4) by (auto simp: w_def)
  define s' where "s' = on_cache (SetWorkUnit (env_pick (hi_env i) 0) w) s"
  have hit: "cached_wu s' (wu_Id w) = Some w" unfolding s'_def by (rule cached_with_room [OF s(2) assms(5)])
  have w: "wu_Id w = env_uuid (hi_env i)" by (simp add: w_def new_work_unit_def)
  have get: "GetWorkUnit (lib_B L) (lib_J L) pick (wu_Id w) s' = (Ret w, s')" for pick
    using GetWorkUnit_hit [OF hit] .
  have valid: "ParseAndValidate validate_create (Decoded r) = Inr r"
    using assms(6-8) by (auto simp: ParseAndValidate_def validate_create_def)
  have "chi_serve L i (PostWorkUnit (Decoded r)) a =
      (enveloped (response_JSON (hi_requestID i) 201 (UnitData ?d)), a\<lparr>api_storage := s'\<rparr>)"
    using s(1) valid by (simp add: chi_handleCreateWorkUnit_def on_storage_def flip: s'_def)
  moreover have "fst (chi_serve L j (GetUnit (wr_ID ?d)) (a\<lparr>api_storage := s'\<rparr>)) =
      enveloped (response_JSON (hi_requestID j) 200 (UnitData ?d))"
    "fst (fiber_serve L k (GetUnit (wr_ID ?d)) (a\<lparr>api_storage := s'\<rparr>)) = Answer 200 (WorkUnitBody w)"
    using get w assms(9) by (simp_all add: chi_handleGetWorkUnit_def fiber_handleGetWorkUnit_def on_storage_def WorkUnitFromProto_def)
  moreover have "wr_ContextID ?d = rcw_ContextID r \<and> wr_AgentID ?d = rcw_AgentID r \<and> wr_Payload ?d = rcw_Payload r \<and>
     wr_Type ?d = type_name (rcw_Type r) \<and> wr_Timestamp ?d = format_time (env_now (hi_env i) 0)"
    by (simp add: WorkUnitFromProto_def w_def new_work_unit_def create_to_proto_def format_stamp_def)
  ultimately show ?thesis by blast
qed

theorem unit_http_roundtrip_witness:
  "\<exists>d a'. chi_serve ref_libs (at_time 0 ''u'') (PostWorkUnit (Decoded \<lparr>rcw_ContextID = ''c'', rcw_AgentID = ''a'',
        rcw_Type = WorkUnitType_MESSAGE, rcw_Payload = ''hi'', rcw_Meta = None, rcw_Relationships = []\<rparr>)) ref_api =
      (enveloped (response_JSON ''r'' 201 (UnitData d)), a') \<and>
     fst (chi_serve ref_libs (at_time 1 ''v'') (GetUnit (wr_ID d)) a') = enveloped (response_JSON ''r'' 200 (UnitData d)) \<and>
     wr_Payload d = ''hi''"
proof -
  let ?r = "\<lparr>rcw_ContextID = ''c'', rcw_AgentID = ''a'', rcw_Type = WorkUnitType_MESSAGE, rcw_Payload = ''hi'',
     rcw_Meta = None, rcw_Relationships = []\<rparr>"
  have rt: "json_rt_wu ref_codec (new_work_unit (env_at 0 ''u'') (create_to_proto ?r))" by simp
  obtain c where c: "active_cache ref_storage = Some c" "c_workUnits c = []" "c_workUnitSize c = 2"
    by (simp add: ref_storage_def active_cache_def NewCache_def)
  have "\<not> ch_closed (st_events ref_storage)" by (simp add: ref_storage_def)
  then show ?thesis
    using unit_http_roundtrip [of ref_libs ref_api "at_time 0 ''u''" ?r c "at_time 1 ''v''" "at_time 1 ''v''"]
      ref_badger_total json_rt_marshal(4) [OF rt] c by auto
qed

section \<open>Listings\<close>

lemma limits_agree: "fiber_limit s = chi_limit s"
proof -
  have "Atoi ''100'' = Some 100" by (simp add: Atoi_def unsigned_part_def digits_value_def is_digit_def less_eq_char_def)
  then show ?thesis by (auto simp: fiber_limit_def chi_limit_def query_or_def split: option.split)
qed

lemma chi_limit_range: "0 < chi_limit s \<and> chi_limit s \<le> 1000"
  by (auto simp: chi_limit_def split: option.split)

lemma ListWorkUnits_returns: "0 \<le> limit \<Longrightarrow> \<exists>units cur s'. ListWorkUnits B J picks c limit cursor reverse s = (Ret (units, cur), s')"
  by (auto simp: ListWorkUnits_def Let_def split: prod.split)

text \<open>C30. The two servers list alike. For every context and all query parameters, also malformed ones, both answer 200 with
  the same units, the same cursor and the same state; the page size both use is between 1 and 1000, and it is the
  requested one when that is a number in this range.\<close>

theorem list_endpoints_agree:
  assumes "c \<noteq> []"
  shows "\<exists>units cur a' limit. fiber_serve L i (GetUnits c lim cursor dir) a = (Answer 200 (WorkUnitsBody units cur), a') \<and>
     chi_serve L i (GetUnits c lim cursor dir) a =
       (enveloped (response_WithMeta (hi_requestID i) 200 (UnitsData (map (WorkUnitFromProto (lib_rel_fields L)) units))
          \<lparr>pm_TotalCount = 0, pm_Limit = limit, pm_Offset = 0, pm_NextCursor = cur\<rparr>), a') \<and>
     0 < limit \<and> limit \<le> 1000 \<and> (\<forall>n. Atoi lim = Some n \<and> 0 < n \<and> n \<le> 1000 \<longrightarrow> limit = n) \<and>
     api_lockManager a' = api_lockManager a \<and> api_search a' = api_search a"
proof -
  have nonneg: "0 \<le> chi_limit lim" using chi_limit_range [of lim] by simp
  obtain units cur s' where run: "ListWorkUnits (lib_B L) (lib_J L) (env_pick (hi_env i)) c (chi_limit lim) cursor (dir = ''true'') (api_storage a) =
      (Ret (units, cur), s')"
    using ListWorkUnits_returns [OF nonneg] by metis
  have dir: "(query_or dir ''false'' = ''true'') = (dir = ''true'')" "query_or cursor [] = cursor"
    by (simp_all add: query_or_def)
  have "chi_limit lim = n" if "Atoi lim = Some n" "0 < n" "n \<le> 1000" for n
    using that by (auto simp: chi_limit_def Atoi_def unsigned_part_def)
  then show ?thesis
    using assms run dir chi_limit_range [of lim]
    by (intro exI [of _ units] exI [of _ cur] exI [of _ "a\<lparr>api_storage := s'\<rparr>"] exI [of _ "chi_limit lim"])
      (auto simp: fiber_handleListWorkUnits_def chi_handleListWorkUnits_def limits_agree on_storage_def Let_def)
qed

theorem list_endpoints_agree_witness:
  "\<exists>units cur a' limit. fiber_serve ref_libs (at_time 0 ''u'') (GetUnits ''c'' ''7x'' [] ''true'') ref_api =
       (Answer 200 (WorkUnitsBody units cur), a') \<and> limit \<le> (1000 :: int)"
proof -
  have "''c'' \<noteq> ([] :: bytes)" by simp
  from list_endpoints_agree [OF this, of ref_libs "at_time 0 ''u''" "''7x''" "[]" "''true''" ref_api] show ?thesis by blast
qed

text \<open>A client that follows the cursors of the Chi server until one is empty.\<close>

fun chi_follow ::
  "nat \<Rightarrow> ('db, 'txn, 'sdb, 'stxn) libs \<Rightarrow> http_input \<Rightarrow> bytes \<Rightarrow> bytes \<Rightarrow> bytes \<Rightarrow> bytes \<Rightarrow> ('db, 'sdb) Api \<Rightarrow>
   WorkUnitResponse list option" where
  "chi_follow 0 L i c lim cursor dir a = None"
| "chi_follow (Suc fuel) L i c lim cursor dir a =
     (case chi_serve L i (GetUnits c lim cursor dir) a of
        (Answer _ (Envelope r), a') \<Rightarrow>
          (case (rs_Data r, rs_Meta r) of
             (Some (UnitsData units), Some meta) \<Rightarrow>
               if pm_NextCursor meta = [] then Some units
               else map_option (\<lambda>more. units @ more) (chi_follow fuel L i c lim (pm_NextCursor meta) dir a')
           | _ \<Rightarrow> None)
      | _ \<Rightarrow> None)"

lemma chi_follow_cursor:
  assumes "c \<noteq> []"
  shows "chi_follow fuel L i c lim cursor dir a =
    map_option (map (WorkUnitFromProto (lib_rel_fields L)))
      (follow_cursor fuel (lib_B L) (lib_J L) (env_pick (hi_env i)) c (chi_limit lim) cursor (dir = ''true'') (api_storage a))"
proof (induction fuel arbitrary: cursor a)
  case (Suc fuel)
  have nonneg: "0 \<le> chi_limit lim" using chi_limit_range [of lim] by simp
  obtain units cur s' where run: "ListWorkUnits (lib_B L) (lib_J L) (env_pick (hi_env i)) c (chi_limit lim) cursor (dir = ''true'') (api_storage a) =
      (Ret (units, cur), s')"
    using ListWorkUnits_returns [OF nonneg] by metis
  then show ?case
    using Suc.IH [of cur "a\<lparr>api_storage := s'\<rparr>"] assms
    by (simp add: chi_handleListWorkUnits_def on_storage_def response_WithMeta_def Let_def option.map_comp comp_def)
qed simp

text \<open>Following the cursors over HTTP returns every unit of the context once, in the order of the index.\<close>

lemma http_pages_complete:
  assumes "badger_ok (lib_B L) items writes" and "c \<noteq> []" and "dir = ''true'' \<longrightarrow> index_bounded items (api_storage a) c"
    and "I = context_index items (api_storage a) c (dir = ''true'')"
    and "\<forall>(k, v) \<in> set I. cached_wu (api_storage a) v \<noteq> None"
  shows "chi_follow (Suc (length I)) L i c lim [] dir a =
     Some (map (\<lambda>(k, v). WorkUnitFromProto (lib_rel_fields L) (the (cached_wu (api_storage a) v))) I)"
  using follow_cursor_from [OF assms(1) conjunct1 [OF chi_limit_range [of lim]] assms(4,3,5), of 0 "[]"]
    chi_follow_cursor [OF assms(2), of "Suc (length I)" L i lim "[]" dir a]
  by (simp add: index_cursor_def comp_def split_def del: follow_cursor.simps chi_follow.simps)

section \<open>Searches\<close>

lemma search_limit_offset [simp]: "rsr_Offset (search_limit r) = rsr_Offset r"
  by (simp add: search_limit_def)

lemma search_limit_range: "0 < rsr_Limit (search_limit r)" "rsr_Limit (search_limit r) \<le> 1000"
  by (auto simp: search_limit_def)

lemma search_query_simps [simp]:
  "sq_offset (search_query r) = rsr_Offset r" "sq_limit (search_query r) = rsr_Limit r"
  by (simp_all add: search_query_def)

lemma search_endpoint_page:
  assumes "badger_ok (lib_SB L) items writes" and "index_rep (lib_lower L) no_rels items (se_db (api_search a)) D"
    and "docs_ok no_rels D" and "order_ok (hi_order i)" and "se_open (api_search a)"
    and "q = search_query (search_limit r)" and "\<not> special_system q" and "\<not> special_vegetable q"
    and "no_other_filter q \<Longrightarrow> length (sq_metaFilters q) \<noteq> 1"
    and "0 \<le> rsr_Offset r" and "rsr_Offset r < 2 ^ 62"
  shows "\<exists>ids limit. (let body = SearchBody (take (nat limit) (drop (nat (rsr_Offset r)) ids)) (length ids) limit (rsr_Offset r)
      in fiber_serve L i (PostSearch (Decoded r)) a = (Answer 200 body, a) \<and>
         chi_serve L i (PostSearch (Decoded r)) a = (Answer 200 (Plain body), a)) \<and>
     set ids = ids_where D (query_match (lib_lower L) D q) \<and> distinct ids \<and> sorted_wrt (newer D) ids \<and>
     1 \<le> limit \<and> limit \<le> 1000"
proof -
  have lim: "page_limit q = rsr_Limit (search_limit r)" using assms(6) search_limit_range(1) [of r] by (simp add: page_limit_def)
  have off: "0 \<le> sq_offset q" "sq_offset q + page_limit q < 2 ^ 63"
    using assms(6,10,11) lim search_limit_range(2) [of r] by simp_all
  obtain ids where ids: "SearchSearch (lib_SB L) (lib_lower L) (hi_order i) q (se_db (api_search a)) =
       Ret (take (nat (page_limit q)) (drop (nat (sq_offset q)) ids), length ids)"
     "set ids = ids_where D (query_match (lib_lower L) D q)" "distinct ids" "sorted_wrt (newer D) ids"
    using search_page [OF assms(1-4,7-9) off] by blast
  then show ?thesis
    using assms(5,6) lim search_limit_range [of r]
    by (intro exI [of _ ids] exI [of _ "rsr_Limit (search_limit r)"])
      (simp add: fiber_handleSearch_def chi_handleSearch_def run_search_def chi_sendJSON_def Let_def)
qed


definition ask_search :: RestSearch where
  "ask_search = \<lparr>rsr_Query = [], rsr_ContextID = ''c1'', rsr_AgentIDs = [], rsr_Types = [''OTHER''], rsr_MetaFilters = [],
     rsr_Limit = 5000, rsr_Offset = 0\<rparr>"

lemma ask_search_query: "search_query (search_limit ask_search) = (ex_query ''c1'' [])\<lparr>sq_limit := 100\<rparr>"
  by (simp add: ask_search_def search_query_def search_limit_def ex_query_def)

lemma ref_search_facts:
  "badger_ok (lib_SB ref_libs) ref_items (\<lambda>t. t)"
  "index_rep (lib_lower ref_libs) no_rels ref_items (se_db (api_search ref_api)) ex_docs" "docs_ok no_rels ex_docs"
  "order_ok (hi_order (at_time t u))" "se_open (api_search ref_api)"
  using ref_badger_ok ex_index_rep ex_docs_ok ex_order_ok by (simp_all add: NewSearch_def)

lemma ask_search_facts:
  "\<not> special_system (search_query (search_limit ask_search))" "\<not> special_vegetable (search_query (search_limit ask_search))"
  "no_other_filter (search_query (search_limit ask_search)) \<Longrightarrow> length (sq_metaFilters (search_query (search_limit ask_search))) \<noteq> 1"
  "ids_where ex_docs (query_match (lib_lower ref_libs) ex_docs (search_query (search_limit ask_search))) = {''u1''}"
  "0 \<le> rsr_Offset ask_search" "rsr_Offset ask_search < 2 ^ 62" "rsr_Offset ask_search = 0"
  by (simp_all add: ask_search_query ex_query_def special_system_def special_vegetable_def no_other_filter_def
      ids_where_insert ex_docs_eq query_match_def ex_unit_def) (simp_all add: ask_search_def)


lemma search_steps_offset [simp]:
  "no_other_filter (q\<lparr>sq_offset := x\<rparr>) = no_other_filter q"
  "special_system (q\<lparr>sq_offset := x\<rparr>) = special_system q" "special_vegetable (q\<lparr>sq_offset := x\<rparr>) = special_vegetable q"
  "text_step B lower M db (q\<lparr>sq_offset := x\<rparr>) = text_step B lower M db q"
  "context_step B db (q\<lparr>sq_offset := x\<rparr>) = context_step B db q" "agents_step B db (q\<lparr>sq_offset := x\<rparr>) = agents_step B db q"
  "types_step B db (q\<lparr>sq_offset := x\<rparr>) = types_step B db q"
  by (auto simp: no_other_filter_def special_system_def special_vegetable_def text_step_def context_step_def
      agents_step_def types_step_def fun_eq_iff)

lemma meta_step_offset [simp]: "meta_step B db (q\<lparr>sq_offset := x\<rparr>) = meta_step B db q"
  by (auto simp: meta_step_def fun_eq_iff split: list.split)

lemma search_offset_panics:
  assumes "SearchSearch B lower M (q\<lparr>sq_offset := 0\<rparr>) db = Ret (ids, n)" and "ids \<noteq> []" and "0 < sq_limit q" "sq_limit q \<le> 1000"
    and "- (2 ^ 62) < k" and "k < 0"
  shows "SearchSearch B lower M (q\<lparr>sq_offset := k\<rparr>) db = Panic"
proof -
  obtain res meta where c: "collect_results B lower M db q = (res, meta)" by fastforce
  have same: "collect_results B lower M db (q\<lparr>sq_offset := x\<rparr>) = (res, meta)" "no_other_filter (q\<lparr>sq_offset := x\<rparr>) = no_other_filter q" for x
    using c by (auto simp: collect_results_def collect_steps_def)
  define all where "all = (if meta = [] \<and> no_other_filter q then all_ids B db else [])"
  define results where "results = (if res = [] then all else res)"
  have run: "SearchSearch B lower M (q\<lparr>sq_offset := x\<rparr>) db =
      map_ret (\<lambda>ids. (ids, if all = [] then length res else length all)) (sorted_page B M db (q\<lparr>sq_offset := x\<rparr>) results)" for x
    using same [of x] by (simp add: SearchSearch_def all_def results_def Let_def)
  let ?xs = "ids_by_timestamp B M db results"
  have pl: "page_limit (q\<lparr>sq_offset := x\<rparr>) = sq_limit q" for x using assms(3) by (simp add: page_limit_def)
  have ne: "results \<noteq> []" using assms(1,2) run [of 0] by (auto simp: sorted_page_def)
  have "?xs \<noteq> []"
    using assms(1,2) run [of 0] ne pl by (auto simp: sorted_page_def page_def Let_def)
  moreover have "int64_add k (sq_limit q) = k + sq_limit q"
  proof -
    have "signed_take_bit 63 (k + sq_limit q) = k + sq_limit q" using assms(3-6) by (intro signed_take_bit_int_eq_self) auto
    then show ?thesis by (simp add: int64_add_def signed_of_int del: of_int_add)
  qed
  ultimately have "page k (sq_limit q) ?xs = (Panic :: (unit, (bytes \<times> int) list) outcome)"
    using assms(3,6) by (simp add: page_def Let_def)
  then show ?thesis using run [of k] ne pl by (simp add: sorted_page_def)
qed

text \<open>A negative offset. Neither server checks it (only the unused \<open>SearchRequest.Validate\<close> does): a request that has results
  at offset 0 makes the handler panic at a negative offset.\<close>

lemma search_negative_offset:
  assumes "fiber_serve L i (PostSearch (Decoded (r\<lparr>rsr_Offset := 0\<rparr>))) a = (Answer 200 (SearchBody ids n lim 0), a)"
    and "ids \<noteq> []" and "- (2 ^ 62) < k" and "k < 0"
  shows "fst (fiber_serve L i (PostSearch (Decoded (r\<lparr>rsr_Offset := k\<rparr>))) a) = Crashed \<and>
    fst (chi_serve L i (PostSearch (Decoded (r\<lparr>rsr_Offset := k\<rparr>))) a) = Crashed"
proof -
  let ?q = "search_query (search_limit r)"
  have lim: "search_limit (r\<lparr>rsr_Offset := x\<rparr>) = (search_limit r)\<lparr>rsr_Offset := x\<rparr>"
    "search_query ((search_limit r)\<lparr>rsr_Offset := x\<rparr>) = ?q\<lparr>sq_offset := x\<rparr>" for x
    by (simp_all add: search_limit_def search_query_def)
  have opened: "se_open (api_search a)"
    using assms(1) by (auto simp: fiber_handleSearch_def run_search_def Let_def split: if_splits)
  have "fst (reply (\<lambda>(results, totalCount). Answer 200 (SearchBody results totalCount (rsr_Limit (search_limit r)) 0))
      (\<lambda>_. Answer 500 (ErrorBody ''Search failed''))
      (SearchSearch (lib_SB L) (lib_lower L) (hi_order i) (?q\<lparr>sq_offset := 0\<rparr>) (se_db (api_search a)), a)) =
    Answer 200 (SearchBody ids n lim 0)"
    using assms(1) opened lim [of 0] by (simp add: fiber_handleSearch_def run_search_def Let_def)
  then have "SearchSearch (lib_SB L) (lib_lower L) (hi_order i) (?q\<lparr>sq_offset := 0\<rparr>) (se_db (api_search a)) = Ret (ids, n)"
    by (auto simp: reply_fst split: outcome.splits)
  from search_offset_panics [OF this assms(2) _ _ assms(3,4)] opened lim [of k] search_limit_range [of r]
  show ?thesis by (simp add: fiber_handleSearch_def chi_handleSearch_def run_search_def Let_def)
qed

lemma search_negative_offset_witness:
  "fst (fiber_serve ref_libs (at_time 0 ''u'') (PostSearch (Decoded (ask_search\<lparr>rsr_Offset := - 1\<rparr>))) ref_api) = Crashed"
proof -
  have "\<exists>ids limit. set ids = {''u1''} \<and> 1 \<le> limit \<and>
     fiber_serve ref_libs (at_time 0 ''u'') (PostSearch (Decoded ask_search)) ref_api =
     (Answer 200 (SearchBody (take (nat limit) ids) (length ids) limit 0), ref_api)"
    using search_endpoint_page [OF ref_search_facts refl ask_search_facts(1-3,5,6), unfolded Let_def ask_search_facts(4,7) nat_0 drop0]
    by blast
  then obtain ids limit where ids: "set ids = {''u1''}" "1 \<le> limit"
    and run: "fiber_serve ref_libs (at_time 0 ''u'') (PostSearch (Decoded ask_search)) ref_api =
     (Answer 200 (SearchBody (take (nat limit) ids) (length ids) limit 0), ref_api)" by (elim exE conjE) (rule that)
  have "ids \<noteq> []" using ids(1) by force
  then have ne: "take (nat limit) ids \<noteq> []" using ids(2) by simp
  have zero: "ask_search\<lparr>rsr_Offset := 0\<rparr> = ask_search" by (simp add: ask_search_def)
  have range: "- (2 ^ 62) < (- 1 :: int)" "(- 1 :: int) < 0" by simp_all
  have run': "fiber_serve ref_libs (at_time 0 ''u'') (PostSearch (Decoded (ask_search\<lparr>rsr_Offset := 0\<rparr>))) ref_api =
     (Answer 200 (SearchBody (take (nat limit) ids) (length ids) limit 0), ref_api)" unfolding zero by (rule run)
  show ?thesis by (rule conjunct1 [OF search_negative_offset [OF run' ne range]])
qed

end
