(* ===== verification/Storage_TwoQueue.thy ===== *)
theory Storage_TwoQueue
  imports Proto_Types
begin

text \<open>
  The time-limited cache of \<open>internal/storage/cache.go\<close>: three two-queue caches of
  \<open>github.com/hashicorp/golang-lru\<close> whose items carry an expiration time. The two-queue cache is not part of the
  repository: it is the parameter \<open>R\<close>, and \<open>lru_ok\<close> is what its documentation promises. The values are stored
  as \<open>interface{}\<close> and recovered by type assertions, which panic when the type is another one.
\<close>

section \<open>The two-queue cache\<close>

datatype cache_value = CUnit WorkUnit | CContext Context | CLock LockHandle

record cacheItem =
  ci_value :: cache_value
  ci_expiration :: gotime

record 'q two_queue =
  New2Q :: "int \<Rightarrow> 'q option"
  q_Get :: "bytes \<Rightarrow> 'q \<Rightarrow> cacheItem option \<times> 'q"
  q_Add :: "bytes \<Rightarrow> cacheItem \<Rightarrow> 'q \<Rightarrow> 'q"
  q_Remove :: "bytes \<Rightarrow> 'q \<Rightarrow> 'q"
  q_Purge :: "'q \<Rightarrow> 'q"

text \<open>\<open>content q k\<close> is what the cache holds under \<open>k\<close>. A lookup does not change the content; an insertion makes its entry
  the content of its key and may evict any others; a size that is not positive is an error.\<close>

definition lru_ok :: "'q two_queue \<Rightarrow> ('q \<Rightarrow> bytes \<Rightarrow> cacheItem option) \<Rightarrow> bool" where
  "lru_ok R content \<longleftrightarrow>
     (\<forall>n q. New2Q R n = Some q \<longrightarrow> content q = (\<lambda>_. None)) \<and> (\<forall>n. New2Q R n = None \<longleftrightarrow> n \<le> 0) \<and>
     (\<forall>k q. fst (q_Get R k q) = content q k \<and> content (snd (q_Get R k q)) = content q) \<and>
     (\<forall>k v q. content (q_Add R k v q) k = Some v \<and>
        (\<forall>j. j \<noteq> k \<longrightarrow> content (q_Add R k v q) j = None \<or> content (q_Add R k v q) j = content q j)) \<and>
     (\<forall>k q. content (q_Remove R k q) = (content q)(k := None)) \<and>
     (\<forall>q. content (q_Purge R q) = (\<lambda>_. None))"

section \<open>The operations\<close>

record 'q TqCache =
  tq_workUnits :: 'q
  tq_contexts :: 'q
  tq_locks :: 'q
  tq_expiration :: duration

definition NewTqCache :: "'q two_queue \<Rightarrow> int \<Rightarrow> int \<Rightarrow> int \<Rightarrow> duration \<Rightarrow> 'q TqCache option" where
  "NewTqCache R workUnitCapacity contextCapacity lockCapacity expiration =
     (case New2Q R workUnitCapacity of
        None \<Rightarrow> None
      | Some workUnitsCache \<Rightarrow>
          (case New2Q R contextCapacity of
             None \<Rightarrow> None
           | Some contextsCache \<Rightarrow>
               (case New2Q R lockCapacity of
                  None \<Rightarrow> None
                | Some locksCache \<Rightarrow>
                    Some \<lparr>tq_workUnits = workUnitsCache, tq_contexts = contextsCache, tq_locks = locksCache,
                      tq_expiration = expiration\<rparr>)))"

definition tqGetWorkUnit ::
  "'q two_queue \<Rightarrow> gotime \<Rightarrow> bytes \<Rightarrow> 'q TqCache \<Rightarrow> (unit, WorkUnit option) outcome \<times> 'q TqCache" where
  "tqGetWorkUnit R now ident c =
     (case q_Get R ident (tq_workUnits c) of
        (None, q) \<Rightarrow> (Ret None, c\<lparr>tq_workUnits := q\<rparr>)
      | (Some item, q) \<Rightarrow>
          if After now (ci_expiration item) then (Ret None, c\<lparr>tq_workUnits := q_Remove R ident q\<rparr>)
          else (case ci_value item of CUnit w \<Rightarrow> Ret (Some w) | _ \<Rightarrow> Panic, c\<lparr>tq_workUnits := q\<rparr>))"

definition tqSetWorkUnit :: "'q two_queue \<Rightarrow> gotime \<Rightarrow> WorkUnit \<Rightarrow> 'q TqCache \<Rightarrow> 'q TqCache" where
  "tqSetWorkUnit R now w c =
     c\<lparr>tq_workUnits :=
       q_Add R (wu_Id w) \<lparr>ci_value = CUnit w, ci_expiration = now + tq_expiration c\<rparr> (tq_workUnits c)\<rparr>"

definition tqGetContext ::
  "'q two_queue \<Rightarrow> gotime \<Rightarrow> bytes \<Rightarrow> 'q TqCache \<Rightarrow> (unit, Context option) outcome \<times> 'q TqCache" where
  "tqGetContext R now ident c =
     (case q_Get R ident (tq_contexts c) of
        (None, q) \<Rightarrow> (Ret None, c\<lparr>tq_contexts := q\<rparr>)
      | (Some item, q) \<Rightarrow>
          if After now (ci_expiration item) then (Ret None, c\<lparr>tq_contexts := q_Remove R ident q\<rparr>)
          else (case ci_value item of CContext x \<Rightarrow> Ret (Some x) | _ \<Rightarrow> Panic, c\<lparr>tq_contexts := q\<rparr>))"

definition tqSetContext :: "'q two_queue \<Rightarrow> gotime \<Rightarrow> Context \<Rightarrow> 'q TqCache \<Rightarrow> 'q TqCache" where
  "tqSetContext R now x c =
     c\<lparr>tq_contexts :=
       q_Add R (ctx_Id x) \<lparr>ci_value = CContext x, ci_expiration = now + tq_expiration c\<rparr> (tq_contexts c)\<rparr>"

text \<open>A lookup of a lock reads the clock twice.\<close>

definition tqGetLock ::
  "'q two_queue \<Rightarrow> gotime \<Rightarrow> gotime \<Rightarrow> bytes \<Rightarrow> 'q TqCache \<Rightarrow> (unit, LockHandle option) outcome \<times> 'q TqCache" where
  "tqGetLock R now now' resourcePath c =
     (case q_Get R resourcePath (tq_locks c) of
        (None, q) \<Rightarrow> (Ret None, c\<lparr>tq_locks := q\<rparr>)
      | (Some item, q) \<Rightarrow>
          if After now (ci_expiration item) then (Ret None, c\<lparr>tq_locks := q_Remove R resourcePath q\<rparr>)
          else (case ci_value item of
                  CLock lock \<Rightarrow>
                    if Before (expiry lock) now' then (Ret None, c\<lparr>tq_locks := q_Remove R resourcePath q\<rparr>)
                    else (Ret (Some lock), c\<lparr>tq_locks := q\<rparr>)
                | _ \<Rightarrow> (Panic, c\<lparr>tq_locks := q\<rparr>)))"

definition lock_expiration :: "gotime \<Rightarrow> duration \<Rightarrow> LockHandle \<Rightarrow> gotime" where
  "lock_expiration now expiration lock =
     (let t = now + expiration in if Before (expiry lock) t then expiry lock else t)"

definition tqSetLock :: "'q two_queue \<Rightarrow> gotime \<Rightarrow> LockHandle \<Rightarrow> 'q TqCache \<Rightarrow> 'q TqCache" where
  "tqSetLock R now lock c =
     c\<lparr>tq_locks :=
       q_Add R (lk_ResourcePath lock)
         \<lparr>ci_value = CLock lock, ci_expiration = lock_expiration now (tq_expiration c) lock\<rparr> (tq_locks c)\<rparr>"

definition tqInvalidateWorkUnit :: "'q two_queue \<Rightarrow> bytes \<Rightarrow> 'q TqCache \<Rightarrow> 'q TqCache" where
  "tqInvalidateWorkUnit R ident c = c\<lparr>tq_workUnits := q_Remove R ident (tq_workUnits c)\<rparr>"

definition tqInvalidateContext :: "'q two_queue \<Rightarrow> bytes \<Rightarrow> 'q TqCache \<Rightarrow> 'q TqCache" where
  "tqInvalidateContext R ident c = c\<lparr>tq_contexts := q_Remove R ident (tq_contexts c)\<rparr>"

definition tqInvalidateLock :: "'q two_queue \<Rightarrow> bytes \<Rightarrow> 'q TqCache \<Rightarrow> 'q TqCache" where
  "tqInvalidateLock R resourcePath c = c\<lparr>tq_locks := q_Remove R resourcePath (tq_locks c)\<rparr>"

definition tqClear :: "'q two_queue \<Rightarrow> 'q TqCache \<Rightarrow> 'q TqCache" where
  "tqClear R c = c\<lparr>tq_workUnits := q_Purge R (tq_workUnits c), tq_contexts := q_Purge R (tq_contexts c),
     tq_locks := q_Purge R (tq_locks c)\<rparr>"

section \<open>Histories\<close>

datatype tq_op =
    TqGetUnit gotime bytes | TqSetUnit gotime WorkUnit | TqDropUnit bytes
  | TqGetContext gotime bytes | TqSetContext gotime Context | TqDropContext bytes
  | TqGetLock gotime gotime bytes | TqSetLock gotime LockHandle | TqDropLock bytes
  | TqClear

fun tq_apply :: "'q two_queue \<Rightarrow> tq_op \<Rightarrow> 'q TqCache \<Rightarrow> 'q TqCache" where
  "tq_apply R (TqGetUnit t i) c = snd (tqGetWorkUnit R t i c)"
| "tq_apply R (TqSetUnit t w) c = tqSetWorkUnit R t w c"
| "tq_apply R (TqDropUnit i) c = tqInvalidateWorkUnit R i c"
| "tq_apply R (TqGetContext t i) c = snd (tqGetContext R t i c)"
| "tq_apply R (TqSetContext t x) c = tqSetContext R t x c"
| "tq_apply R (TqDropContext i) c = tqInvalidateContext R i c"
| "tq_apply R (TqGetLock t t' p) c = snd (tqGetLock R t t' p c)"
| "tq_apply R (TqSetLock t l) c = tqSetLock R t l c"
| "tq_apply R (TqDropLock p) c = tqInvalidateLock R p c"
| "tq_apply R TqClear c = tqClear R c"

text \<open>The specification: the last value that was put under a key and not dropped since, with the instant it was put.\<close>

fun last_unit :: "tq_op \<Rightarrow> (bytes \<rightharpoonup> WorkUnit \<times> gotime) \<Rightarrow> (bytes \<rightharpoonup> WorkUnit \<times> gotime)" where
  "last_unit (TqSetUnit t w) m = m(wu_Id w \<mapsto> (w, t))"
| "last_unit (TqDropUnit i) m = m(i := None)"
| "last_unit TqClear m = Map.empty"
| "last_unit _ m = m"

fun last_context :: "tq_op \<Rightarrow> (bytes \<rightharpoonup> Context \<times> gotime) \<Rightarrow> (bytes \<rightharpoonup> Context \<times> gotime)" where
  "last_context (TqSetContext t x) m = m(ctx_Id x \<mapsto> (x, t))"
| "last_context (TqDropContext i) m = m(i := None)"
| "last_context TqClear m = Map.empty"
| "last_context _ m = m"

fun last_lock :: "tq_op \<Rightarrow> (bytes \<rightharpoonup> LockHandle \<times> gotime) \<Rightarrow> (bytes \<rightharpoonup> LockHandle \<times> gotime)" where
  "last_lock (TqSetLock t l) m = m(lk_ResourcePath l \<mapsto> (l, t))"
| "last_lock (TqDropLock p) m = m(p := None)"
| "last_lock TqClear m = Map.empty"
| "last_lock _ m = m"

text \<open>Every item of a queue was put there with the right type and expiration, and nothing else was put under its key since.\<close>

definition from_last :: "(bytes \<rightharpoonup> cacheItem) \<Rightarrow> (bytes \<rightharpoonup> 'v \<times> gotime) \<Rightarrow> ('v \<Rightarrow> gotime \<Rightarrow> cacheItem) \<Rightarrow> bool" where
  "from_last items prev mk \<longleftrightarrow> (\<forall>k item. items k = Some item \<longrightarrow> (\<exists>v t. prev k = Some (v, t) \<and> item = mk v t))"

lemma from_lastD: "from_last items prev mk \<Longrightarrow> items k = Some item \<Longrightarrow> \<exists>v t. prev k = Some (v, t) \<and> item = mk v t"
  by (simp add: from_last_def)

lemma from_last_drop:
  "from_last items prev mk \<Longrightarrow> from_last (items(k := None)) prev mk"
  "from_last items prev mk \<Longrightarrow> from_last (items(k := None)) (prev(k := None)) mk"
  "from_last (\<lambda>_. None) prev mk"
  by (simp_all add: from_last_def)

lemma from_last_add:
  assumes "from_last items prev mk" and "items' k = Some (mk v t)" and "\<And>j. j \<noteq> k \<Longrightarrow> items' j = None \<or> items' j = items j"
  shows "from_last items' (prev(k \<mapsto> (v, t))) mk"
  unfolding from_last_def
proof (intro allI impI)
  fix j item
  assume item: "items' j = Some item"
  show "\<exists>v' t'. (prev(k \<mapsto> (v, t))) j = Some (v', t') \<and> item = mk v' t'"
  proof (cases "j = k")
    case False
    then have "items j = Some item" using assms(3) [of j] item by auto
    then show ?thesis using from_lastD [OF assms(1)] False by simp
  qed (use assms(2) item in simp)
qed

definition tq_inv ::
  "('q \<Rightarrow> bytes \<Rightarrow> cacheItem option) \<Rightarrow> duration \<Rightarrow> (bytes \<rightharpoonup> WorkUnit \<times> gotime) \<Rightarrow> (bytes \<rightharpoonup> Context \<times> gotime) \<Rightarrow>
   (bytes \<rightharpoonup> LockHandle \<times> gotime) \<Rightarrow> 'q TqCache \<Rightarrow> bool" where
  "tq_inv content d us xs ls c \<longleftrightarrow> tq_expiration c = d \<and>
     from_last (content (tq_workUnits c)) us (\<lambda>w t. \<lparr>ci_value = CUnit w, ci_expiration = t + d\<rparr>) \<and>
     from_last (content (tq_contexts c)) xs (\<lambda>x t. \<lparr>ci_value = CContext x, ci_expiration = t + d\<rparr>) \<and>
     from_last (content (tq_locks c)) ls (\<lambda>l t. \<lparr>ci_value = CLock l, ci_expiration = lock_expiration t d l\<rparr>)"

lemma lru_laws:
  assumes "lru_ok R content"
  shows "fst (q_Get R k q) = content q k" "content (snd (q_Get R k q)) = content q"
    "content (q_Add R k v q) k = Some v" "j \<noteq> k \<Longrightarrow> content (q_Add R k v q) j = None \<or> content (q_Add R k v q) j = content q j"
    "content (q_Remove R k q) = (content q)(k := None)" "content (q_Purge R q) = (\<lambda>_. None)"
  using assms by (simp_all add: lru_ok_def)

lemma q_Get_cases:
  assumes "lru_ok R content"
  obtains q' where "q_Get R k q = (content q k, q')" "content q' = content q"
  using lru_laws(1,2) [OF assms, of k q] by (metis prod.collapse)

lemma tq_inv_new:
  "lru_ok R content \<Longrightarrow> NewTqCache R n m l d = Some c \<Longrightarrow> tq_inv content d Map.empty Map.empty Map.empty c"
  by (auto simp: NewTqCache_def lru_ok_def tq_inv_def from_last_def split: option.splits)

lemma tq_inv_gets:
  assumes R: "lru_ok R content" and inv: "tq_inv content d us xs ls c"
  shows "tq_inv content d us xs ls (snd (tqGetWorkUnit R t i c))" "tq_inv content d us xs ls (snd (tqGetContext R t i c))"
    "tq_inv content d us xs ls (snd (tqGetLock R t t' i c))"
proof -
  obtain q1 q2 q3 where q: "q_Get R i (tq_workUnits c) = (content (tq_workUnits c) i, q1)" "content q1 = content (tq_workUnits c)"
    "q_Get R i (tq_contexts c) = (content (tq_contexts c) i, q2)" "content q2 = content (tq_contexts c)"
    "q_Get R i (tq_locks c) = (content (tq_locks c) i, q3)" "content q3 = content (tq_locks c)"
    using q_Get_cases [OF R] by metis
  note drop = lru_laws(5) [OF R] from_last_drop(1)
  show "tq_inv content d us xs ls (snd (tqGetWorkUnit R t i c))"
    using inv q(1,2) by (auto simp: tqGetWorkUnit_def tq_inv_def drop split: option.splits)
  show "tq_inv content d us xs ls (snd (tqGetContext R t i c))"
    using inv q(3,4) by (auto simp: tqGetContext_def tq_inv_def drop split: option.splits)
  show "tq_inv content d us xs ls (snd (tqGetLock R t t' i c))"
    using inv q(5,6) by (auto simp: tqGetLock_def tq_inv_def drop split: option.splits cache_value.splits)
qed

lemma tq_inv_apply:
  assumes R: "lru_ok R content" and inv: "tq_inv content d us xs ls c"
  shows "tq_inv content d (last_unit op us) (last_context op xs) (last_lock op ls) (tq_apply R op c)"
proof -
  have d: "tq_expiration c = d" using inv by (simp add: tq_inv_def)
  note laws = lru_laws [OF R]
  show ?thesis
  proof (cases op)
    case (TqSetUnit t w)
    have "from_last (content (q_Add R (wu_Id w) \<lparr>ci_value = CUnit w, ci_expiration = t + d\<rparr> (tq_workUnits c)))
        (us(wu_Id w \<mapsto> (w, t))) (\<lambda>w t. \<lparr>ci_value = CUnit w, ci_expiration = t + d\<rparr>)"
      by (rule from_last_add [where items = "content (tq_workUnits c)"]) (use inv laws(3,4) in \<open>auto simp: tq_inv_def\<close>)
    then show ?thesis using inv d TqSetUnit by (simp add: tq_inv_def tqSetWorkUnit_def)
  next
    case (TqSetContext t x)
    have "from_last (content (q_Add R (ctx_Id x) \<lparr>ci_value = CContext x, ci_expiration = t + d\<rparr> (tq_contexts c)))
        (xs(ctx_Id x \<mapsto> (x, t))) (\<lambda>x t. \<lparr>ci_value = CContext x, ci_expiration = t + d\<rparr>)"
      by (rule from_last_add [where items = "content (tq_contexts c)"]) (use inv laws(3,4) in \<open>auto simp: tq_inv_def\<close>)
    then show ?thesis using inv d TqSetContext by (simp add: tq_inv_def tqSetContext_def)
  next
    case (TqSetLock t l)
    have "from_last (content (q_Add R (lk_ResourcePath l) \<lparr>ci_value = CLock l, ci_expiration = lock_expiration t d l\<rparr> (tq_locks c)))
        (ls(lk_ResourcePath l \<mapsto> (l, t))) (\<lambda>l t. \<lparr>ci_value = CLock l, ci_expiration = lock_expiration t d l\<rparr>)"
      by (rule from_last_add [where items = "content (tq_locks c)"]) (use inv laws(3,4) in \<open>auto simp: tq_inv_def\<close>)
    then show ?thesis using inv d TqSetLock by (simp add: tq_inv_def tqSetLock_def)
  qed (use inv tq_inv_gets [OF R inv] in \<open>auto simp: tq_inv_def tqInvalidateWorkUnit_def tqInvalidateContext_def
      tqInvalidateLock_def tqClear_def laws(5,6) from_last_drop\<close>)
qed

lemma tq_inv_run:
  assumes "lru_ok R content" and "tq_inv content d us xs ls c"
  shows "tq_inv content d (fold last_unit ops us) (fold last_context ops xs) (fold last_lock ops ls) (fold (tq_apply R) ops c)"
  using assms(2) by (induction ops arbitrary: us xs ls c) (simp_all add: tq_inv_apply [OF assms(1)])

section \<open>What a lookup returns\<close>

lemma tq_lookups:
  assumes R: "lru_ok R content" and inv: "tq_inv content d us xs ls c"
  shows "\<exists>r. fst (tqGetWorkUnit R t i c) = Ret r \<and> (\<forall>w. r = Some w \<longrightarrow> (\<exists>t0. us i = Some (w, t0) \<and> t \<le> t0 + d))"
    and "\<exists>r. fst (tqGetContext R t i c) = Ret r \<and> (\<forall>x. r = Some x \<longrightarrow> (\<exists>t0. xs i = Some (x, t0) \<and> t \<le> t0 + d))"
    and "\<exists>r. fst (tqGetLock R t t' i c) = Ret r \<and>
      (\<forall>l. r = Some l \<longrightarrow> (\<exists>t0. ls i = Some (l, t0) \<and> t \<le> t0 + d) \<and> t \<le> expiry l \<and> t' \<le> expiry l)"
proof -
  obtain q1 q2 q3 where q: "q_Get R i (tq_workUnits c) = (content (tq_workUnits c) i, q1)"
    "q_Get R i (tq_contexts c) = (content (tq_contexts c) i, q2)" "q_Get R i (tq_locks c) = (content (tq_locks c) i, q3)"
    using q_Get_cases [OF R] by metis
  show "\<exists>r. fst (tqGetWorkUnit R t i c) = Ret r \<and> (\<forall>w. r = Some w \<longrightarrow> (\<exists>t0. us i = Some (w, t0) \<and> t \<le> t0 + d))"
    using q(1) inv from_lastD [of "content (tq_workUnits c)" us _ i]
    by (cases "content (tq_workUnits c) i") (fastforce simp: tqGetWorkUnit_def tq_inv_def)+
  show "\<exists>r. fst (tqGetContext R t i c) = Ret r \<and> (\<forall>x. r = Some x \<longrightarrow> (\<exists>t0. xs i = Some (x, t0) \<and> t \<le> t0 + d))"
    using q(2) inv from_lastD [of "content (tq_contexts c)" xs _ i]
    by (cases "content (tq_contexts c) i") (fastforce simp: tqGetContext_def tq_inv_def)+
  show "\<exists>r. fst (tqGetLock R t t' i c) = Ret r \<and>
      (\<forall>l. r = Some l \<longrightarrow> (\<exists>t0. ls i = Some (l, t0) \<and> t \<le> t0 + d) \<and> t \<le> expiry l \<and> t' \<le> expiry l)"
    using q(3) inv from_lastD [of "content (tq_locks c)" ls _ i]
    by (cases "content (tq_locks c) i")
      (fastforce simp: tqGetLock_def tq_inv_def lock_expiration_def Let_def split: if_splits)+
qed

lemma tq_hits:
  assumes R: "lru_ok R content"
  shows "t \<le> t0 + tq_expiration c \<Longrightarrow> fst (tqGetWorkUnit R t (wu_Id w) (tqSetWorkUnit R t0 w c)) = Ret (Some w)"
    and "t \<le> t0 + tq_expiration c \<Longrightarrow> t \<le> expiry l \<Longrightarrow> t' \<le> expiry l \<Longrightarrow>
      fst (tqGetLock R t t' (lk_ResourcePath l) (tqSetLock R t0 l c)) = Ret (Some l)"
proof -
  let ?u = "\<lparr>ci_value = CUnit w, ci_expiration = t0 + tq_expiration c\<rparr>"
    and ?l = "\<lparr>ci_value = CLock l, ci_expiration = lock_expiration t0 (tq_expiration c) l\<rparr>"
  obtain q1 q2 where q: "q_Get R (wu_Id w) (q_Add R (wu_Id w) ?u (tq_workUnits c)) = (Some ?u, q1)"
    "q_Get R (lk_ResourcePath l) (q_Add R (lk_ResourcePath l) ?l (tq_locks c)) = (Some ?l, q2)"
    using q_Get_cases [OF R] lru_laws(3) [OF R] by metis
  then show "t \<le> t0 + tq_expiration c \<Longrightarrow> fst (tqGetWorkUnit R t (wu_Id w) (tqSetWorkUnit R t0 w c)) = Ret (Some w)"
    and "t \<le> t0 + tq_expiration c \<Longrightarrow> t \<le> expiry l \<Longrightarrow> t' \<le> expiry l \<Longrightarrow>
      fst (tqGetLock R t t' (lk_ResourcePath l) (tqSetLock R t0 l c)) = Ret (Some l)"
    by (simp_all add: tqGetWorkUnit_def tqSetWorkUnit_def tqGetLock_def tqSetLock_def lock_expiration_def Let_def)
qed

text \<open>C32. The time-limited cache after any history of operations. No lookup panics: the type assertions always succeed. What
  it returns is the last value put under the key and not dropped since, and it was put at most the expiration
  time ago; a returned lock has not expired itself. A value that was just put is found until it expires.\<close>

theorem tq_lookup_exact:
  assumes "lru_ok R content" and "NewTqCache R n m k d = Some c0" and "c = fold (tq_apply R) ops c0"
  shows "(\<exists>r. fst (tqGetWorkUnit R t i c) = Ret r \<and>
       (\<forall>w. r = Some w \<longrightarrow> (\<exists>t0. fold last_unit ops Map.empty i = Some (w, t0) \<and> t \<le> t0 + d))) \<and>
     (\<exists>r. fst (tqGetContext R t i c) = Ret r \<and>
       (\<forall>x. r = Some x \<longrightarrow> (\<exists>t0. fold last_context ops Map.empty i = Some (x, t0) \<and> t \<le> t0 + d))) \<and>
     (\<exists>r. fst (tqGetLock R t t' i c) = Ret r \<and>
       (\<forall>l. r = Some l \<longrightarrow> (\<exists>t0. fold last_lock ops Map.empty i = Some (l, t0) \<and> t \<le> t0 + d) \<and>
          t \<le> expiry l \<and> t' \<le> expiry l)) \<and>
     (t \<le> t1 + d \<longrightarrow> fst (tqGetWorkUnit R t (wu_Id u) (tqSetWorkUnit R t1 u c)) = Ret (Some u))"
proof -
  have inv: "tq_inv content d (fold last_unit ops Map.empty) (fold last_context ops Map.empty) (fold last_lock ops Map.empty) c"
    unfolding assms(3) by (rule tq_inv_run [OF assms(1) tq_inv_new [OF assms(1,2)]])
  then have "tq_expiration c = d" by (simp add: tq_inv_def)
  with tq_lookups [OF assms(1) inv] tq_hits(1) [OF assms(1), of t t1 c u] show ?thesis by blast
qed

text \<open>A cache that keeps the most recent insertions satisfies the contract.\<close>

definition ref_2q :: "(nat \<times> (bytes \<times> cacheItem) list) two_queue" where
  "ref_2q = \<lparr>New2Q = (\<lambda>n. if n \<le> 0 then None else Some (nat n - 1, [])), q_Get = (\<lambda>k q. (map_of (snd q) k, q)),
     q_Add = (\<lambda>k v q. (fst q, take (Suc (fst q)) ((k, v) # AList.delete k (snd q)))),
     q_Remove = (\<lambda>k q. (fst q, AList.delete k (snd q))), q_Purge = (\<lambda>q. (fst q, []))\<rparr>"

lemma map_of_take: "map_of (take n xs) j = None \<or> map_of (take n xs) j = map_of xs j"
proof -
  have "map_of xs j = (case map_of (take n xs) j of Some v \<Rightarrow> Some v | None \<Rightarrow> map_of (drop n xs) j)"
    by (metis append_take_drop_id map_add_def map_of_append)
  then show ?thesis by (cases "map_of (take n xs) j") auto
qed

lemma ref_2q_ok: "lru_ok ref_2q (\<lambda>q. map_of (snd q))"
proof -
  have "map_of (take n (AList.delete k xs)) j = None \<or> map_of (take n (AList.delete k xs)) j = map_of xs j" if "j \<noteq> k"
    for n k j and xs :: "(bytes \<times> cacheItem) list"
    using map_of_take [of n "AList.delete k xs" j] that by simp
  then show ?thesis by (simp add: lru_ok_def ref_2q_def)
qed

theorem tq_lookup_exact_witness:
  "\<exists>w c0 r. wu_Id w = ''u'' \<and> NewTqCache ref_2q 1 1 1 10 = Some c0 \<and>
     fst (tqGetWorkUnit ref_2q 12 ''u'' (fold (tq_apply ref_2q) [TqSetUnit 3 w, TqDropUnit ''u''] c0)) = Ret r \<and>
     (\<forall>x. r = Some x \<longrightarrow> fold last_unit [TqSetUnit 3 w, TqDropUnit ''u''] Map.empty ''u'' \<noteq> None)"
proof -
  obtain w :: WorkUnit where w: "wu_Id w = ''u''" by (metis WorkUnit.select_convs(1))
  obtain c0 where c0: "NewTqCache ref_2q 1 1 1 10 = Some c0" by (simp add: NewTqCache_def ref_2q_def)
  from tq_lookup_exact [OF ref_2q_ok c0 refl, of 12 "''u''" "[TqSetUnit 3 w, TqDropUnit ''u'']"] c0 w show ?thesis by blast
qed

end
