(* ===== verification/App_Config.thy ===== *)
theory App_Config
  imports Api_Models Complex_Main
begin

text \<open>
  The configuration of the application, \<open>internal/config/config.go\<close>: its sections, the defaults, and how the
  configuration file, the environment and the command line are combined.

  Inputs of the model: the file system (\<open>os.ReadFile\<close> per path), the environment (\<open>os.Getenv\<close>, empty when unset),
  \<open>filepath.Abs\<close>, and \<open>yaml.Unmarshal\<close> as a function of the data and the configuration it is decoded into. A
  \<open>float64\<close> is only copied; it is written as the number its literal denotes.
\<close>

section \<open>The sections\<close>

type_synonym float64 = rat

record ServerSection =
  sv_Addr :: bytes
  sv_MaxBodySize :: int
  sv_ReadTimeout :: int
  sv_WriteTimeout :: int
  sv_IdleTimeout :: int

record StorageSection =
  ss_DataDir :: bytes
  ss_WALSyncIntervalMs :: int
  ss_WALBatchSize :: int
  ss_MaxWALSizeMB :: int
  ss_CacheEnabled :: bool
  ss_WorkUnitCacheSize :: int
  ss_ContextCacheSize :: int
  ss_LockCacheSize :: int
  ss_CacheExpirationSeconds :: int
  ss_StorageType :: bytes
  ss_OptimizedEnabled :: bool
  ss_MemTableSize :: int
  ss_NumMemTables :: int
  ss_NumLevelZeroTables :: int
  ss_ValueLogFileSize :: int
  ss_NumCompactors :: int
  ss_GCIntervalMinutes :: int
  ss_IndexCacheMB :: int
  ss_BlockCacheMB :: int

record RouterSection =
  rs_MaxBufferSize :: int
  rs_CleanupInterval :: int

record NotifierSection =
  ns_MaxIdleTime :: int
  ns_HeartbeatInterval :: int
  ns_MaxConnections :: int
  ns_BroadcastBufferSize :: int
  ns_BroadcastFlushIntervalMs :: int

record LocksSection =
  ls_DefaultTTL :: int
  ls_CleanupInterval :: int
  ls_MaxLocksPerAgent :: int

record VectorSection =
  vs_Enabled :: bool
  vs_WeaviateURL :: bytes
  vs_WeaviateAPIKey :: bytes
  vs_ClassName :: bytes
  vs_EmbeddingModel :: bytes
  vs_EmbeddingURL :: bytes
  vs_EmbeddingKey :: bytes

record SearchSection =
  hs_Engine :: bytes
  hs_UpdateIntervalMs :: int
  hs_MaxBatchSize :: int
  hs_DefaultLimit :: int
  hs_MaxLimit :: int
  hs_Vector :: VectorSection

record AuthSection =
  as_Enabled :: bool
  as_JWTSecret :: bytes
  as_JWTExpirationMinutes :: int
  as_AllowAnonymous :: bool

record LoggingSection =
  gs_Level :: bytes
  gs_Format :: bytes
  gs_IncludeCaller :: bool
  gs_IncludeTrace :: bool
  gs_GlobalFields :: nilmap

record TelemetrySection =
  ts_Enabled :: bool
  ts_ServiceName :: bytes
  ts_Endpoint :: bytes
  ts_SamplingRatio :: float64
  ts_Attributes :: nilmap

record MetricsSection =
  ms_Enabled :: bool
  ms_Endpoint :: bytes
  ms_Interval :: int

record RateLimitSection =
  rl_Enabled :: bool
  rl_RPM :: int
  rl_RPS :: int
  rl_WSMessagesPerSecond :: int

record AppConfig =
  ac_Server :: ServerSection
  ac_Storage :: StorageSection
  ac_Router :: RouterSection
  ac_Notifier :: NotifierSection
  ac_Locks :: LocksSection
  ac_Search :: SearchSection
  ac_Auth :: AuthSection
  ac_Logging :: LoggingSection
  ac_Telemetry :: TelemetrySection
  ac_Metrics :: MetricsSection
  ac_RateLimit :: RateLimitSection

section \<open>The defaults\<close>

definition appDefaultConfig :: AppConfig where
  "appDefaultConfig =
     \<lparr>ac_Server = \<lparr>sv_Addr = '':8080'', sv_MaxBodySize = 1048576, sv_ReadTimeout = 5, sv_WriteTimeout = 10,
        sv_IdleTimeout = 120\<rparr>,
      ac_Storage = \<lparr>ss_DataDir = ''./data'', ss_WALSyncIntervalMs = 2, ss_WALBatchSize = 64, ss_MaxWALSizeMB = 512,
        ss_CacheEnabled = True, ss_WorkUnitCacheSize = 10000, ss_ContextCacheSize = 1000, ss_LockCacheSize = 5000,
        ss_CacheExpirationSeconds = 30, ss_StorageType = ''badger'', ss_OptimizedEnabled = False,
        ss_MemTableSize = 64 * 1024 * 1024, ss_NumMemTables = 5, ss_NumLevelZeroTables = 10,
        ss_ValueLogFileSize = 1024 * 1024 * 1024, ss_NumCompactors = 4, ss_GCIntervalMinutes = 10,
        ss_IndexCacheMB = 100, ss_BlockCacheMB = 256\<rparr>,
      ac_Router = \<lparr>rs_MaxBufferSize = 100, rs_CleanupInterval = 30\<rparr>,
      ac_Notifier = \<lparr>ns_MaxIdleTime = 30, ns_HeartbeatInterval = 5, ns_MaxConnections = 10000,
        ns_BroadcastBufferSize = 200, ns_BroadcastFlushIntervalMs = 50\<rparr>,
      ac_Locks = \<lparr>ls_DefaultTTL = 60, ls_CleanupInterval = 60, ls_MaxLocksPerAgent = 100\<rparr>,
      ac_Search = \<lparr>hs_Engine = ''badger'', hs_UpdateIntervalMs = 200, hs_MaxBatchSize = 100, hs_DefaultLimit = 100,
        hs_MaxLimit = 1000,
        hs_Vector = \<lparr>vs_Enabled = False, vs_WeaviateURL = ''http://localhost:8080'', vs_WeaviateAPIKey = [],
          vs_ClassName = ''WorkUnit'', vs_EmbeddingModel = ''openai/text-embedding-3-small'', vs_EmbeddingURL = [],
          vs_EmbeddingKey = []\<rparr>\<rparr>,
      ac_Auth = \<lparr>as_Enabled = False, as_JWTSecret = ''change-me-in-production'', as_JWTExpirationMinutes = 60,
        as_AllowAnonymous = False\<rparr>,
      ac_Logging = \<lparr>gs_Level = ''info'', gs_Format = ''json'', gs_IncludeCaller = True, gs_IncludeTrace = True,
        gs_GlobalFields = Some []\<rparr>,
      ac_Telemetry = \<lparr>ts_Enabled = False, ts_ServiceName = ''engram'', ts_Endpoint = ''localhost:4317'',
        ts_SamplingRatio = 1 / 10, ts_Attributes = Some []\<rparr>,
      ac_Metrics = \<lparr>ms_Enabled = True, ms_Endpoint = ''/metrics'', ms_Interval = 15\<rparr>,
      ac_RateLimit = \<lparr>rl_Enabled = False, rl_RPM = 600, rl_RPS = 10, rl_WSMessagesPerSecond = 20\<rparr>\<rparr>"

section \<open>Loading\<close>

datatype read_result = NotExist | ReadError | Contents bytes

datatype config_error = ReadingFailed | ParsingFailed | AbsFailed

record surroundings =
  os_ReadFile :: "bytes \<Rightarrow> read_result"
  os_Getenv :: "bytes \<Rightarrow> bytes"
  path_Abs :: "bytes \<Rightarrow> bytes option"
  yaml_Unmarshal :: "bytes \<Rightarrow> AppConfig \<Rightarrow> AppConfig option"

definition LoadConfigFromFile :: "surroundings \<Rightarrow> bytes \<Rightarrow> (config_error, AppConfig) outcome" where
  "LoadConfigFromFile w filePath =
     (let config = appDefaultConfig
      in case os_ReadFile w filePath of
           NotExist \<Rightarrow> Ret config
         | ReadError \<Rightarrow> Err ReadingFailed
         | Contents data \<Rightarrow>
             (case yaml_Unmarshal w data config of None \<Rightarrow> Err ParsingFailed | Some config \<Rightarrow> Ret config))"

abbreviation (input) on_Server :: "(ServerSection \<Rightarrow> ServerSection) \<Rightarrow> AppConfig \<Rightarrow> AppConfig" where
  "on_Server f c \<equiv> c\<lparr>ac_Server := f (ac_Server c)\<rparr>"

abbreviation (input) on_Storage :: "(StorageSection \<Rightarrow> StorageSection) \<Rightarrow> AppConfig \<Rightarrow> AppConfig" where
  "on_Storage f c \<equiv> c\<lparr>ac_Storage := f (ac_Storage c)\<rparr>"

abbreviation (input) on_Logging :: "(LoggingSection \<Rightarrow> LoggingSection) \<Rightarrow> AppConfig \<Rightarrow> AppConfig" where
  "on_Logging f c \<equiv> c\<lparr>ac_Logging := f (ac_Logging c)\<rparr>"

text \<open>Every block \<open>if v := os.Getenv(...); v != ""\<close>, and the blocks that also parse the value.\<close>

definition override :: "(bytes \<Rightarrow> AppConfig \<Rightarrow> AppConfig) \<Rightarrow> bytes \<Rightarrow> AppConfig \<Rightarrow> AppConfig" where
  "override set_field v c = (if v \<noteq> [] then set_field v c else c)"

definition override_int :: "(int \<Rightarrow> AppConfig \<Rightarrow> AppConfig) \<Rightarrow> bytes \<Rightarrow> AppConfig \<Rightarrow> AppConfig" where
  "override_int set_field = override (\<lambda>v c. case Atoi v of Some val \<Rightarrow> set_field val c | None \<Rightarrow> c)"

definition applyEnvOverrides :: "surroundings \<Rightarrow> AppConfig \<Rightarrow> AppConfig" where
  "applyEnvOverrides w config =
     (let config = override (\<lambda>addr. on_Server (\<lambda>s. s\<lparr>sv_Addr := addr\<rparr>)) (os_Getenv w ''ENGRAM_SERVER_ADDR'') config;
          config = override (\<lambda>dataDir. on_Storage (\<lambda>s. s\<lparr>ss_DataDir := dataDir\<rparr>))
            (os_Getenv w ''ENGRAM_STORAGE_DATA_DIR'') config;
          config = override_int (\<lambda>val. on_Storage (\<lambda>s. s\<lparr>ss_WALSyncIntervalMs := val\<rparr>))
            (os_Getenv w ''ENGRAM_STORAGE_WAL_SYNC_INTERVAL_MS'') config;
          config = override_int (\<lambda>val. on_Storage (\<lambda>s. s\<lparr>ss_WALBatchSize := val\<rparr>))
            (os_Getenv w ''ENGRAM_STORAGE_WAL_BATCH_SIZE'') config;
          config = override (\<lambda>level. on_Logging (\<lambda>s. s\<lparr>gs_Level := level\<rparr>)) (os_Getenv w ''ENGRAM_LOG_LEVEL'') config
      in override (\<lambda>format. on_Logging (\<lambda>s. s\<lparr>gs_Format := format\<rparr>)) (os_Getenv w ''ENGRAM_LOG_FORMAT'') config)"

definition set_data_dir :: "surroundings \<Rightarrow> bytes \<Rightarrow> AppConfig \<Rightarrow> (config_error, AppConfig) outcome" where
  "set_data_dir w dataDir config =
     (if dataDir \<noteq> [] then
        case path_Abs w dataDir of
          None \<Rightarrow> Err AbsFailed
        | Some absDataDir \<Rightarrow> Ret (on_Storage (\<lambda>s. s\<lparr>ss_DataDir := absDataDir\<rparr>) config)
      else Ret config)"

definition LoadConfig ::
  "surroundings \<Rightarrow> bytes \<Rightarrow> bytes \<Rightarrow> bytes \<Rightarrow> bytes \<Rightarrow> (config_error, AppConfig) outcome" where
  "LoadConfig w configFile dataDir serverAddr logLevel =
     (case (if configFile \<noteq> [] then LoadConfigFromFile w configFile else Ret appDefaultConfig) of
        Ret config \<Rightarrow>
          map_ret
            (\<lambda>config.
               let config = override (\<lambda>v. on_Server (\<lambda>s. s\<lparr>sv_Addr := v\<rparr>)) serverAddr config
               in override (\<lambda>v. on_Logging (\<lambda>s. s\<lparr>gs_Level := v\<rparr>)) logLevel config)
            (set_data_dir w dataDir (applyEnvOverrides w config))
      | r \<Rightarrow> r)"

text \<open>The record for the engine in \<open>internal/engine\<close>.\<close>

record EngramEngineConfig =
  ee_DataDir :: bytes
  ee_ServerAddr :: bytes
  ee_LogLevel :: bytes
  ee_WALSyncIntervalMs :: int
  ee_WALBatchSize :: int
  ee_DefaultLockTTLSeconds :: int
  ee_MaxIdleConnectionSeconds :: int

definition ToEngineConfig :: "AppConfig \<Rightarrow> EngramEngineConfig" where
  "ToEngineConfig c =
     \<lparr>ee_DataDir = ss_DataDir (ac_Storage c), ee_ServerAddr = sv_Addr (ac_Server c), ee_LogLevel = gs_Level (ac_Logging c),
      ee_WALSyncIntervalMs = ss_WALSyncIntervalMs (ac_Storage c), ee_WALBatchSize = ss_WALBatchSize (ac_Storage c),
      ee_DefaultLockTTLSeconds = ls_DefaultTTL (ac_Locks c), ee_MaxIdleConnectionSeconds = ns_MaxIdleTime (ac_Notifier c)\<rparr>"

section \<open>Precedence\<close>

text \<open>The sources of a setting, the most important first: the first that is set decides.\<close>

fun first_set :: "bytes list \<Rightarrow> bytes" where
  "first_set [] = []"
| "first_set (v # vs) = (if v \<noteq> [] then v else first_set vs)"

fun first_int :: "int option list \<Rightarrow> int \<Rightarrow> int" where
  "first_int [] d = d"
| "first_int (None # vs) d = first_int vs d"
| "first_int (Some v # vs) d = v"

lemma first_set_nested: "first_set [u, first_set [v, x]] = first_set [u, v, x]"
  by simp

lemma Atoi_empty [simp]: "Atoi [] = None" by (simp add: Atoi_def unsigned_part_def)

text \<open>Each override is an update of one field.\<close>

lemma override_eqs:
  "override (\<lambda>v. on_Server (\<lambda>s. s\<lparr>sv_Addr := v\<rparr>)) u c =
     c\<lparr>ac_Server := (ac_Server c)\<lparr>sv_Addr := first_set [u, sv_Addr (ac_Server c)]\<rparr>\<rparr>"
  "override (\<lambda>v. on_Storage (\<lambda>s. s\<lparr>ss_DataDir := v\<rparr>)) u c =
     c\<lparr>ac_Storage := (ac_Storage c)\<lparr>ss_DataDir := first_set [u, ss_DataDir (ac_Storage c)]\<rparr>\<rparr>"
  "override (\<lambda>v. on_Logging (\<lambda>s. s\<lparr>gs_Level := v\<rparr>)) u c =
     c\<lparr>ac_Logging := (ac_Logging c)\<lparr>gs_Level := first_set [u, gs_Level (ac_Logging c)]\<rparr>\<rparr>"
  "override (\<lambda>v. on_Logging (\<lambda>s. s\<lparr>gs_Format := v\<rparr>)) u c =
     c\<lparr>ac_Logging := (ac_Logging c)\<lparr>gs_Format := first_set [u, gs_Format (ac_Logging c)]\<rparr>\<rparr>"
  "override_int (\<lambda>val. on_Storage (\<lambda>s. s\<lparr>ss_WALSyncIntervalMs := val\<rparr>)) u c =
     c\<lparr>ac_Storage := (ac_Storage c)\<lparr>ss_WALSyncIntervalMs := first_int [Atoi u] (ss_WALSyncIntervalMs (ac_Storage c))\<rparr>\<rparr>"
  "override_int (\<lambda>val. on_Storage (\<lambda>s. s\<lparr>ss_WALBatchSize := val\<rparr>)) u c =
     c\<lparr>ac_Storage := (ac_Storage c)\<lparr>ss_WALBatchSize := first_int [Atoi u] (ss_WALBatchSize (ac_Storage c))\<rparr>\<rparr>"
  by (cases "u = []"; simp add: override_def)+
    (cases "Atoi u"; cases "u = []"; simp add: override_int_def override_def)+

text \<open>The environment as one update.\<close>

lemma env_overrides_eq:
  "applyEnvOverrides w b =
     b\<lparr>ac_Server := (ac_Server b)\<lparr>sv_Addr := first_set [os_Getenv w ''ENGRAM_SERVER_ADDR'', sv_Addr (ac_Server b)]\<rparr>,
       ac_Storage := (ac_Storage b)
         \<lparr>ss_DataDir := first_set [os_Getenv w ''ENGRAM_STORAGE_DATA_DIR'', ss_DataDir (ac_Storage b)],
          ss_WALSyncIntervalMs := first_int [Atoi (os_Getenv w ''ENGRAM_STORAGE_WAL_SYNC_INTERVAL_MS'')]
            (ss_WALSyncIntervalMs (ac_Storage b)),
          ss_WALBatchSize := first_int [Atoi (os_Getenv w ''ENGRAM_STORAGE_WAL_BATCH_SIZE'')]
            (ss_WALBatchSize (ac_Storage b))\<rparr>,
       ac_Logging := (ac_Logging b)
         \<lparr>gs_Level := first_set [os_Getenv w ''ENGRAM_LOG_LEVEL'', gs_Level (ac_Logging b)],
          gs_Format := first_set [os_Getenv w ''ENGRAM_LOG_FORMAT'', gs_Format (ac_Logging b)]\<rparr>\<rparr>"
  unfolding applyEnvOverrides_def override_eqs Let_def by (simp del: first_set.simps first_int.simps)


end
