(* ===== verification/Component_Config.thy ===== *)
theory Component_Config
  imports App_Config Storage_Recovery Event_Notifier Lock_Manager_Enhanced "HOL-Library.Signed_Division"
begin

text \<open>
  The configurations of the components and the construction of the storage from them:
  \<open>internal/config/component_config.go\<close>, \<open>internal/storage/factory.go\<close>, \<open>internal/storage/badger/config_optimized.go\<close>,
  \<open>storage_optimized.go\<close>, \<open>internal/search/vector_config.go\<close>, and the configuration of \<open>internal/logging/logger.go\<close> and
  \<open>internal/telemetry/config.go\<close>.

  \<open>storage.Config\<close> has the fields of \<open>badger.Config\<close>, and both are the record \<open>StorageConfig\<close>. The disk is an input: the database
  and the log in each data directory, and the operations of Badger that close, reopen and maintain a database.
\<close>

section \<open>Conversions\<close>

text \<open>\<open>time.Duration(n) * unit\<close> is a product of \<open>int64\<close> numbers.\<close>

definition duration_of :: "int \<Rightarrow> duration \<Rightarrow> duration" where
  "duration_of n unit = sint (word_of_int (n * unit) :: 64 word)"

definition ToStorageConfig :: "AppConfig \<Rightarrow> StorageConfig" where
  "ToStorageConfig c =
     (let s = ac_Storage c
      in \<lparr>cfg_DataDir = ss_DataDir s, cfg_CacheEnabled = ss_CacheEnabled s, cfg_WALBatchSize = ss_WALBatchSize s,
          cfg_WALSyncInterval = duration_of (ss_WALSyncIntervalMs s) Millisecond,
          cfg_WorkUnitCacheSize = ss_WorkUnitCacheSize s, cfg_ContextCacheSize = ss_ContextCacheSize s,
          cfg_LockCacheSize = ss_LockCacheSize s,
          cfg_CacheExpiration = duration_of (ss_CacheExpirationSeconds s) Second\<rparr>)"

record OptimizedConfig =
  oc_DataDir :: bytes
  oc_WALSyncInterval :: duration
  oc_WALBatchSize :: int
  oc_WALMaxSizeMB :: int
  oc_WALCompactThresholdRatio :: float64
  oc_MemTableSize :: int
  oc_NumMemtables :: int
  oc_NumLevelZeroTables :: int
  oc_NumLevelZeroTablesStall :: int
  oc_BaseLevelSize :: int
  oc_ValueLogFileSize :: int
  oc_ValueLogMaxEntries :: int
  oc_GCInterval :: duration
  oc_GCDiscardRatio :: float64
  oc_GCMinValueLogSize :: int
  oc_CompactionInterval :: duration
  oc_SyncWrites :: bool
  oc_NumCompactors :: int
  oc_VerifyValueChecksum :: bool
  oc_NumVersionsToKeep :: int
  oc_DetectConflicts :: bool
  oc_IndexCacheSize :: int
  oc_BlockCacheSize :: int
  oc_CacheEnabled :: bool
  oc_WorkUnitCacheSize :: int
  oc_ContextCacheSize :: int
  oc_LockCacheSize :: int
  oc_CacheExpiration :: duration

definition OptimizedDefaultConfig :: OptimizedConfig where
  "OptimizedDefaultConfig =
     \<lparr>oc_DataDir = ''./data'', oc_WALSyncInterval = 5 * Millisecond, oc_WALBatchSize = 128, oc_WALMaxSizeMB = 512,
      oc_WALCompactThresholdRatio = 1 / 2, oc_MemTableSize = 64 * 2 ^ 20, oc_NumMemtables = 5, oc_NumLevelZeroTables = 10,
      oc_NumLevelZeroTablesStall = 15, oc_BaseLevelSize = 10 * 2 ^ 20, oc_ValueLogFileSize = 2 ^ 30,
      oc_ValueLogMaxEntries = 1000000, oc_GCInterval = 10 * Minute, oc_GCDiscardRatio = 1 / 2, oc_GCMinValueLogSize = 2 ^ 20,
      oc_CompactionInterval = 5 * Minute, oc_SyncWrites = False, oc_NumCompactors = 4, oc_VerifyValueChecksum = False,
      oc_NumVersionsToKeep = 1, oc_DetectConflicts = True, oc_IndexCacheSize = 100 * 2 ^ 20, oc_BlockCacheSize = 256 * 2 ^ 20,
      oc_CacheEnabled = True, oc_WorkUnitCacheSize = 20000, oc_ContextCacheSize = 2000, oc_LockCacheSize = 10000,
      oc_CacheExpiration = 2 * Minute\<rparr>"

text \<open>\<open>storage.StorageType\<close>.\<close>

definition BadgerStorage :: bytes where "BadgerStorage = ''badger''"
definition OptimizedBadgerStorage :: bytes where "OptimizedBadgerStorage = ''badger-optimized''"

record FactoryConfig =
  fc_Type :: bytes
  fc_Config :: StorageConfig
  fc_OptimizedConfig :: OptimizedConfig

text \<open>\<open>storage.DefaultConfig\<close> repeats the values of \<open>badger.DefaultConfig\<close>.\<close>

definition storageDefaultConfig :: StorageConfig where
  "storageDefaultConfig = \<lparr>cfg_DataDir = ''./data'', cfg_CacheEnabled = True, cfg_WALBatchSize = 64,
     cfg_WALSyncInterval = 2 * Millisecond, cfg_WorkUnitCacheSize = 10000,
     cfg_ContextCacheSize = 1000, cfg_LockCacheSize = 5000, cfg_CacheExpiration = 30 * Second\<rparr>"

definition DefaultFactoryConfig :: FactoryConfig where
  "DefaultFactoryConfig =
     \<lparr>fc_Type = BadgerStorage, fc_Config = storageDefaultConfig, fc_OptimizedConfig = OptimizedDefaultConfig\<rparr>"

text \<open>The optimized part of \<open>ToStorageFactoryConfig\<close>: the fields it does not mention are zero.\<close>

definition factory_optimized :: "AppConfig \<Rightarrow> OptimizedConfig" where
  "factory_optimized c =
     (let s = ac_Storage c
      in \<lparr>oc_DataDir = ss_DataDir s, oc_WALSyncInterval = duration_of (ss_WALSyncIntervalMs s) Millisecond,
          oc_WALBatchSize = ss_WALBatchSize s, oc_WALMaxSizeMB = ss_MaxWALSizeMB s, oc_WALCompactThresholdRatio = 0,
          oc_MemTableSize = ss_MemTableSize s, oc_NumMemtables = ss_NumMemTables s,
          oc_NumLevelZeroTables = ss_NumLevelZeroTables s, oc_NumLevelZeroTablesStall = 0, oc_BaseLevelSize = 0,
          oc_ValueLogFileSize = ss_ValueLogFileSize s, oc_ValueLogMaxEntries = 0,
          oc_GCInterval = duration_of (ss_GCIntervalMinutes s) Minute, oc_GCDiscardRatio = 0, oc_GCMinValueLogSize = 0,
          oc_CompactionInterval = 0, oc_SyncWrites = False, oc_NumCompactors = ss_NumCompactors s,
          oc_VerifyValueChecksum = False, oc_NumVersionsToKeep = 0, oc_DetectConflicts = False,
          oc_IndexCacheSize = sint (word_of_int (ss_IndexCacheMB s * 1024 * 1024) :: 64 word),
          oc_BlockCacheSize = sint (word_of_int (ss_BlockCacheMB s * 1024 * 1024) :: 64 word),
          oc_CacheEnabled = ss_CacheEnabled s, oc_WorkUnitCacheSize = ss_WorkUnitCacheSize s,
          oc_ContextCacheSize = ss_ContextCacheSize s, oc_LockCacheSize = ss_LockCacheSize s,
          oc_CacheExpiration = duration_of (ss_CacheExpirationSeconds s) Second\<rparr>)"

definition ToStorageFactoryConfig :: "AppConfig \<Rightarrow> FactoryConfig" where
  "ToStorageFactoryConfig c =
     (let s = ac_Storage c;
          basicConfig = \<lparr>cfg_DataDir = ss_DataDir s, cfg_CacheEnabled = ss_CacheEnabled s,
            cfg_WALBatchSize = ss_WALBatchSize s,
            cfg_WALSyncInterval = duration_of (ss_WALSyncIntervalMs s) Millisecond,
            cfg_WorkUnitCacheSize = ss_WorkUnitCacheSize s, cfg_ContextCacheSize = ss_ContextCacheSize s,
            cfg_LockCacheSize = ss_LockCacheSize s,
            cfg_CacheExpiration = duration_of (ss_CacheExpirationSeconds s) Second\<rparr>;
          storageType = (if ss_OptimizedEnabled s then OptimizedBadgerStorage
            else if ss_StorageType s = ''badger-optimized'' then OptimizedBadgerStorage else BadgerStorage)
      in \<lparr>fc_Type = storageType, fc_Config = basicConfig, fc_OptimizedConfig = factory_optimized c\<rparr>)"

definition ToRouterConfig :: "AppConfig \<Rightarrow> int" where
  "ToRouterConfig c = rs_MaxBufferSize (ac_Router c)"

definition ToLockManagerConfig :: "AppConfig \<Rightarrow> duration \<times> duration" where
  "ToLockManagerConfig c =
     (duration_of (ls_DefaultTTL (ac_Locks c)) Second, duration_of (ls_CleanupInterval (ac_Locks c)) Second)"

definition ToSearchConfig :: "AppConfig \<Rightarrow> bytes" where
  "ToSearchConfig c = ss_DataDir (ac_Storage c)"

record VectorConfig =
  vc_Enabled :: bool
  vc_WeaviateURL :: bytes
  vc_WeaviateAPIKey :: bytes
  vc_ClassName :: bytes
  vc_BatchSize :: int
  vc_EmbeddingModel :: bytes
  vc_EmbeddingURL :: bytes
  vc_EmbeddingKey :: bytes

definition DefaultVectorConfig :: VectorConfig where
  "DefaultVectorConfig = \<lparr>vc_Enabled = False, vc_WeaviateURL = ''http://localhost:8080'', vc_WeaviateAPIKey = [],
     vc_ClassName = ''WorkUnit'', vc_BatchSize = 100, vc_EmbeddingModel = ''openai/text-embedding-3-small'',
     vc_EmbeddingURL = [], vc_EmbeddingKey = []\<rparr>"

definition ToVectorSearchConfig :: "AppConfig \<Rightarrow> VectorConfig" where
  "ToVectorSearchConfig c =
     (let v = hs_Vector (ac_Search c)
      in \<lparr>vc_Enabled = vs_Enabled v, vc_WeaviateURL = vs_WeaviateURL v, vc_WeaviateAPIKey = vs_WeaviateAPIKey v,
          vc_ClassName = vs_ClassName v, vc_BatchSize = hs_MaxBatchSize (ac_Search c),
          vc_EmbeddingModel = vs_EmbeddingModel v, vc_EmbeddingURL = vs_EmbeddingURL v, vc_EmbeddingKey = vs_EmbeddingKey v\<rparr>)"

definition ToNotifierConfig :: "AppConfig \<Rightarrow> NotifierConfig" where
  "ToNotifierConfig c =
     \<lparr>nc_MaxIdleTime = duration_of (ns_MaxIdleTime (ac_Notifier c)) Second,
      nc_BroadcastBufferSize = ns_BroadcastBufferSize (ac_Notifier c),
      nc_BroadcastFlushInterval = duration_of (ns_BroadcastFlushIntervalMs (ac_Notifier c)) Millisecond\<rparr>"

definition ToAPIConfig :: "AppConfig \<Rightarrow> bytes" where
  "ToAPIConfig c = sv_Addr (ac_Server c)"

datatype LogLevel = LevelDebug | LevelInfo | LevelWarn | LevelError

datatype LogFormat = FormatJSON | FormatConsole

record LoggingConfig =
  lg_Level :: LogLevel
  lg_Format :: LogFormat
  lg_IncludeCaller :: bool
  lg_IncludeStacktrace :: bool
  lg_IncludeTraceContext :: bool
  lg_GlobalFields :: nilmap

definition ToLoggingConfig :: "AppConfig \<Rightarrow> LoggingConfig" where
  "ToLoggingConfig c =
     (let g = ac_Logging c;
          level = (if gs_Level g = ''debug'' then LevelDebug else if gs_Level g = ''info'' then LevelInfo
            else if gs_Level g = ''warn'' then LevelWarn else if gs_Level g = ''error'' then LevelError else LevelInfo);
          format = (if gs_Format g = ''json'' then FormatJSON else if gs_Format g = ''console'' then FormatConsole
            else FormatJSON)
      in \<lparr>lg_Level = level, lg_Format = format, lg_IncludeCaller = gs_IncludeCaller g, lg_IncludeStacktrace = True,
          lg_IncludeTraceContext = gs_IncludeTrace g, lg_GlobalFields = gs_GlobalFields g\<rparr>)"

record TelemetryConfig =
  tl_Enabled :: bool
  tl_ServiceName :: bytes
  tl_Endpoint :: bytes
  tl_SamplingRatio :: float64
  tl_Timeout :: duration
  tl_Attributes :: nilmap

definition ToTelemetryConfig :: "AppConfig \<Rightarrow> TelemetryConfig" where
  "ToTelemetryConfig c =
     (let t = ac_Telemetry c
      in \<lparr>tl_Enabled = ts_Enabled t, tl_ServiceName = ts_ServiceName t, tl_Endpoint = ts_Endpoint t,
          tl_SamplingRatio = ts_SamplingRatio t, tl_Timeout = 5 * Second, tl_Attributes = ts_Attributes t\<rparr>)"

section \<open>Creating the storage\<close>

text \<open>The options \<open>applyOptimizedBadgerSettings\<close> sets on the defaults of Badger.\<close>

record badger_options =
  bo_Dir :: bytes
  bo_SyncWrites :: bool
  bo_MemTableSize :: int
  bo_NumMemtables :: int
  bo_NumLevelZeroTables :: int
  bo_NumLevelZeroTablesStall :: int
  bo_BaseLevelSize :: int
  bo_ValueLogFileSize :: int
  bo_ValueLogMaxEntries :: int
  bo_NumCompactors :: int
  bo_VerifyValueChecksum :: bool
  bo_NumVersionsToKeep :: int
  bo_DetectConflicts :: bool
  bo_IndexCacheSize :: int
  bo_BlockCacheSize :: int

text \<open>The disk: \<open>db_at\<close> is the database \<open>badger.Open\<close> returns with the default options for a data directory, \<open>wal_at\<close> the log there.
  \<open>db_Close\<close> tells whether closing succeeds, \<open>db_Open\<close> opens the closed database again with other options.\<close>

record 'db disk =
  db_at :: "bytes \<Rightarrow> 'db"
  wal_at :: "bytes \<Rightarrow> bytes"
  db_Close :: "'db \<Rightarrow> bool"
  path_Join :: "bytes \<Rightarrow> bytes \<Rightarrow> bytes"
  os_MkdirAll :: "bytes \<Rightarrow> bool"
  db_Open :: "badger_options \<Rightarrow> 'db \<Rightarrow> 'db option"
  db_RunValueLogGC :: "float64 \<Rightarrow> 'db \<Rightarrow> 'db"
  db_Flatten :: "int \<Rightarrow> 'db \<Rightarrow> 'db"

text \<open>\<open>time.NewTicker\<close> panics when the interval is not positive.\<close>

definition NewTicker :: "duration \<Rightarrow> (unit, duration) outcome" where
  "NewTicker d = (if d \<le> 0 then Panic else Ret d)"

datatype maintenance = PeriodicGC duration float64 | PeriodicCompaction duration

fun start_maintenance :: "maintenance \<Rightarrow> (unit, duration) outcome" where
  "start_maintenance (PeriodicGC interval discardRatio) = NewTicker interval"
| "start_maintenance (PeriodicCompaction interval) = NewTicker interval"

text \<open>What one tick does to the storage; an error is only logged.\<close>

fun maintenance_tick :: "'db disk \<Rightarrow> maintenance \<Rightarrow> 'db Storage \<Rightarrow> 'db Storage" where
  "maintenance_tick D (PeriodicGC interval discardRatio) s = s\<lparr>st_db := db_RunValueLogGC D discardRatio (st_db s)\<rparr>"
| "maintenance_tick D (PeriodicCompaction interval) s = s\<lparr>st_db := db_Flatten D 8 (st_db s)\<rparr>"

datatype create_error = CreateBasic new_storage_error | CloseFailed | MkdirFailed | OpenFailed

definition open_storage ::
  "('db, 'txn) badger \<Rightarrow> json_codec \<Rightarrow> (nat \<Rightarrow> nat) \<Rightarrow> 'db disk \<Rightarrow> StorageConfig \<Rightarrow> create_error + 'db Storage" where
  "open_storage B J picks D config =
     (case NewStorage B J picks config (db_at D (cfg_DataDir config)) (wal_at D (cfg_DataDir config)) of
        Inl e \<Rightarrow> Inl (CreateBasic e)
      | Inr s \<Rightarrow> Inr s)"

definition optimized_options :: "bytes \<Rightarrow> OptimizedConfig \<Rightarrow> badger_options" where
  "optimized_options dbPath config =
     \<lparr>bo_Dir = dbPath, bo_SyncWrites = oc_SyncWrites config, bo_MemTableSize = oc_MemTableSize config,
      bo_NumMemtables = oc_NumMemtables config, bo_NumLevelZeroTables = oc_NumLevelZeroTables config,
      bo_NumLevelZeroTablesStall = oc_NumLevelZeroTablesStall config, bo_BaseLevelSize = oc_BaseLevelSize config,
      bo_ValueLogFileSize = oc_ValueLogFileSize config, bo_ValueLogMaxEntries = oc_ValueLogMaxEntries config,
      bo_NumCompactors = oc_NumCompactors config, bo_VerifyValueChecksum = oc_VerifyValueChecksum config,
      bo_NumVersionsToKeep = oc_NumVersionsToKeep config, bo_DetectConflicts = oc_DetectConflicts config,
      bo_IndexCacheSize = oc_IndexCacheSize config, bo_BlockCacheSize = oc_BlockCacheSize config\<rparr>"

definition applyOptimizedBadgerSettings ::
  "'db disk \<Rightarrow> OptimizedConfig \<Rightarrow> bytes \<Rightarrow> 'db Storage \<Rightarrow> create_error + 'db Storage" where
  "applyOptimizedBadgerSettings D config dataDir s =
     (let dbPath = path_Join D dataDir ''badger''
      in if \<not> db_Close D (st_db s) then Inl CloseFailed
         else if \<not> os_MkdirAll D dbPath then Inl MkdirFailed
         else case db_Open D (optimized_options dbPath config) (st_db s) of
                None \<Rightarrow> Inl OpenFailed
              | Some db \<Rightarrow> Inr (s\<lparr>st_db := db\<rparr>))"

definition NewOptimizedStorage ::
  "('db, 'txn) badger \<Rightarrow> json_codec \<Rightarrow> (nat \<Rightarrow> nat) \<Rightarrow> 'db disk \<Rightarrow> OptimizedConfig \<Rightarrow>
   create_error + 'db Storage \<times> maintenance list" where
  "NewOptimizedStorage B J picks D config =
     (let basicConfig = \<lparr>cfg_DataDir = oc_DataDir config, cfg_CacheEnabled = oc_CacheEnabled config,
            cfg_WALBatchSize = oc_WALBatchSize config, cfg_WALSyncInterval = oc_WALSyncInterval config,
            cfg_WorkUnitCacheSize = oc_WorkUnitCacheSize config, cfg_ContextCacheSize = oc_ContextCacheSize config,
            cfg_LockCacheSize = oc_LockCacheSize config, cfg_CacheExpiration = oc_CacheExpiration config\<rparr>
      in case open_storage B J picks D basicConfig of
           Inl e \<Rightarrow> Inl e
         | Inr s \<Rightarrow>
             (case applyOptimizedBadgerSettings D config (oc_DataDir config) s of
                Inl e \<Rightarrow> Inl e
              | Inr s \<Rightarrow> Inr (s, [PeriodicGC (oc_GCInterval config) (oc_GCDiscardRatio config),
                   PeriodicCompaction (oc_CompactionInterval config)])))"

text \<open>\<open>storage.NewStorage\<close> copies its configuration field by field.\<close>

definition storageNewStorage ::
  "('db, 'txn) badger \<Rightarrow> json_codec \<Rightarrow> (nat \<Rightarrow> nat) \<Rightarrow> 'db disk \<Rightarrow> StorageConfig \<Rightarrow> create_error + 'db Storage" where
  "storageNewStorage B J picks D config =
     open_storage B J picks D
       \<lparr>cfg_DataDir = cfg_DataDir config, cfg_CacheEnabled = cfg_CacheEnabled config,
        cfg_WALBatchSize = cfg_WALBatchSize config, cfg_WALSyncInterval = cfg_WALSyncInterval config,
        cfg_WorkUnitCacheSize = cfg_WorkUnitCacheSize config, cfg_ContextCacheSize = cfg_ContextCacheSize config,
        cfg_LockCacheSize = cfg_LockCacheSize config, cfg_CacheExpiration = cfg_CacheExpiration config\<rparr>"

definition CreateStorage ::
  "('db, 'txn) badger \<Rightarrow> json_codec \<Rightarrow> (nat \<Rightarrow> nat) \<Rightarrow> 'db disk \<Rightarrow> FactoryConfig \<Rightarrow>
   create_error + 'db Storage \<times> maintenance list" where
  "CreateStorage B J picks D config =
     (let basic = fc_Config config;
          plain = (\<lambda>r. case r of Inl e \<Rightarrow> Inl e | Inr s \<Rightarrow> Inr (s, []))
      in if fc_Type config = BadgerStorage then
           plain (open_storage B J picks D
             \<lparr>cfg_DataDir = cfg_DataDir basic, cfg_CacheEnabled = cfg_CacheEnabled basic,
              cfg_WALBatchSize = cfg_WALBatchSize basic, cfg_WALSyncInterval = cfg_WALSyncInterval basic,
              cfg_WorkUnitCacheSize = cfg_WorkUnitCacheSize basic, cfg_ContextCacheSize = cfg_ContextCacheSize basic,
              cfg_LockCacheSize = cfg_LockCacheSize basic, cfg_CacheExpiration = cfg_CacheExpiration basic\<rparr>)
         else if fc_Type config = OptimizedBadgerStorage then
           let optimizedConfig = fc_OptimizedConfig config
           in NewOptimizedStorage B J picks D
                (if cfg_DataDir basic \<noteq> [] then optimizedConfig\<lparr>oc_DataDir := cfg_DataDir basic\<rparr> else optimizedConfig)
         else plain (storageNewStorage B J picks D basic))"

section \<open>The tickers\<close>

text \<open>The tickers the goroutines of the components create when they start: \<open>processWAL\<close> of the storage, \<open>cleanupExpiredLocks\<close>
  of the lock manager, \<open>cleanupIdleClients\<close> of the notifier and \<open>bufferFlushLoop\<close> of its broadcast buffer. \<open>NewStorage\<close>
  replaces intervals that are not positive; the others only replace zero. Division of durations truncates.\<close>

definition processWAL_ticker :: "StorageConfig \<Rightarrow> (unit, duration) outcome" where
  "processWAL_ticker config = NewTicker (default_if_nonpos (cfg_WALSyncInterval DefaultConfig) (cfg_WALSyncInterval config))"

definition cleanupExpiredLocks_ticker :: "LockManager \<Rightarrow> (unit, duration) outcome" where
  "cleanupExpiredLocks_ticker m = NewTicker (lm_CleanupInterval m)"

definition cleanupIdleClients_ticker :: "Notifier \<Rightarrow> (unit, duration) outcome" where
  "cleanupIdleClients_ticker n = NewTicker (nt_MaxIdleTime n sdiv 2)"

definition bufferFlushLoop_ticker :: "BroadcastBuffer \<Rightarrow> (unit, duration) outcome" where
  "bufferFlushLoop_ticker b = NewTicker (bb_flushInterval b)"

section \<open>Properties\<close>

lemma int64_exact: "- (2 ^ 63) \<le> n \<Longrightarrow> n < 2 ^ 63 \<Longrightarrow> sint (word_of_int n :: 64 word) = n"
  by (simp add: signed_of_int signed_take_bit_int_eq_self)

lemma duration_of_exact:
  "\<bar>n\<bar> \<le> 9223372036 \<Longrightarrow> duration_of n Second = n * Second"
  "\<bar>n\<bar> \<le> 9223372036854 \<Longrightarrow> duration_of n Millisecond = n * Millisecond"
  by (simp_all add: duration_of_def int64_exact del: of_int_mult)

lemma duration_of_0 [simp]: "duration_of 0 unit = 0"
  by (simp add: duration_of_def)

lemma sdiv_pos: "0 \<le> x \<Longrightarrow> x sdiv 2 = x div (2 :: int)"
  by (simp add: signed_divide_int_def sgn_if)

lemma sdiv_neg: "x < 0 \<Longrightarrow> x sdiv 2 \<le> (0 :: int)"
  by (simp add: signed_divide_int_def sgn_if)

text \<open>The intervals that a configuration gives the goroutines, for all settings whose durations fit 64 bits. The
  storage syncs its log at the configured interval, or every 2 ms when it is not positive, and always starts. The
  lock manager and the notifier use the configured intervals and replace zero by their defaults, but a negative
  setting makes their goroutine panic when it starts.\<close>

lemma config_tickers:
  assumes "\<bar>ss_WALSyncIntervalMs (ac_Storage c)\<bar> \<le> 9223372036854" and "\<bar>ls_CleanupInterval (ac_Locks c)\<bar> \<le> 9223372036"
    and "\<bar>ns_MaxIdleTime (ac_Notifier c)\<bar> \<le> 9223372036" and "\<bar>ns_BroadcastFlushIntervalMs (ac_Notifier c)\<bar> \<le> 9223372036854"
  shows "processWAL_ticker (ToStorageConfig c) =
      (let ms = ss_WALSyncIntervalMs (ac_Storage c) in Ret ((if ms \<le> 0 then 2 else ms) * Millisecond)) \<and>
    cleanupExpiredLocks_ticker (case ToLockManagerConfig c of (ttl, cleanup) \<Rightarrow> NewLockManager ttl cleanup) =
      (let secs = ls_CleanupInterval (ac_Locks c)
       in if secs < 0 then Panic else Ret ((if secs = 0 then 60 else secs) * Second)) \<and>
    cleanupIdleClients_ticker (NewNotifier (ToNotifierConfig c)) =
      (let secs = ns_MaxIdleTime (ac_Notifier c)
       in if secs < 0 then Panic else Ret ((if secs = 0 then 30 else secs) * (500 * Millisecond))) \<and>
    bufferFlushLoop_ticker (nt_buffer (NewNotifier (ToNotifierConfig c))) =
      (let ms = ns_BroadcastFlushIntervalMs (ac_Notifier c)
       in if ms < 0 then Panic else Ret ((if ms = 0 then 50 else ms) * Millisecond))"
proof -
  note d = duration_of_exact(1) [OF assms(2)] duration_of_exact(1) [OF assms(3)]
    duration_of_exact(2) [OF assms(1)] duration_of_exact(2) [OF assms(4)]
  have n: "\<not> k * Second sdiv 2 \<le> 0 \<and> k * Second sdiv 2 = k * (500 * Millisecond)" if "0 < k" for k :: int
    using that by (simp add: sdiv_pos)
  have "(30 * Second) sdiv 2 = 15 * Second" "(0 :: int) sdiv 2 = 0" by (simp_all add: sdiv_pos)
  with n [of "ns_MaxIdleTime (ac_Notifier c)"] sdiv_neg [of "ns_MaxIdleTime (ac_Notifier c) * Second"] show ?thesis
    by (cases rule: linorder_cases [of "ns_MaxIdleTime (ac_Notifier c)" 0])
      (auto simp: processWAL_ticker_def cleanupExpiredLocks_ticker_def cleanupIdleClients_ticker_def bufferFlushLoop_ticker_def
        ToStorageConfig_def ToLockManagerConfig_def ToNotifierConfig_def NewNotifier_def NewLockManager_def NewBroadcastBuffer_def
        NewTicker_def default_if_nonpos_def DefaultConfig_def lm_DefaultConfig_ttl_def Let_def d mult_le_0_iff)
qed

theorem config_tickers_witness:
  "processWAL_ticker (ToStorageConfig appDefaultConfig) = Ret (2 * Millisecond) \<and>
   cleanupExpiredLocks_ticker (case ToLockManagerConfig (appDefaultConfig\<lparr>ac_Locks := (ac_Locks appDefaultConfig)\<lparr>ls_CleanupInterval := - 1\<rparr>\<rparr>)
     of (ttl, cleanup) \<Rightarrow> NewLockManager ttl cleanup) = Panic"
  using config_tickers [of appDefaultConfig]
    config_tickers [of "appDefaultConfig\<lparr>ac_Locks := (ac_Locks appDefaultConfig)\<lparr>ls_CleanupInterval := - 1\<rparr>\<rparr>"]
  by (simp add: appDefaultConfig_def)

text \<open>Selecting the optimized storage.\<close>

definition selects_optimized :: "AppConfig \<Rightarrow> bool" where
  "selects_optimized c \<longleftrightarrow> ss_OptimizedEnabled (ac_Storage c) \<or> ss_StorageType (ac_Storage c) = ''badger-optimized''"

text \<open>Closing a database and opening it again succeeds and keeps its contents.\<close>

definition disk_ok :: "'db disk \<Rightarrow> bool" where
  "disk_ok D \<longleftrightarrow> (\<forall>db opts path. db_Close D db \<and> os_MkdirAll D path \<and> db_Open D opts db = Some db)"

lemma factory_basic: "fc_Config (ToStorageFactoryConfig c) = ToStorageConfig c"
  by (simp add: ToStorageFactoryConfig_def ToStorageConfig_def Let_def)

lemma factory_type:
  "fc_Type (ToStorageFactoryConfig c) = (if selects_optimized c then OptimizedBadgerStorage else BadgerStorage)"
  by (simp add: ToStorageFactoryConfig_def selects_optimized_def Let_def)

lemma storage_types_differ [simp]: "OptimizedBadgerStorage \<noteq> BadgerStorage" "BadgerStorage \<noteq> OptimizedBadgerStorage"
  by (simp_all add: OptimizedBadgerStorage_def BadgerStorage_def)

lemma storage_config_eta:
  "\<lparr>cfg_DataDir = cfg_DataDir config, cfg_CacheEnabled = cfg_CacheEnabled config,
    cfg_WALBatchSize = cfg_WALBatchSize config, cfg_WALSyncInterval = cfg_WALSyncInterval config,
    cfg_WorkUnitCacheSize = cfg_WorkUnitCacheSize config, cfg_ContextCacheSize = cfg_ContextCacheSize config,
    cfg_LockCacheSize = cfg_LockCacheSize config, cfg_CacheExpiration = cfg_CacheExpiration config\<rparr> = config"
  by (rule StorageConfig.equality) simp_all

lemma optimized_eq:
  assumes "disk_ok D"
  shows "NewOptimizedStorage B J picks D (factory_optimized c) =
    (case open_storage B J picks D (ToStorageConfig c) of
       Inl e \<Rightarrow> Inl e
     | Inr s \<Rightarrow> Inr (s, [PeriodicGC (duration_of (ss_GCIntervalMinutes (ac_Storage c)) Minute) 0, PeriodicCompaction 0]))"
proof -
  have "applyOptimizedBadgerSettings D o' dir s = Inr s" for o' dir s
    using assms by (simp add: applyOptimizedBadgerSettings_def disk_ok_def)
  moreover have "\<lparr>cfg_DataDir = oc_DataDir (factory_optimized c), cfg_CacheEnabled = oc_CacheEnabled (factory_optimized c),
      cfg_WALBatchSize = oc_WALBatchSize (factory_optimized c), cfg_WALSyncInterval = oc_WALSyncInterval (factory_optimized c),
      cfg_WorkUnitCacheSize = oc_WorkUnitCacheSize (factory_optimized c),
      cfg_ContextCacheSize = oc_ContextCacheSize (factory_optimized c), cfg_LockCacheSize = oc_LockCacheSize (factory_optimized c),
      cfg_CacheExpiration = oc_CacheExpiration (factory_optimized c)\<rparr> = ToStorageConfig c"
    by (simp add: factory_optimized_def ToStorageConfig_def Let_def)
  moreover have "oc_GCInterval (factory_optimized c) = duration_of (ss_GCIntervalMinutes (ac_Storage c)) Minute"
    "oc_GCDiscardRatio (factory_optimized c) = 0" "oc_CompactionInterval (factory_optimized c) = 0"
    by (simp_all add: factory_optimized_def Let_def)
  ultimately show ?thesis
    unfolding NewOptimizedStorage_def Let_def by (simp split: sum.split)
qed

text \<open>Every way to create the storage from a configuration gives the same storage: the factory, \<open>storage.NewStorage\<close> and the
  optimized variant open the same directory with the same cache and replay the same log, so what is proved of the
  storage holds for each. The optimized variant adds garbage collection at the configured interval, and a compaction
  goroutine with the interval zero, whose ticker panics: a configuration that selects it crashes the process.\<close>

lemma storage_factory_agrees:
  assumes "disk_ok D"
  shows "CreateStorage B J picks D (ToStorageFactoryConfig c) =
      (case open_storage B J picks D (ToStorageConfig c) of
         Inl e \<Rightarrow> Inl e
       | Inr s \<Rightarrow> Inr (s, if selects_optimized c
           then [PeriodicGC (duration_of (ss_GCIntervalMinutes (ac_Storage c)) Minute) 0, PeriodicCompaction 0] else [])) \<and>
    storageNewStorage B J picks D (fc_Config (ToStorageFactoryConfig c)) = open_storage B J picks D (ToStorageConfig c) \<and>
    start_maintenance (PeriodicCompaction 0) = Panic"
proof -
  have "(if cfg_DataDir (ToStorageConfig c) \<noteq> [] then (factory_optimized c)\<lparr>oc_DataDir := cfg_DataDir (ToStorageConfig c)\<rparr>
      else factory_optimized c) = factory_optimized c"
    by (simp add: factory_optimized_def ToStorageConfig_def Let_def)
  moreover have "fc_OptimizedConfig (ToStorageFactoryConfig c) = factory_optimized c"
    by (simp add: ToStorageFactoryConfig_def Let_def)
  ultimately show ?thesis unfolding CreateStorage_def
    by (simp add: factory_basic factory_type storageNewStorage_def storage_config_eta optimized_eq [OF assms] Let_def NewTicker_def
        split: sum.split)
qed

text \<open>An empty disk on which everything succeeds.\<close>

definition ref_disk :: "'db \<Rightarrow> 'db disk" where
  "ref_disk db = \<lparr>db_at = (\<lambda>_. db), wal_at = (\<lambda>_. []), db_Close = (\<lambda>_. True), path_Join = (\<lambda>d f. d @ ''/'' @ f), os_MkdirAll = (\<lambda>_. True),
     db_Open = (\<lambda>_. Some), db_RunValueLogGC = (\<lambda>_ db. db), db_Flatten = (\<lambda>_ db. db)\<rparr>"

theorem storage_factory_agrees_witness:
  "\<exists>s. CreateStorage ref_badger ref_codec (\<lambda>_. 0) (ref_disk ref_empty)
      (ToStorageFactoryConfig (appDefaultConfig\<lparr>ac_Storage := (ac_Storage appDefaultConfig)\<lparr>ss_OptimizedEnabled := True\<rparr>\<rparr>)) =
    Inr (s, [PeriodicGC (10 * Minute) 0, PeriodicCompaction 0])"
proof -
  let ?c = "appDefaultConfig\<lparr>ac_Storage := (ac_Storage appDefaultConfig)\<lparr>ss_OptimizedEnabled := True\<rparr>\<rparr>"
  have "disk_ok (ref_disk ref_empty)" by (simp add: disk_ok_def ref_disk_def)
  moreover have "selects_optimized ?c" "duration_of (ss_GCIntervalMinutes (ac_Storage ?c)) Minute = 10 * Minute"
    by (simp_all add: selects_optimized_def duration_of_def int64_exact appDefaultConfig_def del: of_int_mult)
  moreover obtain s where "open_storage ref_badger ref_codec (\<lambda>_. 0) (ref_disk ref_empty) (ToStorageConfig ?c) = Inr s"
    by (simp add: open_storage_def NewStorage_replay replayWAL_def ref_disk_def)
  ultimately show ?thesis using storage_factory_agrees [of "ref_disk ref_empty" ref_badger ref_codec "\<lambda>_. 0" ?c] by simp
qed

end
