(* ===== verification/Engine_Assembly.thy ===== *)
theory Engine_Assembly
  imports Component_Config Search_Backend
begin

text \<open>
  How the components are put together: the factories of \<open>internal/domain\<close> and \<open>internal/lockmanager/factory.go\<close>, the engine of
  \<open>internal/domain/engine.go\<close>, and that of \<open>internal/engine/engine.go\<close>.

  A value of type \<open>interface{}\<close> is a datatype of the dynamic types the code distinguishes. The search store is an input like the
  disk: what \<open>NewSearch\<close> opens in a data directory, or \<open>None\<close> when it fails. Logging and telemetry have no effect on the
  other components and are left out.
\<close>

section \<open>The factories\<close>

datatype any_config = NilConfig | BadgerConfig StorageConfig | ChannelConfig int | ForeignConfig

datatype assembly_error =
    InvalidConfiguration
  | MemoryNotImplemented
  | UnsupportedType bytes
  | StorageFailed create_error
  | SearchFailed
  | FiberNotWrapped
  | UnsupportedConfigType
  | DataDirFailed

definition NewStorageEngine ::
  "('db, 'txn) badger \<Rightarrow> json_codec \<Rightarrow> (nat \<Rightarrow> nat) \<Rightarrow> 'db disk \<Rightarrow> bytes \<Rightarrow> any_config \<Rightarrow> assembly_error + 'db Storage" where
  "NewStorageEngine B J picks D ty config =
     (let create = (\<lambda>c. case open_storage B J picks D c of Inl e \<Rightarrow> Inl (StorageFailed e) | Inr s \<Rightarrow> Inr s)
      in if ty = ''badger'' then
           case config of
             NilConfig \<Rightarrow> create DefaultConfig
           | BadgerConfig badgerConfig \<Rightarrow> create badgerConfig
           | _ \<Rightarrow> Inl InvalidConfiguration
         else if ty = ''memory'' then Inl MemoryNotImplemented
         else Inl (UnsupportedType ty))"

definition NewEventRouter :: "bytes \<Rightarrow> any_config \<Rightarrow> assembly_error + Router" where
  "NewEventRouter ty config =
     (if ty = ''channel'' then
        case config of
          NilConfig \<Rightarrow> Inr (NewRouter (Some routerDefaultConfig))
        | ChannelConfig maxBufferSize \<Rightarrow> Inr (NewRouter (Some maxBufferSize))
        | _ \<Rightarrow> Inl InvalidConfiguration
      else Inl (UnsupportedType ty))"

text \<open>The delays of the retries only govern sleeps and have no counterpart in the model of the enhanced manager.\<close>

record LockFactoryConfig =
  lf_Type :: bytes
  lf_DefaultTTL :: duration
  lf_CleanupInterval :: duration
  lf_MaxLocksPerAgent :: int
  lf_AcquisitionTimeout :: duration
  lf_MaxRetries :: int

datatype some_manager = EnhancedManager EnhancedLockManager | BasicManager LockManager

definition NewLockManagerFactory :: "LockFactoryConfig \<Rightarrow> some_manager" where
  "NewLockManagerFactory config =
     (if lf_Type config = ''enhanced'' then
        EnhancedManager (NewEnhancedLockManager
          \<lparr>ec_DefaultTTL = lf_DefaultTTL config, ec_CleanupInterval = lf_CleanupInterval config,
           ec_MaxLocksPerAgent = lf_MaxLocksPerAgent config, ec_AcquisitionTimeout = lf_AcquisitionTimeout config,
           ec_MaxRetries = lf_MaxRetries config\<rparr>)
      else BasicManager (NewLockManager (lf_DefaultTTL config) (lf_CleanupInterval config)))"

record APIConfig =
  ap_Type :: bytes
  ap_Addr :: bytes
  ap_ReadTimeout :: duration
  ap_WriteTimeout :: duration
  ap_IdleTimeout :: duration

record ChiConfig =
  ch_Addr :: bytes
  ch_ReadTimeout :: duration
  ch_WriteTimeout :: duration
  ch_IdleTimeout :: duration

definition chiDefaultConfig :: ChiConfig where
  "chiDefaultConfig = \<lparr>ch_Addr = '':8080'', ch_ReadTimeout = 5 * Second, ch_WriteTimeout = 10 * Second,
     ch_IdleTimeout = 120 * Second\<rparr>"

definition NewChiAPI :: "ChiConfig \<Rightarrow> ChiConfig" where
  "NewChiAPI config =
     \<lparr>ch_Addr = (if ch_Addr config = [] then ch_Addr chiDefaultConfig else ch_Addr config),
      ch_ReadTimeout = (if ch_ReadTimeout config = 0 then ch_ReadTimeout chiDefaultConfig else ch_ReadTimeout config),
      ch_WriteTimeout = (if ch_WriteTimeout config = 0 then ch_WriteTimeout chiDefaultConfig else ch_WriteTimeout config),
      ch_IdleTimeout = (if ch_IdleTimeout config = 0 then ch_IdleTimeout chiDefaultConfig else ch_IdleTimeout config)\<rparr>"

definition NewAPIEngine :: "APIConfig \<Rightarrow> assembly_error + ChiConfig" where
  "NewAPIEngine config =
     (if ap_Type config = ''chi'' then
        Inr (NewChiAPI \<lparr>ch_Addr = ap_Addr config, ch_ReadTimeout = ap_ReadTimeout config,
          ch_WriteTimeout = ap_WriteTimeout config, ch_IdleTimeout = ap_IdleTimeout config\<rparr>)
      else if ap_Type config = ''fiber'' then Inl FiberNotWrapped
      else Inl (UnsupportedType (ap_Type config)))"

section \<open>The engine of the domain package\<close>

record EngineConfig =
  en_StorageType :: bytes
  en_StorageConfig :: any_config
  en_RouterType :: bytes
  en_RouterConfig :: any_config
  en_API :: APIConfig
  en_LockTTL :: duration
  en_DataDir :: bytes

record ('db, 'sdb) Engine =
  eg_storage :: "'db Storage"
  eg_router :: Router
  eg_notifier :: Notifier
  eg_lockMgr :: some_manager
  eg_search :: "'sdb Search"
  eg_api :: ChiConfig

definition domainNewEngine ::
  "('db, 'txn) badger \<Rightarrow> json_codec \<Rightarrow> (nat \<Rightarrow> nat) \<Rightarrow> 'db disk \<Rightarrow> (bytes \<Rightarrow> 'sdb option) \<Rightarrow> EngineConfig \<Rightarrow>
   assembly_error + ('db, 'sdb) Engine" where
  "domainNewEngine B J picks D open_search config =
     (case NewStorageEngine B J picks D (en_StorageType config) (en_StorageConfig config) of
        Inl e \<Rightarrow> Inl e
      | Inr storage \<Rightarrow>
     (case NewEventRouter (en_RouterType config) (en_RouterConfig config) of
        Inl e \<Rightarrow> Inl e
      | Inr eventRouter \<Rightarrow>
          let lockMgr = NewLockManagerFactory
                \<lparr>lf_Type = ''enhanced'', lf_DefaultTTL = en_LockTTL config, lf_CleanupInterval = Minute,
                 lf_MaxLocksPerAgent = 100, lf_AcquisitionTimeout = 5 * Second, lf_MaxRetries = 3\<rparr>
          in (case open_search (en_DataDir config) of
                None \<Rightarrow> Inl SearchFailed
              | Some sdb \<Rightarrow>
                  let notifier = NewNotifier \<lparr>nc_MaxIdleTime = 30 * Second, nc_BroadcastBufferSize = 0,
                        nc_BroadcastFlushInterval = 0\<rparr>
                  in (case NewAPIEngine (en_API config) of
                        Inl e \<Rightarrow> Inl e
                      | Inr api \<Rightarrow>
                          Inr \<lparr>eg_storage = storage, eg_router = eventRouter, eg_notifier = notifier, eg_lockMgr = lockMgr,
                            eg_search = NewSearch sdb, eg_api = api\<rparr>))))"

text \<open>\<open>Start\<close> subscribes for the notifier and for the search, in this order, and starts the goroutines; what they then do are the
  steps below. The result names the two subscriptions.\<close>

definition start_manager :: "some_manager \<Rightarrow> some_manager" where
  "start_manager m =
     (case m of EnhancedManager m \<Rightarrow> EnhancedManager (em_loadLocks m) | BasicManager m \<Rightarrow> BasicManager (loadLocks m))"

definition domainStart ::
  "env \<Rightarrow> env \<Rightarrow> ('db, 'sdb) Engine \<Rightarrow> (unit, bytes \<times> bytes) outcome \<times> ('db, 'sdb) Engine" where
  "domainStart E1 E2 e =
     (case Subscribe E1 [''*''] (eg_router e) of
        (Ret subscription, r) \<Rightarrow>
          (case Subscribe E2 [] r of
             (Ret searchSubscription, r) \<Rightarrow>
               (Ret (subscription, searchSubscription), e\<lparr>eg_router := r, eg_lockMgr := start_manager (eg_lockMgr e)\<rparr>)
           | (_, r) \<Rightarrow> (Panic, e\<lparr>eg_router := r\<rparr>))
      | (_, r) \<Rightarrow> (Panic, e\<lparr>eg_router := r\<rparr>))"

text \<open>\<open>Shutdown\<close> in its order: router, notifier, lock manager (nothing to do), search, storage. The queue of the search is closed
  and then its store. Panics of the notifier end the call.\<close>

definition domainShutdown :: "('db, 'sdb) Engine \<Rightarrow> (unit, unit) outcome \<times> ('db, 'sdb) Engine" where
  "domainShutdown e =
     (let e = e\<lparr>eg_router := routerShutdown (eg_router e)\<rparr>
      in case notifierShutdown (eg_notifier e) of
           (Ret _, n) \<Rightarrow>
             (Ret (), e\<lparr>eg_notifier := n,
                eg_search := (eg_search e)\<lparr>se_queue := close_chan (se_queue (eg_search e)), se_open := False\<rparr>,
                eg_storage := ShutdownStorage (eg_storage e)\<rparr>)
         | (_, n) \<Rightarrow> (Panic, e\<lparr>eg_notifier := n\<rparr>))"

text \<open>The goroutines of a running engine. The storage serves calls; the router takes an event from the stream and routes it, and
  cleans up; the notifier and the search receive from their subscriptions; the search indexes. A call of the storage
  other than \<open>CreateWorkUnit\<close> leaves the event stream alone, and what the clients of the notifier and of the lock
  manager do does not touch the router.\<close>

datatype engine_event =
    EnCreate env CreateWorkUnitRequest
  | EnStorage
  | EnRoute gotime WorkUnit
  | EnCleanup gotime
  | EnPublish WorkUnit
  | EnNotifier
  | EnLocks
  | EnEnqueue WorkUnit
  | EnSearch search_event

inductive engine_step ::
  "('db, 'txn) badger \<Rightarrow> json_codec \<Rightarrow> (gotime \<Rightarrow> WorkUnit list \<Rightarrow> 'sdb \<Rightarrow> 'sdb) \<Rightarrow> bytes \<times> bytes \<Rightarrow>
   ('db, 'sdb) Engine \<Rightarrow> engine_event \<Rightarrow> ('db, 'sdb) Engine \<Rightarrow> bool"
  for B J idx subs where
  create: "engine_step B J idx subs e (EnCreate E req) (e\<lparr>eg_storage := snd (CreateWorkUnit B J E req (eg_storage e))\<rparr>)"
| storage: "st_events s = st_events (eg_storage e) \<Longrightarrow> engine_step B J idx subs e EnStorage (e\<lparr>eg_storage := s\<rparr>)"
| route: "ch_buf (st_events (eg_storage e)) = u # us \<Longrightarrow>
    engine_step B J idx subs e (EnRoute now u)
      (e\<lparr>eg_storage := (eg_storage e)\<lparr>st_events := (st_events (eg_storage e))\<lparr>ch_buf := us\<rparr>\<rparr>,
         eg_router := snd (routeEvent now (Some u) (eg_router e))\<rparr>)"
| cleanup: "engine_step B J idx subs e (EnCleanup now) (e\<lparr>eg_router := routerPerformCleanup now (eg_router e)\<rparr>)"
| publish: "rt_receive (fst subs) (eg_router e) = (Some u, r) \<Longrightarrow>
    engine_step B J idx subs e (EnPublish u)
      (e\<lparr>eg_router := r, eg_notifier := (eg_notifier e)\<lparr>nt_buffer := snd (Publish u (nt_buffer (eg_notifier e)))\<rparr>\<rparr>)"
| notifier: "engine_step B J idx subs e EnNotifier (e\<lparr>eg_notifier := n\<rparr>)"
| locks: "engine_step B J idx subs e EnLocks (e\<lparr>eg_lockMgr := m\<rparr>)"
| enqueue: "rt_receive (snd subs) (eg_router e) = (Some u, r) \<Longrightarrow> search_enqueue u (eg_search e) = Some s \<Longrightarrow>
    engine_step B J idx subs e (EnEnqueue u) (e\<lparr>eg_router := r, eg_search := s\<rparr>)"
| search: "search_step index_batchSize idx (eg_search e) x s \<Longrightarrow> (\<forall>u. x \<noteq> SEnqueue u) \<Longrightarrow>
    engine_step B J idx subs e (EnSearch x) (e\<lparr>eg_search := s\<rparr>)"

inductive engine_run ::
  "('db, 'txn) badger \<Rightarrow> json_codec \<Rightarrow> (gotime \<Rightarrow> WorkUnit list \<Rightarrow> 'sdb \<Rightarrow> 'sdb) \<Rightarrow> bytes \<times> bytes \<Rightarrow>
   ('db, 'sdb) Engine \<Rightarrow> engine_event list \<Rightarrow> ('db, 'sdb) Engine \<Rightarrow> bool"
  for B J idx subs where
  start: "engine_run B J idx subs e [] e"
| step: "engine_run B J idx subs e evs e1 \<Longrightarrow> engine_step B J idx subs e1 x e2 \<Longrightarrow> engine_run B J idx subs e (evs @ [x]) e2"

section \<open>The engine of the engine package\<close>

text \<open>\<open>engine.Config\<close> has the fields of \<open>config.EngramEngineConfig\<close>. The argument of \<open>CreateEngine\<close> by its dynamic type: \<open>engine.Config\<close>, the
  struct type written out in the switch, \<open>config.EngramEngineConfig\<close>, or any other. A named type is never identical
  to a struct type, so the second case does not match a value of the third type.\<close>

datatype engine_arg = EngineConfigArg EngramEngineConfig | PlainStruct EngramEngineConfig
  | ConfigPackage EngramEngineConfig | OtherArg

definition engineDefaultConfig :: EngramEngineConfig where
  "engineDefaultConfig = \<lparr>ee_DataDir = ''./data'', ee_ServerAddr = '':8080'', ee_LogLevel = ''info'', ee_WALSyncIntervalMs = 2,
     ee_WALBatchSize = 64, ee_DefaultLockTTLSeconds = 60, ee_MaxIdleConnectionSeconds = 30\<rparr>"

text \<open>The notifier is a pointer; the search engine is the kind of its backend, which is opened when it starts.\<close>

record 'db CoreEngine =
  ce_config :: EngramEngineConfig
  ce_storage :: "'db Storage"
  ce_router :: Router
  ce_notifier :: "Notifier option"
  ce_lockMgr :: LockManager
  ce_search :: EngineType
  ce_api :: bytes

definition engineNewEngine ::
  "EngramEngineConfig \<Rightarrow> 'db Storage \<Rightarrow> Router \<Rightarrow> LockManager \<Rightarrow> EngineType \<Rightarrow> bytes \<Rightarrow> 'db CoreEngine" where
  "engineNewEngine config storage router lockMgr search api =
     \<lparr>ce_config = config, ce_storage = storage, ce_router = router, ce_notifier = None, ce_lockMgr = lockMgr,
      ce_search = search, ce_api = api\<rparr>"

definition fiberNewAPI :: "bytes \<Rightarrow> bytes" where
  "fiberNewAPI addr = (if addr = [] then '':8080'' else addr)"

definition engine_config_of :: "engine_arg \<Rightarrow> EngramEngineConfig option" where
  "engine_config_of arg =
     (case arg of
        EngineConfigArg cfg \<Rightarrow> Some cfg
      | PlainStruct cfg \<Rightarrow>
          Some \<lparr>ee_DataDir = ee_DataDir cfg, ee_ServerAddr = ee_ServerAddr cfg, ee_LogLevel = ee_LogLevel cfg,
            ee_WALSyncIntervalMs = ee_WALSyncIntervalMs cfg, ee_WALBatchSize = ee_WALBatchSize cfg,
            ee_DefaultLockTTLSeconds = ee_DefaultLockTTLSeconds cfg, ee_MaxIdleConnectionSeconds = ee_MaxIdleConnectionSeconds cfg\<rparr>
      | ConfigPackage cfg \<Rightarrow> None
      | OtherArg \<Rightarrow> None)"

definition engineCreateEngine ::
  "('db, 'txn) badger \<Rightarrow> json_codec \<Rightarrow> (nat \<Rightarrow> nat) \<Rightarrow> 'db disk \<Rightarrow> engine_arg \<Rightarrow> assembly_error + 'db CoreEngine" where
  "engineCreateEngine B J picks D arg =
     (case engine_config_of arg of
        None \<Rightarrow> Inl UnsupportedConfigType
      | Some engineConfig \<Rightarrow>
          if \<not> os_MkdirAll D (ee_DataDir engineConfig) then Inl DataDirFailed
          else
            let storageConfig = \<lparr>cfg_DataDir = ee_DataDir engineConfig, cfg_CacheEnabled = True,
                  cfg_WALBatchSize = ee_WALBatchSize engineConfig,
                  cfg_WALSyncInterval = duration_of (ee_WALSyncIntervalMs engineConfig) Millisecond,
                  cfg_WorkUnitCacheSize = 10000, cfg_ContextCacheSize = 1000, cfg_LockCacheSize = 5000,
                  cfg_CacheExpiration = 30 * Second\<rparr>
            in (case open_storage B J picks D storageConfig of
                  Inl e \<Rightarrow> Inl (StorageFailed e)
                | Inr storage \<Rightarrow>
                    let r = NewRouter None;
                        lockMgr = NewLockManager (duration_of (ee_DefaultLockTTLSeconds engineConfig) Second) Minute
                    in (case NewEngine False of
                          Inl _ \<Rightarrow> Inl SearchFailed
                        | Inr searchEngine \<Rightarrow>
                            Inr (engineNewEngine engineConfig storage r lockMgr searchEngine
                              (fiberNewAPI (ee_ServerAddr engineConfig))))))"

text \<open>The goroutines of \<open>Start\<close>. Starting the notifier through a nil pointer is a nil dereference, which ends the process.\<close>

datatype goroutine = GoStorage | GoRouter | GoNotifier | GoApi | GoLockMgr | GoSearch

definition start_goroutine :: "'db CoreEngine \<Rightarrow> goroutine \<Rightarrow> (unit, unit) outcome" where
  "start_goroutine e g = (case g of GoNotifier \<Rightarrow> (case ce_notifier e of None \<Rightarrow> Panic | Some n \<Rightarrow> Ret ()) | _ \<Rightarrow> Ret ())"

definition engineStart :: "env \<Rightarrow> env \<Rightarrow> 'db CoreEngine \<Rightarrow> (unit, unit) outcome" where
  "engineStart E1 E2 e =
     (case Subscribe E1 [''*''] (ce_router e) of
        (Ret subscription, r) \<Rightarrow>
          (case Subscribe E2 [] r of
             (Ret searchSubscription, r) \<Rightarrow>
               if \<exists>g \<in> set [GoStorage, GoRouter, GoNotifier, GoApi, GoLockMgr, GoSearch]. start_goroutine e g = Panic then Panic
               else Ret ()
           | _ \<Rightarrow> Panic)
      | _ \<Rightarrow> Panic)"

section \<open>Properties\<close>

text \<open>What the engine's own subscriptions can hold in any state: the notifier's only units of the context \<open>*\<close>, the search's
  nothing, and so the search has nothing queued and its store is untouched.\<close>

definition engine_inv :: "'sdb \<Rightarrow> bytes \<times> bytes \<Rightarrow> ('db, 'sdb) Engine \<Rightarrow> bool" where
  "engine_inv sdb subs e \<longleftrightarrow> rt_inv (eg_router e) \<and>
     rt_contexts (eg_router e) (fst subs) \<subseteq> {''*''} \<and> rt_contexts (eg_router e) (snd subs) = {} \<and>
     (\<forall>u \<in> set (ch_buf (rt_chan (eg_router e) (fst subs))). wu_ContextId u = ''*'') \<and>
     ch_buf (rt_chan (eg_router e) (snd subs)) = [] \<and>
     se_db (eg_search e) = sdb \<and> se_batch (eg_search e) = [] \<and> ch_buf (se_queue (eg_search e)) = []"

lemma Unsubscribe_contexts: "rt_contexts (Unsubscribe i r) j \<subseteq> rt_contexts r j"
  by (auto simp: Unsubscribe_def rt_contexts_def split: option.splits if_splits)

lemma Unsubscribe_buf: "ch_buf (rt_chan (Unsubscribe i r) j) = ch_buf (rt_chan r j)"
  by (auto simp: Unsubscribe_def rt_chan_def rt_set_chan_def close_chan_def split: option.splits)

lemma cleanup_parts:
  "rt_contexts (routerPerformCleanup now r) j \<subseteq> rt_contexts r j"
  "ch_buf (rt_chan (routerPerformCleanup now r) j) = ch_buf (rt_chan r j)"
proof -
  have "rt_contexts (fold Unsubscribe is r) j \<subseteq> rt_contexts r j \<and>
      ch_buf (rt_chan (fold Unsubscribe is r) j) = ch_buf (rt_chan r j)" for "is"
  proof (induction "is" arbitrary: r)
    case (Cons i ids)
    show ?case using Cons [of "Unsubscribe i r"] Unsubscribe_contexts [of i r j] Unsubscribe_buf [of i r j] by auto
  qed simp
  then show "rt_contexts (routerPerformCleanup now r) j \<subseteq> rt_contexts r j"
    "ch_buf (rt_chan (routerPerformCleanup now r) j) = ch_buf (rt_chan r j)"
    by (auto simp: routerPerformCleanup_def)
qed

lemma receive_parts:
  assumes "rt_receive i r = (Some u, r')"
  shows "u \<in> set (ch_buf (rt_chan r i))" and "rt_contexts r' = rt_contexts r"
    and "set (ch_buf (rt_chan r' j)) \<subseteq> set (ch_buf (rt_chan r j))"
  using assms by (auto simp: rt_receive_def rt_contexts_def fun_eq_iff split: list.splits if_splits)

lemma engine_inv_route:
  assumes "engine_inv sdb subs e"
  shows "engine_inv sdb subs (e\<lparr>eg_storage := s, eg_router := snd (routeEvent now (Some u) (eg_router e))\<rparr>)"
proof -
  obtain r where "routeEvent now (Some u) (eg_router e) = (Ret (), r)" "rt_inv r" "rt_contexts r = rt_contexts (eg_router e)"
    "rt_chan r = (\<lambda>i. if wu_ContextId u \<noteq> [] \<and> wu_ContextId u \<in> rt_contexts (eg_router e) i
       then push u (rt_chan (eg_router e) i) else rt_chan (eg_router e) i)"
    using routeEvent_effect assms unfolding engine_inv_def by blast
  then show ?thesis using assms by (auto simp: engine_inv_def push_def)
qed

lemma engine_inv_step:
  assumes "engine_step B J idx subs e x e'" and inv: "engine_inv sdb subs e"
  shows "engine_inv sdb subs e' \<and> (\<forall>u. x = EnPublish u \<longrightarrow> wu_ContextId u = ''*'') \<and> (\<forall>u. x \<noteq> EnEnqueue u)"
  using assms(1)
proof cases
  case (route u us now)
  then show ?thesis using engine_inv_route [OF inv] by simp
next
  case (cleanup now)
  have "rt_inv (routerPerformCleanup now (eg_router e))"
    using inv by (simp add: engine_inv_def routerPerformCleanup_def rt_inv_unsubscribe_all)
  moreover note cleanup_parts [of now "eg_router e"]
  ultimately show ?thesis using inv cleanup unfolding engine_inv_def by fastforce
next
  case (publish u r)
  have "rt_inv r" using publish(3) inv rt_inv_receive [of "eg_router e" "fst subs"] by (simp add: engine_inv_def)
  moreover note receive_parts [OF publish(3)]
  moreover from this(3) [of "snd subs"] inv have "ch_buf (rt_chan r (snd subs)) = []" by (simp add: engine_inv_def)
  moreover have "\<forall>u \<in> set (ch_buf (rt_chan r (fst subs))). wu_ContextId u = ''*''"
    using receive_parts(3) [OF publish(3), of "fst subs"] inv by (auto simp: engine_inv_def)
  ultimately show ?thesis using publish(1,2) inv by (simp add: engine_inv_def)
next
  case (enqueue u r s)
  then show ?thesis using receive_parts(1) [OF enqueue(3)] inv by (simp add: engine_inv_def)
next
  case (search y s)
  from search(3) inv search(4) have "se_db s = sdb \<and> se_batch s = [] \<and> ch_buf (se_queue s) = []"
    by cases (auto simp: engine_inv_def flush_batch_def close_chan_def)
  then show ?thesis using search inv by (simp add: engine_inv_def)
qed (use inv in \<open>simp_all add: engine_inv_def\<close>)

lemma engine_inv_run:
  assumes "engine_run B J idx subs e evs e'" and "engine_inv sdb subs e"
  shows "engine_inv sdb subs e' \<and> (\<forall>u. EnPublish u \<in> set evs \<longrightarrow> wu_ContextId u = ''*'') \<and> (\<forall>u. EnEnqueue u \<notin> set evs)"
  using assms
proof (induction rule: engine_run.induct)
  case (step e evs e1 x e2)
  then show ?case using engine_inv_step [OF step.hyps(2)] by auto
qed simp

lemma started_inv:
  assumes "domainNewEngine B J picks D open_search config = Inr e0" and "domainStart E1 E2 e0 = (Ret subs, e)"
    and "env_uuid E1 \<noteq> env_uuid E2"
  shows "engine_inv (se_db (eg_search e0)) subs e"
proof -
  have r0: "\<exists>n. eg_router e0 = NewRouter (Some n)"
    using assms(1) by (auto simp: domainNewEngine_def NewEventRouter_def Let_def split: sum.splits option.splits if_splits any_config.splits)
  have s0: "\<exists>sdb. eg_search e0 = NewSearch sdb"
    using assms(1) by (auto simp: domainNewEngine_def Let_def split: sum.splits option.splits)
  obtain n sdb where n: "eg_router e0 = NewRouter (Some n)" "eg_search e0 = NewSearch sdb" using r0 s0 by blast
  let ?r1 = "snd (Subscribe E1 [''*''] (NewRouter (Some n)))"
  have "0 \<le> n" and subs: "subs = (env_uuid E1, env_uuid E2)" and e: "eg_router e = snd (Subscribe E2 [] ?r1)" "eg_search e = eg_search e0"
    using assms(2) n(1) by (auto simp: domainStart_def Subscribe_def Let_def NewRouter_def split: if_splits)
  have "rt_inv (NewRouter (Some n))" by (intro rt_reachable_inv rt_reachable.init)
  then have "rt_inv ?r1" by (intro rt_inv_subscribe) (simp_all add: NewRouter_def)
  moreover have "map_of (rt_chans ?r1) (env_uuid E2) = None"
    using assms(3) by (simp add: Subscribe_def NewRouter_def Let_def)
  ultimately have "rt_inv (eg_router e)" unfolding e(1) by (rule rt_inv_subscribe)
  then show ?thesis
    using assms(3) \<open>0 \<le> n\<close> e n(2) subs
    by (simp add: engine_inv_def Subscribe_def NewRouter_def Let_def rt_contexts_def rt_chan_def make_chan_def NewSearch_def)
qed

text \<open>C38. The engine starves its subscribers. It subscribes the notifier to the context \<open>*\<close>, which the router takes literally, and the
  search to no context at all. In every run, whatever is created and in whatever order the goroutines move, no unit
  ever reaches the search, so its index stays as it was at the start, and the notifier publishes only units whose
  context is literally \<open>*\<close>.\<close>

theorem engine_search_starved:
  assumes "domainNewEngine B J picks D open_search config = Inr e0" and "domainStart E1 E2 e0 = (Ret subs, e)"
    and "env_uuid E1 \<noteq> env_uuid E2" and "engine_run B J idx subs e evs e'"
  shows "se_db (eg_search e') = se_db (eg_search e0) \<and> (\<forall>u. EnEnqueue u \<notin> set evs) \<and>
    (\<forall>u. EnPublish u \<in> set evs \<longrightarrow> wu_ContextId u = ''*'')"
  using engine_inv_run [OF assms(4) started_inv [OF assms(1-3)]] by (simp add: engine_inv_def)

text \<open>A configuration with the defaults of every component.\<close>

definition ex_engine_config :: EngineConfig where
  "ex_engine_config = \<lparr>en_StorageType = ''badger'', en_StorageConfig = NilConfig, en_RouterType = ''channel'', en_RouterConfig = NilConfig,
     en_API = \<lparr>ap_Type = ''chi'', ap_Addr = [], ap_ReadTimeout = 0, ap_WriteTimeout = 0, ap_IdleTimeout = 0\<rparr>, en_LockTTL = Minute,
     en_DataDir = ''./data''\<rparr>"

definition ex_create :: CreateWorkUnitRequest where
  "ex_create = \<lparr>cwr_ContextId = ''c'', cwr_AgentId = ''a'', cwr_Type = WorkUnitType_MESSAGE, cwr_Meta = None,
     cwr_Payload = Some ''x'', cwr_Relationships = []\<rparr>"

lemma open_ref_disk: "\<exists>s. open_storage B J picks (ref_disk db) config = Inr s"
  by (simp add: open_storage_def NewStorage_replay replayWAL_def ref_disk_def)

theorem engine_search_starved_witness:
  "\<exists>e0 e e'. domainNewEngine ref_badger ref_codec (\<lambda>_. 0) (ref_disk ref_empty) (\<lambda>_. Some ref_empty) ex_engine_config = Inr e0 \<and>
     domainStart (rt_env 0 ''n'') (rt_env 0 ''s'') e0 = (Ret (''n'', ''s''), e) \<and>
     engine_run ref_badger ref_codec (indexBatch ref_badger (\<lambda>s. s) ex_order) (''n'', ''s'') e
       [EnCreate (rt_env 7 ''u'') ex_create, EnCleanup 9] e' \<and> se_db (eg_search e') = ref_empty"
proof -
  let ?idx = "indexBatch ref_badger (\<lambda>s. s) ex_order"
  obtain st where "open_storage ref_badger ref_codec (\<lambda>_. 0) (ref_disk ref_empty) DefaultConfig = Inr st"
    using open_ref_disk [of ref_badger] by blast
  then obtain e0 where e0: "domainNewEngine ref_badger ref_codec (\<lambda>_. 0) (ref_disk ref_empty) (\<lambda>_. Some ref_empty) ex_engine_config = Inr e0"
    "eg_router e0 = NewRouter (Some routerDefaultConfig)" "eg_search e0 = NewSearch ref_empty"
    by (simp add: domainNewEngine_def NewStorageEngine_def NewEventRouter_def NewAPIEngine_def ex_engine_config_def Let_def)
  then obtain e where e: "domainStart (rt_env 0 ''n'') (rt_env 0 ''s'') e0 = (Ret (''n'', ''s''), e)"
    by (simp add: domainStart_def Subscribe_def NewRouter_def routerDefaultConfig_def rt_env_def Let_def)
  obtain e' where run: "engine_run ref_badger ref_codec ?idx (''n'', ''s'') e [EnCreate (rt_env 7 ''u'') ex_create, EnCleanup 9] e'"
    using engine_run.step [OF engine_run.step [OF engine_run.start engine_step.create] engine_step.cleanup] by fastforce
  from engine_search_starved [OF e0(1) e _ run] e0 e run show ?thesis by (auto simp: rt_env_def NewSearch_def)
qed

text \<open>The engine of the engine package does not run. \<open>CreateEngine\<close> refuses the configuration the config package makes for it, whatever its
  values, although it is meant to accept it; and an engine it does create has no notifier, so \<open>Start\<close> panics.\<close>

lemma engine_never_runs:
  "engineCreateEngine B J picks D (ConfigPackage (ToEngineConfig c)) = Inl UnsupportedConfigType \<and>
   (\<forall>arg e. engineCreateEngine B J picks D arg = Inr e \<longrightarrow> engineStart E1 E2 e = Panic)"
proof -
  have "ce_notifier e = None" if "engineCreateEngine B J picks D arg = Inr e" for arg e
    using that by (auto simp: engineCreateEngine_def engineNewEngine_def Let_def split: option.splits sum.splits if_splits)
  then have "engineStart E1 E2 e = Panic" if "engineCreateEngine B J picks D arg = Inr e" for arg e
    using that by (auto simp: engineStart_def start_goroutine_def split: prod.splits outcome.splits)
  then show ?thesis by (auto simp: engineCreateEngine_def engine_config_of_def)
qed

theorem engine_never_runs_witness:
  "\<exists>e. engineCreateEngine ref_badger ref_codec (\<lambda>_. 0) (ref_disk ref_empty) (EngineConfigArg engineDefaultConfig) = Inr e \<and>
     engineStart (rt_env 0 ''n'') (rt_env 0 ''s'') e = Panic"
proof -
  obtain e where "engineCreateEngine ref_badger ref_codec (\<lambda>_. 0) (ref_disk ref_empty) (EngineConfigArg engineDefaultConfig) = Inr e"
  proof -
    obtain st where "open_storage ref_badger ref_codec (\<lambda>_. 0) (ref_disk ref_empty)
        \<lparr>cfg_DataDir = ''./data'', cfg_CacheEnabled = True, cfg_WALBatchSize = 64, cfg_WALSyncInterval = duration_of 2 Millisecond,
         cfg_WorkUnitCacheSize = 10000, cfg_ContextCacheSize = 1000, cfg_LockCacheSize = 5000, cfg_CacheExpiration = 30 * Second\<rparr> = Inr st"
      using open_ref_disk [of ref_badger] by blast
    moreover have "os_MkdirAll (ref_disk ref_empty) p" for p by (simp add: ref_disk_def)
    ultimately show ?thesis using that
      by (simp add: engineCreateEngine_def engine_config_of_def engineDefaultConfig_def Let_def NewEngine_def CreateEngine_def)
  qed
  with engine_never_runs [of ref_badger ref_codec "\<lambda>_. 0" "ref_disk ref_empty" appDefaultConfig "rt_env 0 ''n''" "rt_env 0 ''s''"]
  show ?thesis by blast
qed

end
