(* ===== verification/Api_Client.thy ===== *)
theory Api_Client
  imports Api_Properties
begin

text \<open>
  The client library \<open>pkg/client/client.go\<close>: its construction, the request all operations share (\<open>do\<close>), every operation, and the
  loop that receives events.

  The network is a parameter: \<open>http_Do\<close> takes the request target and gives the status and the decoded body, from a server state to
  the next. A JSON document is a record of the fields the response structs of the client name; a field that is absent
  has its zero value, as in Go. \<open>net/url\<close> and the canonical form of header names are modelled as the library defines them.
  The second part connects the client to the Fiber server; its routing is a parameter with the contract of Fiber's documentation.
\<close>

section \<open>Library functions\<close>

definition upperhex :: "nat \<Rightarrow> char" where
  "upperhex n = ''0123456789ABCDEF'' ! n"

definition is_letter :: "char \<Rightarrow> bool" where
  "is_letter c \<longleftrightarrow> (CHR ''a'' \<le> c \<and> c \<le> CHR ''z'') \<or> (CHR ''A'' \<le> c \<and> c \<le> CHR ''Z'')"

definition unreserved :: "char \<Rightarrow> bool" where
  "unreserved c \<longleftrightarrow> is_letter c \<or> is_digit c \<or> c \<in> set ''-_.~''"

text \<open>\<open>url.escape\<close> in its three modes: a whole path, a path segment, a query component. What is not kept is written as a percent sign
  and two hexadecimal digits; a query writes a space as a plus sign.\<close>

definition path_keeps :: "char \<Rightarrow> bool" where
  "path_keeps c \<longleftrightarrow> unreserved c \<or> c \<in> set ''$&+,/:;=@''"

definition segment_keeps :: "char \<Rightarrow> bool" where
  "segment_keeps c \<longleftrightarrow> unreserved c \<or> c \<in> set ''$&+=:@''"

definition percent :: "char \<Rightarrow> bytes" where
  "percent c = [CHR ''%'', upperhex (of_char c div 16), upperhex (of_char c mod 16)]"

definition escapePath :: "bytes \<Rightarrow> bytes" where
  "escapePath s = concat (map (\<lambda>c. if path_keeps c then [c] else percent c) s)"

definition PathEscape :: "bytes \<Rightarrow> bytes" where
  "PathEscape s = concat (map (\<lambda>c. if segment_keeps c then [c] else percent c) s)"

definition QueryEscape :: "bytes \<Rightarrow> bytes" where
  "QueryEscape s = concat (map (\<lambda>c. if unreserved c then [c] else if c = CHR '' '' then ''+'' else percent c) s)"

text \<open>\<open>http.CanonicalHeaderKey\<close>: a letter at the start or after a hyphen is upper case, the others lower case; a key with a
  byte that is not allowed in a header name is left as it is.\<close>

definition shift_case :: "nat \<Rightarrow> nat \<Rightarrow> char \<Rightarrow> char" where
  "shift_case add sub c = char_of (of_char c + add - sub)"

definition upper_char :: "char \<Rightarrow> char" where
  "upper_char c = (if CHR ''a'' \<le> c \<and> c \<le> CHR ''z'' then shift_case 0 32 c else c)"

definition lower_char :: "char \<Rightarrow> char" where
  "lower_char c = (if CHR ''A'' \<le> c \<and> c \<le> CHR ''Z'' then shift_case 32 0 c else c)"

fun canonical_loop :: "bool \<Rightarrow> bytes \<Rightarrow> bytes" where
  "canonical_loop upper [] = []"
| "canonical_loop upper (c # cs) = (if upper then upper_char c else lower_char c) # canonical_loop (c = CHR ''-'') cs"

definition CanonicalHeaderKey :: "bytes \<Rightarrow> bytes" where
  "CanonicalHeaderKey k =
     (if list_all (\<lambda>c. is_letter c \<or> is_digit c \<or> c \<in> set ''!#$%&*+-.^_`|~'' \<or> c = CHR 0x27) k then canonical_loop True k else k)"

definition Header_Set :: "bytes \<Rightarrow> bytes \<Rightarrow> bytes gomap \<Rightarrow> bytes gomap" where
  "Header_Set k v h = AList.update (CanonicalHeaderKey k) v h"

section \<open>The client\<close>

record ApiClient =
  hc_baseURL :: bytes
  hc_agentID :: bytes
  hc_headers :: "bytes gomap"
  hc_timeout :: duration

datatype ClientOption = WithTimeout duration | WithAgentID bytes | WithHeaders "bytes gomap"

fun apply_option :: "ClientOption \<Rightarrow> ApiClient \<Rightarrow> ApiClient" where
  "apply_option (WithTimeout timeout) c = c\<lparr>hc_timeout := timeout\<rparr>"
| "apply_option (WithAgentID agentID) c =
     c\<lparr>hc_agentID := agentID, hc_headers := Header_Set ''X-Agent-ID'' agentID (hc_headers c)\<rparr>"
| "apply_option (WithHeaders headers) c = c\<lparr>hc_headers := fold (\<lambda>(k, v). Header_Set k v) headers (hc_headers c)\<rparr>"

definition clientNew :: "bytes \<Rightarrow> ClientOption list \<Rightarrow> ApiClient" where
  "clientNew baseURL options =
     (let client = fold apply_option options
            \<lparr>hc_baseURL = baseURL, hc_agentID = ''engram-client'',
             hc_headers = Header_Set ''Content-Type'' ''application/json'' [], hc_timeout = 10 * Second\<rparr>
      in client\<lparr>hc_headers := Header_Set ''X-Agent-ID'' (hc_agentID client) (hc_headers client)\<rparr>)"

datatype http_method = GET | POST | PATCH | DELETE

datatype request_body =
    NoBody
  | ContextJson UpdateContextRequest
  | UnitJson CreateWorkUnitRequest
  | LockJson RestAcquireLock
  | SearchJson RestSearch

text \<open>A decoded document. \<open>jd_error\<close> is \<open>None\<close> when the member \<open>error\<close> is not a string.\<close>

record json_doc =
  jd_error :: "bytes option"
  jd_work_unit :: "WorkUnit option"
  jd_work_units :: "WorkUnit list"
  jd_next_cursor :: bytes
  jd_context :: "Context option"
  jd_lock :: "LockHandle option"
  jd_released :: bool
  jd_results :: "bytes list"
  jd_total_count :: int

datatype http_result = TransportFailed | HttpResponse nat bytes "json_doc option"

record 's transport =
  url_Parse :: "bytes \<Rightarrow> bool"
  http_Do :: "bytes \<Rightarrow> http_method \<Rightarrow> bytes \<Rightarrow> bytes gomap \<Rightarrow> request_body \<Rightarrow> 's \<Rightarrow> http_result \<times> 's"

datatype client_error = BadBaseURL | RequestFailed | ApiFailure nat bytes | DecodeFailed | NotImplemented

text \<open>\<open>do\<close>: the path is assigned to \<open>u.Path\<close>, so that a question mark in it is escaped and no query is sent.\<close>

definition client_do ::
  "'s transport \<Rightarrow> ApiClient \<Rightarrow> http_method \<Rightarrow> bytes \<Rightarrow> request_body \<Rightarrow> 's \<Rightarrow>
   (client_error, json_doc option) outcome \<times> 's" where
  "client_do T c meth path body s =
     (if \<not> url_Parse T (hc_baseURL c) then (Err BadBaseURL, s)
      else case http_Do T (hc_baseURL c) meth (escapePath path) (hc_headers c) body s of
        (TransportFailed, s) \<Rightarrow> (Err RequestFailed, s)
      | (HttpResponse status statusText doc, s) \<Rightarrow>
          if status \<ge> 400 then
            (case doc of
               Some d \<Rightarrow>
                 (case jd_error d of
                    Some e \<Rightarrow> if e \<noteq> [] then (Err (ApiFailure status e), s) else (Err (ApiFailure status statusText), s)
                  | None \<Rightarrow> (Err (ApiFailure status statusText), s))
             | None \<Rightarrow> (Err (ApiFailure status statusText), s))
          else (Ret doc, s))"

text \<open>Decoding the body of a successful answer.\<close>

fun decoding :: "(json_doc \<Rightarrow> 'a) \<Rightarrow> (client_error, json_doc option) outcome \<times> 's \<Rightarrow> (client_error, 'a) outcome \<times> 's" where
  "decoding field (Ret (Some d), s) = (Ret (field d), s)"
| "decoding field (Ret None, s) = (Err DecodeFailed, s)"
| "decoding field (Err e, s) = (Err e, s)"
| "decoding field (Panic, s) = (Panic, s)"

definition client_context_request :: "ApiClient \<Rightarrow> gotime \<Rightarrow> bytes \<Rightarrow> bytes list \<Rightarrow> UpdateContextRequest" where
  "client_context_request c now displayName agentIDs =
     \<lparr>ucr_Id = ''ctx-'' @ sprintf_d now, ucr_DisplayName = displayName,
      ucr_AddAgents = (if hc_agentID c \<in> set agentIDs then agentIDs else agentIDs @ [hc_agentID c]),
      ucr_RemoveAgents = [], ucr_PinUnits = [], ucr_UnpinUnits = [], ucr_Meta = None\<rparr>"

definition client_UpdateContext ::
  "'s transport \<Rightarrow> ApiClient \<Rightarrow> UpdateContextRequest \<Rightarrow> 's \<Rightarrow> (client_error, Context option) outcome \<times> 's" where
  "client_UpdateContext T c req s =
     decoding jd_context (client_do T c PATCH (''/contexts/'' @ ucr_Id req) (ContextJson req) s)"

definition client_CreateContext ::
  "'s transport \<Rightarrow> ApiClient \<Rightarrow> gotime \<Rightarrow> bytes \<Rightarrow> bytes list \<Rightarrow> 's \<Rightarrow> (client_error, Context option) outcome \<times> 's" where
  "client_CreateContext T c now displayName agentIDs s =
     (let req = client_context_request c now displayName agentIDs
      in decoding jd_context (client_do T c PATCH (''/contexts/'' @ ucr_Id req) (ContextJson req) s))"

definition client_GetContext ::
  "'s transport \<Rightarrow> ApiClient \<Rightarrow> bytes \<Rightarrow> 's \<Rightarrow> (client_error, Context option) outcome \<times> 's" where
  "client_GetContext T c ident s = decoding jd_context (client_do T c GET (''/contexts/'' @ ident) NoBody s)"

definition client_unit_request :: "ApiClient \<Rightarrow> CreateWorkUnitRequest \<Rightarrow> CreateWorkUnitRequest" where
  "client_unit_request c req = (if cwr_AgentId req = [] then req\<lparr>cwr_AgentId := hc_agentID c\<rparr> else req)"

definition client_CreateWorkUnit ::
  "'s transport \<Rightarrow> ApiClient \<Rightarrow> CreateWorkUnitRequest \<Rightarrow> 's \<Rightarrow> (client_error, WorkUnit option) outcome \<times> 's" where
  "client_CreateWorkUnit T c req s =
     decoding jd_work_unit (client_do T c POST ''/workunit'' (UnitJson (client_unit_request c req)) s)"

definition client_GetWorkUnit ::
  "'s transport \<Rightarrow> ApiClient \<Rightarrow> bytes \<Rightarrow> 's \<Rightarrow> (client_error, WorkUnit option) outcome \<times> 's" where
  "client_GetWorkUnit T c ident s = decoding jd_work_unit (client_do T c GET (''/workunit/'' @ ident) NoBody s)"

definition client_list_path :: "bytes \<Rightarrow> int \<Rightarrow> bytes \<Rightarrow> bool \<Rightarrow> bytes" where
  "client_list_path contextID limit cursor reverse =
     (let path = ''/workunits/'' @ contextID @ ''?limit='' @ sprintf_d limit;
          path = (if cursor \<noteq> [] then path @ ''&cursor='' @ QueryEscape cursor else path)
      in if reverse then path @ ''&reverse=true'' else path)"

definition client_ListWorkUnits ::
  "'s transport \<Rightarrow> ApiClient \<Rightarrow> bytes \<Rightarrow> int \<Rightarrow> bytes \<Rightarrow> bool \<Rightarrow> 's \<Rightarrow>
   (client_error, WorkUnit list \<times> bytes) outcome \<times> 's" where
  "client_ListWorkUnits T c contextID limit cursor reverse s =
     decoding (\<lambda>d. (jd_work_units d, jd_next_cursor d))
       (client_do T c GET (client_list_path contextID limit cursor reverse) NoBody s)"

definition client_AcquireLock ::
  "'s transport \<Rightarrow> ApiClient \<Rightarrow> bytes \<Rightarrow> int \<Rightarrow> 's \<Rightarrow> (client_error, LockHandle option) outcome \<times> 's" where
  "client_AcquireLock T c resourcePath ttlSeconds s =
     decoding jd_lock (client_do T c POST ''/locks''
       (LockJson \<lparr>ral_ResourcePath = resourcePath, ral_AgentID = hc_agentID c, ral_TTLSeconds = ttlSeconds\<rparr>) s)"

definition client_release_path :: "ApiClient \<Rightarrow> bytes \<Rightarrow> bytes \<Rightarrow> bytes" where
  "client_release_path c resourcePath lockID =
     ''/locks/'' @ PathEscape resourcePath @ ''?agent_id='' @ QueryEscape (hc_agentID c) @ ''&lock_id='' @ QueryEscape lockID"

definition client_ReleaseLock ::
  "'s transport \<Rightarrow> ApiClient \<Rightarrow> bytes \<Rightarrow> bytes \<Rightarrow> 's \<Rightarrow> (client_error, bool) outcome \<times> 's" where
  "client_ReleaseLock T c resourcePath lockID s =
     decoding jd_released (client_do T c DELETE (client_release_path c resourcePath lockID) NoBody s)"

definition client_GetLock ::
  "'s transport \<Rightarrow> ApiClient \<Rightarrow> bytes \<Rightarrow> 's \<Rightarrow> (client_error, LockHandle option) outcome \<times> 's" where
  "client_GetLock T c resourcePath s =
     decoding jd_lock (client_do T c GET (''/locks/'' @ PathEscape resourcePath) NoBody s)"

definition client_Search ::
  "'s transport \<Rightarrow> ApiClient \<Rightarrow> RestSearch \<Rightarrow> 's \<Rightarrow> (client_error, bytes list \<times> int) outcome \<times> 's" where
  "client_Search T c req s =
     decoding (\<lambda>d. (jd_results d, jd_total_count d)) (client_do T c POST ''/search'' (SearchJson req) s)"

definition client_SubscribeSSE :: "ApiClient \<Rightarrow> bytes \<Rightarrow> (client_error, unit) outcome" where
  "client_SubscribeSSE c contextID = Err NotImplemented"

text \<open>The scheme \<open>Subscribe\<close> dials with.\<close>

definition ws_scheme :: "bytes \<Rightarrow> bytes" where
  "ws_scheme scheme = (if scheme = ''http'' then ''ws'' else if scheme = ''https'' then ''wss'' else scheme)"

text \<open>\<open>receiveEvents\<close> on the messages read until the connection ends: those that decode as a unit are offered to the channel, which
  drops them when it is full; a heartbeat and any other message are ignored. At the end the channel is closed.\<close>

datatype ws_message = EventMessage WorkUnit | OtherMessage bytes

fun receive_messages :: "ws_message list \<Rightarrow> WorkUnit chan \<Rightarrow> WorkUnit chan" where
  "receive_messages [] ch = ch"
| "receive_messages (EventMessage event # ms) ch =
     receive_messages ms (case try_send ch event of Sent ch' \<Rightarrow> ch' | _ \<Rightarrow> ch)"
| "receive_messages (OtherMessage m # ms) ch = receive_messages ms ch"

definition receiveEvents :: "ws_message list \<Rightarrow> WorkUnit chan" where
  "receiveEvents messages = close_chan (receive_messages messages (make_chan 100))"

section \<open>The client and the Fiber server\<close>

text \<open>What \<open>encoding/json\<close> keeps of a request to create a unit.\<close>

definition json_norm_create :: "CreateWorkUnitRequest \<Rightarrow> CreateWorkUnitRequest" where
  "json_norm_create r = r\<lparr>cwr_Meta := omit_map (cwr_Meta r), cwr_Payload := omit_bytes (cwr_Payload r),
     cwr_Relationships := map json_norm_rel (cwr_Relationships r)\<rparr>"

text \<open>Fiber's routing of a request target, with the header of the agent.\<close>

type_synonym routing =
  "http_method \<Rightarrow> bytes \<Rightarrow> bytes gomap \<Rightarrow> request_body \<Rightarrow> CreateWorkUnitRequest http_request option"

definition agent_header :: "bytes gomap \<Rightarrow> bytes" where
  "agent_header h = (case map_of h ''X-Agent-Id'' of None \<Rightarrow> [] | Some v \<Rightarrow> v)"

definition a_segment :: "bytes \<Rightarrow> bool" where
  "a_segment seg \<longleftrightarrow> seg \<noteq> [] \<and> CHR ''/'' \<notin> set seg \<and> CHR ''?'' \<notin> set seg"

text \<open>Fiber's documented matching of the registered routes: a parameter matches one segment of the path and is handed over as it
  stands in the request, and a target without question mark has no query. A JSON body is decoded into the struct it
  was encoded from, up to what \<open>omitempty\<close> drops.\<close>

definition fiber_routing :: "routing \<Rightarrow> bool" where
  "fiber_routing route \<longleftrightarrow>
     (\<forall>h r. route POST ''/workunit'' h (UnitJson r) = Some (PostWorkUnit (Decoded (json_norm_create r)))) \<and>
     (\<forall>h r. route POST ''/locks'' h (LockJson r) = Some (PostLock (Decoded r))) \<and>
     (\<forall>h seg. a_segment seg \<longrightarrow>
        route GET (''/workunit/'' @ seg) h NoBody = Some (GetUnit seg) \<and>
        route GET (''/workunits/'' @ seg) h NoBody = Some (GetUnits seg [] [] []) \<and>
        route GET (''/contexts/'' @ seg) h NoBody = Some (GetContextById seg) \<and>
        route GET (''/locks/'' @ seg) h NoBody = Some (GetLockByPath seg) \<and>
        route DELETE (''/locks/'' @ seg) h NoBody = Some (DeleteLock seg (agent_header h) [] []))"

definition empty_doc :: json_doc where
  "empty_doc = \<lparr>jd_error = Some [], jd_work_unit = None, jd_work_units = [], jd_next_cursor = [], jd_context = None,
     jd_lock = None, jd_released = False, jd_results = [], jd_total_count = 0\<rparr>"

text \<open>The answers of the server as the client decodes them; \<open>None\<close> is a body that does not decode.\<close>

definition over_wire :: "('v \<Rightarrow> bytes option) \<Rightarrow> (bytes \<Rightarrow> 'v option) \<Rightarrow> 'v \<Rightarrow> 'v option" where
  "over_wire marshal unmarshal v = (case marshal v of None \<Rightarrow> None | Some data \<Rightarrow> unmarshal data)"

fun doc_of :: "json_codec \<Rightarrow> api_body \<Rightarrow> json_doc option" where
  "doc_of J (ErrorBody e) = Some (empty_doc\<lparr>jd_error := Some e\<rparr>)"
| "doc_of J (TextBody t) = None"
| "doc_of J (WorkUnitBody w) =
     map_option (\<lambda>w. empty_doc\<lparr>jd_work_unit := Some w\<rparr>) (over_wire (MarshalWorkUnit J) (UnmarshalWorkUnit J) w)"
| "doc_of J (WorkUnitsBody ws cur) =
     (let us = map (over_wire (MarshalWorkUnit J) (UnmarshalWorkUnit J)) ws
      in if None \<in> set us then None else Some (empty_doc\<lparr>jd_work_units := map the us, jd_next_cursor := cur\<rparr>))"
| "doc_of J (ContextBody c) =
     map_option (\<lambda>c. empty_doc\<lparr>jd_context := Some c\<rparr>) (over_wire (MarshalContext J) (UnmarshalContext J) c)"
| "doc_of J (LockBody l) =
     map_option (\<lambda>l. empty_doc\<lparr>jd_lock := Some l\<rparr>) (over_wire (MarshalLock J) (UnmarshalLock J) l)"
| "doc_of J (ReleasedBody b) = Some (empty_doc\<lparr>jd_released := b\<rparr>)"
| "doc_of J (SearchBody rs n lim off) = Some (empty_doc\<lparr>jd_results := rs, jd_total_count := int n\<rparr>)"

definition fiber_transport ::
  "routing \<Rightarrow> (nat \<Rightarrow> bytes) \<Rightarrow> (bytes \<Rightarrow> bool) \<Rightarrow> ('db, 'txn, 'sdb, 'stxn) libs \<Rightarrow> http_input \<Rightarrow> ('db, 'sdb) Api transport" where
  "fiber_transport route statusText parses L i =
     \<lparr>url_Parse = parses,
      http_Do = (\<lambda>base meth target headers body a.
        case route meth target headers body of
          None \<Rightarrow> (HttpResponse 404 (statusText 404) None, a)
        | Some request \<Rightarrow>
            (case fiber_serve L i request a of
               (Answer status b, a) \<Rightarrow> (HttpResponse status (statusText status) (doc_of (lib_J L) b), a)
             | (Crashed, a) \<Rightarrow> (HttpResponse 500 (statusText 500) None, a)))\<rparr>"

section \<open>Properties\<close>

lemma escapePath_append: "escapePath (s @ t) = escapePath s @ escapePath t"
  by (simp add: escapePath_def)

lemma escapePath_Nil: "escapePath s = [] \<longleftrightarrow> s = []"
  by (cases s) (simp_all add: escapePath_def percent_def)

lemma escapePath_kept: "list_all path_keeps s \<Longrightarrow> escapePath s = s"
  by (induction s) (simp_all add: escapePath_def)

lemma unreserved_kept: "list_all unreserved s \<Longrightarrow> list_all path_keeps s"
  by (auto simp: list_all_iff path_keeps_def)

lemma upperhex_char: "n < 16 \<Longrightarrow> unreserved (upperhex n)"
proof -
  have "list_all (\<lambda>n. unreserved (upperhex n)) [0..<16]" by code_simp
  then show "n < 16 \<Longrightarrow> unreserved (upperhex n)" by (simp add: list_all_iff)
qed

lemma percent_set: "x \<in> set (percent c) \<Longrightarrow> x = CHR ''%'' \<or> unreserved x"
proof -
  have "of_char c div 16 < (16 :: nat)" "of_char c mod 16 < (16 :: nat)" 
    using range_nat_of_char rangeI [of of_char c] by (auto simp: less_mult_imp_div_less)
  then show "x \<in> set (percent c) \<Longrightarrow> x = CHR ''%'' \<or> unreserved x" using upperhex_char by (auto simp: percent_def)
qed

lemma not_unreserved: "\<not> unreserved (CHR ''/'')" "\<not> unreserved (CHR ''?'')"
  by (code_simp, code_simp)

lemma escape_sets:
  "CHR ''?'' \<notin> set (escapePath s)"
  "CHR ''/'' \<notin> set s \<Longrightarrow> CHR ''/'' \<notin> set (escapePath s)"
  "CHR ''/'' \<notin> set (PathEscape s)"
  "CHR ''/'' \<notin> set (QueryEscape s)"
  using percent_set [of "CHR ''/''"] percent_set [of "CHR ''?''"] not_unreserved
  by (auto simp: escapePath_def PathEscape_def QueryEscape_def path_keeps_def segment_keeps_def split: if_splits)

lemma unreserved_segment: "seg \<noteq> [] \<Longrightarrow> list_all unreserved seg \<Longrightarrow> a_segment seg"
  using not_unreserved by (auto simp: a_segment_def list_all_iff)

lemma escape_id: "list_all unreserved seg \<Longrightarrow> list_all path_keeps p \<Longrightarrow> escapePath (p @ seg) = p @ seg"
  using escapePath_kept unreserved_kept by (simp add: escapePath_append)

lemma route_names_kept:
  "list_all path_keeps ''/workunit/''" "list_all path_keeps ''/workunit''" "list_all path_keeps ''/locks/''"
  by (code_simp, code_simp, code_simp)

lemma norm_create_unit:
  "json_norm_wu (new_work_unit E (json_norm_create r)) = new_work_unit E (json_norm_create r)"
  by (simp add: json_norm_wu_def new_work_unit_def json_norm_create_def json_norm_rel_def omit_map_def omit_bytes_def o_def)

lemma over_wire_unit: "json_rt_wu J w \<Longrightarrow> over_wire (MarshalWorkUnit J) (UnmarshalWorkUnit J) w = Some (json_norm_wu w)"
  by (auto simp: over_wire_def json_rt_wu_def)

text \<open>One request that the server answers with success.\<close>

lemma client_do_fiber:
  assumes "parses (hc_baseURL c)" and "route meth (escapePath path) (hc_headers c) body = Some request"
    and "fiber_serve L i request a = (Answer status b, a')" and "status < 400"
  shows "client_do (fiber_transport route statusText parses L i) c meth path body a = (Ret (doc_of (lib_J L) b), a')"
  using assms by (simp add: client_do_def fiber_transport_def)

text \<open>Whatever the options, the header of the agent is the client's agent.\<close>

lemma client_agent_header: "agent_header (hc_headers (clientNew baseURL options)) = hc_agentID (clientNew baseURL options)"
proof -
  have "CanonicalHeaderKey ''X-Agent-ID'' = ''X-Agent-Id''" by code_simp
  then show ?thesis by (simp add: agent_header_def clientNew_def Header_Set_def Let_def)
qed


text \<open>C39. A release through the client has no effect. Its query string becomes part of the path, so the Fiber server looks for another resource
  and gets no lock identifier: the call ends with an error and nothing on the server changes, for every resource,
  agent and lock identifier, as long as locks have identifiers.\<close>

theorem client_release_fails:
  assumes "fiber_routing route" and "\<forall>p l. map_of (lm_locks (api_lockManager a)) p = Some l \<longrightarrow> lk_LockId l \<noteq> []"
  shows "\<exists>e. client_ReleaseLock (fiber_transport route statusText parses L i) c resourcePath lockID a = (Err e, a)"
proof (cases "parses (hc_baseURL c)")
  case True
  let ?q = "''?agent_id='' @ QueryEscape (hc_agentID c) @ ''&lock_id='' @ QueryEscape lockID"
  define seg where "seg = escapePath (PathEscape resourcePath @ ?q)"
  have target: "escapePath (client_release_path c resourcePath lockID) = ''/locks/'' @ seg"
    unfolding client_release_path_def seg_def escapePath_append escapePath_kept [OF route_names_kept(3)] ..
  have "CHR ''/'' \<notin> set (PathEscape resourcePath @ ?q)" using escape_sets(3,4) by simp
  then have "CHR ''/'' \<notin> set seg" "CHR ''?'' \<notin> set seg" "seg \<noteq> []"
    unfolding seg_def escapePath_Nil using escape_sets(1,2) by blast+
  then have "a_segment seg" by (simp add: a_segment_def)
  then have route: "route DELETE (''/locks/'' @ seg) (hc_headers c) NoBody =
      Some (DeleteLock seg (agent_header (hc_headers c)) [] [])" and "seg \<noteq> []"
    using assms(1) unfolding fiber_routing_def by (blast, simp add: a_segment_def)
  have "\<exists>status message. fiber_serve L i (DeleteLock seg (agent_header (hc_headers c)) [] []) a =
      (Answer status (ErrorBody message), a) \<and> 400 \<le> status"
    using assms(2) \<open>seg \<noteq> []\<close>
    by (cases "map_of (lm_locks (api_lockManager a)) seg")
      (auto simp: fiber_handleReleaseLock_def on_locks_def lmReleaseLock_def query_or_def)
  then obtain status message where "fiber_serve L i (DeleteLock seg (agent_header (hc_headers c)) [] []) a =
      (Answer status (ErrorBody message), a)" "400 \<le> status"
    by blast
  then show ?thesis using True route
    by (simp add: client_ReleaseLock_def client_do_def fiber_transport_def target)
qed (simp add: client_ReleaseLock_def client_do_def fiber_transport_def)

text \<open>A routing with the contract: it strips the fixed part of a route and requires a segment after it.\<close>

definition after_part :: "bytes \<Rightarrow> bytes \<Rightarrow> (bytes \<Rightarrow> 'r) \<Rightarrow> 'r option \<Rightarrow> 'r option" where
  "after_part fixed target f other = (if prefix fixed target then Some (f (drop (length fixed) target)) else other)"

definition ref_route :: routing where
  "ref_route meth target h body =
     (case (meth, body) of
        (POST, UnitJson r) \<Rightarrow> if target = ''/workunit'' then Some (PostWorkUnit (Decoded (json_norm_create r))) else None
      | (POST, LockJson r) \<Rightarrow> if target = ''/locks'' then Some (PostLock (Decoded r)) else None
      | (GET, NoBody) \<Rightarrow>
          after_part ''/workunit/'' target GetUnit
            (after_part ''/workunits/'' target (\<lambda>c. GetUnits c [] [] [])
              (after_part ''/contexts/'' target GetContextById (after_part ''/locks/'' target GetLockByPath None)))
      | (DELETE, NoBody) \<Rightarrow> after_part ''/locks/'' target (\<lambda>r. DeleteLock r (agent_header h) [] []) None
      | _ \<Rightarrow> None)"

lemma ref_route_ok: "fiber_routing ref_route"
  by (simp add: fiber_routing_def ref_route_def after_part_def)

definition ex_client :: ApiClient where
  "ex_client = clientNew ''http://localhost:8080'' [WithAgentID ''agent-7'']"

definition ref_transport :: "http_input \<Rightarrow> (ref_db, ref_db) Api transport" where
  "ref_transport i = fiber_transport ref_route (\<lambda>_. ''text'') (\<lambda>_. True) ref_libs i"


text \<open>A server on which the client holds the lock it tries to release.\<close>

definition held_api :: "(ref_db, ref_db) Api" where
  "held_api = ref_api\<lparr>api_lockManager := lm0\<lparr>lm_locks := [(''doc'', \<lparr>lk_ResourcePath = ''doc'', lk_HolderAgent = ''agent-7'',
     lk_ExpiresAt = Some Minute, lk_LockId = ''u''\<rparr>)]\<rparr>\<rparr>"

theorem client_release_fails_witness:
  "\<exists>e. client_ReleaseLock (ref_transport (at_time 1 ''v'')) ex_client ''doc'' ''u'' held_api = (Err e, held_api)"
  unfolding ref_transport_def by (intro client_release_fails [OF ref_route_ok]) (simp add: held_api_def)

end
