(* ===== verification/Search_Vector.thy ===== *)
theory Search_Vector
  imports Search_Backend Component_Config
begin

text \<open>
  Vector search: the embedding service of \<open>internal/search/embedding.go\<close> and the backend of \<open>internal/search/weaviate_backend.go\<close>. The
  embedding API and the Weaviate server are parameters: the first a function of the request, the second the operations of its
  client on a server state. Values in Weaviate's answers are a datatype of the dynamic types the code distinguishes; \<open>float32\<close> and \<open>float64\<close>
  numbers are only copied, compared by the server and converted to integers, and are rational numbers here.
\<close>

section \<open>Embeddings\<close>

type_synonym vector = "float64 list"

record EmbeddingService =
  es_model :: bytes
  es_url :: bytes
  es_apiKey :: bytes
  es_cache :: "vector gomap option"
  es_disabled :: bool

definition NewEmbeddingService :: "bytes \<Rightarrow> bytes \<Rightarrow> bytes \<Rightarrow> EmbeddingService" where
  "NewEmbeddingService model url apiKey =
     \<lparr>es_model = (if model = [] then ''openai/text-embedding-3-small'' else model), es_url = url, es_apiKey = apiKey,
      es_cache = Some [], es_disabled = (url = [] \<or> apiKey = [])\<rparr>"

text \<open>The answer of the API: none, a status with a body that may decode to a list of vectors.\<close>

datatype embed_answer = EmbedUnreachable | EmbedAnswer nat "vector list option"

type_synonym embed_api = "bytes \<Rightarrow> bytes \<Rightarrow> bytes \<Rightarrow> bytes \<Rightarrow> embed_answer"

datatype embed_error = EmbedFailed | EmbedStatus nat | EmbedParse | NoEmbedding | UnsupportedModel bytes

definition getOpenAIEmbedding :: "embed_api \<Rightarrow> bytes \<Rightarrow> EmbeddingService \<Rightarrow> (embed_error, vector) outcome" where
  "getOpenAIEmbedding api input s =
     (let modelName = (if length (es_model s) > 7 \<and> take 7 (es_model s) = ''openai/'' then drop 7 (es_model s) else es_model s)
      in case api (es_url s) (es_apiKey s) modelName input of
           EmbedUnreachable \<Rightarrow> Err EmbedFailed
         | EmbedAnswer status body \<Rightarrow>
             if status \<noteq> 200 then Err (EmbedStatus status)
             else case body of
               None \<Rightarrow> Err EmbedParse
             | Some data \<Rightarrow>
                 if data = [] \<or> hd data = [] then Err NoEmbedding else Ret (hd data))"

text \<open>After \<open>Close\<close> the cache is the nil map, which can be read but not assigned to.\<close>

definition GetEmbedding :: "embed_api \<Rightarrow> bytes \<Rightarrow> EmbeddingService \<Rightarrow> (embed_error, vector) outcome \<times> EmbeddingService" where
  "GetEmbedding api input s =
     (if es_disabled s then (Ret [], s)
      else case map_option (\<lambda>m. map_of m input) (es_cache s) of
        Some (Some embedding) \<Rightarrow> (Ret embedding, s)
      | _ \<Rightarrow>
          if es_model s = ''openai/text-embedding-3-small'' \<or> es_model s = ''openai/text-embedding-3-large'' then
            (case getOpenAIEmbedding api input s of
               Ret embedding \<Rightarrow>
                 (case es_cache s of
                    None \<Rightarrow> (Panic, s)
                  | Some m \<Rightarrow> (Ret embedding, s\<lparr>es_cache := Some (AList.update input embedding m)\<rparr>))
             | Err e \<Rightarrow> (Err e, s)
             | Panic \<Rightarrow> (Panic, s))
          else (Err (UnsupportedModel (es_model s)), s))"

definition embeddingClose :: "EmbeddingService \<Rightarrow> EmbeddingService" where
  "embeddingClose s = s\<lparr>es_cache := None\<rparr>"

section \<open>Weaviate\<close>

record weaviate_object =
  wo_Class :: bytes
  wo_ID :: bytes
  wo_workUnitId :: bytes
  wo_contextId :: bytes
  wo_agentId :: bytes
  wo_workUnitType :: int
  wo_payload :: bytes
  wo_metadata :: "bytes gomap"
  wo_timestamp :: int
  wo_Vector :: vector

record weaviate_query =
  wq_Class :: bytes
  wq_Fields :: "bytes list"
  wq_Where :: "bytes option"
  wq_NearVector :: "(vector \<times> float64) option"
  wq_BM25 :: "bytes option"
  wq_Limit :: "int option"
  wq_Offset :: "int option"

datatype gql = GStr bytes | GNum float64 | GList "gql list" | GMap "(bytes \<times> gql) list" | GOther

record class_def =
  cd_Class :: bytes
  cd_Vectorizer :: bytes
  cd_Properties :: "(bytes \<times> bytes) list"

text \<open>The server: \<open>None\<close> is an error of the client. A batch answers with the error text of each object, if it has errors.\<close>

record 'w weaviate =
  wv_NewClient :: "bytes \<Rightarrow> bytes \<Rightarrow> bool"
  wv_Ready :: "'w \<Rightarrow> bool option"
  wv_ClassExists :: "bytes \<Rightarrow> 'w \<Rightarrow> bool option"
  wv_DeleteClass :: "bytes \<Rightarrow> 'w \<Rightarrow> 'w option"
  wv_CreateClass :: "class_def \<Rightarrow> 'w \<Rightarrow> 'w option"
  wv_Batch :: "weaviate_object list \<Rightarrow> 'w \<Rightarrow> bytes option list option \<times> 'w"
  wv_Get :: "weaviate_query \<Rightarrow> 'w \<Rightarrow> (bytes \<times> gql) list option"
  wv_JsonMarshal :: "gql \<Rightarrow> bytes option"

record WeaviateBackend =
  wb_embedding :: EmbeddingService
  wb_config :: VectorConfig
  wb_classSetup :: bool

datatype weaviate_error =
  ClientFailed | NotReady | ClassCheckFailed | ClassDeleteFailed | ClassCreateFailed | BatchFailed | BatchErrors "bytes list"
  | QueryEmbedding embed_error | SearchExecFailed

definition NewWeaviateBackend :: "'w weaviate \<Rightarrow> VectorConfig \<Rightarrow> weaviate_error + WeaviateBackend" where
  "NewWeaviateBackend W config =
     (if \<not> wv_NewClient W (vc_WeaviateURL config) (vc_WeaviateAPIKey config) then Inl ClientFailed
      else Inr \<lparr>wb_embedding = NewEmbeddingService (vc_EmbeddingModel config) (vc_EmbeddingURL config) (vc_EmbeddingKey config),
             wb_config = config, wb_classSetup = False\<rparr>)"

definition unit_class :: "bytes \<Rightarrow> class_def" where
  "unit_class className = \<lparr>cd_Class = className, cd_Vectorizer = ''none'',
     cd_Properties = [(''workUnitId'', ''string''), (''contextId'', ''string''), (''agentId'', ''string''), (''workUnitType'', ''int''),
       (''payload'', ''text''), (''metadata'', ''object''), (''timestamp'', ''int'')]\<rparr>"

definition setupClass ::
  "'w weaviate \<Rightarrow> WeaviateBackend \<times> 'w \<Rightarrow> (weaviate_error, unit) outcome \<times> WeaviateBackend \<times> 'w" where
  "setupClass W = (\<lambda>(b, w).
     if wb_classSetup b then (Ret (), b, w)
     else
       let className = vc_ClassName (wb_config b)
       in case wv_ClassExists W className w of
            None \<Rightarrow> (Err ClassCheckFailed, b, w)
          | Some classExists \<Rightarrow>
              (case (if classExists then wv_DeleteClass W className w else Some w) of
                 None \<Rightarrow> (Err ClassDeleteFailed, b, w)
               | Some w \<Rightarrow>
                   (case wv_CreateClass W (unit_class className) w of
                      None \<Rightarrow> (Err ClassCreateFailed, b, w)
                    | Some w \<Rightarrow> (Ret (), b\<lparr>wb_classSetup := True\<rparr>, w))))"

definition weaviateStart ::
  "'w weaviate \<Rightarrow> WeaviateBackend \<times> 'w \<Rightarrow> (weaviate_error, unit) outcome \<times> WeaviateBackend \<times> 'w" where
  "weaviateStart W s = (if wv_Ready W (snd s) = Some True then setupClass W s else (Err NotReady, s))"

text \<open>The loop of \<open>IndexBatch\<close> over the units, each with its own clock reading and generated identifier. A failed embedding is logged and
  leaves the vector empty.\<close>

definition payload_text :: "WorkUnit \<Rightarrow> bytes" where
  "payload_text unit = (case wu_Payload unit of Some p \<Rightarrow> if isTextPayload p then p else [] | None \<Rightarrow> [])"

definition unit_object :: "bytes \<Rightarrow> WorkUnit \<Rightarrow> env \<Rightarrow> (embed_error, vector) outcome \<Rightarrow> weaviate_object" where
  "unit_object className unit E embedding =
     \<lparr>wo_Class = className, wo_ID = env_uuid E, wo_workUnitId = wu_Id unit, wo_contextId = wu_ContextId unit,
      wo_agentId = wu_AgentId unit, wo_workUnitType = sint (wu_Type unit), wo_payload = payload_text unit,
      wo_metadata = entries_of (wu_Meta unit),
      wo_timestamp = (case wu_Ts unit of Some t \<Rightarrow> t | None \<Rightarrow> env_now E 0),
      wo_Vector = (case embedding of Ret v \<Rightarrow> v | _ \<Rightarrow> [])\<rparr>"

fun batch_objects ::
  "embed_api \<Rightarrow> bytes \<Rightarrow> (WorkUnit \<times> env) list \<Rightarrow> EmbeddingService \<Rightarrow> (unit, weaviate_object list) outcome \<times> EmbeddingService" where
  "batch_objects api className [] s = (Ret [], s)"
| "batch_objects api className ((unit, E) # units) s =
     (if wu_Id unit = [] then batch_objects api className units s
      else case GetEmbedding api (payload_text unit) s of
        (Panic, s) \<Rightarrow> (Panic, s)
      | (r, s) \<Rightarrow>
          (case batch_objects api className units s of
             (Ret objs, s) \<Rightarrow> (Ret (unit_object className unit E r # objs), s)
           | (x, s) \<Rightarrow> (x, s)))"

definition weaviateIndexBatch ::
  "'w weaviate \<Rightarrow> embed_api \<Rightarrow> (WorkUnit \<times> env) list \<Rightarrow> WeaviateBackend \<times> 'w \<Rightarrow>
   (weaviate_error, unit) outcome \<times> WeaviateBackend \<times> 'w" where
  "weaviateIndexBatch W api units s =
     (if units = [] then (Ret (), s)
      else case setupClass W s of
        (Ret _, b, w) \<Rightarrow>
          (case batch_objects api (vc_ClassName (wb_config b)) units (wb_embedding b) of
             (Ret objs, es) \<Rightarrow>
               (case wv_Batch W objs w of
                  (None, w) \<Rightarrow> (Err BatchFailed, b\<lparr>wb_embedding := es\<rparr>, w)
                | (Some resp, w) \<Rightarrow>
                    let errMsgs = filter (\<lambda>m. m \<noteq> []) (map (\<lambda>r. case r of Some m \<Rightarrow> m | None \<Rightarrow> []) resp)
                    in (if errMsgs \<noteq> [] then Err (BatchErrors errMsgs) else Ret (), b\<lparr>wb_embedding := es\<rparr>, w))
           | (_, es) \<Rightarrow> (Panic, b\<lparr>wb_embedding := es\<rparr>, w))
      | r \<Rightarrow> r)"

definition weaviateIndex ::
  "'w weaviate \<Rightarrow> embed_api \<Rightarrow> WorkUnit \<times> env \<Rightarrow> WeaviateBackend \<times> 'w \<Rightarrow>
   (weaviate_error, unit) outcome \<times> WeaviateBackend \<times> 'w" where
  "weaviateIndex W api unit s = weaviateIndexBatch W api [unit] s"

section \<open>Queries\<close>

record VectorOptions = SearchOptions +
  so_SemanticSearch :: bool
  so_Similarity :: float64

fun strings_Join :: "bytes list \<Rightarrow> bytes \<Rightarrow> bytes" where
  "strings_Join [] sep = []"
| "strings_Join [s] sep = s"
| "strings_Join (s # ss) sep = s @ sep @ strings_Join ss sep"

text \<open>A filter on one property: one comparison, or a disjunction of numbered ones. The values go to a list that is never used.\<close>

definition any_filter :: "bytes \<Rightarrow> nat \<Rightarrow> bytes list" where
  "any_filter name n =
     (if n = 0 then []
      else if n = 1 then [name @ '' == $'' @ name]
      else [''('' @ strings_Join (map (\<lambda>i. name @ '' == $'' @ name @ sprintf_d (int i)) [0..<n]) '' or '' @ '')''])"

definition where_filters :: "(bytes list \<Rightarrow> bytes list) \<Rightarrow> VectorOptions \<Rightarrow> bytes list" where
  "where_filters ord opts =
     (if sq_contextID opts \<noteq> [] then [''contextId == $contextId''] else []) @
     any_filter ''agentId'' (length (sq_agentIDs opts)) @
     any_filter ''workUnitType'' (length (sq_types opts)) @
     map (\<lambda>key. ''metadata.'' @ key @ '' == $meta_'' @ key) (ord (map fst (sq_metaFilters opts)))"

definition where_clause :: "(bytes list \<Rightarrow> bytes list) \<Rightarrow> VectorOptions \<Rightarrow> bytes option" where
  "where_clause ord opts =
     (let filters = where_filters ord opts
      in if filters \<noteq> [] then Some (''where { '' @ strings_Join filters '' and '' @ '' }'') else None)"

definition query_fields :: "VectorOptions \<Rightarrow> bytes list" where
  "query_fields opts = ''workUnitId'' #
     (if so_IncludeFull opts then [''payload'', ''contextId'', ''agentId'', ''workUnitType'', ''timestamp'', ''metadata''] else [])"

definition build_query ::
  "(bytes list \<Rightarrow> bytes list) \<Rightarrow> embed_api \<Rightarrow> VectorOptions \<Rightarrow> WeaviateBackend \<Rightarrow>
   (weaviate_error, weaviate_query) outcome \<times> WeaviateBackend" where
  "build_query ord api opts b =
     (let q = \<lparr>wq_Class = vc_ClassName (wb_config b), wq_Fields = query_fields opts, wq_Where = where_clause ord opts,
            wq_NearVector = None, wq_BM25 = None,
            wq_Limit = (if sq_limit opts > 0 then Some (sq_limit opts) else None),
            wq_Offset = (if sq_offset opts > 0 then Some (sq_offset opts) else None)\<rparr>
      in if so_SemanticSearch opts \<and> sq_query opts \<noteq> [] then
           (case GetEmbedding api (sq_query opts) (wb_embedding b) of
              (Ret embedding, es) \<Rightarrow> (Ret (q\<lparr>wq_NearVector := Some (embedding, so_Similarity opts)\<rparr>), b\<lparr>wb_embedding := es\<rparr>)
            | (Err e, es) \<Rightarrow> (Err (QueryEmbedding e), b\<lparr>wb_embedding := es\<rparr>)
            | (Panic, es) \<Rightarrow> (Panic, b\<lparr>wb_embedding := es\<rparr>))
         else if sq_query opts \<noteq> [] then (Ret (q\<lparr>wq_BM25 := Some (sq_query opts)\<rparr>), b)
         else (Ret q, b))"

subsection \<open>Reading the answer\<close>

fun g_string :: "gql option \<Rightarrow> bytes option" where
  "g_string (Some (GStr s)) = Some s"
| "g_string _ = None"

fun g_number :: "gql option \<Rightarrow> float64 option" where
  "g_number (Some (GNum x)) = Some x"
| "g_number _ = None"

fun g_map :: "gql option \<Rightarrow> (bytes \<times> gql) list option" where
  "g_map (Some (GMap m)) = Some m"
| "g_map _ = None"

fun g_list :: "gql option \<Rightarrow> gql list option" where
  "g_list (Some (GList xs)) = Some xs"
| "g_list _ = None"

text \<open>The conversion of a \<open>float64\<close> to an integer truncates.\<close>

definition truncate_float :: "float64 \<Rightarrow> int" where
  "truncate_float x = (if x < 0 then \<lceil>x\<rceil> else \<lfloor>x\<rfloor>)"

fun meta_entries :: "(gql \<Rightarrow> bytes option) \<Rightarrow> (bytes \<times> gql) list \<Rightarrow> bytes gomap" where
  "meta_entries marshal [] = []"
| "meta_entries marshal ((k, v) # m) =
     (case (case v of GStr s \<Rightarrow> Some s | _ \<Rightarrow> marshal v) of
        Some s \<Rightarrow> (k, s) # meta_entries marshal m
      | None \<Rightarrow> meta_entries marshal m)"

definition object_unit :: "(gql \<Rightarrow> bytes option) \<Rightarrow> bytes \<Rightarrow> (bytes \<times> gql) list \<Rightarrow> WorkUnit" where
  "object_unit marshal ident d =
     \<lparr>wu_Id = ident,
      wu_ContextId = (case g_string (map_of d ''contextId'') of Some s \<Rightarrow> s | None \<Rightarrow> []),
      wu_AgentId = (case g_string (map_of d ''agentId'') of Some s \<Rightarrow> s | None \<Rightarrow> []),
      wu_Type = (case g_number (map_of d ''workUnitType'') of Some x \<Rightarrow> word_of_int (truncate_float x) | None \<Rightarrow> 0),
      wu_Ts = map_option truncate_float (g_number (map_of d ''timestamp'')),
      wu_Meta = map_option (meta_entries marshal) (g_map (map_of d ''metadata'')),
      wu_Payload = g_string (map_of d ''payload''),
      wu_Relationships = []\<rparr>"

record VectorResults = SearchResults +
  sr_Scores :: "float64 gomap"

definition no_results :: VectorResults where
  "no_results = \<lparr>sr_IDs = [], sr_WorkUnits = [], sr_TotalCount = 0, sr_Scores = []\<rparr>"

definition add_object :: "(gql \<Rightarrow> bytes option) \<Rightarrow> bool \<Rightarrow> gql \<Rightarrow> VectorResults \<Rightarrow> VectorResults" where
  "add_object marshal full obj r =
     (case obj of
        GMap d \<Rightarrow>
          (case g_string (map_of d ''workUnitId'') of
             None \<Rightarrow> r
           | Some ident \<Rightarrow>
               let r = r\<lparr>sr_IDs := sr_IDs r @ [ident]\<rparr>;
                   r = (case g_map (map_of d ''_additional'') of
                          None \<Rightarrow> r
                        | Some sc \<Rightarrow>
                            (case g_number (map_of sc ''certainty'') of
                               None \<Rightarrow> r
                             | Some certainty \<Rightarrow> r\<lparr>sr_Scores := AList.update ident certainty (sr_Scores r)\<rparr>))
               in if full then r\<lparr>sr_WorkUnits := sr_WorkUnits r @ [object_unit marshal ident d]\<rparr> else r)
      | _ \<Rightarrow> r)"

definition parse_results :: "(gql \<Rightarrow> bytes option) \<Rightarrow> bytes \<Rightarrow> bool \<Rightarrow> (bytes \<times> gql) list \<Rightarrow> VectorResults" where
  "parse_results marshal className full data =
     (case g_map (map_of data ''Get'') of
        None \<Rightarrow> no_results
      | Some m \<Rightarrow>
          (case g_list (map_of m className) of
             None \<Rightarrow> no_results
           | Some objects \<Rightarrow> fold (add_object marshal full) objects (no_results\<lparr>sr_TotalCount := length objects\<rparr>)))"

definition weaviateSearch ::
  "'w weaviate \<Rightarrow> (bytes list \<Rightarrow> bytes list) \<Rightarrow> embed_api \<Rightarrow> VectorOptions \<Rightarrow> WeaviateBackend \<times> 'w \<Rightarrow>
   (weaviate_error, VectorResults) outcome \<times> WeaviateBackend \<times> 'w" where
  "weaviateSearch W ord api opts = (\<lambda>(b, w).
     case build_query ord api opts b of
       (Ret q, b) \<Rightarrow>
         (case wv_Get W q w of
            None \<Rightarrow> (Err SearchExecFailed, b, w)
          | Some data \<Rightarrow> (Ret (parse_results (wv_JsonMarshal W) (vc_ClassName (wb_config b)) (so_IncludeFull opts) data), b, w))
     | (Err e, b) \<Rightarrow> (Err e, b, w)
     | (Panic, b) \<Rightarrow> (Panic, b, w))"

definition weaviateFindByRelationship ::
  "'w weaviate \<Rightarrow> (bytes list \<Rightarrow> bytes list) \<Rightarrow> embed_api \<Rightarrow> bytes \<Rightarrow> bytes \<Rightarrow> VectorOptions \<Rightarrow> WeaviateBackend \<times> 'w \<Rightarrow>
   (weaviate_error, VectorResults) outcome \<times> WeaviateBackend \<times> 'w" where
  "weaviateFindByRelationship W ord api relType targetID opts s =
     weaviateSearch W ord api (opts\<lparr>sq_metaFilters := AList.update (''relation_'' @ relType) targetID (sq_metaFilters opts)\<rparr>) s"

definition weaviateShutdown :: "WeaviateBackend \<Rightarrow> WeaviateBackend" where
  "weaviateShutdown b = b\<lparr>wb_embedding := embeddingClose (wb_embedding b)\<rparr>"

text \<open>\<open>SearchSemantic\<close> of the search engine, over any backend; the score of an identifier without one is zero.\<close>

definition EngineSearchSemantic ::
  "(VectorOptions \<Rightarrow> 's \<Rightarrow> ('e, VectorResults) outcome \<times> 's) \<Rightarrow> bytes \<Rightarrow> bytes \<Rightarrow> float64 \<Rightarrow> int \<Rightarrow> 's \<Rightarrow>
   ('e, bytes list \<times> float64 list) outcome \<times> 's" where
  "EngineSearchSemantic search query contextID similarity limit s =
     (let opts = \<lparr>sq_query = query, sq_contextID = contextID, sq_agentIDs = [], sq_types = [], sq_metaFilters = [], sq_limit = limit,
            sq_offset = 0, so_IncludeFull = False, so_SemanticSearch = True, so_Similarity = similarity\<rparr>
      in case search opts s of
           (Ret r, s) \<Rightarrow>
             (Ret (sr_IDs r, map (\<lambda>i. case map_of (sr_Scores r) i of Some x \<Rightarrow> x | None \<Rightarrow> 0) (sr_IDs r)), s)
         | (Err e, s) \<Rightarrow> (Err e, s)
         | (Panic, s) \<Rightarrow> (Panic, s))"

section \<open>Properties\<close>

text \<open>Calls of the service with changing answers of the API.\<close>

definition embed_calls :: "(embed_api \<times> bytes) list \<Rightarrow> EmbeddingService \<Rightarrow> EmbeddingService" where
  "embed_calls calls s = fold (\<lambda>(api, input) s. snd (GetEmbedding api input s)) calls s"

definition embeds :: "bytes \<Rightarrow> vector \<Rightarrow> EmbeddingService \<Rightarrow> bool" where
  "embeds input v s \<longleftrightarrow> (if es_disabled s then v = [] else \<exists>m. es_cache s = Some m \<and> map_of m input = Some v)"

lemma embeds_returned: "embeds input v s \<Longrightarrow> GetEmbedding api input s = (Ret v, s)"
  by (auto simp: embeds_def GetEmbedding_def split: if_splits)

lemma GetEmbedding_embeds: "GetEmbedding api input s = (Ret v, s') \<Longrightarrow> embeds input v s'"
  by (auto simp: embeds_def GetEmbedding_def split: if_splits option.splits outcome.splits)

lemma embeds_kept: "embeds input v s \<Longrightarrow> embeds input v (snd (GetEmbedding api other s))"
  by (cases "other = input") (auto simp: embeds_returned, auto simp: embeds_def GetEmbedding_def split: if_splits option.splits outcome.splits)


definition ex_api :: embed_api where
  "ex_api url key model input = (if key = ''k'' then EmbedAnswer 200 (Some [[1, 2]]) else EmbedAnswer 401 None)"


text \<open>A batch has one object for each unit with an identifier, in their order, with its data.\<close>

lemma batch_objects_exact:
  "batch_objects api className units s = (Ret objs, s') \<Longrightarrow>
   list_all2 (\<lambda>(u, E) obj. \<exists>r. obj = unit_object className u E r) (filter (\<lambda>(u, E). wu_Id u \<noteq> []) units) objs"
proof (induction units arbitrary: objs s)
  case (Cons x units)
  obtain u E where x: "x = (u, E)" by (cases x)
  show ?case
  proof (cases "wu_Id u = []")
    case False
    obtain r s1 where r: "GetEmbedding api (payload_text u) s = (r, s1)" by (cases "GetEmbedding api (payload_text u) s")
    with Cons.prems False x obtain objs1 where "batch_objects api className units s1 = (Ret objs1, s')"
      "objs = unit_object className u E r # objs1"
      by (cases r) (auto split: prod.splits outcome.splits)
    then show ?thesis using Cons.IH [of s1 objs1] False x by auto
  qed (use Cons x in simp)
qed simp

text \<open>The filters of a query carry no values: two searches whose options differ only in the values they filter by send the same
  query and get the same answer.\<close>

lemma vector_filter_blind:
  assumes "(sq_contextID o1 = []) = (sq_contextID o2 = [])" and "length (sq_agentIDs o1) = length (sq_agentIDs o2)"
    and "length (sq_types o1) = length (sq_types o2)" and "map fst (sq_metaFilters o1) = map fst (sq_metaFilters o2)"
    and "sq_query o1 = sq_query o2" "sq_limit o1 = sq_limit o2" "sq_offset o1 = sq_offset o2" "so_IncludeFull o1 = so_IncludeFull o2"
    and "so_SemanticSearch o1 = so_SemanticSearch o2" "so_Similarity o1 = so_Similarity o2"
  shows "weaviateSearch W ord api o1 s = weaviateSearch W ord api o2 s"
proof -
  have "where_filters ord o1 = where_filters ord o2" using assms(1-4) by (simp add: where_filters_def)
  then have "build_query ord api o1 b = build_query ord api o2 b" for b
    unfolding build_query_def where_clause_def query_fields_def assms(5-10) by simp
  then show ?thesis unfolding weaviateSearch_def assms(8) by simp
qed

text \<open>Starting a backend deletes what earlier ones indexed: a class that was just created has no objects.\<close>

lemma weaviate_restart_empties:
  assumes "\<forall>c w w'. wv_CreateClass W c w = Some w' \<longrightarrow> objects w' (cd_Class c) = {}"
    and "NewWeaviateBackend W config = Inr b" and "weaviateStart W (b, w) = (Ret (), b', w')"
  shows "objects w' (vc_ClassName config) = {}"
proof -
  have c: "cd_Class (unit_class className) = className" for className by (simp add: unit_class_def)
  obtain w1 where "wv_CreateClass W (unit_class (vc_ClassName config)) w1 = Some w'"
    using assms(2,3) by (auto simp: NewWeaviateBackend_def weaviateStart_def setupClass_def Let_def split: if_splits option.splits)
  then show ?thesis using assms(1) c by metis
qed

end
