(* ===== verification/Notifier_Run.thy ===== *)
theory Notifier_Run
  imports Event_Notifier
begin

text \<open>
  The running notifier of \<open>internal/notifier/notifier.go\<close>: the goroutines of \<open>Start\<close>, of the flush loop and of the clients as steps over one
  state, in which everything they can interleave is a step of its own. What the web framework decides (whether a write to a
  web socket succeeds, when a connection ends) is an input of the steps. Shown: which step can end the program by a panic, that
  a notifier with SSE clients alone never does unless a client is removed in the middle of a flush, and that a web
  socket client that leaves while an event waits for it always does.
\<close>

section \<open>State and operations\<close>

text \<open>\<open>ns_left\<close> holds the clients removed from the map whose goroutines may still run (those goroutines keep the client itself);
  \<open>ns_flush\<close> the sends a started flush has yet to make; \<open>ns_removals\<close> the calls of \<open>removeClient\<close> that the heartbeat and the cleanup
  have decided on; \<open>ns_streams\<close> what was written to the SSE responses.\<close>

record NotifierSystem =
  ns_notifier :: Notifier
  ns_left :: "Client gomap"
  ns_running :: "bytes list"
  ns_flush :: "(bytes \<times> WorkUnit) list"
  ns_removals :: "bytes list"
  ns_streams :: "bytes gomap"

definition notifier_started :: "Notifier \<Rightarrow> NotifierSystem" where
  "notifier_started n =
     \<lparr>ns_notifier = n, ns_left = [], ns_running = [], ns_flush = [], ns_removals = [], ns_streams = []\<rparr>"

definition ns_client :: "NotifierSystem \<Rightarrow> bytes \<Rightarrow> Client option" where
  "ns_client s i = (case map_of (nt_clients (ns_notifier s)) i of Some c \<Rightarrow> Some c | None \<Rightarrow> map_of (ns_left s) i)"

definition ns_set_client :: "bytes \<Rightarrow> Client \<Rightarrow> NotifierSystem \<Rightarrow> NotifierSystem" where
  "ns_set_client i c s =
     (if map_of (nt_clients (ns_notifier s)) i = None then s\<lparr>ns_left := AList.update i c (ns_left s)\<rparr>
      else s\<lparr>ns_notifier := (ns_notifier s)\<lparr>nt_clients := AList.update i c (nt_clients (ns_notifier s))\<rparr>\<rparr>)"

abbreviation ns_chan :: "NotifierSystem \<Rightarrow> bytes \<Rightarrow> WorkUnit chan" where
  "ns_chan s i \<equiv> bb_chan (nt_buffer (ns_notifier s)) i"

definition ns_set_chan :: "bytes \<Rightarrow> WorkUnit chan \<Rightarrow> NotifierSystem \<Rightarrow> NotifierSystem" where
  "ns_set_chan i ch s =
     s\<lparr>ns_notifier := (ns_notifier s)\<lparr>nt_buffer := bb_set_chan i ch (nt_buffer (ns_notifier s))\<rparr>\<rparr>"

text \<open>A new connection. An SSE response starts with the connection message.\<close>

definition sse_newline :: bytes where "sse_newline = [CHR 0x0A]"

definition sse_connected :: "bytes \<Rightarrow> bytes" where
  "sse_connected i = ''event: connected'' @ sse_newline @ ''data: {'' @ [CHR 0x22] @ ''client_id'' @ [CHR 0x22] @ '':'' @ [CHR 0x22] @ i @
     [CHR 0x22] @ ''}'' @ sse_newline @ sse_newline"

definition sse_message :: "bytes \<Rightarrow> bytes" where
  "sse_message msg = ''data: '' @ msg @ sse_newline @ sse_newline"

definition query_context :: "bytes option \<Rightarrow> bytes" where
  "query_context q = (case q of None \<Rightarrow> ''*'' | Some c \<Rightarrow> if c = [] then ''*'' else c)"

definition ns_connect :: "env \<Rightarrow> bytes option \<Rightarrow> bool \<Rightarrow> NotifierSystem \<Rightarrow> NotifierSystem" where
  "ns_connect E q sse s =
     s\<lparr>ns_notifier := register_client E (query_context q) sse (ns_notifier s),
       ns_running := ns_running s @ [env_uuid E],
       ns_streams := (if sse then AList.update (env_uuid E) (sse_connected (env_uuid E)) (ns_streams s) else ns_streams s)\<rparr>"

text \<open>\<open>removeClient\<close>, keeping the client for its goroutine.\<close>

definition ns_remove :: "bytes \<Rightarrow> NotifierSystem \<Rightarrow> (unit, unit) outcome \<times> NotifierSystem" where
  "ns_remove i s =
     (case removeClient i (ns_notifier s) of
        (r, n) \<Rightarrow>
          (r, s\<lparr>ns_notifier := n,
                ns_left := (case map_of (nt_clients (ns_notifier s)) i of
                   None \<Rightarrow> ns_left s | Some c \<Rightarrow> AList.update i c (ns_left s))\<rparr>))"

text \<open>The delivery goroutine of client \<open>i\<close> takes the next event of its channel. It ends when a write fails, after closing the
  channel; closing a closed channel panics.\<close>

definition ns_deliver ::
  "(WorkUnit \<Rightarrow> bytes option) \<Rightarrow> bool \<Rightarrow> gotime \<Rightarrow> bytes \<Rightarrow> NotifierSystem \<Rightarrow> (unit, unit) outcome \<times> NotifierSystem" where
  "ns_deliver marshal written now i s =
     (case ch_buf (ns_chan s i) of
        [] \<Rightarrow> (Ret (), s)
      | event # events \<Rightarrow>
          let ch = (ns_chan s i)\<lparr>ch_buf := events\<rparr>; s = ns_set_chan i ch s
          in case ns_client s i of
               None \<Rightarrow> (Ret (), s)
             | Some client \<Rightarrow>
                 if cl_isSSE client then
                   (case sse_deliver marshal event client of
                      None \<Rightarrow> (Panic, s)
                    | Some client \<Rightarrow> (Ret (), ns_set_client i client s))
                 else if \<not> wants (cl_ContextIDs client) event then (Ret (), s)
                 else if written
                 then (Ret (), ns_set_client i (client\<lparr>cl_sent := cl_sent client @ [event], cl_LastActive := now\<rparr>) s)
                 else if ch_closed ch then (Panic, s)
                 else (Ret (), (ns_set_chan i (close_chan ch) s)\<lparr>ns_running := removeAll i (ns_running s)\<rparr>))"

text \<open>The end of that goroutine when its channel is closed and empty.\<close>

definition ns_end :: "bytes \<Rightarrow> NotifierSystem \<Rightarrow> (unit, unit) outcome \<times> NotifierSystem" where
  "ns_end i s =
     (let s = s\<lparr>ns_running := removeAll i (ns_running s)\<rparr>
      in case ns_client s i of
           None \<Rightarrow> (Ret (), s)
         | Some client \<Rightarrow>
             if \<not> cl_isSSE client then ns_remove i s
             else if ch_closed (cl_sseChannel client) then (Panic, s)
             else ns_remove i (ns_set_client i (client\<lparr>cl_sseChannel := close_chan (cl_sseChannel client)\<rparr>) s))"

text \<open>The writer of an SSE response takes the next message.\<close>

definition written_so_far :: "NotifierSystem \<Rightarrow> bytes \<Rightarrow> bytes" where
  "written_so_far s i = (case map_of (ns_streams s) i of None \<Rightarrow> [] | Some t \<Rightarrow> t)"

definition ns_stream :: "gotime \<Rightarrow> bytes \<Rightarrow> NotifierSystem \<Rightarrow> NotifierSystem" where
  "ns_stream now i s =
     (case ns_client s i of
        None \<Rightarrow> s
      | Some client \<Rightarrow>
          (case ch_buf (cl_sseChannel client) of
             [] \<Rightarrow> s
           | msg # msgs \<Rightarrow>
               (ns_set_client i (client\<lparr>cl_sseChannel := (cl_sseChannel client)\<lparr>ch_buf := msgs\<rparr>, cl_LastActive := now\<rparr>) s)
                 \<lparr>ns_streams := AList.update i (written_so_far s i @ sse_message msg) (ns_streams s)\<rparr>))"

text \<open>The rounds of the heartbeat (with the clients whose write failed) and of the cleanup.\<close>

definition heartbeat_clients :: "NotifierSystem \<Rightarrow> bytes list" where
  "heartbeat_clients s = map fst (filter (\<lambda>(i, client). \<not> cl_isSSE client) (nt_clients (ns_notifier s)))"

definition ns_heartbeat :: "bytes list \<Rightarrow> NotifierSystem \<Rightarrow> NotifierSystem" where
  "ns_heartbeat failing s =
     s\<lparr>ns_removals := ns_removals s @ filter (\<lambda>i. i \<in> set failing) (heartbeat_clients s)\<rparr>"

definition ns_cleanup :: "gotime \<Rightarrow> NotifierSystem \<Rightarrow> NotifierSystem" where
  "ns_cleanup now s = s\<lparr>ns_removals := ns_removals s @ idle_clients now (ns_notifier s)\<rparr>"

definition ns_shutdown :: "NotifierSystem \<Rightarrow> (unit, unit) outcome \<times> NotifierSystem" where
  "ns_shutdown s =
     (case notifierShutdown (ns_notifier s) of
        (r, n) \<Rightarrow> (r, s\<lparr>ns_notifier := n, ns_left := nt_clients (ns_notifier s) @ ns_left s\<rparr>))"

text \<open>The flush loop: a flush takes the buffer and the subscribers, in the order of the map's iteration, and then sends.\<close>

definition ns_flush_start :: "bytes list \<Rightarrow> NotifierSystem \<Rightarrow> NotifierSystem" where
  "ns_flush_start ids s =
     (let b = nt_buffer (ns_notifier s)
      in s\<lparr>ns_notifier := (ns_notifier s)\<lparr>nt_buffer := b\<lparr>bb_currentBuffer := []\<rparr>\<rparr>,
           ns_flush := List.product ids (bb_currentBuffer b)\<rparr>)"

definition ns_flush_send :: "NotifierSystem \<Rightarrow> (unit, unit) outcome \<times> NotifierSystem" where
  "ns_flush_send s =
     (case ns_flush s of
        [] \<Rightarrow> (Ret (), s)
      | (i, w) # sends \<Rightarrow>
          (case try_send (ns_chan s i) w of
             Sent ch \<Rightarrow> (Ret (), (ns_set_chan i ch s)\<lparr>ns_flush := sends\<rparr>)
           | Full \<Rightarrow> (Ret (), s\<lparr>ns_flush := sends\<rparr>)
           | SendPanics \<Rightarrow> (Panic, s)))"

definition ns_message :: "gotime \<Rightarrow> (bytes \<times> json) list option \<Rightarrow> bytes \<Rightarrow> NotifierSystem \<Rightarrow> NotifierSystem" where
  "ns_message now msg i s =
     (case ns_client s i of
        None \<Rightarrow> s
      | Some client \<Rightarrow> ns_set_client i (snd (processClientMessage now msg client)) s)"

definition ns_publish :: "WorkUnit \<Rightarrow> NotifierSystem \<Rightarrow> NotifierSystem" where
  "ns_publish w s =
     s\<lparr>ns_notifier := (ns_notifier s)\<lparr>nt_buffer := snd (Publish w (nt_buffer (ns_notifier s)))\<rparr>\<rparr>"

section \<open>Steps\<close>

text \<open>A message is read, and a heartbeat or delivery written, only on an open connection, which it is until its client is removed.
  Identifiers are generated, and so are new.\<close>

datatype naction =
    NReceive WorkUnit
  | NFlushStart "bytes list"
  | NFlushSend
  | NConnect env "bytes option" bool
  | NDeliver bool gotime bytes
  | NEnd bytes
  | NStream gotime bytes
  | NMessage gotime "(bytes \<times> json) list option" bytes
  | NDisconnect bytes
  | NHeartbeat "bytes list"
  | NCleanup gotime
  | NRemoval bytes
  | NShutdown

definition is_ws :: "NotifierSystem \<Rightarrow> bytes \<Rightarrow> bool" where
  "is_ws s i = (case ns_client s i of None \<Rightarrow> False | Some c \<Rightarrow> \<not> cl_isSSE c)"

inductive ns_step ::
  "(WorkUnit \<Rightarrow> bytes option) \<Rightarrow> NotifierSystem \<Rightarrow> naction \<Rightarrow> (unit, unit) outcome \<times> NotifierSystem \<Rightarrow> bool"
  for marshal where
  receive: "ns_step marshal s (NReceive w) (Ret (), ns_publish w s)"
| flush_start: "ns_flush s = [] \<Longrightarrow> distinct ids \<Longrightarrow> set ids = set (bb_subscribers (nt_buffer (ns_notifier s))) \<Longrightarrow>
    ns_step marshal s (NFlushStart ids) (Ret (), ns_flush_start ids s)"
| flush_send: "ns_flush s \<noteq> [] \<Longrightarrow> ns_step marshal s NFlushSend (ns_flush_send s)"
| connect: "ns_client s (env_uuid E) = None \<Longrightarrow> env_uuid E \<notin> set (ns_running s) \<Longrightarrow> env_uuid E \<notin> fst ` set (ns_flush s) \<Longrightarrow>
    ns_step marshal s (NConnect E q sse) (Ret (), ns_connect E q sse s)"
| deliver: "i \<in> set (ns_running s) \<Longrightarrow> ch_buf (ns_chan s i) \<noteq> [] \<Longrightarrow>
    (written \<Longrightarrow> is_ws s i \<Longrightarrow> map_of (nt_clients (ns_notifier s)) i \<noteq> None) \<Longrightarrow>
    ns_step marshal s (NDeliver written now i) (ns_deliver marshal written now i s)"
| finish: "i \<in> set (ns_running s) \<Longrightarrow> ch_buf (ns_chan s i) = [] \<Longrightarrow> ch_closed (ns_chan s i) \<Longrightarrow>
    ns_step marshal s (NEnd i) (ns_end i s)"
| stream: "ns_step marshal s (NStream now i) (Ret (), ns_stream now i s)"
| message: "map_of (nt_clients (ns_notifier s)) i \<noteq> None \<Longrightarrow> is_ws s i \<Longrightarrow>
    ns_step marshal s (NMessage now msg i) (Ret (), ns_message now msg i s)"
| disconnect: "ns_client s i \<noteq> None \<Longrightarrow> ns_step marshal s (NDisconnect i) (ns_remove i s)"
| heartbeat: "ns_step marshal s (NHeartbeat failing) (Ret (), ns_heartbeat failing s)"
| cleanup: "ns_step marshal s (NCleanup now) (Ret (), ns_cleanup now s)"
| removal: "i \<in> set (ns_removals s) \<Longrightarrow>
    ns_step marshal s (NRemoval i) (case ns_remove i s of (r, s') \<Rightarrow> (r, s'\<lparr>ns_removals := remove1 i (ns_removals s')\<rparr>))"
| shutdown: "ns_step marshal s NShutdown (ns_shutdown s)"

text \<open>Runs of which every step satisfies \<open>allowed\<close>; a panic ends the program.\<close>

inductive ns_run ::
  "(WorkUnit \<Rightarrow> bytes option) \<Rightarrow> (NotifierSystem \<Rightarrow> naction \<Rightarrow> bool) \<Rightarrow> NotifierSystem \<Rightarrow> NotifierSystem \<Rightarrow> bool"
  for marshal allowed where
  stop: "ns_run marshal allowed s s"
| more: "ns_run marshal allowed s s1 \<Longrightarrow> allowed s1 a \<Longrightarrow> ns_step marshal s1 a (Ret (), s2) \<Longrightarrow> ns_run marshal allowed s s2"

section \<open>The invariant\<close>

text \<open>The subscribers of the buffer are the registered clients. The channel of a registered client is closed only after a failed
  write to its web socket, which ended its goroutine; that of a removed client always is. The goroutine of an SSE client
  finds its message channel open.\<close>

definition ns_wf :: "NotifierSystem \<Rightarrow> bool" where
  "ns_wf s \<longleftrightarrow>
     distinct (bb_subscribers (nt_buffer (ns_notifier s))) \<and>
     (\<forall>i. i \<in> set (bb_subscribers (nt_buffer (ns_notifier s))) \<longleftrightarrow> map_of (nt_clients (ns_notifier s)) i \<noteq> None) \<and>
     (\<forall>i c. map_of (nt_clients (ns_notifier s)) i = Some c \<longrightarrow> ch_closed (ns_chan s i) \<longrightarrow> \<not> cl_isSSE c \<and> i \<notin> set (ns_running s)) \<and>
     (\<forall>i \<in> set (ns_running s). \<exists>c. ns_client s i = Some c \<and> (cl_isSSE c \<longrightarrow> \<not> ch_closed (cl_sseChannel c))) \<and>
     (\<forall>i \<in> set (ns_running s). map_of (nt_clients (ns_notifier s)) i = None \<longrightarrow> ch_closed (ns_chan s i))"

named_theorems ns_simps \<open>what the operations of the notifier leave alone\<close>

lemma ns_client_registered [ns_simps]: "map_of (nt_clients (ns_notifier s)) i = Some c \<Longrightarrow> ns_client s i = Some c"
  by (simp add: ns_client_def)

lemma ns_set_client_simps [ns_simps]:
  "ns_client (ns_set_client i c s) j = (if j = i then Some c else ns_client s j)"
  "map_of (nt_clients (ns_notifier (ns_set_client i c s))) j =
     (if j = i \<and> map_of (nt_clients (ns_notifier s)) i \<noteq> None then Some c else map_of (nt_clients (ns_notifier s)) j)"
  "nt_buffer (ns_notifier (ns_set_client i c s)) = nt_buffer (ns_notifier s)"
  "ns_running (ns_set_client i c s) = ns_running s" "ns_flush (ns_set_client i c s) = ns_flush s"
  "ns_removals (ns_set_client i c s) = ns_removals s"
  by (auto simp: ns_set_client_def ns_client_def update_conv' split: option.splits)

lemma ns_set_chan_simps [ns_simps]:
  "ns_chan (ns_set_chan i ch s) j = (if j = i then ch else ns_chan s j)"
  "nt_clients (ns_notifier (ns_set_chan i ch s)) = nt_clients (ns_notifier s)"
  "ns_client (ns_set_chan i ch s) j = ns_client s j"
  "bb_subscribers (nt_buffer (ns_notifier (ns_set_chan i ch s))) = bb_subscribers (nt_buffer (ns_notifier s))"
  "bb_closed (nt_buffer (ns_notifier (ns_set_chan i ch s))) = bb_closed (nt_buffer (ns_notifier s))"
  "ns_running (ns_set_chan i ch s) = ns_running s" "ns_flush (ns_set_chan i ch s) = ns_flush s"
  "ns_removals (ns_set_chan i ch s) = ns_removals s"
  by (auto simp: ns_set_chan_def ns_client_def bb_set_chan_def bb_chan_def split: option.split)

lemma ns_client_update [ns_simps]:
  "ns_client (s\<lparr>ns_running := r\<rparr>) j = ns_client s j" "ns_client (s\<lparr>ns_flush := f\<rparr>) j = ns_client s j"
  "ns_client (s\<lparr>ns_removals := q\<rparr>) j = ns_client s j" "ns_client (s\<lparr>ns_streams := t\<rparr>) j = ns_client s j"
  by (simp_all add: ns_client_def split: option.split)

lemma ns_wfD:
  assumes "ns_wf s"
  shows "distinct (bb_subscribers (nt_buffer (ns_notifier s)))"
    and "i \<in> set (bb_subscribers (nt_buffer (ns_notifier s))) \<longleftrightarrow> map_of (nt_clients (ns_notifier s)) i \<noteq> None"
    and "map_of (nt_clients (ns_notifier s)) i = Some c \<Longrightarrow> ch_closed (ns_chan s i) \<Longrightarrow> \<not> cl_isSSE c \<and> i \<notin> set (ns_running s)"
    and "i \<in> set (ns_running s) \<Longrightarrow> \<exists>c. ns_client s i = Some c \<and> (cl_isSSE c \<longrightarrow> \<not> ch_closed (cl_sseChannel c))"
    and "i \<in> set (ns_running s) \<Longrightarrow> map_of (nt_clients (ns_notifier s)) i = None \<Longrightarrow> ch_closed (ns_chan s i)"
  using assms unfolding ns_wf_def by blast+

text \<open>What a removal does, whether or not the client is registered.\<close>

lemma ns_remove_absent: "map_of (nt_clients (ns_notifier s)) i = None \<Longrightarrow> ns_remove i s = (Ret (), s)"
  by (simp add: ns_remove_def removeClient_def)

lemma ns_remove_panics:
  assumes "ns_wf s"
  shows "fst (ns_remove i s) = Panic \<longleftrightarrow> map_of (nt_clients (ns_notifier s)) i \<noteq> None \<and> ch_closed (ns_chan s i)"
  using ns_wfD(2) [OF assms, of i]
  by (auto simp: ns_remove_def removeClient_def bbUnsubscribe_def Let_def split: prod.splits)

lemma ns_remove_effect:
  assumes "ns_wf s" and "ns_remove i s = (Ret (), s')"
  shows "ns_client s' = ns_client s" and "ns_running s' = ns_running s" and "ns_flush s' = ns_flush s"
    and "map_of (nt_clients (ns_notifier s')) = (map_of (nt_clients (ns_notifier s)))(i := None)"
    and "set (bb_subscribers (nt_buffer (ns_notifier s'))) = set (bb_subscribers (nt_buffer (ns_notifier s))) - {i}"
    and "distinct (bb_subscribers (nt_buffer (ns_notifier s')))"
    and "j \<noteq> i \<Longrightarrow> ns_chan s' j = ns_chan s j"
    and "ch_buf (ns_chan s' i) = ch_buf (ns_chan s i)"
    and "ch_closed (ns_chan s' i) \<longleftrightarrow> ch_closed (ns_chan s i) \<or> map_of (nt_clients (ns_notifier s)) i \<noteq> None"
    and "bb_closed (nt_buffer (ns_notifier s')) = bb_closed (nt_buffer (ns_notifier s))"
proof -
  show "ns_client s' = ns_client s" "ns_running s' = ns_running s" "ns_flush s' = ns_flush s"
    "map_of (nt_clients (ns_notifier s')) = (map_of (nt_clients (ns_notifier s)))(i := None)"
    "set (bb_subscribers (nt_buffer (ns_notifier s'))) = set (bb_subscribers (nt_buffer (ns_notifier s))) - {i}"
    "distinct (bb_subscribers (nt_buffer (ns_notifier s')))"
    "j \<noteq> i \<Longrightarrow> ns_chan s' j = ns_chan s j"
    "ch_buf (ns_chan s' i) = ch_buf (ns_chan s i)"
    "ch_closed (ns_chan s' i) \<longleftrightarrow> ch_closed (ns_chan s i) \<or> map_of (nt_clients (ns_notifier s)) i \<noteq> None"
    "bb_closed (nt_buffer (ns_notifier s')) = bb_closed (nt_buffer (ns_notifier s))"
    using assms(2) ns_wfD(1) [OF assms(1)] ns_wfD(2) [OF assms(1), of i]
    by (auto simp: ns_remove_def removeClient_def bbUnsubscribe_def Let_def ns_client_def fun_eq_iff update_conv' delete_conv'
        distinct_removeAll bb_set_chan_def bb_chan_def split: if_splits option.splits)
qed

lemma ns_wfI:
  assumes "distinct (bb_subscribers (nt_buffer (ns_notifier s)))"
    and "\<And>i. i \<in> set (bb_subscribers (nt_buffer (ns_notifier s))) \<longleftrightarrow> map_of (nt_clients (ns_notifier s)) i \<noteq> None"
    and "\<And>i c. map_of (nt_clients (ns_notifier s)) i = Some c \<Longrightarrow> ch_closed (ns_chan s i) \<Longrightarrow> \<not> cl_isSSE c \<and> i \<notin> set (ns_running s)"
    and "\<And>i. i \<in> set (ns_running s) \<Longrightarrow> \<exists>c. ns_client s i = Some c \<and> (cl_isSSE c \<longrightarrow> \<not> ch_closed (cl_sseChannel c))"
    and "\<And>i. i \<in> set (ns_running s) \<Longrightarrow> map_of (nt_clients (ns_notifier s)) i = None \<Longrightarrow> ch_closed (ns_chan s i)"
  shows "ns_wf s"
  using assms unfolding ns_wf_def by blast

lemma ns_remove_wf:
  assumes "ns_wf s" and "ns_remove i s = (Ret (), s')"
  shows "ns_wf s'"
proof (rule ns_wfI)
  note effect = ns_remove_effect [OF assms] and wf = ns_wfD [OF assms(1)]
  show "distinct (bb_subscribers (nt_buffer (ns_notifier s')))" by (rule effect(6))
  fix j
  show "j \<in> set (bb_subscribers (nt_buffer (ns_notifier s'))) \<longleftrightarrow> map_of (nt_clients (ns_notifier s')) j \<noteq> None"
    using wf(2) [of j] by (simp add: effect(4,5))
  show "\<exists>c. ns_client s' j = Some c \<and> (cl_isSSE c \<longrightarrow> \<not> ch_closed (cl_sseChannel c))" if "j \<in> set (ns_running s')"
    using wf(4) [of j] that by (simp add: effect(1,2))
  show "ch_closed (ns_chan s' j)" if "j \<in> set (ns_running s')" "map_of (nt_clients (ns_notifier s')) j = None"
    using wf(5) [of j] that effect(7) [of j] effect(9) by (cases "j = i") (auto simp: effect(2,4))
  show "\<not> cl_isSSE c \<and> j \<notin> set (ns_running s')"
    if "map_of (nt_clients (ns_notifier s')) j = Some c" "ch_closed (ns_chan s' j)" for c
    using wf(3) [of j c] that effect(7) [of j] by (cases "j = i") (auto simp: effect(2,4))
qed

text \<open>Steps that change neither the clients nor the channels' state keep it.\<close>

lemma ns_wf_unchanged:
  assumes "ns_wf s" and "bb_subscribers (nt_buffer (ns_notifier s')) = bb_subscribers (nt_buffer (ns_notifier s))"
    and "\<And>i. map_of (nt_clients (ns_notifier s')) i = None \<longleftrightarrow> map_of (nt_clients (ns_notifier s)) i = None"
    and "\<And>i. ch_closed (ns_chan s' i) = ch_closed (ns_chan s i)" and "set (ns_running s') = set (ns_running s)"
    and "\<And>i c'. ns_client s' i = Some c' \<Longrightarrow> \<exists>c. ns_client s i = Some c \<and> cl_isSSE c' = cl_isSSE c \<and>
      (i \<in> set (ns_running s) \<longrightarrow> cl_isSSE c \<longrightarrow> ch_closed (cl_sseChannel c') = ch_closed (cl_sseChannel c))"
    and "\<And>i. ns_client s i \<noteq> None \<Longrightarrow> ns_client s' i \<noteq> None"
  shows "ns_wf s'"
proof (rule ns_wfI)
  note wf = ns_wfD [OF assms(1)]
  show "distinct (bb_subscribers (nt_buffer (ns_notifier s')))" using wf(1) assms(2) by simp
  fix i
  show "i \<in> set (bb_subscribers (nt_buffer (ns_notifier s'))) \<longleftrightarrow> map_of (nt_clients (ns_notifier s')) i \<noteq> None"
    using wf(2) [of i] assms(2) assms(3) [of i] by simp
  show "\<exists>c. ns_client s' i = Some c \<and> (cl_isSSE c \<longrightarrow> \<not> ch_closed (cl_sseChannel c))" if running: "i \<in> set (ns_running s')"
  proof -
    from wf(4) [of i] running assms(5) obtain c where c: "ns_client s i = Some c" "cl_isSSE c \<longrightarrow> \<not> ch_closed (cl_sseChannel c)" by auto
    with assms(7) [of i] obtain c' where "ns_client s' i = Some c'" by auto
    with assms(5) assms(6) [of i c'] c running show ?thesis by auto
  qed
  show "ch_closed (ns_chan s' i)" if "i \<in> set (ns_running s')" "map_of (nt_clients (ns_notifier s')) i = None"
    using wf(5) [of i] that assms(3-5) by simp
  show "\<not> cl_isSSE c \<and> i \<notin> set (ns_running s')"
    if reg: "map_of (nt_clients (ns_notifier s')) i = Some c" and closed: "ch_closed (ns_chan s' i)" for c
  proof -
    from assms(3) [of i] reg obtain c0 where c0: "map_of (nt_clients (ns_notifier s)) i = Some c0" by auto
    with wf(3) [OF c0] closed assms(4) have "\<not> cl_isSSE c0" "i \<notin> set (ns_running s)" by auto
    moreover have "cl_isSSE c = cl_isSSE c0"
      using assms(6) [of i c] ns_client_registered [OF reg] ns_client_registered [OF c0] by auto
    ultimately show ?thesis using assms(5) by simp
  qed
qed

lemma ns_publish_simps [ns_simps]:
  "bb_subscribers (nt_buffer (ns_notifier (ns_publish w s))) = bb_subscribers (nt_buffer (ns_notifier s))"
  "nt_clients (ns_notifier (ns_publish w s)) = nt_clients (ns_notifier s)" "ns_chan (ns_publish w s) i = ns_chan s i"
  "ns_client (ns_publish w s) i = ns_client s i" "ns_running (ns_publish w s) = ns_running s"
  "ns_flush (ns_publish w s) = ns_flush s"
  by (simp_all add: ns_publish_def Publish_def Let_def ns_client_def split: option.split)

lemma ns_flush_start_simps [ns_simps]:
  "bb_subscribers (nt_buffer (ns_notifier (ns_flush_start ids s))) = bb_subscribers (nt_buffer (ns_notifier s))"
  "nt_clients (ns_notifier (ns_flush_start ids s)) = nt_clients (ns_notifier s)" "ns_chan (ns_flush_start ids s) i = ns_chan s i"
  "ns_client (ns_flush_start ids s) i = ns_client s i" "ns_running (ns_flush_start ids s) = ns_running s"
  "fst ` set (ns_flush (ns_flush_start ids s)) \<subseteq> set ids"
  by (auto simp: ns_flush_start_def Let_def ns_client_def split: option.split)

lemma processClientMessage_sse [ns_simps]:
  "cl_isSSE (snd (processClientMessage now msg c)) = cl_isSSE c" "cl_sseChannel (snd (processClientMessage now msg c)) = cl_sseChannel c"
  by (auto simp: processClientMessage_def Let_def split: option.splits json.splits)

lemma sse_deliver_sse:
  "sse_deliver marshal e c = Some c' \<Longrightarrow> cl_isSSE c' = cl_isSSE c \<and> ch_closed (cl_sseChannel c') = ch_closed (cl_sseChannel c)"
  by (auto simp: sse_deliver_def try_send_def split: if_splits option.splits send_result.splits)

lemma sse_deliver_open: "\<not> ch_closed (cl_sseChannel c) \<Longrightarrow> sse_deliver marshal e c \<noteq> None"
  by (auto simp: sse_deliver_def try_send_def split: option.splits)

lemma ns_set_client_wf:
  assumes "ns_wf s" and "ns_client s i = Some c" and "cl_isSSE c' = cl_isSSE c"
    and "i \<in> set (ns_running s) \<Longrightarrow> cl_isSSE c \<Longrightarrow> ch_closed (cl_sseChannel c') = ch_closed (cl_sseChannel c)"
  shows "ns_wf (ns_set_client i c' s)"
proof (rule ns_wf_unchanged [OF assms(1)])
  fix j c1
  assume "ns_client (ns_set_client i c' s) j = Some c1"
  then show "\<exists>c. ns_client s j = Some c \<and> cl_isSSE c1 = cl_isSSE c \<and>
      (j \<in> set (ns_running s) \<longrightarrow> cl_isSSE c \<longrightarrow> ch_closed (cl_sseChannel c1) = ch_closed (cl_sseChannel c))"
    using assms(2-4) by (cases "j = i") (auto simp: ns_simps)
qed (auto simp: ns_simps)

lemma ns_message_wf: "ns_wf s \<Longrightarrow> ns_wf (ns_message now msg i s)"
  by (cases "ns_client s i") (auto simp: ns_message_def ns_simps intro!: ns_set_client_wf)

lemma ns_wf_update [ns_simps]:
  "ns_wf (s\<lparr>ns_streams := t\<rparr>) = ns_wf s" "ns_wf (s\<lparr>ns_flush := f\<rparr>) = ns_wf s" "ns_wf (s\<lparr>ns_removals := q\<rparr>) = ns_wf s"
  by (simp_all add: ns_wf_def ns_simps)

lemma ns_stream_wf: "ns_wf s \<Longrightarrow> ns_wf (ns_stream now i s)"
  by (cases "ns_client s i") (auto simp: ns_stream_def ns_simps intro!: ns_set_client_wf split: list.splits)

lemma ns_set_chan_wf: "ns_wf s \<Longrightarrow> ch_closed ch = ch_closed (ns_chan s i) \<Longrightarrow> ns_wf (ns_set_chan i ch s)"
  by (rule ns_wf_unchanged [of s]) (auto simp: ns_simps)

lemma ns_flush_send_wf: "ns_wf s \<Longrightarrow> ns_flush_send s = (Ret (), s') \<Longrightarrow> ns_wf s'"
  by (auto simp: ns_flush_send_def ns_simps try_send_def intro!: ns_set_chan_wf split: list.splits send_result.splits if_splits)

lemma ns_shutdown_panics:
  "fst (ns_shutdown s) = Panic \<longleftrightarrow> bb_closed (nt_buffer (ns_notifier s)) \<or>
     (\<exists>i \<in> set (bb_subscribers (nt_buffer (ns_notifier s))). ch_closed (ns_chan s i))"
  by (auto simp: ns_shutdown_def notifierShutdown_def bbClose_def)

lemma ns_shutdown_effect:
  assumes "ns_shutdown s = (Ret (), s')"
  shows "bb_subscribers (nt_buffer (ns_notifier s')) = []" and "nt_clients (ns_notifier s') = []"
    and "ns_client s' = ns_client s" and "ns_running s' = ns_running s" and "ns_flush s' = ns_flush s"
    and "ns_chan s' j = (if j \<in> set (bb_subscribers (nt_buffer (ns_notifier s))) then close_chan (ns_chan s j) else ns_chan s j)"
proof -
  have [simp]: "bb_chan (b\<lparr>bb_closed := True\<rparr>) j = bb_chan b j" for b by (simp add: bb_chan_def)
  show "bb_subscribers (nt_buffer (ns_notifier s')) = []" "nt_clients (ns_notifier s') = []"
    "ns_client s' = ns_client s" "ns_running s' = ns_running s" "ns_flush s' = ns_flush s"
    "ns_chan s' j = (if j \<in> set (bb_subscribers (nt_buffer (ns_notifier s))) then close_chan (ns_chan s j) else ns_chan s j)"
    using assms by (auto simp: ns_shutdown_def notifierShutdown_def bbClose_def ns_client_def fun_eq_iff map_add_def
        split: if_splits option.split)
qed

lemma ns_shutdown_wf:
  assumes "ns_wf s" and "ns_shutdown s = (Ret (), s')"
  shows "ns_wf s'"
proof (rule ns_wfI)
  note effect = ns_shutdown_effect [OF assms(2)] and wf = ns_wfD [OF assms(1)]
  show "distinct (bb_subscribers (nt_buffer (ns_notifier s')))" by (simp add: effect(1))
  fix i
  show "i \<in> set (bb_subscribers (nt_buffer (ns_notifier s'))) \<longleftrightarrow> map_of (nt_clients (ns_notifier s')) i \<noteq> None"
    by (simp add: effect(1,2))
  show "\<exists>c. ns_client s' i = Some c \<and> (cl_isSSE c \<longrightarrow> \<not> ch_closed (cl_sseChannel c))" if "i \<in> set (ns_running s')"
    using wf(4) [of i] that by (simp add: effect(3,4))
  show "ch_closed (ns_chan s' i)" if "i \<in> set (ns_running s')"
    using wf(2) [of i] wf(5) [of i] that by (auto simp: effect(4,6))
  show "\<not> cl_isSSE c \<and> i \<notin> set (ns_running s')" if "map_of (nt_clients (ns_notifier s')) i = Some c" for c
    using that by (simp add: effect(2))
qed

lemma ns_connect_simps:
  assumes "ns_client s (env_uuid E) = None"
  shows "ns_client (ns_connect E q sse s) j = (if j = env_uuid E then Some (new_client E (query_context q) sse) else ns_client s j)"
    and "map_of (nt_clients (ns_notifier (ns_connect E q sse s))) j =
      (if j = env_uuid E then Some (new_client E (query_context q) sse) else map_of (nt_clients (ns_notifier s)) j)"
    and "ns_chan (ns_connect E q sse s) j = (if j = env_uuid E then make_chan 100 else ns_chan s j)"
    and "bb_subscribers (nt_buffer (ns_notifier (ns_connect E q sse s))) = List.insert (env_uuid E) (bb_subscribers (nt_buffer (ns_notifier s)))"
    and "ns_running (ns_connect E q sse s) = ns_running s @ [env_uuid E]"
    and "ns_flush (ns_connect E q sse s) = ns_flush s"
  using assms
  by (auto simp: ns_connect_def register_client_def ns_client_def update_conv' bbSubscribe_def new_client_def split: option.splits)

lemma ns_connect_wf:
  assumes "ns_wf s" and "ns_client s (env_uuid E) = None"
  shows "ns_wf (ns_connect E q sse s)" (is "ns_wf ?s")
proof (rule ns_wfI)
  note simps = ns_connect_simps [OF assms(2)] and wf = ns_wfD [OF assms(1)]
  have new: "\<not> ch_closed (cl_sseChannel (new_client E (query_context q) sse))" by (simp add: new_client_def)
  show "distinct (bb_subscribers (nt_buffer (ns_notifier ?s)))" using wf(1) by (simp add: simps)
  fix i
  show "i \<in> set (bb_subscribers (nt_buffer (ns_notifier ?s))) \<longleftrightarrow> map_of (nt_clients (ns_notifier ?s)) i \<noteq> None"
    using wf(2) [of i] by (simp add: simps)
  show "\<not> cl_isSSE c \<and> i \<notin> set (ns_running ?s)"
    if "map_of (nt_clients (ns_notifier ?s)) i = Some c" "ch_closed (ns_chan ?s i)" for c
    using wf(3) [of i c] that by (cases "i = env_uuid E") (simp_all add: simps)
  show "\<exists>c. ns_client ?s i = Some c \<and> (cl_isSSE c \<longrightarrow> \<not> ch_closed (cl_sseChannel c))" if "i \<in> set (ns_running ?s)"
    using wf(4) [of i] that new by (cases "i = env_uuid E") (simp_all add: simps)
  show "ch_closed (ns_chan ?s i)" if "i \<in> set (ns_running ?s)" "map_of (nt_clients (ns_notifier ?s)) i = None"
    using wf(5) [of i] that by (cases "i = env_uuid E") (simp_all add: simps)
qed

text \<open>The goroutine of a client whose channel is closed for good ends, or stops for a failed write.\<close>

lemma ns_stop_wf:
  assumes "ns_wf s" and "\<And>c. map_of (nt_clients (ns_notifier s)) i = Some c \<Longrightarrow> \<not> cl_isSSE c"
  shows "ns_wf ((ns_set_chan i (close_chan (ns_chan s i)) s)\<lparr>ns_running := removeAll i (ns_running s)\<rparr>)" (is "ns_wf ?s")
proof (rule ns_wfI)
  note wf = ns_wfD [OF assms(1)]
  show "distinct (bb_subscribers (nt_buffer (ns_notifier ?s)))" using wf(1) by (simp add: ns_simps)
  fix j
  show "j \<in> set (bb_subscribers (nt_buffer (ns_notifier ?s))) \<longleftrightarrow> map_of (nt_clients (ns_notifier ?s)) j \<noteq> None"
    using wf(2) [of j] by (simp add: ns_simps)
  show "\<not> cl_isSSE c' \<and> j \<notin> set (ns_running ?s)"
    if "map_of (nt_clients (ns_notifier ?s)) j = Some c'" "ch_closed (ns_chan ?s j)" for c'
    using wf(3) [of j c'] that assms(2) by (cases "j = i") (simp_all add: ns_simps)
  show "\<exists>c. ns_client ?s j = Some c \<and> (cl_isSSE c \<longrightarrow> \<not> ch_closed (cl_sseChannel c))" if "j \<in> set (ns_running ?s)"
    using wf(4) [of j] that by (simp add: ns_simps)
  show "ch_closed (ns_chan ?s j)" if "j \<in> set (ns_running ?s)" "map_of (nt_clients (ns_notifier ?s)) j = None"
    using wf(5) [of j] that by (simp add: ns_simps)
qed

lemma ns_wf_fewer:
  assumes "ns_wf s"
  shows "ns_wf (s\<lparr>ns_running := removeAll i (ns_running s)\<rparr>)" (is "ns_wf ?s")
proof (rule ns_wfI)
  note wf = ns_wfD [OF assms]
  show "distinct (bb_subscribers (nt_buffer (ns_notifier ?s)))" using wf(1) by simp
  fix j
  show "j \<in> set (bb_subscribers (nt_buffer (ns_notifier ?s))) \<longleftrightarrow> map_of (nt_clients (ns_notifier ?s)) j \<noteq> None"
    using wf(2) [of j] by simp
  show "\<not> cl_isSSE c \<and> j \<notin> set (ns_running ?s)"
    if "map_of (nt_clients (ns_notifier ?s)) j = Some c" "ch_closed (ns_chan ?s j)" for c
    using wf(3) [of j c] that by simp
  show "\<exists>c. ns_client ?s j = Some c \<and> (cl_isSSE c \<longrightarrow> \<not> ch_closed (cl_sseChannel c))" if "j \<in> set (ns_running ?s)"
    using wf(4) [of j] that by (simp add: ns_simps)
  show "ch_closed (ns_chan ?s j)" if "j \<in> set (ns_running ?s)" "map_of (nt_clients (ns_notifier ?s)) j = None"
    using wf(5) [of j] that by simp
qed

lemma ns_client_open:
  assumes "ns_wf s" and "i \<in> set (ns_running s)" and "ns_client s i = Some c" and "cl_isSSE c"
  shows "\<not> ch_closed (cl_sseChannel c)"
  using ns_wfD(4) [OF assms(1,2)] assms(3,4) by auto

lemma ns_end_ok:
  assumes "ns_wf s" and "i \<in> set (ns_running s)" and "ch_closed (ns_chan s i)"
  shows "fst (ns_end i s) = Ret () \<and> ns_wf (snd (ns_end i s)) \<and> ns_flush (snd (ns_end i s)) = ns_flush s \<and>
    nt_buffer (ns_notifier (snd (ns_end i s))) = nt_buffer (ns_notifier s) \<and>
    (\<forall>j c'. ns_client (snd (ns_end i s)) j = Some c' \<longrightarrow> (\<exists>c. ns_client s j = Some c \<and> cl_isSSE c' = cl_isSSE c))"
proof -
  let ?s = "s\<lparr>ns_running := removeAll i (ns_running s)\<rparr>"
  have wf: "ns_wf ?s" by (rule ns_wf_fewer [OF assms(1)])
  have gone: "map_of (nt_clients (ns_notifier s)) i = None" 
    using ns_wfD(3) [OF assms(1), of i] assms(2,3) by (cases "map_of (nt_clients (ns_notifier s)) i") auto
  obtain c where c: "ns_client s i = Some c" using ns_wfD(4) [OF assms(1,2)] by auto
  let ?t = "ns_set_client i (c\<lparr>cl_sseChannel := close_chan (cl_sseChannel c)\<rparr>) ?s"
  have "ns_wf ?t" using wf c by (intro ns_set_client_wf) (auto simp: ns_simps)
  moreover have "ns_end i s = (Ret (), if cl_isSSE c then ?t else ?s)"
    using ns_client_open [OF assms(1,2) c] c gone by (simp add: ns_end_def Let_def ns_simps ns_remove_absent)
  ultimately show ?thesis using wf c by (auto simp: ns_simps)
qed

text \<open>The delivery goroutine panics in one case: a web socket client that was removed has an event left that it wants.\<close>

lemma ns_deliver_cases:
  assumes "ns_wf s" and "i \<in> set (ns_running s)" and buf: "ch_buf (ns_chan s i) = e # es" and c: "ns_client s i = Some c"
    and "ns_deliver marshal written now i s = (r, s')"
  shows "r = Panic \<longleftrightarrow> \<not> written \<and> \<not> cl_isSSE c \<and> wants (cl_ContextIDs c) e \<and> map_of (nt_clients (ns_notifier s)) i = None"
    and "r \<noteq> Panic \<Longrightarrow> ns_wf s' \<and> ns_flush s' = ns_flush s \<and>
      (\<forall>j c'. ns_client s' j = Some c' \<longrightarrow> (\<exists>c. ns_client s j = Some c \<and> cl_isSSE c' = cl_isSSE c)) \<and>
      (cl_isSSE c \<longrightarrow> (\<forall>j. ch_closed (ns_chan s' j) = ch_closed (ns_chan s j)))"
proof -
  let ?ch = "(ns_chan s i)\<lparr>ch_buf := es\<rparr>"
  let ?s = "ns_set_chan i ?ch s"
  have wf: "ns_wf ?s" using assms(1) by (intro ns_set_chan_wf) auto
  have closed: "ch_closed (ns_chan s i) \<longleftrightarrow> map_of (nt_clients (ns_notifier s)) i = None"
    using ns_wfD(3,5) [OF assms(1), of i] assms(2) by (cases "map_of (nt_clients (ns_notifier s)) i") auto
  have reg: "c' = c" if "map_of (nt_clients (ns_notifier s)) i = Some c'" for c' using that c by (simp add: ns_client_registered)
  have step: "ns_deliver marshal written now i s =
      (if cl_isSSE c then (case sse_deliver marshal e c of None \<Rightarrow> (Panic, ?s) | Some c \<Rightarrow> (Ret (), ns_set_client i c ?s))
       else if \<not> wants (cl_ContextIDs c) e then (Ret (), ?s)
       else if written then (Ret (), ns_set_client i (c\<lparr>cl_sent := cl_sent c @ [e], cl_LastActive := now\<rparr>) ?s)
       else if ch_closed (ns_chan s i) then (Panic, ?s)
       else (Ret (), (ns_set_chan i (close_chan ?ch) ?s)\<lparr>ns_running := removeAll i (ns_running ?s)\<rparr>))"
    using buf c by (simp add: ns_deliver_def Let_def ns_simps)
  show "r = Panic \<longleftrightarrow> \<not> written \<and> \<not> cl_isSSE c \<and> wants (cl_ContextIDs c) e \<and> map_of (nt_clients (ns_notifier s)) i = None"
    using assms(5) sse_deliver_open [of c marshal e] ns_client_open [OF assms(1,2) c] unfolding step closed
    by (auto split: if_splits option.splits)
  have stop: "ns_wf ((ns_set_chan i (close_chan ?ch) ?s)\<lparr>ns_running := removeAll i (ns_running ?s)\<rparr>)" if "\<not> cl_isSSE c"
    using ns_stop_wf [OF wf, of i] reg that by (auto simp: ns_simps)
  show "ns_wf s' \<and> ns_flush s' = ns_flush s \<and>
      (\<forall>j c'. ns_client s' j = Some c' \<longrightarrow> (\<exists>c. ns_client s j = Some c \<and> cl_isSSE c' = cl_isSSE c)) \<and>
      (cl_isSSE c \<longrightarrow> (\<forall>j. ch_closed (ns_chan s' j) = ch_closed (ns_chan s j)))" if "r \<noteq> Panic"
    using assms(5) that wf c stop unfolding step
    by (auto simp: ns_simps dest!: sse_deliver_sse intro!: ns_set_client_wf split: if_splits option.splits)
qed

section \<open>Panics\<close>

text \<open>The steps that end the program.\<close>

fun panics_at :: "NotifierSystem \<Rightarrow> naction \<Rightarrow> bool" where
  "panics_at s (NDeliver written now i) =
     (\<not> written \<and> map_of (nt_clients (ns_notifier s)) i = None \<and>
      (case ns_client s i of None \<Rightarrow> False | Some c \<Rightarrow> \<not> cl_isSSE c \<and> wants (cl_ContextIDs c) (hd (ch_buf (ns_chan s i)))))"
| "panics_at s NFlushSend = (case ns_flush s of [] \<Rightarrow> False | (i, w) # _ \<Rightarrow> ch_closed (ns_chan s i))"
| "panics_at s (NDisconnect i) = (map_of (nt_clients (ns_notifier s)) i \<noteq> None \<and> ch_closed (ns_chan s i))"
| "panics_at s (NRemoval i) = (map_of (nt_clients (ns_notifier s)) i \<noteq> None \<and> ch_closed (ns_chan s i))"
| "panics_at s NShutdown =
     (bb_closed (nt_buffer (ns_notifier s)) \<or> (\<exists>i \<in> set (bb_subscribers (nt_buffer (ns_notifier s))). ch_closed (ns_chan s i)))"
| "panics_at s _ = False"

lemma never_err:
  "ns_remove i s = (r, s') \<Longrightarrow> r \<noteq> Panic \<Longrightarrow> r = Ret ()" "ns_shutdown s = (r, s') \<Longrightarrow> r \<noteq> Panic \<Longrightarrow> r = Ret ()"
  "ns_flush_send s = (r, s') \<Longrightarrow> r \<noteq> Panic \<Longrightarrow> r = Ret ()"
  by (auto simp: ns_remove_def removeClient_def bbUnsubscribe_def Let_def ns_shutdown_def notifierShutdown_def bbClose_def
      ns_flush_send_def split: prod.splits if_splits list.splits send_result.splits)

lemma ns_flush_send_panics: "fst (ns_flush_send s) = Panic \<longleftrightarrow> panics_at s NFlushSend"
  by (auto simp: ns_flush_send_def try_send_def split: list.splits)

lemma ns_step_effect:
  assumes "ns_wf s" and "ns_step marshal s a (r, s')"
  shows "(r = Panic \<longleftrightarrow> panics_at s a) \<and> (r \<noteq> Panic \<longrightarrow> ns_wf s')"
  using assms(2)
proof (cases rule: ns_step.cases)
  case (receive w)
  then show ?thesis using assms(1) by (auto simp: ns_simps intro!: ns_wf_unchanged [of s])
next
  case (flush_start ids)
  then show ?thesis using assms(1) by (auto simp: ns_simps intro!: ns_wf_unchanged [of s])
next
  case flush_send
  then show ?thesis using ns_flush_send_panics [of s] never_err(3) [of s r s'] ns_flush_send_wf [OF assms(1), of s']
    by (cases "ns_flush_send s") (auto simp del: panics_at.simps)
next
  case (connect E q sse)
  then show ?thesis using ns_connect_wf [OF assms(1)] by auto
next
  case (deliver i written now)
  obtain e es where buf: "ch_buf (ns_chan s i) = e # es" using deliver(4) by (cases "ch_buf (ns_chan s i)") auto
  obtain c where c: "ns_client s i = Some c" using ns_wfD(4) [OF assms(1) deliver(3)] by auto
  show ?thesis using ns_deliver_cases [OF assms(1) deliver(3) buf c, of marshal written now r s'] deliver buf c by auto
next
  case (finish i)
  then show ?thesis using ns_end_ok [OF assms(1) finish(3,5)] by (cases "ns_end i s") auto
next
  case (disconnect i)
  then show ?thesis
    using ns_remove_panics [OF assms(1), of i] ns_remove_wf [OF assms(1), of i s'] never_err(1) [of i s r s']
    by (cases "ns_remove i s") auto
next
  case (removal i)
  then show ?thesis
    using ns_remove_panics [OF assms(1), of i] ns_remove_wf [OF assms(1), of i] never_err(1) [of i s]
    by (cases "ns_remove i s") (auto simp: ns_simps)
next
  case shutdown
  then show ?thesis
    using ns_shutdown_panics [of s] ns_shutdown_wf [OF assms(1), of s'] never_err(2) [of s r s']
    by (cases "ns_shutdown s") auto
qed (use assms(1) in \<open>auto simp: ns_stream_wf ns_message_wf ns_heartbeat_def ns_cleanup_def ns_simps\<close>)

lemma notifier_started_wf: "ns_wf (notifier_started (NewNotifier config))"
  by (simp add: ns_wf_def notifier_started_def NewNotifier_def NewBroadcastBuffer_def)

lemma ns_run_wf: "ns_run marshal allowed s s' \<Longrightarrow> ns_wf s \<Longrightarrow> ns_wf s'"
  by (induction rule: ns_run.induct) (use ns_step_effect in blast)+


text \<open>A web socket client that leaves while an event it wants waits in its channel ends the program: its removal closes the channel
  and the connection, and the next write, which must fail, closes the channel again. Its goroutine has no other step.\<close>

lemma leaving_with_backlog:
  assumes run: "ns_run marshal (\<lambda>_ _. True) (notifier_started (NewNotifier config)) s"
    and c: "map_of (nt_clients (ns_notifier s)) i = Some c" "\<not> cl_isSSE c" "i \<in> set (ns_running s)"
    and e: "ch_buf (ns_chan s i) = e # es" "wants (cl_ContextIDs c) e"
  shows "\<exists>s1. ns_step marshal s (NDisconnect i) (Ret (), s1) \<and>
     (\<exists>s2. ns_step marshal s1 (NDeliver False now i) (Panic, s2)) \<and>
     (\<forall>written now r s2. ns_step marshal s1 (NDeliver written now i) (r, s2) \<longrightarrow> r = Panic) \<and>
     (\<forall>r s2. \<not> ns_step marshal s1 (NEnd i) (r, s2))"
proof -
  have wf: "ns_wf s" by (rule ns_run_wf [OF run notifier_started_wf])
  have client: "ns_client s i = Some c" by (rule ns_client_registered [OF c(1)])
  have opened: "\<not> ch_closed (ns_chan s i)" using ns_wfD(3) [OF wf c(1)] c(3) by auto
  obtain r s1 where s1: "ns_remove i s = (r, s1)" by (cases "ns_remove i s")
  with ns_remove_panics [OF wf, of i] opened s1 never_err(1) [OF s1] have r: "r = Ret ()" by auto
  note effect = ns_remove_effect [OF wf s1 [unfolded r]]
  have wf1: "ns_wf s1" by (rule ns_remove_wf [OF wf s1 [unfolded r]])
  have step: "ns_step marshal s (NDisconnect i) (Ret (), s1)"
    using ns_step.disconnect [of s i marshal] client s1 r by simp
  have at: "panics_at s1 (NDeliver False now i)" for now using client c e effect(1,4,8) by simp
  have ws: "is_ws s1 i" "map_of (nt_clients (ns_notifier s1)) i = None" using client c(2) effect(1,4) by (simp_all add: is_ws_def)
  have "ns_step marshal s1 (NDeliver False now i) (ns_deliver marshal False now i s1)" for now
    using effect(2,8) c(3) e(1) by (intro ns_step.deliver) auto
  then have some: "\<exists>s2. ns_step marshal s1 (NDeliver False now i) (Panic, s2)"
    using ns_step_effect [OF wf1] at by (metis surj_pair)
  have all: "r = Panic" if deliver: "ns_step marshal s1 (NDeliver written now i) (r, s2)" for written now r s2
  proof -
    have "\<not> written" using deliver ws by (auto elim: ns_step.cases)
    then show ?thesis using ns_step_effect [OF wf1 deliver] at [of now] by simp
  qed
  have "\<not> ns_step marshal s1 (NEnd i) (r, s2)" for r s2
    using effect(8) e(1) by (auto elim!: ns_step.cases)
  with step some all show ?thesis by blast
qed

text \<open>SSE clients alone are safe as long as no client is removed, and the notifier not shut down twice or at all, in the middle of a
  flush.\<close>

fun calm :: "NotifierSystem \<Rightarrow> naction \<Rightarrow> bool" where
  "calm s (NConnect E q sse) = sse"
| "calm s (NDisconnect i) = (ns_flush s = [])"
| "calm s (NRemoval i) = (ns_flush s = [])"
| "calm s NShutdown = (ns_flush s = [] \<and> \<not> bb_closed (nt_buffer (ns_notifier s)))"
| "calm s _ = True"

definition sse_inv :: "NotifierSystem \<Rightarrow> bool" where
  "sse_inv s \<longleftrightarrow> ns_wf s \<and> (\<forall>i c. ns_client s i = Some c \<longrightarrow> cl_isSSE c) \<and> (\<forall>i \<in> fst ` set (ns_flush s). \<not> ch_closed (ns_chan s i))"

lemma sse_inv_registered:
  assumes "sse_inv s" and "i \<in> set (bb_subscribers (nt_buffer (ns_notifier s))) \<or> map_of (nt_clients (ns_notifier s)) i \<noteq> None"
  shows "\<not> ch_closed (ns_chan s i)"
proof -
  have wf: "ns_wf s" using assms(1) by (simp add: sse_inv_def)
  obtain c where "map_of (nt_clients (ns_notifier s)) i = Some c" using ns_wfD(2) [OF wf, of i] assms(2) by auto
  then show ?thesis using ns_wfD(3) [OF wf, of i c] ns_client_registered [of s i c] assms(1) by (auto simp: sse_inv_def)
qed

lemma sse_calm:
  assumes "sse_inv s" and "calm s a"
  shows "\<not> panics_at s a"
proof -
  have sse: "cl_isSSE c" if "ns_client s i = Some c" for i c using assms(1) that by (simp add: sse_inv_def)
  show ?thesis
    using assms(1,2) sse_inv_registered [OF assms(1)] sse
    by (cases a) (auto simp: sse_inv_def split: list.splits option.splits)
qed

lemma sse_invI:
  assumes "ns_wf s'" and "sse_inv s" and "\<And>j c'. ns_client s' j = Some c' \<Longrightarrow> cl_isSSE c' \<or> (\<exists>c. ns_client s j = Some c \<and> cl_isSSE c' = cl_isSSE c)"
    and "\<And>j. j \<in> fst ` set (ns_flush s') \<Longrightarrow> j \<in> fst ` set (ns_flush s) \<and> ch_closed (ns_chan s' j) = ch_closed (ns_chan s j)"
  shows "sse_inv s'"
  using assms unfolding sse_inv_def by metis

lemma ns_flush_send_effect:
  assumes "ns_flush_send s = (Ret (), s')"
  shows "ns_client s' = ns_client s" and "set (ns_flush s') \<subseteq> set (ns_flush s)" and "ch_closed (ns_chan s' j) = ch_closed (ns_chan s j)"
  using assms by (auto simp: ns_flush_send_def try_send_def ns_simps fun_eq_iff split: list.splits if_splits)

lemma sse_inv_step:
  assumes "sse_inv s" and "calm s a" and "ns_step marshal s a (Ret (), s')"
  shows "sse_inv s'"
proof -
  have wf: "ns_wf s" and sse: "\<And>i c. ns_client s i = Some c \<Longrightarrow> cl_isSSE c" using assms(1) by (auto simp: sse_inv_def)
  have wf': "ns_wf s'" using ns_step_effect [OF wf assms(3)] by simp
  show ?thesis
    using assms(3)
  proof (cases rule: ns_step.cases)
    case (flush_start ids)
    then show ?thesis using wf' sse sse_inv_registered [OF assms(1)] ns_flush_start_simps(6) [of ids s]
      by (auto simp: sse_inv_def ns_simps subset_iff)
  next
    case flush_send
    then show ?thesis using ns_flush_send_effect [of s s'] by (intro sse_invI [OF wf' assms(1)]) auto
  next
    case (connect E q sse)
    then show ?thesis using assms(2)
      by (intro sse_invI [OF wf' assms(1)]) (auto simp: ns_connect_simps [OF connect(3)] new_client_def image_iff split: if_splits)
  next
    case (deliver i written now)
    obtain e es where buf: "ch_buf (ns_chan s i) = e # es" using deliver(4) by (cases "ch_buf (ns_chan s i)") auto
    obtain c where c: "ns_client s i = Some c" using ns_wfD(4) [OF wf deliver(3)] by auto
    show ?thesis
      using ns_deliver_cases(2) [OF wf deliver(3) buf c, of marshal written now "Ret ()" s'] deliver sse c
      by (intro sse_invI [OF wf' assms(1)]) auto
  next
    case (finish i)
    then show ?thesis using ns_end_ok [OF wf finish(3,5)]
      by (cases "ns_end i s") (intro sse_invI [OF wf' assms(1)], auto)
  next
    case (message i now msg)
    then show ?thesis using sse by (auto simp: is_ws_def split: option.splits)
  next
    case (disconnect i)
    then show ?thesis using assms(2) ns_remove_effect(1,3) [OF wf, of i s']
      by (cases "ns_remove i s") (intro sse_invI [OF wf' assms(1)], auto)
  next
    case (removal i)
    then show ?thesis using assms(2) ns_remove_effect(1,3) [OF wf, of i]
      by (cases "ns_remove i s") (intro sse_invI [OF wf' assms(1)], auto simp: ns_simps)
  next
    case shutdown
    then show ?thesis using assms(2) ns_shutdown_effect(3,5) [of s s']
      by (intro sse_invI [OF wf' assms(1)]) auto
  next
    case (stream now i)
    then show ?thesis using sse
      by (intro sse_invI [OF wf' assms(1)]) (auto simp: ns_stream_def ns_simps split: option.splits list.splits if_splits)
  qed (intro sse_invI [OF wf' assms(1)]; auto simp: ns_simps ns_heartbeat_def ns_cleanup_def)+
qed

lemma sse_only_safe:
  assumes "ns_run marshal calm (notifier_started (NewNotifier config)) s" and "calm s a" and "ns_step marshal s a (r, s')"
  shows "r \<noteq> Panic"
proof -
  have "sse_inv (notifier_started (NewNotifier config))"
    using notifier_started_wf by (simp add: sse_inv_def notifier_started_def ns_client_def NewNotifier_def)
  with assms(1) have "sse_inv s" by (induction rule: ns_run.induct) (auto intro: sse_inv_step)
  then have "ns_wf s" "\<not> panics_at s a" using sse_calm assms(2) by (auto simp: sse_inv_def)
  then show ?thesis using ns_step_effect assms(3) by blast
qed

section \<open>A run\<close>

text \<open>A web socket client connects, an event is published and flushed to its channel, and the client disconnects.\<close>

definition left_behind :: NotifierSystem where
  "left_behind = snd (ns_remove ''s'' (snd (ns_flush_send (ns_flush_start [''s''] (ns_publish (ev ''1'' ''c'')
     (ns_connect (rt_env 0 ''s'') (Some ''c'') False (notifier_started (NewNotifier \<lparr>nc_MaxIdleTime = 0, nc_BroadcastBufferSize = 0,
       nc_BroadcastFlushInterval = 0\<rparr>))))))))"

lemmas notifier_defs = ns_connect_def ns_publish_def ns_flush_start_def ns_flush_send_def ns_remove_def ns_client_def
  ns_set_chan_def notifier_started_def NewNotifier_def NewBroadcastBuffer_def register_client_def new_client_def bbSubscribe_def bb_set_chan_def
  bb_chan_def Publish_def try_send_def make_chan_def removeClient_def bbUnsubscribe_def query_context_def rt_env_def Let_def

lemma left_behind_run:
  "ns_run marshal (\<lambda>_ _. True) (notifier_started (NewNotifier \<lparr>nc_MaxIdleTime = 0, nc_BroadcastBufferSize = 0,
       nc_BroadcastFlushInterval = 0\<rparr>)) left_behind"
proof -
  let ?s0 = "notifier_started (NewNotifier \<lparr>nc_MaxIdleTime = 0, nc_BroadcastBufferSize = 0, nc_BroadcastFlushInterval = 0\<rparr>)"
  let ?s1 = "ns_connect (rt_env 0 ''s'') (Some ''c'') False ?s0"
  let ?s2 = "ns_publish (ev ''1'' ''c'') ?s1"
  let ?s3 = "ns_flush_start [''s''] ?s2"
  let ?s4 = "snd (ns_flush_send ?s3)"
  have "ns_step marshal ?s0 (NConnect (rt_env 0 ''s'') (Some ''c'') False) (Ret (), ?s1)"
    by (rule ns_step.connect) (simp_all add: notifier_defs)
  moreover have "ns_step marshal ?s1 (NReceive (ev ''1'' ''c'')) (Ret (), ?s2)" by (rule ns_step.receive)
  moreover have "ns_step marshal ?s2 (NFlushStart [''s'']) (Ret (), ?s3)"
    by (rule ns_step.flush_start) (simp_all add: notifier_defs)
  moreover have "ns_step marshal ?s3 NFlushSend (Ret (), ?s4)"
    using ns_step.flush_send [of ?s3 marshal] by (simp add: notifier_defs)
  moreover have "ns_step marshal ?s4 (NDisconnect ''s'') (Ret (), left_behind)"
    using ns_step.disconnect [of ?s4 "''s''" marshal] by (simp add: notifier_defs left_behind_def)
  ultimately show ?thesis using ns_run.intros [of marshal "\<lambda>_ _. True"] by metis
qed

lemma left_behind_step:
  "ns_step marshal left_behind (NDeliver False now ''s'') (ns_deliver marshal False now ''s'' left_behind)"
  by (rule ns_step.deliver) (simp_all add: notifier_defs left_behind_def)

lemma left_behind_panics: "panics_at left_behind (NDeliver False now ''s'')"
  by (simp add: notifier_defs left_behind_def wants_def ev_def)


end
