(* ===== verification/Storage_TxnPool.thy ===== *)
theory Storage_TxnPool
  imports Engram_Prelude
begin

text \<open>
  The transaction pool of \<open>internal/storage/pool.go\<close>. A Badger transaction is an identity with its kind; \<open>tp_live\<close> are those Badger has created
  and nobody has discarded (discarding one again has no effect, as Badger documents). Shown: an account of where every live
  transaction is, which exposes that each one taken out of the pool is lost.
\<close>

section \<open>The pool\<close>

record pool_txn =
  px_id :: nat
  px_writable :: bool

record TransactionPool =
  tp_txns :: "pool_txn chan"
  tp_maxConnections :: int
  tp_idleTimeout :: duration
  tp_cancelled :: bool
  tp_created :: nat
  tp_live :: "nat set"

definition NewTransactionPool :: "int \<Rightarrow> duration \<Rightarrow> (unit, TransactionPool) outcome" where
  "NewTransactionPool maxConnections idleTimeout =
     (if maxConnections < 0 then Panic
      else Ret \<lparr>tp_txns = make_chan (nat maxConnections), tp_maxConnections = maxConnections, tp_idleTimeout = idleTimeout,
                tp_cancelled = False, tp_created = 0, tp_live = {}\<rparr>)"

definition new_txn :: "bool \<Rightarrow> TransactionPool \<Rightarrow> pool_txn \<times> TransactionPool" where
  "new_txn writable p =
     (\<lparr>px_id = tp_created p, px_writable = writable\<rparr>, p\<lparr>tp_created := tp_created p + 1, tp_live := insert (tp_created p) (tp_live p)\<rparr>)"

definition discard_txn :: "pool_txn \<Rightarrow> TransactionPool \<Rightarrow> TransactionPool" where
  "discard_txn t p = p\<lparr>tp_live := tp_live p - {px_id t}\<rparr>"

text \<open>A receive in a \<open>select\<close> with a \<open>default\<close> branch; the pool's channel is never closed.\<close>

definition pool_receive :: "TransactionPool \<Rightarrow> (pool_txn \<times> TransactionPool) option" where
  "pool_receive p =
     (case ch_buf (tp_txns p) of
        [] \<Rightarrow> None
      | t # ts \<Rightarrow> Some (t, p\<lparr>tp_txns := (tp_txns p)\<lparr>ch_buf := ts\<rparr>\<rparr>))"

text \<open>\<open>GetReadTxn\<close> receives a transaction, does nothing with it, and creates another.\<close>

definition GetReadTxn :: "TransactionPool \<Rightarrow> pool_txn \<times> TransactionPool" where
  "GetReadTxn p = (case pool_receive p of Some (_, p) \<Rightarrow> new_txn False p | None \<Rightarrow> new_txn False p)"

definition GetWriteTxn :: "TransactionPool \<Rightarrow> pool_txn \<times> TransactionPool" where
  "GetWriteTxn p = new_txn True p"

definition PutTxn :: "pool_txn option \<Rightarrow> TransactionPool \<Rightarrow> TransactionPool" where
  "PutTxn txn p =
     (case txn of
        None \<Rightarrow> p
      | Some t \<Rightarrow> (case try_send (tp_txns p) t of Sent ch \<Rightarrow> p\<lparr>tp_txns := ch\<rparr> | _ \<Rightarrow> discard_txn t p))"

function drain :: "TransactionPool \<Rightarrow> pool_txn list \<times> TransactionPool" where
  "drain p = (case pool_receive p of None \<Rightarrow> ([], p) | Some (t, p) \<Rightarrow> (case drain p of (ts, p) \<Rightarrow> (t # ts, p)))"
  by pat_completeness auto
termination
  by (relation "measure (\<lambda>p. length (ch_buf (tp_txns p)))") (auto simp: pool_receive_def split: list.splits)

definition doCleanup :: "TransactionPool \<Rightarrow> TransactionPool" where
  "doCleanup p = (case drain p of (txns, p) \<Rightarrow> fold discard_txn txns p)"

text \<open>The cleanup goroutine: its ticker panics for an interval that is not positive; a tick cleans up until the pool is closed.\<close>

definition cleanup_ticker :: "TransactionPool \<Rightarrow> (unit, duration) outcome" where
  "cleanup_ticker p = (if tp_idleTimeout p \<le> 0 then Panic else Ret (tp_idleTimeout p))"

definition cleanup_tick :: "TransactionPool \<Rightarrow> TransactionPool" where
  "cleanup_tick p = (if tp_cancelled p then p else doCleanup p)"

function discard_all :: "TransactionPool \<Rightarrow> TransactionPool" where
  "discard_all p = (case pool_receive p of None \<Rightarrow> p | Some (t, p) \<Rightarrow> discard_all (discard_txn t p))"
  by pat_completeness auto
termination
  by (relation "measure (\<lambda>p. length (ch_buf (tp_txns p)))") (auto simp: pool_receive_def discard_txn_def split: list.splits)

definition poolClose :: "TransactionPool \<Rightarrow> TransactionPool" where
  "poolClose p = discard_all (p\<lparr>tp_cancelled := True\<rparr>)"

declare drain.simps [simp del] discard_all.simps [simp del]

section \<open>Using the pool\<close>

text \<open>The clients of the pool: transactions they hold, and calls in any order. A client returns or discards only a transaction it
  holds, once. \<open>pu_lost\<close> are the transactions received from the pool and dropped.\<close>

record pool_use =
  pu_pool :: TransactionPool
  pu_held :: "pool_txn list"
  pu_lost :: "nat list"

datatype pool_op = OpGetRead | OpGetWrite | OpPut nat | OpPutNil | OpDiscard nat | OpTick | OpClose

definition pool_step :: "pool_op \<Rightarrow> pool_use \<Rightarrow> pool_use" where
  "pool_step x u =
     (let p = pu_pool u; held = pu_held u
      in case x of
           OpGetRead \<Rightarrow>
             (case GetReadTxn p of
                (t, p') \<Rightarrow> u\<lparr>pu_pool := p', pu_held := held @ [t], pu_lost := map px_id (take 1 (ch_buf (tp_txns p))) @ pu_lost u\<rparr>)
         | OpGetWrite \<Rightarrow> (case GetWriteTxn p of (t, p') \<Rightarrow> u\<lparr>pu_pool := p', pu_held := held @ [t]\<rparr>)
         | OpPut k \<Rightarrow>
             if k < length held then u\<lparr>pu_pool := PutTxn (Some (held ! k)) p, pu_held := take k held @ drop (Suc k) held\<rparr> else u
         | OpPutNil \<Rightarrow> u\<lparr>pu_pool := PutTxn None p\<rparr>
         | OpDiscard k \<Rightarrow>
             if k < length held then u\<lparr>pu_pool := discard_txn (held ! k) p, pu_held := take k held @ drop (Suc k) held\<rparr> else u
         | OpTick \<Rightarrow> u\<lparr>pu_pool := cleanup_tick p\<rparr>
         | OpClose \<Rightarrow> u\<lparr>pu_pool := poolClose p\<rparr>)"

definition pool_new :: "nat \<Rightarrow> duration \<Rightarrow> pool_use" where
  "pool_new n idle =
     \<lparr>pu_pool = \<lparr>tp_txns = make_chan n, tp_maxConnections = int n, tp_idleTimeout = idle, tp_cancelled = False, tp_created = 0,
                tp_live = {}\<rparr>, pu_held = [], pu_lost = []\<rparr>"

lemma pool_new_created: "NewTransactionPool (int n) idle = Ret (pu_pool (pool_new n idle))"
  by (simp add: NewTransactionPool_def pool_new_def)

text \<open>The account: every live transaction is held by one client, or in the pool, or lost.\<close>

definition pool_ids :: "TransactionPool \<Rightarrow> nat list" where
  "pool_ids p = map px_id (ch_buf (tp_txns p))"

definition pool_account :: "pool_use \<Rightarrow> bool" where
  "pool_account u \<longleftrightarrow>
     (let p = pu_pool u; ids = map px_id (pu_held u) @ pool_ids p @ pu_lost u
      in distinct ids \<and> set ids = tp_live p \<and> (\<forall>i \<in> tp_live p. i < tp_created p) \<and> chan_ok (tp_txns p) \<and>
         \<not> ch_closed (tp_txns p))"

lemma drain_effect: "drain p = (ch_buf (tp_txns p), p\<lparr>tp_txns := (tp_txns p)\<lparr>ch_buf := []\<rparr>\<rparr>)"
proof (induction p rule: drain.induct)
  case (1 p)
  show ?case
  proof (cases "ch_buf (tp_txns p)")
    case Nil
    then show ?thesis by (subst drain.simps) (simp add: pool_receive_def)
  next
    case (Cons t ts)
    then show ?thesis using "1.IH" by (subst drain.simps) (simp add: pool_receive_def)
  qed
qed

lemma fold_discard: "fold discard_txn ts p = p\<lparr>tp_live := tp_live p - px_id ` set ts\<rparr>"
  by (induction ts arbitrary: p) (simp_all add: discard_txn_def Diff_insert2 [symmetric])

lemma discard_all_effect:
  "discard_all p = p\<lparr>tp_txns := (tp_txns p)\<lparr>ch_buf := []\<rparr>, tp_live := tp_live p - set (pool_ids p)\<rparr>"
proof (induction p rule: discard_all.induct)
  case (1 p)
  show ?case
  proof (cases "ch_buf (tp_txns p)")
    case Nil
    then show ?thesis by (subst discard_all.simps) (auto simp: pool_receive_def pool_ids_def)
  next
    case (Cons t ts)
    then show ?thesis using "1.IH" by (subst discard_all.simps) (auto simp: pool_receive_def discard_txn_def pool_ids_def Diff_insert2 [symmetric])
  qed
qed

lemma doCleanup_effect:
  "doCleanup p = p\<lparr>tp_txns := (tp_txns p)\<lparr>ch_buf := []\<rparr>, tp_live := tp_live p - set (pool_ids p)\<rparr>"
  by (simp add: doCleanup_def drain_effect fold_discard pool_ids_def)

text \<open>A cleanup and a close have the same effect on the transactions.\<close>

lemma close_as_cleanup: "poolClose p = (doCleanup p)\<lparr>tp_cancelled := True\<rparr>"
  by (simp add: poolClose_def doCleanup_effect discard_all_effect pool_ids_def)

lemma pool_account_step:
  assumes "pool_account u"
  shows "pool_account (pool_step x u)"
proof -
  have nth: "held = take k held @ (held ! k) # drop (Suc k) held" if "k < length held" for k and held :: "pool_txn list"
    using that by (simp add: id_take_nth_drop)
  show ?thesis
  proof (cases x)
    case OpGetRead
    then show ?thesis using assms
      by (cases "ch_buf (tp_txns (pu_pool u))")
        (auto simp: pool_step_def pool_account_def Let_def GetReadTxn_def pool_receive_def new_txn_def pool_ids_def chan_ok_def less_Suc_eq)
  next
    case OpGetWrite
    then show ?thesis using assms
      by (auto simp: pool_step_def pool_account_def Let_def GetWriteTxn_def new_txn_def pool_ids_def less_Suc_eq)
  next
    case (OpPut k)
    show ?thesis
    proof (cases "k < length (pu_held u)")
      case True
      define t a b where tab: "t = pu_held u ! k" "a = take k (pu_held u)" "b = drop (Suc k) (pu_held u)"
      have held: "pu_held u = a @ t # b" using nth [OF True] by (simp add: tab)
      have step: "pool_step (OpPut k) u = u\<lparr>pu_pool := PutTxn (Some t) (pu_pool u), pu_held := a @ b\<rparr>"
        using True by (simp add: pool_step_def tab Let_def)
      show ?thesis using assms unfolding OpPut step
        by (auto simp: pool_account_def Let_def PutTxn_def try_send_def discard_txn_def pool_ids_def chan_ok_def held)
    qed (use assms in \<open>simp add: OpPut pool_step_def Let_def\<close>)
  next
    case OpPutNil
    then show ?thesis using assms by (simp add: pool_step_def PutTxn_def Let_def)
  next
    case (OpDiscard k)
    show ?thesis
    proof (cases "k < length (pu_held u)")
      case True
      define t a b where tab: "t = pu_held u ! k" "a = take k (pu_held u)" "b = drop (Suc k) (pu_held u)"
      have held: "pu_held u = a @ t # b" using nth [OF True] by (simp add: tab)
      have step: "pool_step (OpDiscard k) u = u\<lparr>pu_pool := discard_txn t (pu_pool u), pu_held := a @ b\<rparr>"
        using True by (simp add: pool_step_def tab Let_def)
      show ?thesis using assms unfolding OpDiscard step
        by (auto simp: pool_account_def Let_def discard_txn_def pool_ids_def held)
    qed (use assms in \<open>simp add: OpDiscard pool_step_def Let_def\<close>)
  next
    case OpTick
    then show ?thesis using assms
      by (auto simp: pool_step_def cleanup_tick_def doCleanup_effect pool_account_def Let_def pool_ids_def chan_ok_def)
  next
    case OpClose
    then show ?thesis using assms
      by (auto simp: pool_step_def close_as_cleanup doCleanup_effect pool_account_def Let_def pool_ids_def chan_ok_def)
  qed
qed

lemma pool_account_new: "pool_account (pool_new n idle)"
  by (simp add: pool_account_def pool_new_def pool_ids_def)

lemma pool_account_run: "pool_account u \<Longrightarrow> pool_account (fold pool_step ops u)"
  by (induction ops arbitrary: u) (auto intro: pool_account_step)

text \<open>A lost transaction is never discarded: it stays live whatever is called later, \<open>Close\<close> included.\<close>

lemma pool_lost_step: "set (pu_lost u) \<subseteq> set (pu_lost (pool_step x u))"
  by (cases x) (auto simp: pool_step_def Let_def split: prod.split)

lemma lost_stays_live:
  assumes "pool_account u" and "i \<in> set (pu_lost u)"
  shows "i \<in> tp_live (pu_pool (fold pool_step ops u))"
proof -
  have "i \<in> set (pu_lost (fold pool_step ops u))"
    using assms(2) pool_lost_step by (induction ops arbitrary: u) auto
  moreover have "pool_account (fold pool_step ops u)" by (rule pool_account_run [OF assms(1)])
  ultimately show ?thesis by (auto simp: pool_account_def Let_def)
qed

text \<open>A client that takes a transaction and returns it, \<open>n\<close> times over, and then closes the pool, leaves \<open>n - 1\<close> transactions live
  although it holds none: every one it returned but the last was taken out of the pool again and dropped.\<close>

definition pool_round :: "pool_use \<Rightarrow> pool_use" where
  "pool_round u = pool_step (OpPut 0) (pool_step OpGetRead u)"

lemma pool_rounds:
  assumes "0 < m"
  shows "(pool_round ^^ Suc n) (pool_new m idle) =
    \<lparr>pu_pool = \<lparr>tp_txns = \<lparr>ch_buf = [\<lparr>px_id = n, px_writable = False\<rparr>], ch_cap = m, ch_closed = False\<rparr>, tp_maxConnections = int m,
       tp_idleTimeout = idle, tp_cancelled = False, tp_created = Suc n, tp_live = {..n}\<rparr>,
     pu_held = [], pu_lost = rev [0..<n]\<rparr>"
proof (induction n)
  case 0
  show ?case using assms
    by (auto simp: pool_round_def pool_step_def pool_new_def Let_def GetReadTxn_def pool_receive_def new_txn_def PutTxn_def try_send_def
        make_chan_def)
next
  case (Suc n)
  have "(pool_round ^^ Suc (Suc n)) (pool_new m idle) = pool_round ((pool_round ^^ Suc n) (pool_new m idle))" by simp
  also have "\<dots> = \<lparr>pu_pool = \<lparr>tp_txns = \<lparr>ch_buf = [\<lparr>px_id = Suc n, px_writable = False\<rparr>], ch_cap = m, ch_closed = False\<rparr>,
       tp_maxConnections = int m, tp_idleTimeout = idle, tp_cancelled = False, tp_created = Suc (Suc n), tp_live = {..Suc n}\<rparr>,
     pu_held = [], pu_lost = rev [0..<Suc n]\<rparr>"
    unfolding Suc using assms
    by (simp add: pool_round_def pool_step_def Let_def GetReadTxn_def pool_receive_def new_txn_def PutTxn_def try_send_def atMost_Suc)
  finally show ?case .
qed

lemma pool_leaks:
  assumes "0 < m"
  shows "pu_held (pool_step OpClose ((pool_round ^^ Suc n) (pool_new m idle))) = [] \<and>
    tp_live (pu_pool (pool_step OpClose ((pool_round ^^ Suc n) (pool_new m idle)))) = {..<n}"
  by (auto simp only: pool_rounds [OF assms]) (auto simp: pool_step_def close_as_cleanup doCleanup_effect pool_ids_def)

end
