(* ===== verification/Lock_Mock.thy ===== *)
theory Lock_Mock
  imports Lock_Manager
begin

text \<open>
  The mock storage of \<open>internal/lockmanager/mockstore.go\<close>, with which the lock manager is tested, as another provider of the
  \<open>StorageInterface\<close> of \<open>Lock_Manager\<close>. Shown: what its counters count, what the manager's goroutines do over it, and how it differs
  from a storage: it keeps no lock, so it refuses no request.
\<close>

record MockStorage =
  mk_locks :: "LockHandle gomap"
  mk_acquireCalled :: int
  mk_releaseCalled :: int
  mk_failAcquire :: bool
  mk_failRelease :: bool

datatype mock_error = ErrMockStorageFailed | MockLockNotFound

definition NewMockStorage :: MockStorage where
  "NewMockStorage =
     \<lparr>mk_locks = [], mk_acquireCalled = 0, mk_releaseCalled = 0, mk_failAcquire = False, mk_failRelease = False\<rparr>"

definition SetFailAcquire :: "bool \<Rightarrow> MockStorage \<Rightarrow> MockStorage" where
  "SetFailAcquire fail s = s\<lparr>mk_failAcquire := fail\<rparr>"

definition SetFailRelease :: "bool \<Rightarrow> MockStorage \<Rightarrow> MockStorage" where
  "SetFailRelease fail s = s\<lparr>mk_failRelease := fail\<rparr>"

definition mockAcquireLock ::
  "env \<Rightarrow> AcquireLockRequest \<Rightarrow> MockStorage \<Rightarrow> (mock_error, LockHandle) outcome \<times> MockStorage" where
  "mockAcquireLock E req s =
     (let s = s\<lparr>mk_acquireCalled := mk_acquireCalled s + 1\<rparr>
      in if mk_failAcquire s then (Err ErrMockStorageFailed, s)
         else (Ret \<lparr>lk_ResourcePath = alr_ResourcePath req, lk_HolderAgent = alr_AgentId req, lk_ExpiresAt = None,
                    lk_LockId = ''mock-lock-id''\<rparr>, s))"

definition mockReleaseLock ::
  "env \<Rightarrow> ReleaseLockRequest \<Rightarrow> MockStorage \<Rightarrow> (mock_error, bool) outcome \<times> MockStorage" where
  "mockReleaseLock E req s =
     (let s = s\<lparr>mk_releaseCalled := mk_releaseCalled s + 1\<rparr>
      in if mk_failRelease s then (Err ErrMockStorageFailed, s) else (Ret True, s))"

definition AcquireCallCount :: "MockStorage \<Rightarrow> int" where "AcquireCallCount s = mk_acquireCalled s"

definition ReleaseCallCount :: "MockStorage \<Rightarrow> int" where "ReleaseCallCount s = mk_releaseCalled s"

definition mockGetLock :: "bytes \<Rightarrow> MockStorage \<Rightarrow> (mock_error, LockHandle) outcome" where
  "mockGetLock resourcePath s =
     (case map_of (mk_locks s) resourcePath of Some lock \<Rightarrow> Ret lock | None \<Rightarrow> Err MockLockNotFound)"

definition mockReset :: "MockStorage \<Rightarrow> MockStorage" where
  "mockReset s =
     s\<lparr>mk_locks := [], mk_acquireCalled := 0, mk_releaseCalled := 0, mk_failAcquire := False, mk_failRelease := False\<rparr>"

definition mock_interface :: "(mock_error, MockStorage) StorageInterface" where
  "mock_interface = \<lparr>si_AcquireLock = mockAcquireLock, si_ReleaseLock = mockReleaseLock\<rparr>"

section \<open>The manager over the mock\<close>

lemma mock_reset_new: "mockReset s = NewMockStorage"
  by (simp add: mockReset_def NewMockStorage_def)

text \<open>The counters: one call of the storage for each goroutine that persists, extends or releases, and none otherwise.\<close>

fun acquire_calls :: "lm_event \<Rightarrow> int" where
  "acquire_calls (EvTask (PersistLock req i) E) = 1"
| "acquire_calls (EvTask (ExtendStored req) E) = 1"
| "acquire_calls _ = 0"

fun release_calls :: "lm_event \<Rightarrow> int" where
  "release_calls (EvTask (ReleaseStored req) E) = 1"
| "release_calls _ = 0"

lemma mock_counts:
  assumes "lm_step mock_interface (m, s) x (m', s')"
  shows "AcquireCallCount s' = AcquireCallCount s + acquire_calls x \<and> ReleaseCallCount s' = ReleaseCallCount s + release_calls x \<and>
    mk_failAcquire s' = mk_failAcquire s \<and> mk_failRelease s' = mk_failRelease s \<and> mk_locks s' = mk_locks s"
  using assms
proof (cases rule: lm_step.cases)
  case (task xs t ys E)
  then show ?thesis
    by (cases t)
      (auto simp: mock_interface_def mockAcquireLock_def mockReleaseLock_def Let_def AcquireCallCount_def ReleaseCallCount_def
        split: if_splits option.splits)
qed (auto simp: AcquireCallCount_def ReleaseCallCount_def)

text \<open>A failing mock makes the manager withdraw the lock; one that does not fail never does, whatever the storage would have held.\<close>

lemma mock_persist:
  "run_task mock_interface E (PersistLock req i) (m, s) =
     (if mk_failAcquire s then m\<lparr>lm_tasks := lm_tasks m @ [UndoLock (alr_ResourcePath req) i]\<rparr> else m,
      s\<lparr>mk_acquireCalled := mk_acquireCalled s + 1\<rparr>)"
  by (simp add: mock_interface_def mockAcquireLock_def Let_def)

text \<open>The mock is no lock service: it gives one path to every agent that asks and accepts every release, and nothing it gave can be
  looked up.\<close>

lemma mock_grants_all:
  assumes "\<not> mk_failAcquire s" and "mk_locks s = []"
  shows "\<exists>l s'. mockAcquireLock E req s = (Ret l, s') \<and> lk_HolderAgent l = alr_AgentId req \<and> lk_ResourcePath l = alr_ResourcePath req \<and>
     (\<exists>l2. fst (mockAcquireLock E2 req2 s') = Ret l2 \<and> lk_LockId l2 = lk_LockId l) \<and>
     mockGetLock p s' = Err MockLockNotFound"
  using assms by (simp add: mockAcquireLock_def mockGetLock_def Let_def)

lemma mock_release_any: "\<not> mk_failRelease s \<Longrightarrow> fst (mockReleaseLock E req s) = Ret True"
  by (simp add: mockReleaseLock_def Let_def)

end
