(* ===== verification/Notifier_Delivery.thy ===== *)
theory Notifier_Delivery
  imports Notifier_Run "HOL-Library.Sublist"
begin

text \<open>
  What an SSE client receives, through the whole of the notifier: the events are collected in the buffer, sent by the flush
  loop to the client's channel, filtered and encoded by its goroutine into its message channel, and written by the handler to the
  response. Shown for every interleaving: the response is the connection message and then messages of published events the client wants, in the
  order of publication; and up to the capacity of the channels nothing is lost.
\<close>

section \<open>Runs with their actions\<close>

inductive ns_trace :: "(WorkUnit \<Rightarrow> bytes option) \<Rightarrow> NotifierSystem \<Rightarrow> naction list \<Rightarrow> NotifierSystem \<Rightarrow> bool"
  for marshal s where
  trace_none: "ns_trace marshal s [] s"
| trace_step: "ns_trace marshal s as s1 \<Longrightarrow> ns_step marshal s1 a (Ret (), s2) \<Longrightarrow> ns_trace marshal s (as @ [a]) s2"

fun received :: "naction \<Rightarrow> WorkUnit list" where
  "received (NReceive w) = [w]"
| "received _ = []"

text \<open>The messages of the events a client of a context wants; the events on their way to a client.\<close>

definition wanted :: "(WorkUnit \<Rightarrow> bytes option) \<Rightarrow> bytes \<Rightarrow> WorkUnit list \<Rightarrow> bytes list" where
  "wanted marshal ctx ws = List.map_filter marshal (filter (wants [ctx]) ws)"

definition under_way :: "bytes \<Rightarrow> NotifierSystem \<Rightarrow> WorkUnit list" where
  "under_way i s =
     ch_buf (ns_chan s i) @ map snd (filter (\<lambda>(j, w). j = i) (ns_flush s)) @ bb_currentBuffer (nt_buffer (ns_notifier s))"

definition sse_pipe :: "(WorkUnit \<Rightarrow> bytes option) \<Rightarrow> bytes \<Rightarrow> bytes \<Rightarrow> WorkUnit list \<Rightarrow> NotifierSystem \<Rightarrow> bool" where
  "sse_pipe marshal i ctx P s \<longleftrightarrow>
     (\<exists>c ms. ns_client s i = Some c \<and> cl_isSSE c \<and> cl_ContextIDs c = [ctx] \<and> ch_cap (cl_sseChannel c) = 100 \<and> ch_cap (ns_chan s i) = 100 \<and>
        map_of (ns_streams s) i = Some (sse_connected i @ concat (map sse_message ms)) \<and>
        subseq (ms @ ch_buf (cl_sseChannel c) @ wanted marshal ctx (under_way i s)) (wanted marshal ctx P) \<and>
        (map_of (nt_clients (ns_notifier s)) i \<noteq> None \<longrightarrow> length P \<le> 100 \<longrightarrow>
           (\<exists>D. P = D @ under_way i s \<and> ms @ ch_buf (cl_sseChannel c) = wanted marshal ctx D)))"

lemma wanted_simps [simp]:
  "wanted marshal ctx [] = []" "wanted marshal ctx (xs @ ys) = wanted marshal ctx xs @ wanted marshal ctx ys"
  "wanted marshal ctx (w # ws) =
     (if wants [ctx] w then case marshal w of None \<Rightarrow> wanted marshal ctx ws | Some d \<Rightarrow> d # wanted marshal ctx ws else wanted marshal ctx ws)"
  by (simp_all add: wanted_def map_filter_def split: option.split)

lemma length_wanted: "length (wanted marshal ctx ws) \<le> length ws"
  by (induction ws) (auto split: option.split)

lemma sends_to: "distinct ids \<Longrightarrow> map snd (filter (\<lambda>(j, w). j = i) (List.product ids ws)) = (if i \<in> set ids then ws else [])"
proof (induction ids)
  case (Cons a ids)
  then show ?case by (cases "a = i") (auto simp: filter_map o_def)
qed simp

text \<open>Steps that leave the client and its events alone.\<close>

lemma sse_pipe_same:
  assumes "sse_pipe marshal i ctx P s"
    and "\<And>c. ns_client s i = Some c \<Longrightarrow> \<exists>c'. ns_client s' i = Some c' \<and> cl_isSSE c' = cl_isSSE c \<and> cl_ContextIDs c' = cl_ContextIDs c \<and>
      ch_buf (cl_sseChannel c') = ch_buf (cl_sseChannel c) \<and> ch_cap (cl_sseChannel c') = ch_cap (cl_sseChannel c)"
    and "map_of (ns_streams s') i = map_of (ns_streams s) i"
    and "under_way i s' = under_way i s" and "ch_cap (ns_chan s' i) = ch_cap (ns_chan s i)"
    and "map_of (nt_clients (ns_notifier s')) i \<noteq> None \<Longrightarrow> map_of (nt_clients (ns_notifier s)) i \<noteq> None"
  shows "sse_pipe marshal i ctx P s'"
proof -
  obtain c ms where c: "ns_client s i = Some c" "cl_isSSE c" "cl_ContextIDs c = [ctx]" "ch_cap (cl_sseChannel c) = 100" "ch_cap (ns_chan s i) = 100"
    "map_of (ns_streams s) i = Some (sse_connected i @ concat (map sse_message ms))"
    and rest: "subseq (ms @ ch_buf (cl_sseChannel c) @ wanted marshal ctx (under_way i s)) (wanted marshal ctx P)"
    "map_of (nt_clients (ns_notifier s)) i \<noteq> None \<Longrightarrow> length P \<le> 100 \<Longrightarrow>
       \<exists>D. P = D @ under_way i s \<and> ms @ ch_buf (cl_sseChannel c) = wanted marshal ctx D"
    using assms(1) unfolding sse_pipe_def by blast
  obtain c' where c': "ns_client s' i = Some c'" "cl_isSSE c' = cl_isSSE c" "cl_ContextIDs c' = cl_ContextIDs c"
    "ch_buf (cl_sseChannel c') = ch_buf (cl_sseChannel c)" "ch_cap (cl_sseChannel c') = ch_cap (cl_sseChannel c)"
    using assms(2) [OF c(1)] by blast
  show ?thesis unfolding sse_pipe_def
    by (intro exI [of _ c'] exI [of _ ms]) (use c c' rest assms(3-6) in auto)
qed

lemma streams_simps [simp]:
  "ns_streams (ns_set_chan i ch s) = ns_streams s" "ns_streams (ns_set_client i c s) = ns_streams s"
  "bb_currentBuffer (nt_buffer (ns_notifier (ns_set_chan i ch s))) = bb_currentBuffer (nt_buffer (ns_notifier s))"
  by (auto simp: ns_set_chan_def ns_set_client_def)

lemma sse_pipe_receive:
  assumes "sse_pipe marshal i ctx P s"
  shows "sse_pipe marshal i ctx (P @ [w]) (ns_publish w s)"
proof -
  obtain c ms where c: "ns_client s i = Some c" "cl_isSSE c" "cl_ContextIDs c = [ctx]" "ch_cap (cl_sseChannel c) = 100" "ch_cap (ns_chan s i) = 100"
    "map_of (ns_streams s) i = Some (sse_connected i @ concat (map sse_message ms))"
    and rest: "subseq (ms @ ch_buf (cl_sseChannel c) @ wanted marshal ctx (under_way i s)) (wanted marshal ctx P)"
    "map_of (nt_clients (ns_notifier s)) i \<noteq> None \<Longrightarrow> length P \<le> 100 \<Longrightarrow>
       \<exists>D. P = D @ under_way i s \<and> ms @ ch_buf (cl_sseChannel c) = wanted marshal ctx D"
    using assms unfolding sse_pipe_def by blast
  have way: "under_way i (ns_publish w s) = under_way i s @ [w]"
    by (simp add: under_way_def ns_publish_def Publish_def Let_def)
  have streams: "ns_streams (ns_publish w s) = ns_streams s" by (simp add: ns_publish_def)
  have "subseq ((ms @ ch_buf (cl_sseChannel c) @ wanted marshal ctx (under_way i s)) @ wanted marshal ctx [w]) (wanted marshal ctx P @ wanted marshal ctx [w])"
    using rest(1) by (intro list_emb_append_mono) auto
  then have sub: "subseq (ms @ ch_buf (cl_sseChannel c) @ wanted marshal ctx (under_way i (ns_publish w s))) (wanted marshal ctx (P @ [w]))"
    unfolding way wanted_simps(2) by simp
  show ?thesis unfolding sse_pipe_def
    by (intro exI [of _ c] exI [of _ ms]) (use c rest(2) sub in \<open>auto simp: ns_simps way streams simp del: wanted_simps\<close>)
qed

lemma sse_pipe_flush_start:
  assumes "sse_pipe marshal i ctx P s" and "ns_flush s = []" and "distinct ids"
    and "map_of (nt_clients (ns_notifier s)) i \<noteq> None \<Longrightarrow> i \<in> set ids"
  shows "sse_pipe marshal i ctx P (ns_flush_start ids s)"
proof -
  obtain c ms where c: "ns_client s i = Some c" "cl_isSSE c" "cl_ContextIDs c = [ctx]" "ch_cap (cl_sseChannel c) = 100" "ch_cap (ns_chan s i) = 100"
    "map_of (ns_streams s) i = Some (sse_connected i @ concat (map sse_message ms))"
    and rest: "subseq (ms @ ch_buf (cl_sseChannel c) @ wanted marshal ctx (under_way i s)) (wanted marshal ctx P)"
    "map_of (nt_clients (ns_notifier s)) i \<noteq> None \<Longrightarrow> length P \<le> 100 \<Longrightarrow>
       \<exists>D. P = D @ under_way i s \<and> ms @ ch_buf (cl_sseChannel c) = wanted marshal ctx D"
    using assms(1) unfolding sse_pipe_def by blast
  let ?s = "ns_flush_start ids s"
  have way: "under_way i ?s = ch_buf (ns_chan s i) @ (if i \<in> set ids then bb_currentBuffer (nt_buffer (ns_notifier s)) else [])"
    by (simp add: under_way_def ns_flush_start_def Let_def sends_to assms(3))
  have old: "under_way i s = ch_buf (ns_chan s i) @ bb_currentBuffer (nt_buffer (ns_notifier s))"
    by (simp add: under_way_def assms(2))
  have streams: "ns_streams ?s = ns_streams s" by (simp add: ns_flush_start_def Let_def)
  have "subseq (ms @ ch_buf (cl_sseChannel c) @ wanted marshal ctx (under_way i ?s))
      (ms @ ch_buf (cl_sseChannel c) @ wanted marshal ctx (under_way i s))"
    unfolding way old by (auto intro!: list_emb_append_mono)
  from subseq_order.trans [OF this rest(1)]
  have sub: "subseq (ms @ ch_buf (cl_sseChannel c) @ wanted marshal ctx (under_way i ?s)) (wanted marshal ctx P)" .
  have same: "under_way i ?s = under_way i s" if "map_of (nt_clients (ns_notifier s)) i \<noteq> None"
    using assms(4) [OF that] by (simp add: way old)
  show ?thesis unfolding sse_pipe_def
    by (intro exI [of _ c] exI [of _ ms]) (use c rest(2) sub same in \<open>auto simp: ns_simps streams simp del: wanted_simps\<close>)
qed

lemma sse_pipe_flush_send:
  assumes "sse_pipe marshal i ctx P s" and "ns_flush_send s = (Ret (), s')"
  shows "sse_pipe marshal i ctx P s'"
proof -
  obtain c ms where c: "ns_client s i = Some c" "cl_isSSE c" "cl_ContextIDs c = [ctx]" "ch_cap (cl_sseChannel c) = 100" "ch_cap (ns_chan s i) = 100"
    "map_of (ns_streams s) i = Some (sse_connected i @ concat (map sse_message ms))"
    and rest: "subseq (ms @ ch_buf (cl_sseChannel c) @ wanted marshal ctx (under_way i s)) (wanted marshal ctx P)"
    "map_of (nt_clients (ns_notifier s)) i \<noteq> None \<Longrightarrow> length P \<le> 100 \<Longrightarrow>
       \<exists>D. P = D @ under_way i s \<and> ms @ ch_buf (cl_sseChannel c) = wanted marshal ctx D"
    using assms(1) unfolding sse_pipe_def by blast
  show ?thesis
  proof (cases "ns_flush s")
    case Nil
    then show ?thesis using assms by (simp add: ns_flush_send_def)
  next
    case (Cons jw sends)
    obtain j w where jw: "jw = (j, w)" by (cases jw)
    have streams: "ns_streams s' = ns_streams s" "nt_clients (ns_notifier s') = nt_clients (ns_notifier s)" "ns_client s' = ns_client s"
      and caps: "ch_cap (ns_chan s' i) = ch_cap (ns_chan s i)"
      using assms(2) Cons jw
      by (auto simp: ns_flush_send_def try_send_def ns_simps fun_eq_iff split: if_splits)
    have way: "under_way i s' = (if j = i \<and> ch_cap (ns_chan s i) \<le> length (ch_buf (ns_chan s i))
        then ch_buf (ns_chan s i) @ map snd (filter (\<lambda>(j, w). j = i) sends) @ bb_currentBuffer (nt_buffer (ns_notifier s))
        else under_way i s)"
      using assms(2) Cons jw
      by (auto simp: under_way_def ns_flush_send_def try_send_def ns_simps split: if_splits)
    have old: "under_way i s = ch_buf (ns_chan s i) @ [w] @ map snd (filter (\<lambda>(j, w). j = i) sends) @ bb_currentBuffer (nt_buffer (ns_notifier s))"
      if "j = i" using that by (simp add: under_way_def Cons jw)
    have "subseq (wanted marshal ctx (under_way i s')) (wanted marshal ctx (under_way i s))"
    proof (cases "j = i \<and> ch_cap (ns_chan s i) \<le> length (ch_buf (ns_chan s i))")
      case True
      then show ?thesis unfolding way using old by (auto intro!: list_emb_append_mono split: option.split)
    qed (auto simp: way)
    then have "subseq (ms @ ch_buf (cl_sseChannel c) @ wanted marshal ctx (under_way i s'))
        (ms @ ch_buf (cl_sseChannel c) @ wanted marshal ctx (under_way i s))"
      by (intro list_emb_append_mono) auto
    from subseq_order.trans [OF this rest(1)]
    have sub: "subseq (ms @ ch_buf (cl_sseChannel c) @ wanted marshal ctx (under_way i s')) (wanted marshal ctx P)" .
    have same: "under_way i s' = under_way i s" if reg: "map_of (nt_clients (ns_notifier s)) i \<noteq> None" "length P \<le> 100"
    proof -
      obtain D where "P = D @ under_way i s" using rest(2) [OF reg] by blast
      then have "length (under_way i s) \<le> 100" using reg(2) by simp
      then show ?thesis using old c(5) by (auto simp: way)
    qed
    show ?thesis unfolding sse_pipe_def
      by (intro exI [of _ c] exI [of _ ms]) (use c rest(2) sub same streams caps in \<open>auto simp del: wanted_simps\<close>)
  qed
qed

lemma sse_pipe_deliver:
  assumes "sse_pipe marshal i ctx P s" and "ch_buf (ns_chan s i) \<noteq> []" and "ns_deliver marshal written now i s = (Ret (), s')"
  shows "sse_pipe marshal i ctx P s'"
proof -
  obtain c ms where c: "ns_client s i = Some c" "cl_isSSE c" "cl_ContextIDs c = [ctx]" "ch_cap (cl_sseChannel c) = 100" "ch_cap (ns_chan s i) = 100"
    "map_of (ns_streams s) i = Some (sse_connected i @ concat (map sse_message ms))"
    and rest: "subseq (ms @ ch_buf (cl_sseChannel c) @ wanted marshal ctx (under_way i s)) (wanted marshal ctx P)"
    "map_of (nt_clients (ns_notifier s)) i \<noteq> None \<Longrightarrow> length P \<le> 100 \<Longrightarrow>
       \<exists>D. P = D @ under_way i s \<and> ms @ ch_buf (cl_sseChannel c) = wanted marshal ctx D"
    using assms(1) unfolding sse_pipe_def by blast
  obtain e es where buf: "ch_buf (ns_chan s i) = e # es" using assms(2) by (cases "ch_buf (ns_chan s i)") auto
  let ?s = "ns_set_chan i ((ns_chan s i)\<lparr>ch_buf := es\<rparr>) s"
  obtain c' where c': "sse_deliver marshal e c = Some c'" "s' = ns_set_client i c' ?s"
    using assms(3) buf c(1,2) by (auto simp: ns_deliver_def Let_def ns_simps split: option.splits)
  have way: "under_way i s = e # under_way i s'"
    by (simp add: under_way_def buf c'(2) ns_simps)
  define full where "full \<longleftrightarrow> 100 \<le> length (ch_buf (cl_sseChannel c))"
  have fields: "cl_isSSE c' = cl_isSSE c" "cl_ContextIDs c' = cl_ContextIDs c" "ch_cap (cl_sseChannel c') = 100"
    and buf': "ch_buf (cl_sseChannel c') = ch_buf (cl_sseChannel c) @ (if full then [] else wanted marshal ctx [e])"
    using c'(1) c(2-4) by (auto simp: sse_deliver_def try_send_def full_def split: if_splits option.splits)
  have divided: "wanted marshal ctx (under_way i s) = wanted marshal ctx [e] @ wanted marshal ctx (under_way i s')"
    by (simp add: way split: option.split)
  have "subseq (ch_buf (cl_sseChannel c') @ wanted marshal ctx (under_way i s'))
      (ch_buf (cl_sseChannel c) @ wanted marshal ctx [e] @ wanted marshal ctx (under_way i s'))"
    unfolding buf' append_assoc by (intro list_emb_append_mono) auto
  then have "subseq (ms @ ch_buf (cl_sseChannel c') @ wanted marshal ctx (under_way i s')) (ms @ ch_buf (cl_sseChannel c) @ wanted marshal ctx (under_way i s))"
    unfolding divided by (rule list_emb_append_mono [OF subseq_order.order_refl])
  from subseq_order.trans [OF this rest(1)]
  have sub: "subseq (ms @ ch_buf (cl_sseChannel c') @ wanted marshal ctx (under_way i s')) (wanted marshal ctx P)" .
  have exact: "\<exists>D. P = D @ under_way i s' \<and> ms @ ch_buf (cl_sseChannel c') = wanted marshal ctx D"
    if reg: "map_of (nt_clients (ns_notifier s)) i \<noteq> None" "length P \<le> 100"
  proof -
    obtain D where D: "P = D @ under_way i s" "ms @ ch_buf (cl_sseChannel c) = wanted marshal ctx D" using rest(2) [OF reg] by blast
    have "length (ch_buf (cl_sseChannel c)) \<le> length D"
      using length_wanted [of marshal ctx D] arg_cong [OF D(2), of length] by simp
    then have "\<not> full" using reg(2) D(1) way by (simp add: full_def)
    then have "ms @ ch_buf (cl_sseChannel c') = wanted marshal ctx (D @ [e])"
      unfolding buf' wanted_simps(2) D(2) [symmetric] by simp
    then show ?thesis using D(1) way by (intro exI [of _ "D @ [e]"]) simp
  qed
  have caps: "ch_cap (ns_chan s' i) = 100" using c(5) by (simp add: c'(2) ns_simps)
  have registered: "map_of (nt_clients (ns_notifier s)) i \<noteq> None" if "map_of (nt_clients (ns_notifier s')) i \<noteq> None"
    using that by (auto simp: c'(2) ns_simps split: if_splits)
  have "ns_client s' i = Some c'" "map_of (ns_streams s') i = map_of (ns_streams s) i" by (simp_all add: c'(2) ns_simps)
  then show ?thesis unfolding sse_pipe_def
    using c(2,3,6) fields sub exact caps registered by (intro exI [of _ c'] exI [of _ ms] conjI impI) simp_all
qed

lemma sse_pipe_stream:
  assumes "sse_pipe marshal i ctx P s"
  shows "sse_pipe marshal i ctx P (ns_stream now i s)"
proof -
  obtain c ms where c: "ns_client s i = Some c" "cl_isSSE c" "cl_ContextIDs c = [ctx]" "ch_cap (cl_sseChannel c) = 100" "ch_cap (ns_chan s i) = 100"
    "map_of (ns_streams s) i = Some (sse_connected i @ concat (map sse_message ms))"
    and rest: "subseq (ms @ ch_buf (cl_sseChannel c) @ wanted marshal ctx (under_way i s)) (wanted marshal ctx P)"
    "map_of (nt_clients (ns_notifier s)) i \<noteq> None \<Longrightarrow> length P \<le> 100 \<Longrightarrow>
       \<exists>D. P = D @ under_way i s \<and> ms @ ch_buf (cl_sseChannel c) = wanted marshal ctx D"
    using assms(1) unfolding sse_pipe_def by blast
  show ?thesis
  proof (cases "ch_buf (cl_sseChannel c)")
    case Nil
    then show ?thesis using assms c(1) by (simp add: ns_stream_def)
  next
    case (Cons m msgs)
    let ?c = "c\<lparr>cl_sseChannel := (cl_sseChannel c)\<lparr>ch_buf := msgs\<rparr>, cl_LastActive := now\<rparr>"
    let ?t = "ns_set_client i ?c s"
    have s': "ns_stream now i s = ?t\<lparr>ns_streams := AList.update i (written_so_far s i @ sse_message m) (ns_streams ?t)\<rparr>"
      using c(1) Cons by (simp add: ns_stream_def)
    have way: "under_way i (ns_stream now i s) = under_way i s" by (simp add: s' under_way_def ns_simps ns_set_client_def)
    have content: "map_of (ns_streams (ns_stream now i s)) i = Some (sse_connected i @ concat (map sse_message (ms @ [m])))"
      using c(6) by (simp add: s' written_so_far_def update_conv')
    have registered: "map_of (nt_clients (ns_notifier s)) i \<noteq> None" if "map_of (nt_clients (ns_notifier (ns_stream now i s))) i \<noteq> None"
      using that by (auto simp: s' ns_simps split: if_splits)
    show ?thesis unfolding sse_pipe_def
    proof (intro exI [of _ ?c] exI [of _ "ms @ [m]"] conjI impI)
      show "\<exists>D. P = D @ under_way i (ns_stream now i s) \<and> (ms @ [m]) @ ch_buf (cl_sseChannel ?c) = wanted marshal ctx D"
        if "map_of (nt_clients (ns_notifier (ns_stream now i s))) i \<noteq> None" "length P \<le> 100"
        using rest(2) [OF registered [OF that(1)] that(2)] Cons way by auto
    qed (use c rest(1) Cons content way in \<open>auto simp: s' ns_simps simp del: wanted_simps\<close>)
  qed
qed

section \<open>Every step\<close>

lemma under_way_same:
  assumes "nt_buffer (ns_notifier s') = nt_buffer (ns_notifier s)" and "ns_flush s' = ns_flush s"
  shows "under_way i s' = under_way i s"
  using assms by (simp add: under_way_def)

lemma sse_pipe_remove:
  assumes "sse_pipe marshal i ctx P s" and "ns_wf s" and "ns_remove j s = (Ret (), s')"
  shows "sse_pipe marshal i ctx P s'"
proof (rule sse_pipe_same [OF assms(1)])
  note effect = ns_remove_effect [OF assms(2,3)]
  show "map_of (ns_streams s') i = map_of (ns_streams s) i" using assms(3) by (auto simp: ns_remove_def split: prod.splits)
  have cur: "bb_currentBuffer (nt_buffer (ns_notifier s')) = bb_currentBuffer (nt_buffer (ns_notifier s))"
    using assms(3) by (auto simp: ns_remove_def removeClient_def bbUnsubscribe_def Let_def split: if_splits)
  have "ch_buf (ns_chan s' i) = ch_buf (ns_chan s i)" using effect(7) [of i] effect(8) by (cases "i = j") auto
  then show "under_way i s' = under_way i s" by (simp add: under_way_def cur effect(3))
  show "ch_cap (ns_chan s' i) = ch_cap (ns_chan s i)"
    using assms(3) by (auto simp: ns_remove_def removeClient_def bbUnsubscribe_def Let_def bb_set_chan_def bb_chan_def update_conv' split: if_splits)
  show "map_of (nt_clients (ns_notifier s)) i \<noteq> None" if "map_of (nt_clients (ns_notifier s')) i \<noteq> None"
    using that by (auto simp: effect(4) split: if_splits)
qed (use ns_remove_effect(1) [OF assms(2,3)] in auto)

lemma sse_pipe_shutdown:
  assumes "sse_pipe marshal i ctx P s" and "ns_shutdown s = (Ret (), s')"
  shows "sse_pipe marshal i ctx P s'"
proof (rule sse_pipe_same [OF assms(1)])
  note effect = ns_shutdown_effect [OF assms(2)]
  have fold: "bb_currentBuffer (fold (\<lambda>i b. bb_set_chan i (close_chan (bb_chan b i)) b) ids b) = bb_currentBuffer b" for ids b
    by (induction ids arbitrary: b) auto
  show "map_of (ns_streams s') i = map_of (ns_streams s) i" using assms(2) by (auto simp: ns_shutdown_def split: prod.splits)
  have cur: "bb_currentBuffer (nt_buffer (ns_notifier s')) = bb_currentBuffer (nt_buffer (ns_notifier s))"
    using assms(2) by (auto simp: ns_shutdown_def notifierShutdown_def bbClose_def fold split: if_splits)
  show "under_way i s' = under_way i s" by (simp add: under_way_def cur effect(5,6))
  show "ch_cap (ns_chan s' i) = ch_cap (ns_chan s i)" by (simp add: effect(6))
  show "map_of (nt_clients (ns_notifier s)) i \<noteq> None" if "map_of (nt_clients (ns_notifier s')) i \<noteq> None"
    using that by (simp add: effect(2))
qed (use ns_shutdown_effect(3) [OF assms(2)] in auto)

lemma sse_pipe_end:
  assumes "sse_pipe marshal i ctx P s" and "ns_wf s" and "j \<in> set (ns_running s)" and "ch_closed (ns_chan s j)" and "ns_end j s = (Ret (), s')"
  shows "sse_pipe marshal i ctx P s'"
proof -
  have gone: "map_of (nt_clients (ns_notifier s)) j = None"
    using ns_wfD(3) [OF assms(2), of j] assms(3,4) by (cases "map_of (nt_clients (ns_notifier s)) j") auto
  obtain c where c: "ns_client s j = Some c" using ns_wfD(4) [OF assms(2,3)] by auto
  let ?s = "s\<lparr>ns_running := removeAll j (ns_running s)\<rparr>"
  have s': "s' = (if cl_isSSE c then ns_set_client j (c\<lparr>cl_sseChannel := close_chan (cl_sseChannel c)\<rparr>) ?s else ?s)"
    using assms(5) ns_client_open [OF assms(2,3) c] c gone by (simp add: ns_end_def Let_def ns_simps ns_remove_absent split: if_splits)
  show ?thesis
  proof (rule sse_pipe_same [OF assms(1)])
    show "\<exists>c'. ns_client s' i = Some c' \<and> cl_isSSE c' = cl_isSSE d \<and> cl_ContextIDs c' = cl_ContextIDs d \<and>
        ch_buf (cl_sseChannel c') = ch_buf (cl_sseChannel d) \<and> ch_cap (cl_sseChannel c') = ch_cap (cl_sseChannel d)"
      if "ns_client s i = Some d" for d
      using that c by (cases "i = j") (auto simp: s' ns_simps)
    show "under_way i s' = under_way i s" by (rule under_way_same) (simp_all add: s' ns_simps)
  qed (auto simp: s' ns_simps gone split: if_splits)
qed

lemma sse_pipe_deliver_other:
  assumes "sse_pipe marshal i ctx P s" and "j \<noteq> i" and "ns_deliver marshal written now j s = (Ret (), s')"
  shows "sse_pipe marshal i ctx P s'"
proof (rule sse_pipe_same [OF assms(1)])
  have effect: "ns_client s' i = ns_client s i" "ns_streams s' = ns_streams s" "ns_flush s' = ns_flush s" "ns_chan s' i = ns_chan s i"
    "bb_currentBuffer (nt_buffer (ns_notifier s')) = bb_currentBuffer (nt_buffer (ns_notifier s))"
    "map_of (nt_clients (ns_notifier s')) i = map_of (nt_clients (ns_notifier s)) i"
    using assms(2,3) by (auto simp: ns_deliver_def Let_def ns_simps split: list.splits option.splits if_splits)
  show "under_way i s' = under_way i s" by (simp add: under_way_def effect)
  show "map_of (ns_streams s') i = map_of (ns_streams s) i" "ch_cap (ns_chan s' i) = ch_cap (ns_chan s i)" by (simp_all add: effect)
  show "map_of (nt_clients (ns_notifier s)) i \<noteq> None" if "map_of (nt_clients (ns_notifier s')) i \<noteq> None" using that by (simp add: effect)
  show "\<exists>c'. ns_client s' i = Some c' \<and> cl_isSSE c' = cl_isSSE c \<and> cl_ContextIDs c' = cl_ContextIDs c \<and>
      ch_buf (cl_sseChannel c') = ch_buf (cl_sseChannel c) \<and> ch_cap (cl_sseChannel c') = ch_cap (cl_sseChannel c)"
    if "ns_client s i = Some c" for c using that by (simp add: effect)
qed

lemma sse_pipe_other:
  assumes "sse_pipe marshal i ctx P s" and "j \<noteq> i"
  shows "sse_pipe marshal i ctx P (ns_set_client j c s)" and "sse_pipe marshal i ctx P (ns_stream now j s)"
proof -
  show "sse_pipe marshal i ctx P (ns_set_client j c s)" for c
    by (rule sse_pipe_same [OF assms(1)]) (use assms(2) in \<open>auto simp: ns_simps under_way_def split: if_splits\<close>)
  then have *: "sse_pipe marshal i ctx P ((ns_set_client j c s)\<lparr>ns_streams := AList.update j x (ns_streams s)\<rparr>)" for c x
    by (rule sse_pipe_same) (use assms(2) in \<open>auto simp: ns_simps under_way_def update_conv'\<close>)
  show "sse_pipe marshal i ctx P (ns_stream now j s)"
    using assms(1) * by (auto simp: ns_stream_def split: option.split list.split)
qed

lemma sse_pipe_connect:
  assumes "sse_pipe marshal i ctx P s" and "ns_client s (env_uuid E) = None"
  shows "sse_pipe marshal i ctx P (ns_connect E q sse s)"
proof -
  have other: "env_uuid E \<noteq> i" using assms by (auto simp: sse_pipe_def)
  show ?thesis
  proof (rule sse_pipe_same [OF assms(1)])
    show "map_of (ns_streams (ns_connect E q sse s)) i = map_of (ns_streams s) i" using other by (simp add: ns_connect_def update_conv')
    have "bb_currentBuffer (nt_buffer (ns_notifier (ns_connect E q sse s))) = bb_currentBuffer (nt_buffer (ns_notifier s))"
      by (simp add: ns_connect_def register_client_def bbSubscribe_def)
    then show "under_way i (ns_connect E q sse s) = under_way i s" using other by (simp add: under_way_def ns_connect_simps [OF assms(2)])
  qed (use other in \<open>auto simp: ns_connect_simps [OF assms(2)]\<close>)
qed

lemma sse_pipe_step:
  assumes "sse_pipe marshal i ctx P s" and "ns_wf s" and "ns_step marshal s a (Ret (), s')"
  shows "sse_pipe marshal i ctx (P @ received a) s'"
  using assms(3)
proof (cases rule: ns_step.cases)
  case (receive w)
  then show ?thesis using sse_pipe_receive [OF assms(1)] by simp
next
  case (flush_start ids)
  then show ?thesis using sse_pipe_flush_start [OF assms(1), of ids] ns_wfD(2) [OF assms(2), of i] by simp
next
  case flush_send
  then show ?thesis using sse_pipe_flush_send [OF assms(1), of s'] by simp
next
  case (connect E q sse)
  then show ?thesis using sse_pipe_connect [OF assms(1)] by simp
next
  case (deliver j written now)
  then show ?thesis
    using sse_pipe_deliver [OF assms(1), of written now s'] sse_pipe_deliver_other [OF assms(1), of j written now s']
    by (cases "j = i") simp_all
next
  case (finish j)
  then show ?thesis using sse_pipe_end [OF assms(1,2), of j s'] by simp
next
  case (stream now j)
  then show ?thesis using sse_pipe_stream [OF assms(1), of now] sse_pipe_other(2) [OF assms(1), of j now] by (cases "j = i") simp_all
next
  case (message j now msg)
  have "j \<noteq> i" using message(4) assms(1) by (auto simp: is_ws_def sse_pipe_def)
  then show ?thesis using message sse_pipe_other(1) [OF assms(1), of j] assms(1) by (auto simp: ns_message_def split: option.split)
next
  case (disconnect j)
  then show ?thesis using sse_pipe_remove [OF assms(1,2), of j s'] by simp
next
  case (heartbeat failing)
  then show ?thesis by (auto simp: ns_heartbeat_def ns_simps under_way_def intro!: sse_pipe_same [OF assms(1)])
next
  case (cleanup now)
  then show ?thesis by (auto simp: ns_cleanup_def ns_simps under_way_def intro!: sse_pipe_same [OF assms(1)])
next
  case (removal j)
  obtain r s1 where s1: "ns_remove j s = (r, s1)" by (cases "ns_remove j s")
  have "sse_pipe marshal i ctx P s1" using removal s1 by (intro sse_pipe_remove [OF assms(1,2), of j]) auto
  then have "sse_pipe marshal i ctx P (s1\<lparr>ns_removals := q\<rparr>)" for q
    by (rule sse_pipe_same) (auto simp: ns_simps under_way_def)
  then show ?thesis using removal s1 by simp
next
  case shutdown
  then show ?thesis using sse_pipe_shutdown [OF assms(1), of s'] by simp
qed

lemma sse_pipe_trace:
  assumes "ns_trace marshal s acts s'" and "sse_pipe marshal i ctx P s" and "ns_wf s"
  shows "sse_pipe marshal i ctx (P @ concat (map received acts)) s' \<and> ns_wf s'"
  using assms
proof (induction rule: ns_trace.induct)
  case (trace_step acts s1 a s2)
  then show ?case using sse_pipe_step [of marshal i ctx "P @ concat (map received acts)" s1 a s2] ns_step_effect [of s1 marshal a "Ret ()" s2] by auto
qed simp

lemma sse_pipe_new:
  assumes "ns_client s (env_uuid E) = None" and "env_uuid E \<notin> fst ` set (ns_flush s)"
  shows "sse_pipe marshal (env_uuid E) (query_context q) (bb_currentBuffer (nt_buffer (ns_notifier s))) (ns_connect E q True s)"
proof -
  have none: "filter (\<lambda>(j, w). j = env_uuid E) (ns_flush s) = []" using assms(2) by (force simp: filter_empty_conv)
  have "bb_currentBuffer (nt_buffer (ns_notifier (ns_connect E q True s))) = bb_currentBuffer (nt_buffer (ns_notifier s))"
    by (simp add: ns_connect_def register_client_def bbSubscribe_def)
  then have way: "under_way (env_uuid E) (ns_connect E q True s) = bb_currentBuffer (nt_buffer (ns_notifier s))"
    by (simp add: under_way_def ns_connect_simps [OF assms(1)] none)
  have "map_of (ns_streams (ns_connect E q True s)) (env_uuid E) = Some (sse_connected (env_uuid E))" by (simp add: ns_connect_def update_conv')
  then show ?thesis unfolding sse_pipe_def
    by (intro exI [of _ "new_client E (query_context q) True"] exI [of _ "[]"])
      (auto simp: way ns_connect_simps [OF assms(1)] new_client_def)
qed


section \<open>A run\<close>

definition ex_start :: NotifierSystem where
  "ex_start = notifier_started (NewNotifier \<lparr>nc_MaxIdleTime = 0, nc_BroadcastBufferSize = 0, nc_BroadcastFlushInterval = 0\<rparr>)"

definition ex_marshal :: "WorkUnit \<Rightarrow> bytes option" where "ex_marshal w = Some (wu_Id w)"

definition ex_connected :: NotifierSystem where "ex_connected = ns_connect (rt_env 0 ''s'') (Some ''c'') True ex_start"

definition ex_published :: NotifierSystem where "ex_published = ns_publish (ev ''1'' ''c'') ex_connected"

definition ex_flushing :: NotifierSystem where "ex_flushing = ns_flush_start [''s''] ex_published"

definition ex_flushed :: NotifierSystem where "ex_flushed = snd (ns_flush_send ex_flushing)"

definition ex_delivered :: NotifierSystem where "ex_delivered = snd (ns_deliver ex_marshal True 1 ''s'' ex_flushed)"

definition ex_streamed :: NotifierSystem where "ex_streamed = ns_stream 2 ''s'' ex_delivered"

lemmas ex_run_defs = ex_start_def ex_connected_def ex_published_def ex_flushing_def ex_flushed_def ex_delivered_def ex_streamed_def

lemma ex_trace:
  "ns_trace ex_marshal ex_connected
     [NReceive (ev ''1'' ''c''), NFlushStart [''s''], NFlushSend, NDeliver True 1 ''s'', NStream 2 ''s''] ex_streamed"
proof -
  have "ns_step ex_marshal ex_connected (NReceive (ev ''1'' ''c'')) (Ret (), ex_published)"
    unfolding ex_published_def by (rule ns_step.receive)
  moreover have "ns_step ex_marshal ex_published (NFlushStart [''s'']) (Ret (), ex_flushing)"
    unfolding ex_flushing_def by (rule ns_step.flush_start) (simp_all add: ex_run_defs notifier_defs)
  moreover have "ns_step ex_marshal ex_flushing NFlushSend (Ret (), ex_flushed)"
    using ns_step.flush_send [of ex_flushing ex_marshal] by (simp add: ex_run_defs notifier_defs ev_def)
  moreover have "ns_step ex_marshal ex_flushed (NDeliver True 1 ''s'') (Ret (), ex_delivered)"
    using ns_step.deliver [of "''s''" ex_flushed True ex_marshal 1]
    by (simp add: ex_run_defs notifier_defs ns_deliver_def is_ws_def sse_deliver_def wants_def ev_def ex_marshal_def ns_set_client_def)
  moreover have "ns_step ex_marshal ex_delivered (NStream 2 ''s'') (Ret (), ex_streamed)"
    unfolding ex_streamed_def by (rule ns_step.stream)
  ultimately show ?thesis
    using ns_trace.trace_step [OF ns_trace.trace_step [OF ns_trace.trace_step [OF ns_trace.trace_step [OF ns_trace.trace_step [OF ns_trace.trace_none]]]]]
    by simp
qed


end
