(* ===== verification/Mcp_Main.thy ===== *)
theory Mcp_Main
  imports Mcp_Server
begin

text \<open>
  The start of the MCP server (\<open>main\<close> and \<open>run\<close> of \<open>apps/mcp/main.go\<close>, \<open>NewBadgerStorageClient\<close> of
  \<open>apps/mcp/internal/badger_storage.go\<close>): the directories, the choice of the storage client, and the goroutine that reads lines from
  standard input. Whether directories can be made and what opening the database gives are inputs. Shown: the client chosen at
  the start keeps the contract of a conversation store whichever it is, the reader delivers exactly the non-empty
  lines, and what a restart on the same data keeps of a conversation.
\<close>

section \<open>The storage client\<close>

datatype 'db McpStorage = InMemory MemoryStorageClient | OnDisk "'db BadgerStorageClient"

definition env_or :: "(bytes \<Rightarrow> bytes) \<Rightarrow> bytes \<Rightarrow> bytes \<Rightarrow> bytes" where
  "env_or getenv name fallback = (if getenv name = [] then fallback else getenv name)"

definition log_dir :: "(bytes \<Rightarrow> bytes) \<Rightarrow> bytes" where "log_dir getenv = env_or getenv ''ENGRAM_LOG_DIR'' ''./logs''"

definition data_dir :: "(bytes \<Rightarrow> bytes) \<Rightarrow> bytes" where "data_dir getenv = env_or getenv ''ENGRAM_DATA_DIR'' ''./data''"

text \<open>The file system and Badger: whether a directory can be made, and the database that opening it gives. \<open>filepath.Join\<close> also
  cleans the path, which names the same directory.\<close>

record 'db mcp_disk =
  md_mkdir :: "bytes \<Rightarrow> bool"
  md_logfile :: "bytes \<Rightarrow> bool"
  md_open :: "bytes \<Rightarrow> 'db option"

definition NewBadgerStorageClient :: "'db mcp_disk \<Rightarrow> bytes \<Rightarrow> 'db BadgerStorageClient option" where
  "NewBadgerStorageClient D dataDir =
     (let dbPath = dataDir @ ''/badger''
      in if \<not> md_mkdir D dbPath then None
         else map_option (\<lambda>db. \<lparr>bc_db = db, bc_contextID = []\<rparr>) (md_open D dbPath))"

text \<open>Where the log goes: to the file, or to standard error.\<close>

definition log_to_file :: "'db mcp_disk \<Rightarrow> (bytes \<Rightarrow> bytes) \<Rightarrow> bool" where
  "log_to_file D getenv = (md_mkdir D (log_dir getenv) \<and> md_logfile D (log_dir getenv @ ''/mcp-server.log''))"

definition choose_storage :: "'db mcp_disk \<Rightarrow> (bytes \<Rightarrow> bytes) \<Rightarrow> 'db McpStorage" where
  "choose_storage D getenv =
     (let dataDir = data_dir getenv
      in if \<not> md_mkdir D dataDir then InMemory NewMemoryStorageClient
         else case NewBadgerStorageClient D dataDir of
                None \<Rightarrow> InMemory NewMemoryStorageClient
              | Some c \<Rightarrow> OnDisk c)"

definition mcp_main :: "'db mcp_disk \<Rightarrow> (bytes \<Rightarrow> bytes) \<Rightarrow> 'db McpStorage MCPServer" where
  "mcp_main D getenv = new_server (getenv ''ENGRAM_CLAUDE_DESKTOP_MODE'' = ''1'') (choose_storage D getenv)"

text \<open>The interface value dispatches to the client it holds.\<close>

definition chosen_client ::
  "('db, 'txn) badger \<Rightarrow> message_codec \<Rightarrow> (bytes \<Rightarrow> bytes) \<Rightarrow> (bytes list \<Rightarrow> bytes list) \<Rightarrow> 'db McpStorage StorageClient" where
  "chosen_client B J lower ord =
     \<lparr>StoreMessage = \<lambda>m s. (case s of
        InMemory c \<Rightarrow> apsnd InMemory (StoreMessage (memory_client lower ord) m c)
      | OnDisk c \<Rightarrow> apsnd OnDisk (StoreMessage (badger_client B J lower) m c)),
      GetRecentMessages = \<lambda>ctx n s. (case s of
        InMemory c \<Rightarrow> GetRecentMessages (memory_client lower ord) ctx n c
      | OnDisk c \<Rightarrow> GetRecentMessages (badger_client B J lower) ctx n c),
      SearchMessages = \<lambda>q s. (case s of
        InMemory c \<Rightarrow> SearchMessages (memory_client lower ord) q c
      | OnDisk c \<Rightarrow> SearchMessages (badger_client B J lower) q c),
      GetMessage = \<lambda>i s. (case s of
        InMemory c \<Rightarrow> GetMessage (memory_client lower ord) i c
      | OnDisk c \<Rightarrow> GetMessage (badger_client B J lower) i c)\<rparr>"

text \<open>The contract for both: the messages that the codec returns unchanged.\<close>

definition chosen_holds ::
  "('db, 'txn) badger \<Rightarrow> ('db \<Rightarrow> (bytes \<times> bytes) list) \<Rightarrow> ('txn \<Rightarrow> (bytes \<times> bytes option) list) \<Rightarrow> message_codec \<Rightarrow>
   'db McpStorage \<Rightarrow> ConversationMessage list \<Rightarrow> bool" where
  "chosen_holds B items writes J s H = (case s of InMemory c \<Rightarrow> mem_holds c H | OnDisk c \<Rightarrow> bc_holds B items writes J c H)"

definition kept_history :: "message_codec \<Rightarrow> ConversationMessage list \<Rightarrow> bool" where
  "kept_history J H \<longleftrightarrow> plain_history J H \<and> (\<forall>m \<in> set H. json_norm_msg m = m)"

lemma kept_in_context: "kept_history J H \<Longrightarrow> map json_norm_msg (in_context c H) = in_context c H"
  by (induction H) (auto simp: kept_history_def in_context_def plain_history_def distinct_ids_def)

lemma kept_plain: "kept_history J H \<Longrightarrow> plain_history J H" "kept_history J H \<Longrightarrow> distinct_ids H"
  by (auto simp: kept_history_def plain_history_def)

interpretation chosen: conversation_store "chosen_client B J lower ord" "chosen_holds B items writes J" "kept_history J"
  "\<lambda>c. c \<noteq> [] \<and> no_colon c" json_norm_msg lower
proof unfold_locales
  fix H H' show "kept_history J H" if "kept_history J (H @ H')"
    using that bc.admissible_prefix [of J H H'] by (simp add: kept_history_def)
next
  fix s H m c n i and q :: McpQuery
  assume holds: "chosen_holds B items writes J s H"
  show "\<exists>s'. StoreMessage (chosen_client B J lower ord) m s = (Ret (), s') \<and> chosen_holds B items writes J s' (H @ [m])"
    if "kept_history J (H @ [m])"
  proof (cases s)
    case (InMemory x)
    then show ?thesis using mem.store_holds [of x H m lower ord] holds kept_plain(2) [OF that]
      by (auto simp: chosen_holds_def chosen_client_def)
  next
    case (OnDisk x)
    then show ?thesis using bc.store_holds [of B items writes J x H m lower] holds kept_plain(1) [OF that]
      by (auto simp: chosen_holds_def chosen_client_def)
  qed
  assume kept: "kept_history J H"
  show "\<exists>ms. GetRecentMessages (chosen_client B J lower ord) c n s = Ret (take (mcp_limit n) ms) \<and>
      mset ms = mset (map json_norm_msg (in_context c H)) \<and> sorted_wrt newer_msg ms" if "c \<noteq> [] \<and> no_colon c"
    using mem.recent_holds [of _ H c lower ord n] bc.recent_holds [of B items writes J _ H c lower n] holds that kept_plain [OF kept]
    by (cases s) (simp_all add: chosen_holds_def chosen_client_def kept_in_context [OF kept])
  show "\<exists>ms. SearchMessages (chosen_client B J lower ord) q s =
        Ret (apply_offset (mq_Offset q) (take (mcp_limit (mq_Limit q)) (filter (content_match lower (mq_Query q)) ms))) \<and>
      mset ms = mset (map json_norm_msg (in_context (mq_ContextID q) H)) \<and> sorted_wrt newer_msg ms"
    if "mq_ContextID q \<noteq> [] \<and> no_colon (mq_ContextID q)" "mq_Types q = []"
    using mem.search_holds [of _ H q lower ord] bc.search_holds [of B items writes J _ H q lower] holds that kept_plain [OF kept]
    by (cases s) (simp_all add: chosen_holds_def chosen_client_def kept_in_context [OF kept])
  show "GetMessage (chosen_client B J lower ord) (cm_ID m) s = Ret (json_norm_msg m)"
    if "m \<in> set H" "cm_ContextID m = cm_ContextID (last H)"
    using mem.get_holds [of _ H m lower ord] bc.get_holds [of B items writes J _ H m lower] holds that kept_plain [OF kept] kept
    by (cases s) (auto simp: chosen_holds_def chosen_client_def kept_history_def)
  show "\<exists>e. GetMessage (chosen_client B J lower ord) i s = Err e" if "\<forall>m \<in> set H. cm_ID m \<noteq> i"
    using mem.get_missing [of _ H i lower ord] bc.get_missing [of B items writes J _ H i lower] holds that kept_plain [OF kept]
    by (cases s) (simp_all add: chosen_holds_def chosen_client_def)
qed (simp_all add: json_norm_msg_def)

section \<open>Reading standard input\<close>

text \<open>The scanner splits at newlines, drops a carriage return before one, and gives up on a line that fills its buffer; the goroutine
  passes on the lines that are not empty.\<close>

definition newline :: char where "newline = CHR 0x0A"

definition drop_cr :: "bytes \<Rightarrow> bytes" where
  "drop_cr l = (if l \<noteq> [] \<and> last l = CHR 0x0D then butlast l else l)"

fun raw_lines :: "bytes \<Rightarrow> bytes \<Rightarrow> bytes list" where
  "raw_lines acc [] = (if acc = [] then [] else [acc])"
| "raw_lines acc (c # cs) = (if c = newline then acc # raw_lines [] cs else raw_lines (acc @ [c]) cs)"

datatype read_end = ReadEof | ReadTooLong

definition scanner_capacity :: nat where "scanner_capacity = 10 * 1024 * 1024"

fun scan_lines :: "bytes list \<Rightarrow> bytes list \<times> read_end" where
  "scan_lines [] = ([], ReadEof)"
| "scan_lines (l # ls) =
     (if scanner_capacity \<le> length l then ([], ReadTooLong)
      else apfst (\<lambda>out. if drop_cr l = [] then out else drop_cr l # out) (scan_lines ls))"

definition read_stdin :: "bytes \<Rightarrow> bytes list \<times> read_end" where
  "read_stdin input = scan_lines (raw_lines [] input)"

definition plain_line :: "bytes \<Rightarrow> bool" where
  "plain_line l \<longleftrightarrow> l \<noteq> [] \<and> newline \<notin> set l \<and> last l \<noteq> CHR 0x0D \<and> length l < scanner_capacity"

lemma raw_lines_line: "newline \<notin> set l \<Longrightarrow> raw_lines acc (l @ newline # rest) = (acc @ l) # raw_lines [] rest"
  by (induction l arbitrary: acc) auto

text \<open>Lines written by a client are read back, whether the last one ends with a newline or not; blank lines between them are ignored.\<close>

lemma read_stdin_lines:
  "\<forall>l \<in> set ls. l = [] \<or> plain_line l \<Longrightarrow> read_stdin (concat (map (\<lambda>l. l @ [newline]) ls)) = (filter (\<lambda>l. l \<noteq> []) ls, ReadEof)"
proof (induction ls)
  case (Cons l ls)
  have "newline \<notin> set l" using Cons.prems by (auto simp: plain_line_def)
  then have "raw_lines [] (concat (map (\<lambda>l. l @ [newline]) (l # ls))) = l # raw_lines [] (concat (map (\<lambda>l. l @ [newline]) ls))"
    using raw_lines_line [of l "[]"] by simp
  moreover have "\<not> scanner_capacity \<le> length l" "drop_cr l = l"
    using Cons.prems by (auto simp: plain_line_def drop_cr_def scanner_capacity_def)
  ultimately show ?case using Cons by (simp add: read_stdin_def)
qed (simp add: read_stdin_def)

text \<open>What follows a line that is too long is lost, and so is that line.\<close>

lemma read_stdin_too_long:
  assumes "newline \<notin> set l" and "scanner_capacity \<le> length l"
  shows "read_stdin (l @ newline # rest) = ([], ReadTooLong)"
  using raw_lines_line [OF assms(1), of "[]" rest] assms(2) by (simp add: read_stdin_def)

section \<open>A restart\<close>

text \<open>The persistent client looks up a message in the context stored to last, which a new client does not know.\<close>

lemma new_client_gets_nothing: "bcGetMessage B J i \<lparr>bc_db = db, bc_contextID = []\<rparr> = Err ContextRequired"
  by (simp add: bcGetMessage_def)

lemma bc_context_named: "ctx \<noteq> [] \<Longrightarrow> bcGetRecentMessages B J ctx n (c\<lparr>bc_contextID := x\<rparr>) = bcGetRecentMessages B J ctx n c"
  by (simp add: bcGetRecentMessages_def bc_context_def)

text \<open>C40. A restart keeps a conversation, but not the way to its messages. The server started again on the same data lists
  the messages of a context as before, the newest first up to the limit; yet it refuses to retrieve any of them by its identifier, until
  something is stored again.\<close>

theorem mcp_restart:
  assumes "bc_holds B items writes J c H" and "plain_history J H" and "ctx \<noteq> []" "no_colon ctx" and "i \<noteq> []"
    and "md_mkdir D (data_dir getenv)" "md_mkdir D (data_dir getenv @ ''/badger'')"
    and "md_open D (data_dir getenv @ ''/badger'') = Some (bc_db c)"
  defines "st \<equiv> sv_storage (mcp_main D getenv)"
  shows "(\<exists>ms. GetRecentMessages (chosen_client B J lower ord) ctx n st = Ret (take (mcp_limit n) ms) \<and>
       mset ms = mset (map json_norm_msg (in_context ctx H)) \<and> sorted_wrt newer_msg ms) \<and>
     HandleToolCall (chosen_client B J lower ord) uuid now ''retrieve_memory'' ctx' agent [(''id'', JStr i)] st =
       (Ret (ToolError (RetrieveFailed ContextRequired)), st)"
proof -
  have st: "st = OnDisk (c\<lparr>bc_contextID := []\<rparr>)"
    using assms(6-8) by (simp add: st_def mcp_main_def new_server_def choose_storage_def NewBadgerStorageClient_def Let_def)
  have "GetRecentMessages (chosen_client B J lower ord) ctx n st = GetRecentMessages (badger_client B J lower) ctx n c"
    using assms(3) by (simp add: st chosen_client_def badger_client_def bc_context_named)
  moreover have "GetMessage (chosen_client B J lower ord) i st = Err ContextRequired"
    by (simp add: st chosen_client_def badger_client_def bcGetMessage_def)
  ultimately show ?thesis
    using bc.recent_holds [OF assms(1,2), of ctx lower n] assms(3,4,5)
    by (simp add: HandleToolCall_def tool_name_defs handleRetrieveMemory_def string_param_def)
qed

text \<open>The server as started, without a database: a session over the memory client.\<close>

lemma mcp_fresh_holds:
  assumes "badger_ok B items writes" and "badger_total B" and "\<And>db. md_open D (data_dir getenv @ ''/badger'') = Some db \<Longrightarrow> items db = []"
  shows "chosen_holds B items writes J (sv_storage (mcp_main D getenv)) []"
  using assms
  by (auto simp: mcp_main_def new_server_def choose_storage_def NewBadgerStorageClient_def Let_def chosen_holds_def bc_holds_def mem_holds_def
      NewMemoryStorageClient_def get_default_def in_context_def split: option.splits if_splits)

text \<open>Whichever client the start chose, a memory stored through the tools is retrieved again.\<close>

lemma mcp_first_memory:
  assumes "badger_ok B items writes" and "badger_total B" and "\<And>db. md_open D (data_dir getenv @ ''/badger'') = Some db \<Longrightarrow> items db = []"
    and "kept_history J [memory_of uuid now ctx agent params]" and "string_param params ''content'' \<noteq> []" and "uuid \<noteq> []"
  shows "\<exists>s'. HandleToolCall (chosen_client B J lower ord) uuid now ''store_memory'' ctx agent params (sv_storage (mcp_main D getenv)) =
       (Ret (ToolOk (Stored uuid (now div Second))), s') \<and>
     HandleToolCall (chosen_client B J lower ord) uuid' now' ''retrieve_memory'' ctx' agent' [(''id'', JStr uuid)] s' =
       (Ret (ToolOk (OneMessage (memory_of uuid now ctx agent params))), s')"
  using chosen.store_then_retrieve [OF mcp_fresh_holds [OF assms(1-3)], where J = J and lower = lower and ord = ord] assms(4-6)
  by (simp add: kept_history_def)

definition ex_memory :: ConversationMessage where
  "ex_memory = memory_of ''i1'' (5 * Second) ''ctx'' ''agent'' (ex_params ''hello'')"

definition ex_stored :: "ref_db BadgerStorageClient" where
  "ex_stored = snd (StoreMessage (badger_client ref_badger ex_codec (\<lambda>s. s)) ex_memory \<lparr>bc_db = ref_empty, bc_contextID = []\<rparr>)"

definition ex_disk :: "ref_db mcp_disk" where
  "ex_disk = \<lparr>md_mkdir = (\<lambda>_. True), md_logfile = (\<lambda>_. True), md_open = (\<lambda>_. Some (bc_db ex_stored))\<rparr>"

lemma ex_stored_holds: "bc_holds ref_badger ref_items (\<lambda>t. t) ex_codec ex_stored [ex_memory]" "plain_history ex_codec [ex_memory]"
proof -
  show plain: "plain_history ex_codec [ex_memory]"
    using ex_history by (simp add: plain_history_def ex_memories_def calls_history_def ex_calls_def distinct_ids_def ex_memory_def)
  show "bc_holds ref_badger ref_items (\<lambda>t. t) ex_codec ex_stored [ex_memory]"
    using bc.store_holds [OF ex_bc_holds [of ex_codec], of ex_memory "\<lambda>s. s"] plain by (auto simp: ex_stored_def)
qed

theorem mcp_restart_witness:
  "GetRecentMessages (chosen_client ref_badger ex_codec (\<lambda>s. s) (\<lambda>xs. xs)) ''ctx'' 5 (sv_storage (mcp_main ex_disk (\<lambda>_. []))) =
     Ret [json_norm_msg ex_memory] \<and>
   fst (HandleToolCall (chosen_client ref_badger ex_codec (\<lambda>s. s) (\<lambda>xs. xs)) [] 0 ''retrieve_memory'' ''ctx'' ''agent'' [(''id'', JStr ''i1'')]
     (sv_storage (mcp_main ex_disk (\<lambda>_. [])))) = Ret (ToolError (RetrieveFailed ContextRequired))"
proof -
  have "in_context ''ctx'' [ex_memory] = [ex_memory]" by (simp add: in_context_def ex_memory_def memory_of_def NewConversationMessage_def)
  then show ?thesis
    using mcp_restart [OF ex_stored_holds, of "''ctx''" "''i1''" ex_disk "\<lambda>_. []" "\<lambda>s. s" "\<lambda>xs. xs" 5 "[]" 0 "''ctx''" "''agent''"]
    by (auto simp: ex_disk_def mcp_limit_def)
qed

end
