(* ===== verification/Storage_Metrics.thy ===== *)
theory Storage_Metrics
  imports Storage_Engine Component_Config
begin

text \<open>
  What the storage measures of itself: the round of \<open>collectMetrics\<close> in \<open>storage.go\<close>, with \<open>getDirSize\<close>, and the round of
  \<open>runWALMaintenance\<close> in \<open>storage_optimized.go\<close>. The metrics are a record; the file system is the list of entries a walk visits and the size of
  the log. Shown: what each gauge means, which for two of them is not what it is named for.
\<close>

section \<open>Metrics\<close>

record StorageGauges =
  sg_DBSize :: int
  sg_wal_size :: int
  sg_LocksActive :: int

text \<open>An entry of \<open>filepath.Walk\<close>: an error, a directory, or a file with its size. The first error ends the walk.\<close>

datatype walk_entry = WalkError | WalkDir | WalkFile int

fun getDirSize :: "walk_entry list \<Rightarrow> int \<times> bool" where
  "getDirSize [] = (0, True)"
| "getDirSize (WalkError # es) = (0, False)"
| "getDirSize (WalkDir # es) = getDirSize es"
| "getDirSize (WalkFile n # es) = apfst ((+) n) (getDirSize es)"

text \<open>The loop over the keys of locks.\<close>

definition count_locks :: "('db, 'txn) badger \<Rightarrow> 'db \<Rightarrow> int" where
  "count_locks B db = int (length (scan_keys B db prefixLocks))"

text \<open>One tick: the gauges are set, but the size of the log is added to a counter. \<open>walSize\<close> is what \<open>os.Stat\<close> of the log gives.\<close>

definition collect_tick :: "('db, 'txn) badger \<Rightarrow> walk_entry list \<Rightarrow> int option \<Rightarrow> 'db Storage \<Rightarrow> StorageGauges \<Rightarrow> StorageGauges" where
  "collect_tick B walk walSize s m =
     (let m = (case getDirSize walk of (n, ok) \<Rightarrow> if ok then m\<lparr>sg_DBSize := n\<rparr> else m);
          m = (case walSize of None \<Rightarrow> m | Some n \<Rightarrow> m\<lparr>sg_wal_size := sg_wal_size m + n\<rparr>)
      in m\<lparr>sg_LocksActive := count_locks B (st_db s)\<rparr>)"

text \<open>The maintenance of the log in the optimized storage only reports that the log is too large.\<close>

definition wal_maintenance_tick :: "OptimizedConfig \<Rightarrow> int option \<Rightarrow> 'db Storage \<Rightarrow> bool \<times> 'db Storage" where
  "wal_maintenance_tick config walSize s =
     (case walSize of None \<Rightarrow> (False, s) | Some n \<Rightarrow> (n > oc_WALMaxSizeMB config * 2 ^ 20, s))"

section \<open>What they show\<close>

lemma getDirSize_files: "WalkError \<notin> set es \<Longrightarrow> getDirSize es = (sum_list (map (\<lambda>e. case e of WalkFile n \<Rightarrow> n | _ \<Rightarrow> 0) es), True)"
  by (induction es rule: getDirSize.induct) auto

lemma getDirSize_error: "snd (getDirSize es) = (WalkError \<notin> set es)"
  by (induction es rule: getDirSize.induct) auto

text \<open>The gauge of active locks counts the locks in the database, expired or not.\<close>

lemma count_locks_stored:
  assumes "badger_ok B items writes"
  shows "count_locks B db = int (card {k \<in> dom (map_of (items db)). prefix prefixLocks k})"
proof -
  let ?ks = "map fst (items db)"
  have "distinct ?ks" using badger_ok_sorted [OF assms] by (simp add: strict_sorted_iff)
  then have "length (filter (prefix prefixLocks) ?ks) = card (set (filter (prefix prefixLocks) ?ks))"
    by (metis distinct_card distinct_filter)
  also have "set (filter (prefix prefixLocks) ?ks) = {k \<in> dom (map_of (items db)). prefix prefixLocks k}"
    by (auto simp: dom_map_of_conv_image_fst)
  finally show ?thesis by (simp add: count_locks_def scan_keys_eq [OF assms])
qed

text \<open>The counter of the log's size is the sum of the sizes at all ticks: for a log of constant size it grows without bound.\<close>

lemma wal_size_accumulates:
  "sg_wal_size ((collect_tick B walk (Some n) s ^^ k) m) = sg_wal_size m + int k * n"
  by (induction k) (auto simp: collect_tick_def Let_def algebra_simps split: prod.split)

text \<open>The log is never rotated, however large.\<close>

lemma wal_never_rotated: "snd (wal_maintenance_tick config walSize s) = s"
  by (simp add: wal_maintenance_tick_def split: option.split)

end
