(* ===== verification/Engine_Lifecycle.thy ===== *)
theory Engine_Lifecycle
  imports Engine_Assembly
begin

text \<open>
  The rest of \<open>internal/engine/engine.go\<close>: the log level \<open>Start\<close> sets, and \<open>Shutdown\<close>, in its order. Shutting down the API and the lock manager
  changes nothing that is modelled, and neither does closing a search backend that was not started. The
  errors of closing the database are not modelled.
\<close>

definition engine_log_level :: "EngramEngineConfig \<Rightarrow> LogLevel" where
  "engine_log_level config =
     (if ee_LogLevel config = ''debug'' then LevelDebug else if ee_LogLevel config = ''warn'' then LevelWarn
      else if ee_LogLevel config = ''error'' then LevelError else LevelInfo)"

text \<open>A call of the notifier's \<open>Shutdown\<close> through a nil pointer is a nil dereference.\<close>

definition engineShutdown :: "'db CoreEngine \<Rightarrow> (unit, unit) outcome \<times> 'db CoreEngine" where
  "engineShutdown e =
     (let e = e\<lparr>ce_router := routerShutdown (ce_router e)\<rparr>
      in case ce_notifier e of
           None \<Rightarrow> (Panic, e)
         | Some n \<Rightarrow>
             (case notifierShutdown n of
                (Ret _, n) \<Rightarrow> (Ret (), e\<lparr>ce_notifier := Some n, ce_storage := ShutdownStorage (ce_storage e)\<rparr>)
              | (_, n) \<Rightarrow> (Panic, e\<lparr>ce_notifier := Some n\<rparr>)))"

text \<open>An engine that was created panics when it is shut down, after the router and before the storage: the event stream stays open.\<close>

lemma engine_shutdown_panics:
  assumes "engineCreateEngine B J picks D arg = Inr e"
  shows "fst (engineShutdown e) = Panic \<and> ce_storage (snd (engineShutdown e)) = ce_storage e"
proof -
  have "ce_notifier e = None"
    using assms by (auto simp: engineCreateEngine_def engineNewEngine_def Let_def split: option.splits sum.splits if_splits)
  then show ?thesis by (simp add: engineShutdown_def Let_def)
qed

end
