(* ===== verification/Observability.thy ===== *)
theory Observability
  imports Component_Config
begin

text \<open>
  Logging and tracing around the program: \<open>internal/logging\<close> (set-up and HTTP middleware) and \<open>internal/telemetry\<close> (set-up and HTTP
  middleware). The logger is the record of what it would print with every line, a span the record of what is set on it; writing logs and
  exporting spans are outside. Shown: the two middlewares leave every response as it is, and when what they report of it is true.
\<close>

section \<open>Logging set-up\<close>

datatype zerolog_level = DebugLevel | InfoLevel | WarnLevel | ErrorLevel

definition level_string :: "LogLevel \<Rightarrow> bytes" where
  "level_string l =
     (case l of LevelDebug \<Rightarrow> ''debug'' | LevelInfo \<Rightarrow> ''info'' | LevelWarn \<Rightarrow> ''warn'' | LevelError \<Rightarrow> ''error'')"

definition parseLevel :: "bytes \<Rightarrow> (bytes, zerolog_level) outcome" where
  "parseLevel level =
     (if level = ''debug'' then Ret DebugLevel else if level = ''info'' then Ret InfoLevel
      else if level = ''warn'' then Ret WarnLevel else if level = ''error'' then Ret ErrorLevel else Err level)"

text \<open>The global state of the logging library: the logger with its context fields, and the level.\<close>

record Logger =
  zl_console :: bool
  zl_caller :: bool
  zl_fields :: "(bytes \<times> bytes) list"

record LogGlobals =
  zg_Logger :: Logger
  zg_level :: zerolog_level
  zg_stack :: bool

text \<open>\<open>order\<close> is the iteration order of the map of global fields.\<close>

definition logSetup :: "((bytes \<times> bytes) list \<Rightarrow> (bytes \<times> bytes) list) \<Rightarrow> LoggingConfig \<Rightarrow> LogGlobals \<Rightarrow> (bytes, unit) outcome \<times> LogGlobals" where
  "logSetup order config g =
     (let g = (if lg_IncludeStacktrace config then g\<lparr>zg_stack := True\<rparr> else g);
          g = g\<lparr>zg_Logger := \<lparr>zl_console = (lg_Format config = FormatConsole), zl_caller = lg_IncludeCaller config,
                zl_fields = order (entries_of (lg_GlobalFields config))\<rparr>\<rparr>
      in case parseLevel (level_string (lg_Level config)) of
           Ret level \<Rightarrow> (Ret (), g\<lparr>zg_level := level\<rparr>)
         | Err e \<Rightarrow> (Err e, g)
         | Panic \<Rightarrow> (Panic, g))"

text \<open>\<open>Component\<close> and \<open>WithContext\<close>; a context is the logger attached to it.\<close>

definition logComponent :: "bytes \<Rightarrow> LogGlobals \<Rightarrow> Logger" where
  "logComponent name g = (zg_Logger g)\<lparr>zl_fields := zl_fields (zg_Logger g) @ [(''component'', name)]\<rparr>"

definition logWithContext :: "Logger option \<Rightarrow> Logger \<Rightarrow> LogGlobals \<Rightarrow> Logger option" where
  "logWithContext ctx logger g = Some (zg_Logger g)"

section \<open>Responses\<close>

text \<open>What a handler does with its response writer, and \<open>net/http\<close>'s writer under it: the first status code sent counts (codes are
  final ones, from 200), a write without one sends 200.\<close>

datatype response_op = DoWriteHeader int | DoWrite bytes | DoFlush

record HttpResponse =
  hr_status :: "int option"
  hr_body :: bytes
  hr_flushes :: nat

definition respond :: "response_op \<Rightarrow> HttpResponse \<Rightarrow> HttpResponse" where
  "respond x r =
     (case x of
        DoWriteHeader code \<Rightarrow> (if hr_status r = None then r\<lparr>hr_status := Some code\<rparr> else r)
      | DoWrite b \<Rightarrow> r\<lparr>hr_status := Some (case hr_status r of None \<Rightarrow> 200 | Some code \<Rightarrow> code), hr_body := hr_body r @ b\<rparr>
      | DoFlush \<Rightarrow> r\<lparr>hr_status := Some (case hr_status r of None \<Rightarrow> 200 | Some code \<Rightarrow> code), hr_flushes := hr_flushes r + 1\<rparr>)"

definition empty_response :: HttpResponse where "empty_response = \<lparr>hr_status = None, hr_body = [], hr_flushes = 0\<rparr>"

text \<open>The status of the finished response: 200 if none was sent.\<close>

definition final_status :: "HttpResponse \<Rightarrow> int" where
  "final_status r = (case hr_status r of None \<Rightarrow> 200 | Some code \<Rightarrow> code)"

text \<open>The \<open>responseWriter\<close> of the logging middleware; that of the tracing middleware is the same without the size.\<close>

record responseWriter =
  rw_inner :: HttpResponse
  rw_statusCode :: int
  rw_responseSize :: int

definition rw_respond :: "response_op \<Rightarrow> responseWriter \<Rightarrow> responseWriter" where
  "rw_respond x rw =
     (let rw = (case x of
          DoWriteHeader code \<Rightarrow> rw\<lparr>rw_statusCode := code\<rparr>
        | DoWrite b \<Rightarrow> rw\<lparr>rw_responseSize := rw_responseSize rw + int (length b)\<rparr>
        | DoFlush \<Rightarrow> rw)
      in rw\<lparr>rw_inner := respond x (rw_inner rw)\<rparr>)"

definition rw_new :: "HttpResponse \<Rightarrow> responseWriter" where
  "rw_new w = \<lparr>rw_inner = w, rw_statusCode = 200, rw_responseSize = 0\<rparr>"

section \<open>Middleware\<close>

text \<open>The parts of a request that are reported; the pattern of the route, and the identifiers of a valid span in its context.\<close>

record HttpRequest =
  rq_Method :: bytes
  rq_Path :: bytes
  rq_RemoteAddr :: bytes
  rq_UserAgent :: bytes
  rq_RequestID :: bytes
  rq_route :: "bytes option"
  rq_span :: "(bytes \<times> bytes) option"

definition request_fields :: "HttpRequest \<Rightarrow> (bytes \<times> bytes) list" where
  "request_fields r =
     [(''method'', rq_Method r), (''path'', rq_Path r), (''remote_addr'', rq_RemoteAddr r), (''user_agent'', rq_UserAgent r),
      (''request_id'', rq_RequestID r)] @
     (case rq_span r of None \<Rightarrow> [] | Some (t, s) \<Rightarrow> [(''trace_id'', t), (''span_id'', s)]) @
     (case rq_route r of None \<Rightarrow> [] | Some pattern \<Rightarrow> [(''route'', pattern)])"

record log_line =
  ll_level :: zerolog_level
  ll_fields :: "(bytes \<times> bytes) list"
  ll_status :: int
  ll_size :: int

definition loggingMiddleware :: "HttpRequest \<Rightarrow> response_op list \<Rightarrow> HttpResponse \<Rightarrow> log_line \<times> HttpResponse" where
  "loggingMiddleware r handler w =
     (let ww = fold rw_respond handler (rw_new w)
      in (\<lparr>ll_level = (if rw_statusCode ww \<ge> 500 then ErrorLevel else if rw_statusCode ww \<ge> 400 then WarnLevel else InfoLevel),
           ll_fields = request_fields r, ll_status = rw_statusCode ww, ll_size = rw_responseSize ww\<rparr>, rw_inner ww))"

definition getRoutePattern :: "HttpRequest \<Rightarrow> bytes" where
  "getRoutePattern r = (case rq_route r of Some pattern \<Rightarrow> pattern | None \<Rightarrow> rq_Path r)"

record Span =
  sp_name :: bytes
  sp_status_code :: int
  sp_error :: bool

definition tracingMiddleware :: "HttpRequest \<Rightarrow> response_op list \<Rightarrow> HttpResponse \<Rightarrow> Span \<times> HttpResponse" where
  "tracingMiddleware r handler w =
     (let routePattern = getRoutePattern r; ww = fold rw_respond handler (rw_new w)
      in (\<lparr>sp_name = (if routePattern = [] then rq_Path r else routePattern), sp_status_code = rw_statusCode ww,
           sp_error = (rw_statusCode ww \<ge> 400)\<rparr>, rw_inner ww))"

section \<open>What they show\<close>

lemma setup_level: "parseLevel (level_string l) = Ret (case l of LevelDebug \<Rightarrow> DebugLevel | LevelInfo \<Rightarrow> InfoLevel | LevelWarn \<Rightarrow> WarnLevel | LevelError \<Rightarrow> ErrorLevel)"
  by (cases l) (simp_all add: parseLevel_def level_string_def)

text \<open>A configuration of the program always sets up the logging.\<close>

lemma setup_succeeds: "fst (logSetup order (ToLoggingConfig c) g) = Ret ()"
  by (simp add: logSetup_def Let_def setup_level)

text \<open>\<open>WithContext\<close> attaches the global logger, whatever logger it is given.\<close>

lemma with_context_ignores: "logWithContext ctx l1 g = logWithContext ctx l2 g"
  by (simp add: logWithContext_def)

text \<open>Both middlewares are transparent: the response is the one the handler gives without them.\<close>

lemma rw_inner_run: "rw_inner (fold rw_respond handler rw) = fold respond handler (rw_inner rw)"
  by (induction handler arbitrary: rw) (auto simp: rw_respond_def Let_def split: response_op.split)

lemma middleware_transparent:
  "snd (loggingMiddleware r handler w) = fold respond handler w" "snd (tracingMiddleware r handler w) = fold respond handler w"
  by (simp_all add: loggingMiddleware_def tracingMiddleware_def Let_def rw_inner_run rw_new_def)

text \<open>The size is that of the body. The status is the one sent if the handler sets it before it writes, and once; a handler that sets it again
  is reported with the last code while the client got the first.\<close>

lemma reported_size: "ll_size (fst (loggingMiddleware r handler empty_response)) = int (length (hr_body (fold respond handler empty_response)))"
proof -
  have "rw_responseSize (fold rw_respond handler rw) - rw_responseSize rw =
      int (length (hr_body (fold respond handler (rw_inner rw)))) - int (length (hr_body (rw_inner rw)))" for rw
  proof (induction handler arbitrary: rw)
    case (Cons x handler)
    have "rw_inner (rw_respond x rw) = respond x (rw_inner rw)" by (simp add: rw_respond_def Let_def split: response_op.split)
    moreover have "rw_responseSize (rw_respond x rw) - rw_responseSize rw = int (length (hr_body (respond x (rw_inner rw)))) - int (length (hr_body (rw_inner rw)))"
      by (auto simp: rw_respond_def respond_def Let_def split: response_op.split)
    ultimately show ?case using Cons.IH [of "rw_respond x rw"] by simp
  qed simp
  from this [of "rw_new empty_response"] show ?thesis
    by (simp add: loggingMiddleware_def Let_def rw_new_def empty_response_def)
qed

fun no_header :: "response_op list \<Rightarrow> bool" where
  "no_header [] = True"
| "no_header (DoWriteHeader c # xs) = False"
| "no_header (x # xs) = no_header xs"

lemma no_header_status:
  "no_header handler \<Longrightarrow> rw_statusCode (fold rw_respond handler rw) = rw_statusCode rw"
  "no_header handler \<Longrightarrow> hr_status w = Some code \<Longrightarrow> hr_status (fold respond handler w) = Some code"
  "no_header handler \<Longrightarrow> hr_status w = None \<Longrightarrow> final_status (fold respond handler w) = 200"
proof -
  show "no_header handler \<Longrightarrow> rw_statusCode (fold rw_respond handler rw) = rw_statusCode rw"
    by (induction handler arbitrary: rw rule: no_header.induct) (auto simp: rw_respond_def Let_def)
  show keep: "no_header handler \<Longrightarrow> hr_status w = Some code \<Longrightarrow> hr_status (fold respond handler w) = Some code" for w code and handler :: "response_op list"
    by (induction handler arbitrary: w rule: no_header.induct) (auto simp: respond_def)
  show "no_header handler \<Longrightarrow> hr_status w = None \<Longrightarrow> final_status (fold respond handler w) = 200"
  proof (cases handler)
    case (Cons x xs)
    assume "no_header handler" "hr_status w = None"
    then have "no_header xs" "hr_status (respond x w) = Some 200" using Cons by (cases x; simp add: respond_def)+
    from keep [OF this] show ?thesis using Cons by (simp add: final_status_def)
  qed (simp add: final_status_def)
qed

lemma reported_status:
  assumes "no_header rest" and "handler = rest \<or> handler = DoWriteHeader code # rest"
  shows "ll_status (fst (loggingMiddleware r handler empty_response)) = final_status (fold respond handler empty_response)"
  using assms(2)
proof
  assume "handler = rest"
  then show ?thesis using assms(1) no_header_status(1) no_header_status(3) [of rest empty_response]
    by (simp add: loggingMiddleware_def Let_def rw_new_def empty_response_def)
next
  assume h: "handler = DoWriteHeader code # rest"
  have "hr_status (fold respond rest (respond (DoWriteHeader code) empty_response)) = Some code"
    using no_header_status(2) [OF assms(1)] by (simp add: respond_def empty_response_def)
  then show ?thesis using h no_header_status(1) [OF assms(1)]
    by (simp add: loggingMiddleware_def Let_def rw_new_def final_status_def rw_respond_def)
qed

lemma second_status_reported:
  "ll_status (fst (loggingMiddleware r [DoWriteHeader 200, DoWriteHeader 500] empty_response)) = 500 \<and>
   final_status (snd (loggingMiddleware r [DoWriteHeader 200, DoWriteHeader 500] empty_response)) = 200"
  by (simp add: loggingMiddleware_def Let_def rw_respond_def rw_new_def respond_def empty_response_def final_status_def)

end
