(* ===== verification/Spec2Isabelle.thy ===== *)
theory Spec2Isabelle
  imports Storage_Listing Storage_Recovery Lock_System Lock_Manager_Enhanced Event_Notifier
    Search_Backend Mcp_Server Api_Properties Storage_TwoQueue
    Engine_Assembly Api_Client Search_Vector
    Notifier_Run Storage_TxnPool Lock_Mock
    Notifier_Delivery Mcp_Main Storage_Metrics Engine_Lifecycle Observability
begin

text \<open>
  A verification of Engram v3: a storage engine for the work units, contexts and locks of cooperating agents, the
  lock managers, event distribution and search built on it, the two HTTP servers in front of it, and the MCP
  server that keeps conversation memories. The model is translated from the Go sources under \<open>src/\<close>. Every
  operation is a function from its inputs and the state to an outcome (\<open>Ret\<close>, \<open>Err\<close> or \<open>Panic\<close>) and the next state;
  goroutines are \<open>inductive\<close> step relations or lists of started tasks, so that their interleavings are explicit.

  \<^bold>\<open>The parts and how they interact.\<close> \<open>internal/storage/badger\<close> writes units, contexts and locks to Badger, to a
  write-ahead log and to a cache, and publishes new units on an event stream. \<open>internal/lockmanager\<close> keeps a table of
  locks in memory and persists them through the storage in goroutines. \<open>internal/router\<close> distributes the events to
  subscriptions by context, \<open>internal/notifier\<close> batches them to web clients. \<open>internal/search\<close> indexes the units in a second
  Badger store and answers queries. \<open>internal/api\<close> holds the two HTTP servers over these components, and
  \<open>apps/mcp\<close> is a separate program with its own conversation store.

  \<^bold>\<open>The theories.\<close>

    \<^item> \<open>Engram_Prelude\<close>: bytes, times, Go maps as association lists, outcomes, the inputs \<open>env\<close> of a call (clock
      readings, generated identifiers, choices of Go's random map iteration), buffered channels. \<open>Proto_Types\<close>: the structs
      of \<open>pkg/proto/types.go\<close>. \<open>Go_Index\<close>: nested maps used as indexes. \<open>Go_Json\<close>: the JSON codec as a parameter.
      \<open>Badger_Kv\<close>: Badger as a parameter \<open>B\<close> with its documented contract \<open>badger_ok\<close> (and \<open>badger_total\<close>, that its
      transactions succeed), and a reference store that satisfies it.

    \<^item> Storage (\<open>internal/storage/badger/storage.go\<close>): \<open>Storage_Cache\<close> (type \<open>Cache\<close>; the contract of a lossy cache),
      \<open>Storage_Wal\<close> and \<open>Storage_Wal_Batch\<close> (file layout, \<open>syncWALBatch\<close>, \<open>processWAL\<close>, \<open>replayWAL\<close>), \<open>Storage_Engine\<close> (every
      operation), \<open>Storage_Locks\<close>, \<open>Storage_Records\<close>, \<open>Storage_Listing\<close> (\<open>ListWorkUnits\<close>), \<open>Storage_Recovery\<close>. They show: mutual
      exclusion of locks, the exact effect of each operation on every branch, the coherence of cache and database as
      an invariant, complete and sound pagination, and that a restart restores exactly the stores whose log entries
      were written, whatever the schedule of the batching goroutine.

    \<^item> Locks: \<open>Lock_Spec\<close> (the contract of a lock service as a locale, with exclusion proved once), \<open>Lock_Manager\<close>
      (\<open>lockmanager.go\<close>), \<open>Lock_Manager_Enhanced\<close> (\<open>lockmanager_enhanced.go\<close>), \<open>Lock_System\<close> (the manager over the storage, as
      \<open>internal/engine/engine.go\<close> connects them). The contract is interpreted on the storage and both managers. They show who
      can end a lock in any reachable state, that acquiring several locks is all or nothing, the limit per agent, that the
      enhanced manager changes the table as the basic one does, and that a release wakes a waiter.

    \<^item> Events: \<open>Event_Router\<close> (\<open>router.go\<close>), \<open>Event_Notifier\<close> (\<open>broadcast.go\<close>, \<open>notifier.go\<close>): exact, ordered and bounded delivery,
      the index of subscriptions as an invariant, and that batching is transparent. \<open>Notifier_Run\<close> has the goroutines of the notifier and of its clients
      as one step relation, and shows exactly which of their steps panic; \<open>Notifier_Delivery\<close> follows the events through it to the
      response an SSE client reads.

    \<^item> Search: \<open>Search_Text\<close> (tokens and number formats), \<open>Search_Index\<close> (\<open>search.go\<close>), \<open>Search_Spec\<close> (what an index represents),
      \<open>Search_Query\<close>, \<open>Search_Indexer\<close> (the indexing goroutine, as a locale over any index), \<open>Search_Backend\<close> (\<open>factory.go\<close>,
      \<open>badger_backend.go\<close>, \<open>engine.go\<close>; the contract of a search provider, interpreted on both backends). They show that the
      index represents exactly the units received, and that queries return exactly the documents that pass all
      filters, newest first.

    \<^item> HTTP: \<open>Api_Models\<close> (errors, requests with validation, responses with time formatting), \<open>Api_Handlers\<close> (all handlers and
      routes of \<open>internal/api/api.go\<close> and \<open>internal/api/chi/api.go\<close>), \<open>Api_Locks\<close> (an endpoint for locks as an extension of the
      lock service contract, interpreted on the Chi server over the storage and the Fiber server over the lock
      manager), \<open>Api_Properties\<close>. They show exclusion between HTTP clients through any traffic, the round trip of units, and
      that both servers list and search alike.

    \<^item> MCP (\<open>apps/mcp\<close>): \<open>Mcp_Store\<close> (messages, the interface of a conversation store as a locale, the memory client),
      \<open>Mcp_Badger\<close> (the persistent client), \<open>Mcp_Tools\<close> (the tools), \<open>Mcp_Server\<close> (the loop of \<open>main.go\<close>), \<open>Mcp_Main\<close> (its start and
      its reader; the contract of a conversation store for whichever client the start chose). They show what a session
      stores it can retrieve and search, that every request but shutdown gets one answer, and when a call is
      refused.

    \<^item> The time-limited cache of \<open>internal/storage/cache.go\<close>: \<open>Storage_TwoQueue\<close>. After any history a lookup returns the last value put and
      not dropped since, within its lifetime.

    \<^item> Configuration and assembly: \<open>App_Config\<close> (\<open>internal/config/config.go\<close>), \<open>Component_Config\<close> (\<open>component_config.go\<close>, the storage factory and the
      optimized storage), \<open>Engine_Assembly\<close> (the factories and engines of \<open>internal/domain\<close> and \<open>internal/engine\<close>, and the running engine
      as a step relation over the components). They show the precedence of the sources of a setting, that all ways to
      create a storage agree, which intervals the goroutines get, and what reaches the search and the notifier.

    \<^item> Client: \<open>Api_Client\<close> (\<open>pkg/client/client.go\<close>, with the escaping of \<open>net/url\<close>), connected to the Fiber server: units make the round
      trip, a release does not.

    \<^item> Vector search: \<open>Search_Vector\<close> (\<open>internal/search/embedding.go\<close>, \<open>weaviate_backend.go\<close>, \<open>SearchSemantic\<close> of \<open>engine.go\<close>): the
      embedding cache and client, and every operation of the Weaviate backend. They show that an embedding, once
      served, stays the same as long as the service lives, and what each answer of the server turns into.

    \<^item> \<open>Storage_TxnPool\<close> (\<open>internal/storage/pool.go\<close>): an account of every transaction of the pool, and those it loses. \<open>Lock_Mock\<close>
      (\<open>mockstore.go\<close>): the test double of the storage under the lock manager.

    \<^item> \<open>Storage_Metrics\<close> (\<open>collectMetrics\<close> of \<open>storage.go\<close>, \<open>runWALMaintenance\<close>): what the storage reports of itself.
      \<open>Engine_Lifecycle\<close>: the log level and the shutdown of \<open>internal/engine\<close>.

    \<^item> \<open>Observability\<close> (\<open>internal/logging\<close>, \<open>internal/telemetry\<close>): set-up and HTTP middleware; both middlewares leave responses as they
      are.

  \<^bold>\<open>Parameters and hypotheses.\<close> Code outside the repository is an argument of the model: the embedding API and the Weaviate server (their answers), Badger (\<open>badger_ok\<close>: snapshot reads,
  atomic commits, ordered iteration), \<open>encoding/json\<close> for records (\<open>json_rt_*\<close>: a record with valid strings survives its
  encoding up to empty maps), \<open>strings.ToLower\<close>, the texts of foreign errors. \<open>uuid.New\<close>, \<open>time.Now\<close> and the iteration order of
  Go maps are inputs, so every theorem holds for all of their values. Fields the sources use but the protocol types
  do not declare (\<open>Type\<close> and \<open>Target\<close> of a relationship) are parameters. Each hypothesis is shown satisfiable by a witness
  over the reference store \<open>ref_badger\<close> and the codec \<open>ref_codec\<close>.

  \<^bold>\<open>Integers, bounds and termination.\<close> \<open>int32\<close> fields are 32-bit words; 64-bit sums and products that can overflow (page ends,
  lock lifetimes) wrap explicitly; other Go integers are \<open>int\<close>. Loops over data are structural recursion, the batching and
  replay loops have measures. The only fuel is that of clients which follow cursors (\<open>follow_cursor\<close>, \<open>chi_follow\<close>), and
  the theorems give the number of pages that suffices.

  \<^bold>\<open>Not modelled.\<close> Opening and closing files and sockets, the web frameworks with their middleware, the bytes on web sockets, the
  registration of metrics, log lines, the export of traces (no effect on the state), and the example programs. The Fiber
  framework reuses the buffers behind the strings it hands to handlers; they are taken to be immutable. Dialling and
  closing web sockets in the client are I/O as well.
\<close>

end
